(* ===== verification/Aul_Prelude.thy ===== *)
theory Aul_Prelude
  imports Main "HOL-Library.Word"
begin

text \<open>
  Shared base of the development: the types the Go server uses everywhere (UUIDs, byte
  slices, instants, durations), signed 32/64-bit wrap-around, the relational primitives
  that the SQL statements are written with, and the state-passing combinators with their
  preservation rules.
  \<^item> An instant (Go \<^verbatim>\<open>time.Time\<close>) is an \<open>int\<close> of nanoseconds since the Unix epoch; an
    instant stored by SQLite is an \<open>int\<close> of milliseconds (the schema stores three
    fractional digits, \<^verbatim>\<open>fmtTime\<close> truncates to them).
  \<^item> A fallible computation over a state is a function \<open>'s \<Rightarrow> ('e + 'a) \<times> 's\<close>:
    \<open>Inl\<close> is the error return, \<open>Inr\<close> the value.
  \<^item> \<open>pres I m\<close> says that the computation \<open>m\<close> keeps the state predicate \<open>I\<close>, whatever
    it returns; the collection \<open>pres_rules\<close> holds the rules that compose such facts.
\<close>

section \<open>Types and machine integers\<close>

type_synonym uuid = "128 word"
type_synonym byte = "8 word"
type_synonym bytes = "byte list"
type_synonym gotime = int
type_synonym sqltime = int
type_synonym duration = int

text \<open>Two's complement wrap-around of Go's \<^verbatim>\<open>int64\<close> and the value range of \<^verbatim>\<open>int32\<close>.\<close>

definition i64 :: "int \<Rightarrow> int" where
  "i64 x = (x + 2 ^ 63) mod 2 ^ 64 - 2 ^ 63"

definition in_i64 :: "int \<Rightarrow> bool" where
  "in_i64 x \<longleftrightarrow> - (2 ^ 63) \<le> x \<and> x < 2 ^ 63"

definition in_i32 :: "int \<Rightarrow> bool" where
  "in_i32 x \<longleftrightarrow> - (2 ^ 31) \<le> x \<and> x < 2 ^ 31"

text \<open>Go durations in nanoseconds.\<close>

definition Millisecond :: duration where "Millisecond = 1000000"
definition Second :: duration where "Second = 1000000000"
definition Minute :: duration where "Minute = 60 * Second"
definition Hour :: duration where "Hour = 60 * Minute"
definition Day :: duration where "Day = 24 * Hour"

lemmas duration_defs = Millisecond_def Second_def Minute_def Hour_def Day_def

section \<open>Relational primitives on tables\<close>

text \<open>
  A table is the list of its rows in insertion order. \<open>update_where\<close> and
  \<open>delete_where\<close> are \<^verbatim>\<open>UPDATE ... WHERE\<close> and \<^verbatim>\<open>DELETE ... WHERE\<close>; a one-row
  \<^verbatim>\<open>SELECT\<close> is the library's \<open>List.find\<close>.
\<close>

definition update_where :: "('r \<Rightarrow> bool) \<Rightarrow> ('r \<Rightarrow> 'r) \<Rightarrow> 'r list \<Rightarrow> 'r list" where
  "update_where P f = map (\<lambda>r. if P r then f r else r)"

definition delete_where :: "('r \<Rightarrow> bool) \<Rightarrow> 'r list \<Rightarrow> 'r list" where
  "delete_where P = filter (\<lambda>r. \<not> P r)"

section \<open>State-passing combinators\<close>

definition ret :: "'a \<Rightarrow> 's \<Rightarrow> ('e + 'a) \<times> 's" where
  "ret x s = (Inr x, s)"

definition fail :: "'e \<Rightarrow> 's \<Rightarrow> ('e + 'a) \<times> 's" where
  "fail e s = (Inl e, s)"

definition bindm :: "('s \<Rightarrow> ('e + 'a) \<times> 's) \<Rightarrow> ('a \<Rightarrow> 's \<Rightarrow> ('e + 'b) \<times> 's)
    \<Rightarrow> 's \<Rightarrow> ('e + 'b) \<times> 's" where
  "bindm m k s = (case m s of (Inl e, s') \<Rightarrow> (Inl e, s') | (Inr x, s') \<Rightarrow> k x s')"

text \<open>
  \<open>tryq m h k\<close> continues with \<open>h\<close> on the error of \<open>m\<close> and with \<open>k\<close> on its value;
  \<open>run m k\<close> ignores what \<open>m\<close> returns (best-effort writes).
\<close>

definition tryq :: "('s \<Rightarrow> ('e + 'a) \<times> 's) \<Rightarrow> ('e \<Rightarrow> 's \<Rightarrow> 'r \<times> 's) \<Rightarrow> ('a \<Rightarrow> 's \<Rightarrow> 'r \<times> 's)
    \<Rightarrow> 's \<Rightarrow> 'r \<times> 's" where
  "tryq m h k s = (case m s of (Inl e, s') \<Rightarrow> h e s' | (Inr x, s') \<Rightarrow> k x s')"

definition run :: "('s \<Rightarrow> 'x \<times> 's) \<Rightarrow> ('s \<Rightarrow> 'r \<times> 's) \<Rightarrow> 's \<Rightarrow> 'r \<times> 's" where
  "run m k s = k (snd (m s))"

definition pres :: "('s \<Rightarrow> bool) \<Rightarrow> ('s \<Rightarrow> 'x \<times> 's) \<Rightarrow> bool" where
  "pres I m \<longleftrightarrow> (\<forall>s. I s \<longrightarrow> I (snd (m s)))"

named_theorems pres_rules

definition gives :: "('s \<Rightarrow> bool) \<Rightarrow> ('s \<Rightarrow> ('e + 'a) \<times> 's) \<Rightarrow> ('a \<Rightarrow> 's \<Rightarrow> bool) \<Rightarrow> bool" where
  "gives I m Q \<longleftrightarrow> (\<forall>s x s'. I s \<and> m s = (Inr x, s') \<longrightarrow> Q x s')"

definition refuses :: "('s \<Rightarrow> bool) \<Rightarrow> ('s \<Rightarrow> ('e + 'a) \<times> 's) \<Rightarrow> ('e \<Rightarrow> 's \<Rightarrow> bool) \<Rightarrow> bool" where
  "refuses I m Q \<longleftrightarrow> (\<forall>s e s'. I s \<and> m s = (Inl e, s') \<longrightarrow> Q e s')"

text \<open>\<open>errs E m\<close>: every error the computation can return lies in \<open>E\<close>.\<close>

definition errs :: "'e set \<Rightarrow> ('s \<Rightarrow> ('e + 'a) \<times> 's) \<Rightarrow> bool" where
  "errs E m \<longleftrightarrow> (\<forall>s e. fst (m s) = Inl e \<longrightarrow> e \<in> E)"

named_theorems err_rules

section \<open>Lemmas\<close>

subsection \<open>Integers\<close>

lemma i64_id [simp]: "in_i64 x \<Longrightarrow> i64 x = x"
  unfolding i64_def in_i64_def by simp

lemma i64_range: "in_i64 (i64 x)"
proof -
  have "0 \<le> (x + 2 ^ 63) mod 2 ^ 64" and "(x + 2 ^ 63) mod 2 ^ 64 < (2::int) ^ 64"
    by simp_all
  then show ?thesis unfolding i64_def in_i64_def by simp
qed

subsection \<open>Tables\<close>

lemma set_update_where: "set (update_where P f xs) = (\<lambda>r. if P r then f r else r) ` set xs"
  by (simp add: update_where_def)

lemma set_delete_where [simp]: "set (delete_where P xs) = {r \<in> set xs. \<not> P r}"
  by (auto simp: delete_where_def)

lemma length_update_where [simp]: "length (update_where P f xs) = length xs"
  by (simp add: update_where_def)

lemma update_where_Nil [simp]: "update_where P f [] = []"
  by (simp add: update_where_def)

lemma update_where_Cons [simp]:
  "update_where P f (x # xs) = (if P x then f x else x) # update_where P f xs"
  by (simp add: update_where_def)

lemma delete_where_Nil [simp]: "delete_where P [] = []"
  by (simp add: delete_where_def)

lemma delete_where_Cons [simp]:
  "delete_where P (x # xs) = (if P x then delete_where P xs else x # delete_where P xs)"
  by (simp add: delete_where_def)

text \<open>A column no update writes keeps its values; in particular its uniqueness.\<close>

lemma map_update_where_frame [simp]:
  assumes "\<And>r. P r \<Longrightarrow> g (f r) = g r"
  shows "map g (update_where P f xs) = map g xs"
  using assms by (simp add: update_where_def)

lemma image_update_where_frame [simp]:
  assumes "\<And>r. P r \<Longrightarrow> g (f r) = g r"
  shows "g ` set (update_where P f xs) = g ` set xs"
  using map_update_where_frame [of P g f xs, OF assms] by (metis set_map)

text \<open>An update leaves alone the part of a table it does not select and does not move rows into.\<close>

lemma filter_update_where:
  assumes "\<forall>r\<in>set xs. P r \<longrightarrow> \<not> Q r \<and> \<not> Q (f r)"
  shows "filter Q (update_where P f xs) = filter Q xs"
  using assms by (induction xs) auto

lemma filter_delete_where:
  assumes "\<forall>r\<in>set xs. P r \<longrightarrow> \<not> Q r"
  shows "filter Q (delete_where P xs) = filter Q xs"
  using assms by (induction xs) (auto simp: delete_where_def)

lemma map_filter_update_where:
  assumes "\<forall>r. P r \<longrightarrow> Q (f r) = Q r \<and> g (f r) = g r"
  shows "map g (filter Q (update_where P f xs)) = map g (filter Q xs)"
  using assms by (induction xs) auto

lemma ball_update_where:
  "(\<forall>r\<in>set (update_where P f xs). Q r) \<longleftrightarrow> (\<forall>r\<in>set xs. Q (if P r then f r else r))"
  by (auto simp: update_where_def)

text \<open>
  Writing a fresh value into one row of a unique column keeps the column unique.
\<close>

lemma distinct_update_one:
  assumes "distinct (map g xs)" and "distinct (map key xs)"
    and "\<And>x y. P x \<Longrightarrow> P y \<Longrightarrow> key x = key y"
    and "\<And>x y. x \<in> set xs \<Longrightarrow> y \<in> set xs \<Longrightarrow> P x \<Longrightarrow> key y \<noteq> key x \<Longrightarrow> g y \<noteq> g (f x)"
  shows "distinct (map g (update_where P f xs))"
  using assms(1,2,4)
proof (induction xs)
  case Nil
  then show ?case by simp
next
  case (Cons x xs)
  have IH: "distinct (map g (update_where P f xs))"
    using Cons.prems by (intro Cons.IH) simp_all
  have "(if P x then g (f x) else g x) \<noteq> (if P y then g (f y) else g y)" if y: "y \<in> set xs" for y
  proof -
    have key: "key y \<noteq> key x" using Cons.prems(2) y by (auto simp: image_iff)
    have "g y \<noteq> g x" using Cons.prems(1) y by (auto simp: image_iff)
    with key assms(3) [of x y] Cons.prems(3) [of x y] Cons.prems(3) [of y x] y show ?thesis
      by (cases "P x"; cases "P y") force+
  qed
  with IH show ?case by (force simp: set_update_where)
qed

lemma distinct_map_delete_where [simp]:
  "distinct (map g xs) \<Longrightarrow> distinct (map g (delete_where P xs))"
  by (simp add: delete_where_def distinct_map_filter)

lemma find_Some_in: "List.find P xs = Some x \<Longrightarrow> x \<in> set xs \<and> P x"
  by (auto simp: find_Some_iff)

lemma find_None_all: "List.find P xs = None \<longleftrightarrow> (\<forall>x\<in>set xs. \<not> P x)"
  by (auto simp: find_None_iff)

lemma find_Some_unique:
  assumes "distinct (map key xs)" and "x \<in> set xs" and "P x"
    and "\<And>y. y \<in> set xs \<Longrightarrow> P y \<Longrightarrow> key y = key x"
  shows "List.find P xs = Some x"
proof -
  have "List.find P xs \<noteq> None" using assms(2,3) by (simp add: find_None_all) blast
  then obtain y where y: "List.find P xs = Some y" by blast
  then have in_y: "y \<in> set xs" and "P y" using find_Some_in [OF y] by simp_all
  then have "key y = key x" using assms(4) by simp
  then have "y = x" using assms(1,2) in_y by (metis distinct_map inj_onD)
  with y show ?thesis by simp
qed

subsection \<open>Preservation\<close>

lemma presI: "(\<And>s. I s \<Longrightarrow> I (snd (m s))) \<Longrightarrow> pres I m"
  by (simp add: pres_def)

lemma presD: "pres I m \<Longrightarrow> I s \<Longrightarrow> I (snd (m s))"
  by (simp add: pres_def)

lemma presD2: "pres I m \<Longrightarrow> m s = (r, s') \<Longrightarrow> I s \<Longrightarrow> I s'"
  by (metis presD snd_conv)

lemma pres_ret [pres_rules]: "pres I (ret x)"
  by (simp add: pres_def ret_def)

lemma pres_fail [pres_rules]: "pres I (fail e)"
  by (simp add: pres_def fail_def)

lemma pres_bindm [pres_rules]:
  assumes "pres I m" and "\<And>x. pres I (k x)"
  shows "pres I (bindm m k)"
  using assms by (auto simp: pres_def bindm_def split: prod.splits sum.splits)

lemma pres_tryq [pres_rules]:
  assumes "pres I m" and "\<And>e. pres I (h e)" and "\<And>x. pres I (k x)"
  shows "pres I (tryq m h k)"
  using assms by (auto simp: pres_def tryq_def split: prod.splits sum.splits)

lemma pres_run [pres_rules]: "pres I m \<Longrightarrow> pres I k \<Longrightarrow> pres I (run m k)"
  by (simp add: pres_def run_def)

lemma pres_case_option [pres_rules]:
  "pres I m \<Longrightarrow> (\<And>x. pres I (k x)) \<Longrightarrow> pres I (case z of None \<Rightarrow> m | Some x \<Rightarrow> k x)"
  by (cases z) simp_all

lemma pres_case_sum [pres_rules]:
  "(\<And>e. pres I (m e)) \<Longrightarrow> (\<And>x. pres I (k x)) \<Longrightarrow> pres I (case z of Inl e \<Rightarrow> m e | Inr x \<Rightarrow> k x)"
  by (cases z) simp_all

lemma pres_case_prod [pres_rules]:
  "(\<And>a b. pres I (k a b)) \<Longrightarrow> pres I (case z of (a, b) \<Rightarrow> k a b)"
  by (cases z) simp_all

lemma pres_let [pres_rules]: "pres I (k x) \<Longrightarrow> pres I (let y = x in k y)"
  by simp

lemma pres_if [pres_rules]: "pres I m1 \<Longrightarrow> pres I m2 \<Longrightarrow> pres I (if b then m1 else m2)"
  by simp

subsection \<open>Values returned under an invariant\<close>

text \<open>
  \<open>gives I m Q\<close>: started where \<open>I\<close> holds, a value \<open>x\<close> is returned only in a state that satisfies \<open>Q x\<close>.
\<close>

lemma givesI:
  "(\<And>s x s'. I s \<Longrightarrow> m s = (Inr x, s') \<Longrightarrow> Q x s') \<Longrightarrow> gives I m Q"
  unfolding gives_def by blast

lemma givesD: "gives I m Q \<Longrightarrow> I s \<Longrightarrow> m s = (Inr x, s') \<Longrightarrow> Q x s'"
  by (simp add: gives_def)

lemma pres_tryq_both:
  assumes "refuses I m H" and "gives I m J" and "\<And>e. pres (H e) (h e)" and "\<And>x. pres (J x) (k x)"
    and "\<And>e s. H e s \<Longrightarrow> I s" and "\<And>x s. J x s \<Longrightarrow> I s"
  shows "pres I (tryq m h k)"
proof (rule presI)
  fix s assume s: "I s"
  obtain r s' where m: "m s = (r, s')" by (cases "m s")
  show "I (snd (tryq m h k s))"
  proof (cases r)
    case (Inl e)
    then have "H e s'" using assms(1) s m by (simp add: refuses_def)
    then have "I (snd (h e s'))" using assms(3,5) by (blast dest: presD)
    then show ?thesis using m Inl by (simp add: tryq_def)
  next
    case (Inr x)
    then have "J x s'" using givesD [OF assms(2) s] m by simp
    then have "I (snd (k x s'))" using assms(4,6) by (blast dest: presD)
    then show ?thesis using m Inr by (simp add: tryq_def)
  qed
qed

lemma pres_tryq_gives:
  assumes "pres I m" and "gives I m J" and "\<And>e. pres I (h e)" and "\<And>x. pres (J x) (k x)"
    and "\<And>x s. J x s \<Longrightarrow> I s"
  shows "pres I (tryq m h k)"
proof (rule pres_tryq_both [where H = "\<lambda>e. I" and J = J])
  show "refuses I m (\<lambda>e. I)" using presD2 [OF assms(1)] by (auto simp: refuses_def)
qed (use assms in auto)

lemma pres_conj: "pres I m \<Longrightarrow> pres J m \<Longrightarrow> pres (\<lambda>s. I s \<and> J s) m"
  by (simp add: pres_def)

lemma gives_ret: "(\<And>s. I s \<Longrightarrow> Q x s) \<Longrightarrow> gives I (ret x) Q"
  by (simp add: gives_def ret_def)

lemma gives_fail: "gives I (fail e) Q"
  by (simp add: gives_def fail_def)

lemma gives_seq:
  assumes "gives I m J" and "\<And>x. gives (J x) (k x) Q"
  shows "gives I (bindm m k) Q"
proof (rule givesI)
  fix s y s2 assume s: "I s" and b: "bindm m k s = (Inr y, s2)"
  then obtain x s1 where m: "m s = (Inr x, s1)" and k: "k x s1 = (Inr y, s2)"
    by (auto simp: bindm_def split: prod.splits sum.splits)
  show "Q y s2" using givesD [OF assms(2) givesD [OF assms(1) s m] k] .
qed

lemma gives_bindm:
  assumes "pres I m" and "gives I m (\<lambda>x s. P x)" and "\<And>x. P x \<Longrightarrow> gives I (k x) Q"
  shows "gives I (bindm m k) Q"
proof (rule gives_seq)
  show "gives I m (\<lambda>x s. I s \<and> P x)" using assms(2) presD2 [OF assms(1)] by (auto simp: gives_def)
  show "gives (\<lambda>s. I s \<and> P x) (k x) Q" for x using assms(3) [of x] by (auto simp: gives_def)
qed

lemma bindm_tryq: "bindm m k = tryq m fail k"
  by (auto simp: fun_eq_iff bindm_def tryq_def fail_def split: prod.split sum.split)

lemma pres_static: "(Q \<Longrightarrow> pres I m) \<Longrightarrow> pres (\<lambda>s. I s \<and> Q) m"
  by (simp add: pres_def)

lemma pres_tryq_static:
  assumes "pres I m" and "gives I m (\<lambda>x s. Q x)" and "\<And>e. pres I (h e)" and "\<And>x. Q x \<Longrightarrow> pres I (k x)"
  shows "pres I (tryq m h k)"
proof (rule pres_tryq_gives [where J = "\<lambda>x s. I s \<and> Q x"])
  show "gives I m (\<lambda>x s. I s \<and> Q x)"
    using assms(1,2) presD2 [OF assms(1)] by (auto simp: gives_def)
  show "pres (\<lambda>s. I s \<and> Q x) (k x)" for x by (rule pres_static [OF assms(4)])
qed (use assms in auto)

subsection \<open>Possible errors\<close>

lemma errsD: "errs E m \<Longrightarrow> m s = (Inl e, s') \<Longrightarrow> e \<in> E"
  by (metis errs_def fst_conv)

lemma errs_ret [err_rules]: "errs E (ret x)"
  by (simp add: errs_def ret_def)

lemma errs_fail [err_rules]: "e \<in> E \<Longrightarrow> errs E (fail e)"
  by (simp add: errs_def fail_def)

lemma errs_bindm [err_rules]: "errs E m \<Longrightarrow> (\<And>x. errs E (k x)) \<Longrightarrow> errs E (bindm m k)"
  by (auto simp: errs_def bindm_def split: prod.splits sum.splits) (metis fst_conv)

lemma errs_tryq [err_rules]:
  "(\<And>e. errs E (h e)) \<Longrightarrow> (\<And>x. errs E (k x)) \<Longrightarrow> errs E (tryq m h k)"
  by (auto simp: errs_def tryq_def split: prod.splits sum.splits)

lemma errs_run [err_rules]: "errs E k \<Longrightarrow> errs E (run m k)"
  by (simp add: errs_def run_def)

lemma errs_if [err_rules]: "errs E m1 \<Longrightarrow> errs E m2 \<Longrightarrow> errs E (if b then m1 else m2)"
  by simp

lemma errs_case_option [err_rules]:
  "errs E m \<Longrightarrow> (\<And>x. errs E (k x)) \<Longrightarrow> errs E (case z of None \<Rightarrow> m | Some x \<Rightarrow> k x)"
  by (cases z) simp_all

lemma errs_case_sum [err_rules]:
  "(\<And>e. errs E (m e)) \<Longrightarrow> (\<And>x. errs E (k x)) \<Longrightarrow> errs E (case z of Inl e \<Rightarrow> m e | Inr x \<Rightarrow> k x)"
  by (cases z) simp_all

subsection \<open>Runs of a step function keep what every step keeps\<close>

text \<open>
  The contract shared by every component with state: an invariant and a step function that
  keeps it. The client fact is that every run keeps it.
\<close>

locale stepper =
  fixes inv :: "'s \<Rightarrow> bool" and step :: "'i \<Rightarrow> 's \<Rightarrow> 's"
  assumes step_inv: "inv s \<Longrightarrow> inv (step i s)"
begin

lemma run_inv: "inv s \<Longrightarrow> inv (fold step is s)"
  by (induction "is" arbitrary: s) (simp_all add: step_inv)

end

end
