(* ===== verification/Aul_Rows.thy ===== *)
theory Aul_Rows
  imports Aul_Prelude
begin

text \<open>
  The row types of \<^verbatim>\<open>server/internal/store/models.go\<close> and the database they live in.
  A nullable column is an \<open>option\<close>. Timestamps are the stored ones (milliseconds).
  The record \<open>db\<close> has one field per table of \<^verbatim>\<open>migrations_sqlite/00001_schema.sql\<close> and the
  field \<open>faults\<close>: the driver's failure schedule. Every statement consumes its head; \<open>True\<close>
  means that this statement fails with an I/O error and has no effect, an empty schedule
  that no further statement fails. The two \<open>sequence\<close> fields are SQLite's
  \<^verbatim>\<open>AUTOINCREMENT\<close> counters.
\<close>

record User =
  User_ID :: uuid
  User_Email :: string
  User_PassHash :: string
  User_CreatedAt :: sqltime
  User_UpdatedAt :: sqltime

record Device =
  Device_ID :: uuid
  Device_UserID :: uuid
  Device_Platform :: string
  Device_DisplayName :: "string option"
  Device_Pubkey :: "bytes option"
  Device_PushToken :: "string option"
  Device_CreatedAt :: sqltime
  Device_LastSeen :: "sqltime option"

record Session =
  Session_ID :: uuid
  Session_UserID :: uuid
  Session_DeviceID :: uuid
  Session_AccessTokenHash :: string
  Session_RefreshTokenHash :: string
  Session_PrevRefreshHash :: "string option"
  Session_AccessExpiresAt :: sqltime
  Session_RefreshExpiresAt :: sqltime
  Session_RevokedAt :: "sqltime option"
  Session_CreatedAt :: sqltime
  Session_RotatedAt :: sqltime

record Circle =
  Circle_ID :: uuid
  Circle_NameEnc :: "bytes option"
  Circle_RetentionDays :: int
  Circle_KeyEpoch :: int
  Circle_CreatedBy :: uuid
  Circle_CreatedAt :: sqltime

record CircleMember =
  Member_CircleID :: uuid
  Member_UserID :: uuid
  Member_Role :: string
  Member_PrecisionMode :: string
  Member_JoinedAt :: sqltime
  Member_ProfileEnc :: "bytes option"

record Invite =
  Invite_ID :: uuid
  Invite_CircleID :: uuid
  Invite_CreatedBy :: uuid
  Invite_Role :: string
  Invite_MaxUses :: int
  Invite_Uses :: int
  Invite_ExpiresAt :: sqltime
  Invite_Status :: string
  Invite_CreatedAt :: sqltime

record PlacesEnc =
  Place_ID :: uuid
  Place_CircleID :: uuid
  Place_Ciphertext :: bytes
  Place_Version :: int
  Place_Deleted :: bool
  Place_UpdatedBy :: "uuid option"
  Place_UpdatedAt :: sqltime
  Place_CreatedAt :: sqltime
  Place_CreatedBy :: "uuid option"

record KeyEnvelope =
  Envelope_ID :: uuid
  Envelope_CircleID :: uuid
  Envelope_RecipientDeviceID :: uuid
  Envelope_SenderDeviceID :: "uuid option"
  Envelope_Ciphertext :: bytes
  Envelope_KeyEpoch :: int
  Envelope_CreatedAt :: sqltime
  Envelope_ConsumedAt :: "sqltime option"

record SosEvent =
  Sos_ID :: uuid
  Sos_CircleID :: uuid
  Sos_DeviceID :: "uuid option"
  Sos_Ciphertext :: bytes
  Sos_CreatedAt :: sqltime
  Sos_ResolvedAt :: "sqltime option"
  Sos_ResolvedBy :: "uuid option"

record PushSubscription =
  Push_ID :: uuid
  Push_UserID :: uuid
  Push_DeviceID :: "uuid option"
  Push_Endpoint :: string
  Push_P256dh :: "string option"
  Push_Auth :: "string option"
  Push_CreatedAt :: sqltime
  Push_Kind :: string

record AppVersion =
  Version_ID :: uuid
  Version_Platform :: string
  Version_VersionCode :: int
  Version_VersionName :: string
  Version_ApkUrl :: "string option"
  Version_Sha256 :: "string option"
  Version_Changelog :: "string option"
  Version_MinSupported :: int
  Version_IsActive :: bool
  Version_CreatedAt :: sqltime

text \<open>The JSON objects the server writes as audit details, each with a single key.\<close>

datatype audit_detail = DetailEmail string | DetailCount nat | DetailRemoved uuid | DetailEpoch int

record AuditLog =
  Audit_ID :: nat
  Audit_Ts :: sqltime
  Audit_Event :: string
  Audit_ActorUserID :: "uuid option"
  Audit_ActorDeviceID :: "uuid option"
  Audit_CircleID :: "uuid option"
  Audit_Ip :: "string option"
  Audit_Detail :: "audit_detail option"

record LoginAttempt =
  Attempt_ID :: nat
  Attempt_Email :: "string option"
  Attempt_Ip :: "string option"
  Attempt_Success :: bool
  Attempt_CreatedAt :: sqltime

record Ping =
  Ping_ID :: uuid
  Ping_CircleID :: uuid
  Ping_DeviceID :: uuid
  Ping_ClientID :: string
  Ping_Nonce :: bytes
  Ping_Ciphertext :: bytes
  Ping_CapturedAt :: sqltime
  Ping_ReceivedAt :: sqltime
  Ping_ExpiresAt :: "sqltime option"

record ShareSession =
  Share_ID :: uuid
  Share_UserID :: uuid
  Share_CreatedAt :: sqltime
  Share_ExpiresAt :: sqltime
  Share_RevokedAt :: "sqltime option"
  Share_ViewerTokenHash :: "bytes option"
  Share_ViewerBoundAt :: "sqltime option"

record SharePosition =
  Position_SessionID :: uuid
  Position_Nonce :: bytes
  Position_Ciphertext :: bytes
  Position_CapturedAt :: sqltime
  Position_UpdatedAt :: sqltime

record NotificationMute =
  Mute_UserID :: uuid
  Mute_CircleID :: uuid
  Mute_MutedUserID :: "uuid option"
  Mute_CreatedAt :: sqltime

record db =
  faults :: "bool list"
  users :: "User list"
  devices :: "Device list"
  sessions :: "Session list"
  circles :: "Circle list"
  circle_members :: "CircleMember list"
  invites :: "Invite list"
  places_enc :: "PlacesEnc list"
  key_envelopes :: "KeyEnvelope list"
  sos_events :: "SosEvent list"
  push_subscriptions :: "PushSubscription list"
  app_versions :: "AppVersion list"
  audit_log :: "AuditLog list"
  login_attempts :: "LoginAttempt list"
  pings :: "Ping list"
  share_sessions :: "ShareSession list"
  share_positions :: "SharePosition list"
  notification_mutes :: "NotificationMute list"
  sequence_audit_log :: nat
  sequence_login_attempts :: nat

definition empty_db :: db where
  "empty_db = \<lparr>faults = [], users = [], devices = [], sessions = [], circles = [],
     circle_members = [], invites = [], places_enc = [], key_envelopes = [], sos_events = [],
     push_subscriptions = [], app_versions = [], audit_log = [], login_attempts = [],
     pings = [], share_sessions = [], share_positions = [], notification_mutes = [],
     sequence_audit_log = 0, sequence_login_attempts = 0\<rparr>"

text \<open>
  What a query can return instead of rows: the no-rows sentinel that
  \<^verbatim>\<open>store.IsNotFound\<close> recognises, a violated schema constraint, a driver failure, or a stored
  integer that does not fit the \<^verbatim>\<open>int32\<close> field it is scanned into.
\<close>

datatype dberr = NoRows | Constraint | IOErr | ScanErr

type_synonym 'a q = "db \<Rightarrow> (dberr + 'a) \<times> db"

definition IsNotFound :: "dberr \<Rightarrow> bool" where
  "IsNotFound e \<longleftrightarrow> e = NoRows"

text \<open>One SQL statement: it consumes the head of the failure schedule.\<close>

definition stmt :: "'a q \<Rightarrow> 'a q" where
  "stmt f d = (case faults d of
      [] \<Rightarrow> f d
    | b # bs \<Rightarrow> if b then (Inl IOErr, d\<lparr>faults := bs\<rparr>) else f (d\<lparr>faults := bs\<rparr>))"

text \<open>
  The shapes of a statement that cannot violate a constraint: \<open>query_row\<close> scans one row
  (no row is the \<open>NoRows\<close> error), \<open>query\<close> returns a value computed from the tables, \<open>exec\<close>
  changes the tables, \<open>exec_rows\<close> also reports the number of rows affected.
\<close>

definition query_row :: "(db \<Rightarrow> 'r option) \<Rightarrow> 'r q" where
  "query_row f = stmt (\<lambda>d. (case f d of None \<Rightarrow> Inl NoRows | Some r \<Rightarrow> Inr r, d))"

definition query :: "(db \<Rightarrow> 'a) \<Rightarrow> 'a q" where
  "query f = stmt (\<lambda>d. (Inr (f d), d))"

definition exec :: "(db \<Rightarrow> db) \<Rightarrow> unit q" where
  "exec f = stmt (\<lambda>d. (Inr (), f d))"

definition exec_rows :: "(db \<Rightarrow> nat) \<Rightarrow> (db \<Rightarrow> db) \<Rightarrow> nat q" where
  "exec_rows n f = stmt (\<lambda>d. (Inr (n d), f d))"

definition count_where :: "('r \<Rightarrow> bool) \<Rightarrow> 'r list \<Rightarrow> nat" where
  "count_where P rows = length (filter P rows)"

text \<open>
  \<^verbatim>\<open>Store.WithTx\<close> on SQLite: begin and commit are statements of their own; an error of the
  body or of the commit rolls the tables back to what they were at begin. \<open>wrap\<close> injects the
  driver's error into the error type of the body.
\<close>

definition withSQLiteTx :: "(dberr \<Rightarrow> 'e) \<Rightarrow> (db \<Rightarrow> ('e + 'a) \<times> db) \<Rightarrow> db \<Rightarrow> ('e + 'a) \<times> db" where
  "withSQLiteTx wrap fn d = (case stmt (ret ()) d of
      (Inl e, d1) \<Rightarrow> (Inl (wrap e), d1)
    | (Inr _, d1) \<Rightarrow> (case fn d1 of
        (Inl e, d2) \<Rightarrow> (Inl e, d1\<lparr>faults := faults d2\<rparr>)
      | (Inr x, d2) \<Rightarrow> (case stmt (ret ()) d2 of
          (Inl e, d3) \<Rightarrow> (Inl (wrap e), d1\<lparr>faults := faults d3\<rparr>)
        | (Inr _, d3) \<Rightarrow> (Inr x, d3))))"

text \<open>SQLite's \<^verbatim>\<open>NOCASE\<close> collation folds the 26 ASCII upper-case letters.\<close>

definition ascii_lower :: "char \<Rightarrow> char" where
  "ascii_lower c = (if of_char c \<ge> (65::nat) \<and> of_char c \<le> (90::nat)
     then char_of (of_char c + (32::nat)) else c)"

definition nocase :: "string \<Rightarrow> string" where
  "nocase = map ascii_lower"

text \<open>
  \<^verbatim>\<open>fmtTime\<close> on the way in (truncation to milliseconds) and \<^verbatim>\<open>parseTime\<close> on the way out.
\<close>

definition tv :: "gotime \<Rightarrow> sqltime" where
  "tv t = t div Millisecond"

definition ns :: "sqltime \<Rightarrow> gotime" where
  "ns t = t * Millisecond"

definition fresh_in :: "('r \<Rightarrow> 'k) \<Rightarrow> 'k \<Rightarrow> 'r list \<Rightarrow> bool" where
  "fresh_in key k rows \<longleftrightarrow> k \<notin> set (map key rows)"

section \<open>Lemmas\<close>

text \<open>
  A predicate on the tables that does not look at the failure schedule.
\<close>

definition tables_only :: "(db \<Rightarrow> bool) \<Rightarrow> bool" where
  "tables_only I \<longleftrightarrow> (\<forall>d fs. I (d\<lparr>faults := fs\<rparr>) = I d)"

lemma tables_onlyD: "tables_only I \<Longrightarrow> I (d\<lparr>faults := fs\<rparr>) = I d"
  by (simp add: tables_only_def)

lemma stmt_nofault [simp]: "faults d = [] \<Longrightarrow> stmt f d = f d"
  by (simp add: stmt_def)

lemma stmt_cases:
  assumes "stmt f d = (r, d')"
  obtains (fault) bs where "r = Inl IOErr" and "d' = d\<lparr>faults := bs\<rparr>"
    | (run) bs where "f (d\<lparr>faults := bs\<rparr>) = (r, d')"
proof (cases "faults d")
  case Nil
  have "d\<lparr>faults := []\<rparr> = d" using Nil by simp
  moreover have "f d = (r, d')" using assms Nil by (simp add: stmt_def)
  ultimately show ?thesis using run [of "[]"] by metis
next
  case (Cons b bs)
  then show ?thesis using assms fault run by (cases b) (auto simp: stmt_def)
qed

lemma pres_stmt [pres_rules]:
  assumes "tables_only I" and "\<And>d. I d \<Longrightarrow> I (snd (f d))"
  shows "pres I (stmt f)"
proof (rule presI)
  fix d assume I: "I d"
  obtain r d' where s: "stmt f d = (r, d')" by (cases "stmt f d")
  then show "I (snd (stmt f d))"
  proof (cases rule: stmt_cases)
    case (fault bs)
    then show ?thesis using I s assms(1) by (simp add: tables_onlyD)
  next
    case (run bs)
    moreover have "I (d\<lparr>faults := bs\<rparr>)" using I assms(1) by (simp add: tables_onlyD)
    ultimately show ?thesis using s assms(2) [of "d\<lparr>faults := bs\<rparr>"] by simp
  qed
qed

lemma pres_query [pres_rules]: "tables_only I \<Longrightarrow> pres I (query f)"
  by (simp add: query_def pres_stmt)

lemma pres_query_row [pres_rules]: "tables_only I \<Longrightarrow> pres I (query_row f)"
  by (simp add: query_row_def pres_stmt)

lemma pres_exec [pres_rules]:
  "tables_only I \<Longrightarrow> (\<And>d. I d \<Longrightarrow> I (f d)) \<Longrightarrow> pres I (exec f)"
  by (simp add: exec_def pres_stmt)

lemma pres_exec_rows [pres_rules]:
  "tables_only I \<Longrightarrow> (\<And>d. I d \<Longrightarrow> I (f d)) \<Longrightarrow> pres I (exec_rows n f)"
  by (simp add: exec_rows_def pres_stmt)

lemma gives_stmt:
  assumes "tables_only I" and "\<And>d x d'. I d \<Longrightarrow> f d = (Inr x, d') \<Longrightarrow> Q x d'"
  shows "gives I (stmt f) Q"
proof (rule givesI)
  fix d x d' assume I: "I d" and s: "stmt f d = (Inr x, d')"
  from s show "Q x d'"
  proof (cases rule: stmt_cases)
    case (run bs)
    moreover have "I (d\<lparr>faults := bs\<rparr>)" using I assms(1) by (simp add: tables_onlyD)
    ultimately show ?thesis using assms(2) by blast
  qed simp
qed

lemma gives_query_row:
  "tables_only I \<Longrightarrow> (\<And>d x. I d \<Longrightarrow> f d = Some x \<Longrightarrow> Q x d) \<Longrightarrow> gives I (query_row f) Q"
  unfolding query_row_def by (rule gives_stmt) (auto split: option.splits)

lemma exec_rows_nofault [simp]: "faults d = [] \<Longrightarrow> exec_rows n f d = (Inr (n d), f d)"
  by (simp add: exec_rows_def)

lemma query_nofault [simp]: "faults d = [] \<Longrightarrow> query f d = (Inr (f d), d)"
  by (simp add: query_def)

lemma query_row_nofault [simp]:
  "faults d = [] \<Longrightarrow> query_row f d = (case f d of None \<Rightarrow> Inl NoRows | Some r \<Rightarrow> Inr r, d)"
  by (simp add: query_row_def)

lemma exec_nofault [simp]: "faults d = [] \<Longrightarrow> exec f d = (Inr (), f d)"
  by (simp add: exec_def)

text \<open>A transaction that returns an error has left every table as it was.\<close>

lemma withSQLiteTx_error:
  assumes "withSQLiteTx wrap fn d = (Inl e, d')"
  shows "\<exists>bs. d' = d\<lparr>faults := bs\<rparr>"
proof -
  obtain r1 d1 where b: "stmt (ret ()) d = (r1, d1)" by (cases "stmt (ret ()) d")
  then have d1: "\<exists>bs. d1 = d\<lparr>faults := bs\<rparr>"
    by (cases rule: stmt_cases) (auto simp: ret_def)
  show ?thesis
  proof (cases r1)
    case (Inl e1)
    then show ?thesis using assms b d1 by (auto simp: withSQLiteTx_def)
  next
    case (Inr u)
    then show ?thesis using assms b d1
      by (auto simp: withSQLiteTx_def split: prod.splits sum.splits)
  qed
qed

lemma errs_withSQLiteTx [err_rules]:
  assumes "errs E fn" and "range wrap \<subseteq> E"
  shows "errs E (withSQLiteTx wrap fn)"
proof -
  have "e \<in> E" if "withSQLiteTx wrap fn d = (Inl e, d')" for d e d'
  proof -
    obtain r1 d1 where b: "stmt (ret ()) d = (r1, d1)" by (cases "stmt (ret ()) d")
    obtain r2 d2 where f: "fn d1 = (r2, d2)" by (cases "fn d1")
    obtain r3 d3 where c: "stmt (ret ()) d2 = (r3, d3)" by (cases "stmt (ret ()) d2")
    have "e \<in> range wrap \<or> fn d1 = (Inl e, d2)"
      using that b f c by (cases r1; cases r2; cases r3) (auto simp: withSQLiteTx_def)
    then show ?thesis using assms(2) by (auto dest: errsD [OF assms(1)])
  qed
  then show ?thesis unfolding errs_def by (metis prod.collapse)
qed

lemma withSQLiteTx_ok:
  assumes "withSQLiteTx wrap fn d = (Inr x, d')"
  shows "\<exists>bs d2 bs'. fn (d\<lparr>faults := bs\<rparr>) = (Inr x, d2) \<and> d' = d2\<lparr>faults := bs'\<rparr>"
proof -
  obtain r1 d1 where b: "stmt (ret ()) d = (r1, d1)" by (cases "stmt (ret ()) d")
  then obtain bs where d1: "d1 = d\<lparr>faults := bs\<rparr>"
    by (cases rule: stmt_cases) (auto simp: ret_def)
  from assms b obtain d2 r3 d3 where f: "fn d1 = (Inr x, d2)" and c: "stmt (ret ()) d2 = (Inr r3, d3)"
    and d': "d' = d3"
    by (auto simp: withSQLiteTx_def split: prod.splits sum.splits)
  from c have "\<exists>bs'. d3 = d2\<lparr>faults := bs'\<rparr>"
    by (cases rule: stmt_cases) (auto simp: ret_def)
  with f d' d1 show ?thesis by blast
qed

lemma withSQLiteTx_nofault:
  assumes "faults d = []" and "fn d = (r, d2)" and "faults d2 = []"
  shows "withSQLiteTx wrap fn d = (case r of Inl e \<Rightarrow> (Inl e, d) | Inr x \<Rightarrow> (Inr x, d2))"
proof -
  have "d\<lparr>faults := []\<rparr> = d" using assms(1) by simp
  with assms show ?thesis by (cases r) (simp_all add: withSQLiteTx_def ret_def)
qed

text \<open>Only what the body leaves behind when it succeeds matters: an error rolls it back.\<close>

lemma pres_withSQLiteTx_gives:
  assumes "tables_only I" and "gives I fn (\<lambda>_. I)"
  shows "pres I (withSQLiteTx wrap fn)"
proof (rule presI)
  fix d assume I: "I d"
  obtain r d' where t: "withSQLiteTx wrap fn d = (r, d')" by (cases "withSQLiteTx wrap fn d")
  show "I (snd (withSQLiteTx wrap fn d))"
  proof (cases r)
    case (Inl e)
    with t I assms(1) show ?thesis
      using withSQLiteTx_error [of wrap fn d e d'] by (auto simp: tables_onlyD)
  next
    case (Inr x)
    with t have "withSQLiteTx wrap fn d = (Inr x, d')" by simp
    from withSQLiteTx_ok [OF this] obtain bs d2 bs' where *: "fn (d\<lparr>faults := bs\<rparr>) = (Inr x, d2)"
      and "d' = d2\<lparr>faults := bs'\<rparr>" by blast
    moreover have "I d2" using givesD [OF assms(2) _ *] I assms(1) by (simp add: tables_onlyD)
    ultimately show ?thesis using t assms(1) by (simp add: tables_onlyD)
  qed
qed

lemma pres_withSQLiteTx [pres_rules]:
  "tables_only I \<Longrightarrow> pres I fn \<Longrightarrow> pres I (withSQLiteTx wrap fn)"
  by (rule pres_withSQLiteTx_gives) (auto simp: gives_def dest: presD2)

lemma ns_tv_le: "ns (tv t) \<le> t"
  by (simp add: ns_def tv_def Millisecond_def)

lemma tv_mono: "a \<le> b \<Longrightarrow> tv a \<le> tv b"
  by (simp add: tv_def Millisecond_def zdiv_mono1)

lemma tv_ns [simp]: "tv (ns t) = t"
  by (simp add: tv_def ns_def Millisecond_def)

end
