(* ===== verification/Aul_Schema.thy ===== *)
theory Aul_Schema
  imports Aul_Rows
begin

text \<open>
  The constraints of \<^verbatim>\<open>migrations_sqlite/00001_schema.sql\<close> as a predicate \<open>db_ok\<close> on the
  database: primary keys, unique indexes, foreign keys and CHECK constraints, one
  predicate per table over the sets of ids it references. The \<open>put\<close> lemmas say what has
  to be shown when one table is replaced, so that every query's preservation proof looks at
  the one table it writes.
\<close>

definition platforms :: "string set" where
  "platforms = {''android'', ''ios'', ''web'', ''web-mobile''}"

definition users_ok :: "User list \<Rightarrow> bool" where
  "users_ok us \<longleftrightarrow> distinct (map User_ID us) \<and> distinct (map (\<lambda>u. nocase (User_Email u)) us)"

definition devices_ok :: "uuid set \<Rightarrow> Device list \<Rightarrow> bool" where
  "devices_ok uids ds \<longleftrightarrow> distinct (map Device_ID ds) \<and>
     (\<forall>d\<in>set ds. Device_UserID d \<in> uids \<and> Device_Platform d \<in> platforms)"

definition sessions_ok :: "uuid set \<Rightarrow> uuid set \<Rightarrow> Session list \<Rightarrow> bool" where
  "sessions_ok uids dids ss \<longleftrightarrow> distinct (map Session_ID ss) \<and>
     distinct (map Session_AccessTokenHash ss) \<and> distinct (map Session_RefreshTokenHash ss) \<and>
     (\<forall>s\<in>set ss. Session_UserID s \<in> uids \<and> Session_DeviceID s \<in> dids)"

definition circles_ok :: "uuid set \<Rightarrow> Circle list \<Rightarrow> bool" where
  "circles_ok uids cs \<longleftrightarrow> distinct (map Circle_ID cs) \<and>
     (\<forall>c\<in>set cs. 1 \<le> Circle_RetentionDays c \<and> Circle_RetentionDays c \<le> 3650 \<and>
        Circle_CreatedBy c \<in> uids)"

definition member_key :: "CircleMember \<Rightarrow> uuid \<times> uuid" where
  "member_key m = (Member_CircleID m, Member_UserID m)"

definition members_ok :: "uuid set \<Rightarrow> uuid set \<Rightarrow> CircleMember list \<Rightarrow> bool" where
  "members_ok cids uids ms \<longleftrightarrow> distinct (map member_key ms) \<and>
     (\<forall>m\<in>set ms. Member_CircleID m \<in> cids \<and> Member_UserID m \<in> uids \<and>
        Member_Role m \<in> {''owner'', ''member'', ''guardian''} \<and>
        Member_PrecisionMode m \<in> {''precise'', ''city'', ''paused''})"

definition invites_ok :: "uuid set \<Rightarrow> uuid set \<Rightarrow> Invite list \<Rightarrow> bool" where
  "invites_ok cids uids is \<longleftrightarrow> distinct (map Invite_ID is) \<and>
     (\<forall>i\<in>set is. Invite_CircleID i \<in> cids \<and> Invite_CreatedBy i \<in> uids \<and>
        Invite_Role i \<in> {''member'', ''guardian''} \<and>
        1 \<le> Invite_MaxUses i \<and> Invite_MaxUses i \<le> 1000 \<and>
        Invite_Status i \<in> {''active'', ''revoked''})"

definition places_ok :: "uuid set \<Rightarrow> uuid set \<Rightarrow> PlacesEnc list \<Rightarrow> bool" where
  "places_ok cids uids ps \<longleftrightarrow> distinct (map Place_ID ps) \<and>
     (\<forall>p\<in>set ps. Place_CircleID p \<in> cids \<and>
        set_option (Place_UpdatedBy p) \<subseteq> uids \<and> set_option (Place_CreatedBy p) \<subseteq> uids)"

definition envelope_key :: "KeyEnvelope \<Rightarrow> uuid \<times> uuid \<times> int" where
  "envelope_key e = (Envelope_CircleID e, Envelope_RecipientDeviceID e, Envelope_KeyEpoch e)"

definition envelopes_ok :: "uuid set \<Rightarrow> uuid set \<Rightarrow> KeyEnvelope list \<Rightarrow> bool" where
  "envelopes_ok cids dids es \<longleftrightarrow> distinct (map Envelope_ID es) \<and> distinct (map envelope_key es) \<and>
     (\<forall>e\<in>set es. Envelope_CircleID e \<in> cids \<and> Envelope_RecipientDeviceID e \<in> dids \<and>
        set_option (Envelope_SenderDeviceID e) \<subseteq> dids)"

definition sos_ok :: "uuid set \<Rightarrow> uuid set \<Rightarrow> uuid set \<Rightarrow> SosEvent list \<Rightarrow> bool" where
  "sos_ok cids dids uids ss \<longleftrightarrow> distinct (map Sos_ID ss) \<and>
     (\<forall>s\<in>set ss. Sos_CircleID s \<in> cids \<and> set_option (Sos_DeviceID s) \<subseteq> dids \<and>
        set_option (Sos_ResolvedBy s) \<subseteq> uids)"

definition push_kind_shape :: "string \<Rightarrow> string option \<Rightarrow> string option \<Rightarrow> bool" where
  "push_kind_shape kind p256dh auth \<longleftrightarrow>
     kind = ''webpush'' \<and> p256dh \<noteq> None \<and> auth \<noteq> None \<or>
     kind = ''fcm'' \<and> p256dh = None \<and> auth = None"

definition push_ok :: "uuid set \<Rightarrow> uuid set \<Rightarrow> PushSubscription list \<Rightarrow> bool" where
  "push_ok uids dids ps \<longleftrightarrow> distinct (map Push_ID ps) \<and> distinct (map Push_Endpoint ps) \<and>
     (\<forall>p\<in>set ps. Push_UserID p \<in> uids \<and> set_option (Push_DeviceID p) \<subseteq> dids \<and>
        push_kind_shape (Push_Kind p) (Push_P256dh p) (Push_Auth p))"

definition version_key :: "AppVersion \<Rightarrow> string \<times> int" where
  "version_key v = (Version_Platform v, Version_VersionCode v)"

definition versions_ok :: "AppVersion list \<Rightarrow> bool" where
  "versions_ok vs \<longleftrightarrow> distinct (map Version_ID vs) \<and> distinct (map version_key vs) \<and>
     (\<forall>v\<in>set vs. Version_Platform v \<in> {''android'', ''ios''})"

definition ping_key :: "Ping \<Rightarrow> uuid \<times> string \<times> sqltime" where
  "ping_key p = (Ping_DeviceID p, Ping_ClientID p, Ping_CapturedAt p)"

definition pings_ok :: "uuid set \<Rightarrow> uuid set \<Rightarrow> Ping list \<Rightarrow> bool" where
  "pings_ok cids dids ps \<longleftrightarrow> distinct (map Ping_ID ps) \<and> distinct (map ping_key ps) \<and>
     (\<forall>p\<in>set ps. Ping_CircleID p \<in> cids \<and> Ping_DeviceID p \<in> dids)"

definition shares_ok :: "uuid set \<Rightarrow> ShareSession list \<Rightarrow> bool" where
  "shares_ok uids ss \<longleftrightarrow> distinct (map Share_ID ss) \<and> (\<forall>s\<in>set ss. Share_UserID s \<in> uids)"

definition positions_ok :: "uuid set \<Rightarrow> SharePosition list \<Rightarrow> bool" where
  "positions_ok sids ps \<longleftrightarrow> distinct (map Position_SessionID ps) \<and>
     (\<forall>p\<in>set ps. Position_SessionID p \<in> sids)"

text \<open>
  The two partial unique indexes of \<^verbatim>\<open>notification_mutes\<close> together make the triple unique,
  the whole-circle row (\<open>None\<close>) included.
\<close>

definition mute_key :: "NotificationMute \<Rightarrow> uuid \<times> uuid \<times> uuid option" where
  "mute_key m = (Mute_UserID m, Mute_CircleID m, Mute_MutedUserID m)"

definition mutes_ok :: "uuid set \<Rightarrow> uuid set \<Rightarrow> NotificationMute list \<Rightarrow> bool" where
  "mutes_ok uids cids ms \<longleftrightarrow> distinct (map mute_key ms) \<and>
     (\<forall>m\<in>set ms. Mute_UserID m \<in> uids \<and> Mute_CircleID m \<in> cids \<and>
        set_option (Mute_MutedUserID m) \<subseteq> uids)"

definition audit_ok :: "nat \<Rightarrow> AuditLog list \<Rightarrow> bool" where
  "audit_ok n as \<longleftrightarrow> distinct (map Audit_ID as) \<and> (\<forall>a\<in>set as. Audit_ID a \<le> n)"

definition attempts_ok :: "nat \<Rightarrow> LoginAttempt list \<Rightarrow> bool" where
  "attempts_ok n as \<longleftrightarrow> distinct (map Attempt_ID as) \<and> (\<forall>a\<in>set as. Attempt_ID a \<le> n)"

definition user_ids :: "db \<Rightarrow> uuid set" where
  "user_ids d = User_ID ` set (users d)"

definition device_ids :: "db \<Rightarrow> uuid set" where
  "device_ids d = Device_ID ` set (devices d)"

definition circle_ids :: "db \<Rightarrow> uuid set" where
  "circle_ids d = Circle_ID ` set (circles d)"

definition share_ids :: "db \<Rightarrow> uuid set" where
  "share_ids d = Share_ID ` set (share_sessions d)"

definition db_ok :: "db \<Rightarrow> bool" where
  "db_ok d \<longleftrightarrow>
     users_ok (users d) \<and>
     devices_ok (user_ids d) (devices d) \<and>
     sessions_ok (user_ids d) (device_ids d) (sessions d) \<and>
     circles_ok (user_ids d) (circles d) \<and>
     members_ok (circle_ids d) (user_ids d) (circle_members d) \<and>
     invites_ok (circle_ids d) (user_ids d) (invites d) \<and>
     places_ok (circle_ids d) (user_ids d) (places_enc d) \<and>
     envelopes_ok (circle_ids d) (device_ids d) (key_envelopes d) \<and>
     sos_ok (circle_ids d) (device_ids d) (user_ids d) (sos_events d) \<and>
     push_ok (user_ids d) (device_ids d) (push_subscriptions d) \<and>
     versions_ok (app_versions d) \<and>
     pings_ok (circle_ids d) (device_ids d) (pings d) \<and>
     shares_ok (user_ids d) (share_sessions d) \<and>
     positions_ok (share_ids d) (share_positions d) \<and>
     mutes_ok (user_ids d) (circle_ids d) (notification_mutes d) \<and>
     audit_ok (sequence_audit_log d) (audit_log d) \<and>
     attempts_ok (sequence_login_attempts d) (login_attempts d)"

section \<open>Lemmas\<close>

lemmas id_set_defs = user_ids_def device_ids_def circle_ids_def share_ids_def

lemma db_ok_faults [simp]: "db_ok (d\<lparr>faults := fs\<rparr>) = db_ok d"
  by (simp add: db_ok_def id_set_defs)

lemma tables_only_db_ok [pres_rules, simp]: "tables_only db_ok"
  by (simp add: tables_only_def)

text \<open>The empty database of a fresh migration satisfies every constraint.\<close>

lemma db_ok_empty: "db_ok empty_db"
  by (simp add: db_ok_def empty_db_def users_ok_def devices_ok_def sessions_ok_def circles_ok_def
      members_ok_def invites_ok_def places_ok_def envelopes_ok_def sos_ok_def push_ok_def
      versions_ok_def pings_ok_def shares_ok_def positions_ok_def mutes_ok_def audit_ok_def
      attempts_ok_def)

subsection \<open>Growing the referenced id sets\<close>

lemma devices_ok_mono: "devices_ok A ds \<Longrightarrow> A \<subseteq> B \<Longrightarrow> devices_ok B ds"
  by (auto simp: devices_ok_def)

lemma sessions_ok_mono: "sessions_ok A C ds \<Longrightarrow> A \<subseteq> B \<Longrightarrow> C \<subseteq> D \<Longrightarrow> sessions_ok B D ds"
  by (auto simp: sessions_ok_def)

lemma circles_ok_mono: "circles_ok A cs \<Longrightarrow> A \<subseteq> B \<Longrightarrow> circles_ok B cs"
  by (auto simp: circles_ok_def)

lemma members_ok_mono: "members_ok A C xs \<Longrightarrow> A \<subseteq> B \<Longrightarrow> C \<subseteq> D \<Longrightarrow> members_ok B D xs"
  unfolding members_ok_def by blast

lemma invites_ok_mono: "invites_ok A C xs \<Longrightarrow> A \<subseteq> B \<Longrightarrow> C \<subseteq> D \<Longrightarrow> invites_ok B D xs"
  unfolding invites_ok_def by blast

lemma places_ok_mono: "places_ok A C xs \<Longrightarrow> A \<subseteq> B \<Longrightarrow> C \<subseteq> D \<Longrightarrow> places_ok B D xs"
  unfolding places_ok_def by blast

lemma envelopes_ok_mono: "envelopes_ok A C xs \<Longrightarrow> A \<subseteq> B \<Longrightarrow> C \<subseteq> D \<Longrightarrow> envelopes_ok B D xs"
  unfolding envelopes_ok_def by blast

lemma sos_ok_mono: "sos_ok A C E xs \<Longrightarrow> A \<subseteq> B \<Longrightarrow> C \<subseteq> D \<Longrightarrow> E \<subseteq> F \<Longrightarrow> sos_ok B D F xs"
  unfolding sos_ok_def by blast

lemma push_ok_mono: "push_ok A C xs \<Longrightarrow> A \<subseteq> B \<Longrightarrow> C \<subseteq> D \<Longrightarrow> push_ok B D xs"
  unfolding push_ok_def by blast

lemma pings_ok_mono: "pings_ok A C xs \<Longrightarrow> A \<subseteq> B \<Longrightarrow> C \<subseteq> D \<Longrightarrow> pings_ok B D xs"
  unfolding pings_ok_def by blast

lemma shares_ok_mono: "shares_ok A xs \<Longrightarrow> A \<subseteq> B \<Longrightarrow> shares_ok B xs"
  unfolding shares_ok_def by blast

lemma positions_ok_mono: "positions_ok A xs \<Longrightarrow> A \<subseteq> B \<Longrightarrow> positions_ok B xs"
  unfolding positions_ok_def by blast

lemma mutes_ok_mono: "mutes_ok A C xs \<Longrightarrow> A \<subseteq> B \<Longrightarrow> C \<subseteq> D \<Longrightarrow> mutes_ok B D xs"
  unfolding mutes_ok_def by blast

lemmas ok_mono = devices_ok_mono sessions_ok_mono circles_ok_mono members_ok_mono invites_ok_mono
  places_ok_mono envelopes_ok_mono sos_ok_mono push_ok_mono pings_ok_mono shares_ok_mono
  positions_ok_mono mutes_ok_mono

subsection \<open>Replacing one table\<close>

named_theorems put_rules

lemma put_users [put_rules]:
  assumes "db_ok d" and "users_ok us" and "User_ID ` set (users d) \<subseteq> User_ID ` set us"
  shows "db_ok (d\<lparr>users := us\<rparr>)"
  using assms by (auto simp: db_ok_def id_set_defs elim!: ok_mono)

lemma put_devices [put_rules]:
  assumes "db_ok d" and "devices_ok (user_ids d) ds"
    and "Device_ID ` set (devices d) \<subseteq> Device_ID ` set ds"
  shows "db_ok (d\<lparr>devices := ds\<rparr>)"
  using assms by (auto simp: db_ok_def id_set_defs elim!: ok_mono)

lemma put_circles [put_rules]:
  assumes "db_ok d" and "circles_ok (user_ids d) cs"
    and "Circle_ID ` set (circles d) \<subseteq> Circle_ID ` set cs"
  shows "db_ok (d\<lparr>circles := cs\<rparr>)"
  using assms by (auto simp: db_ok_def id_set_defs elim!: ok_mono)

lemma put_share_sessions [put_rules]:
  assumes "db_ok d" and "shares_ok (user_ids d) ss"
    and "Share_ID ` set (share_sessions d) \<subseteq> Share_ID ` set ss"
  shows "db_ok (d\<lparr>share_sessions := ss\<rparr>)"
  using assms by (auto simp: db_ok_def id_set_defs elim!: ok_mono)

lemma put_sessions [put_rules]:
  "db_ok d \<Longrightarrow> sessions_ok (user_ids d) (device_ids d) xs \<Longrightarrow> db_ok (d\<lparr>sessions := xs\<rparr>)"
  by (simp add: db_ok_def id_set_defs)

lemma put_circle_members [put_rules]:
  "db_ok d \<Longrightarrow> members_ok (circle_ids d) (user_ids d) xs \<Longrightarrow> db_ok (d\<lparr>circle_members := xs\<rparr>)"
  by (simp add: db_ok_def id_set_defs)

lemma put_invites [put_rules]:
  "db_ok d \<Longrightarrow> invites_ok (circle_ids d) (user_ids d) xs \<Longrightarrow> db_ok (d\<lparr>invites := xs\<rparr>)"
  by (simp add: db_ok_def id_set_defs)

lemma put_places [put_rules]:
  "db_ok d \<Longrightarrow> places_ok (circle_ids d) (user_ids d) xs \<Longrightarrow> db_ok (d\<lparr>places_enc := xs\<rparr>)"
  by (simp add: db_ok_def id_set_defs)

lemma put_key_envelopes [put_rules]:
  "db_ok d \<Longrightarrow> envelopes_ok (circle_ids d) (device_ids d) xs \<Longrightarrow> db_ok (d\<lparr>key_envelopes := xs\<rparr>)"
  by (simp add: db_ok_def id_set_defs)

lemma put_sos_events [put_rules]:
  "db_ok d \<Longrightarrow> sos_ok (circle_ids d) (device_ids d) (user_ids d) xs \<Longrightarrow>
   db_ok (d\<lparr>sos_events := xs\<rparr>)"
  by (simp add: db_ok_def id_set_defs)

lemma put_push_subscriptions [put_rules]:
  "db_ok d \<Longrightarrow> push_ok (user_ids d) (device_ids d) xs \<Longrightarrow> db_ok (d\<lparr>push_subscriptions := xs\<rparr>)"
  by (simp add: db_ok_def id_set_defs)

lemma put_app_versions [put_rules]:
  "db_ok d \<Longrightarrow> versions_ok xs \<Longrightarrow> db_ok (d\<lparr>app_versions := xs\<rparr>)"
  by (simp add: db_ok_def id_set_defs)

lemma put_pings [put_rules]:
  "db_ok d \<Longrightarrow> pings_ok (circle_ids d) (device_ids d) xs \<Longrightarrow> db_ok (d\<lparr>pings := xs\<rparr>)"
  by (simp add: db_ok_def id_set_defs)

lemma put_share_positions [put_rules]:
  "db_ok d \<Longrightarrow> positions_ok (share_ids d) xs \<Longrightarrow> db_ok (d\<lparr>share_positions := xs\<rparr>)"
  by (simp add: db_ok_def id_set_defs)

lemma put_notification_mutes [put_rules]:
  "db_ok d \<Longrightarrow> mutes_ok (user_ids d) (circle_ids d) xs \<Longrightarrow> db_ok (d\<lparr>notification_mutes := xs\<rparr>)"
  by (simp add: db_ok_def id_set_defs)

lemma put_audit_log [put_rules]:
  "db_ok d \<Longrightarrow> audit_ok n xs \<Longrightarrow> db_ok (d\<lparr>audit_log := xs, sequence_audit_log := n\<rparr>)"
  by (simp add: db_ok_def id_set_defs)

lemma put_audit_rows [put_rules]:
  "db_ok d \<Longrightarrow> audit_ok (sequence_audit_log d) xs \<Longrightarrow> db_ok (d\<lparr>audit_log := xs\<rparr>)"
  by (simp add: db_ok_def id_set_defs)

lemma put_login_attempts [put_rules]:
  "db_ok d \<Longrightarrow> attempts_ok n xs \<Longrightarrow>
   db_ok (d\<lparr>login_attempts := xs, sequence_login_attempts := n\<rparr>)"
  by (simp add: db_ok_def id_set_defs)

lemma put_attempt_rows [put_rules]:
  "db_ok d \<Longrightarrow> attempts_ok (sequence_login_attempts d) xs \<Longrightarrow> db_ok (d\<lparr>login_attempts := xs\<rparr>)"
  by (simp add: db_ok_def id_set_defs)

subsection \<open>Reading one table\<close>

lemma db_okD:
  assumes "db_ok d"
  shows "users_ok (users d)" and "devices_ok (user_ids d) (devices d)"
    and "sessions_ok (user_ids d) (device_ids d) (sessions d)"
    and "circles_ok (user_ids d) (circles d)"
    and "members_ok (circle_ids d) (user_ids d) (circle_members d)"
    and "invites_ok (circle_ids d) (user_ids d) (invites d)"
    and "places_ok (circle_ids d) (user_ids d) (places_enc d)"
    and "envelopes_ok (circle_ids d) (device_ids d) (key_envelopes d)"
    and "sos_ok (circle_ids d) (device_ids d) (user_ids d) (sos_events d)"
    and "push_ok (user_ids d) (device_ids d) (push_subscriptions d)"
    and "versions_ok (app_versions d)"
    and "pings_ok (circle_ids d) (device_ids d) (pings d)"
    and "shares_ok (user_ids d) (share_sessions d)"
    and "positions_ok (share_ids d) (share_positions d)"
    and "mutes_ok (user_ids d) (circle_ids d) (notification_mutes d)"
    and "audit_ok (sequence_audit_log d) (audit_log d)"
    and "attempts_ok (sequence_login_attempts d) (login_attempts d)"
  using assms by (simp_all add: db_ok_def)

lemmas table_ok_defs = users_ok_def devices_ok_def sessions_ok_def circles_ok_def members_ok_def
  invites_ok_def places_ok_def envelopes_ok_def sos_ok_def push_ok_def versions_ok_def pings_ok_def
  shares_ok_def positions_ok_def mutes_ok_def audit_ok_def attempts_ok_def

text \<open>Unique columns.\<close>

lemma db_ok_unique [simp]:
  assumes "db_ok d"
  shows "distinct (map User_ID (users d))" and "distinct (map (\<lambda>u. nocase (User_Email u)) (users d))"
    and "distinct (map Device_ID (devices d))" and "distinct (map Session_ID (sessions d))"
    and "distinct (map Session_AccessTokenHash (sessions d))"
    and "distinct (map Session_RefreshTokenHash (sessions d))"
    and "distinct (map Circle_ID (circles d))" and "distinct (map member_key (circle_members d))"
    and "distinct (map Invite_ID (invites d))" and "distinct (map Place_ID (places_enc d))"
    and "distinct (map Envelope_ID (key_envelopes d))" and "distinct (map envelope_key (key_envelopes d))"
    and "distinct (map Sos_ID (sos_events d))" and "distinct (map Push_ID (push_subscriptions d))"
    and "distinct (map Push_Endpoint (push_subscriptions d))"
    and "distinct (map Version_ID (app_versions d))" and "distinct (map version_key (app_versions d))"
    and "distinct (map Ping_ID (pings d))" and "distinct (map ping_key (pings d))"
    and "distinct (map Share_ID (share_sessions d))"
    and "distinct (map Position_SessionID (share_positions d))"
    and "distinct (map mute_key (notification_mutes d))" and "distinct (map Audit_ID (audit_log d))"
    and "distinct (map Attempt_ID (login_attempts d))"
  using db_okD [OF assms] by (simp_all add: table_ok_defs)

text \<open>Foreign keys and CHECK constraints of a stored row.\<close>

lemma db_ok_row [simp]:
  assumes "db_ok d"
  shows "v \<in> set (devices d) \<Longrightarrow> Device_UserID v \<in> user_ids d"
    and "v \<in> set (devices d) \<Longrightarrow> Device_Platform v \<in> platforms"
    and "s \<in> set (sessions d) \<Longrightarrow> Session_UserID s \<in> user_ids d"
    and "s \<in> set (sessions d) \<Longrightarrow> Session_DeviceID s \<in> device_ids d"
    and "c \<in> set (circles d) \<Longrightarrow> 1 \<le> Circle_RetentionDays c"
    and "c \<in> set (circles d) \<Longrightarrow> Circle_RetentionDays c \<le> 3650"
    and "c \<in> set (circles d) \<Longrightarrow> Circle_CreatedBy c \<in> user_ids d"
    and "m \<in> set (circle_members d) \<Longrightarrow> Member_CircleID m \<in> circle_ids d"
    and "m \<in> set (circle_members d) \<Longrightarrow> Member_UserID m \<in> user_ids d"
    and "i \<in> set (invites d) \<Longrightarrow> Invite_CircleID i \<in> circle_ids d"
    and "i \<in> set (invites d) \<Longrightarrow> Invite_CreatedBy i \<in> user_ids d"
    and "i \<in> set (invites d) \<Longrightarrow> 1 \<le> Invite_MaxUses i"
    and "i \<in> set (invites d) \<Longrightarrow> Invite_MaxUses i \<le> 1000"
    and "p \<in> set (places_enc d) \<Longrightarrow> Place_CircleID p \<in> circle_ids d"
    and "e \<in> set (key_envelopes d) \<Longrightarrow> Envelope_CircleID e \<in> circle_ids d"
    and "e \<in> set (key_envelopes d) \<Longrightarrow> Envelope_RecipientDeviceID e \<in> device_ids d"
    and "t \<in> set (sos_events d) \<Longrightarrow> Sos_CircleID t \<in> circle_ids d"
    and "u \<in> set (push_subscriptions d) \<Longrightarrow> Push_UserID u \<in> user_ids d"
    and "g \<in> set (pings d) \<Longrightarrow> Ping_CircleID g \<in> circle_ids d"
    and "g \<in> set (pings d) \<Longrightarrow> Ping_DeviceID g \<in> device_ids d"
    and "h \<in> set (share_sessions d) \<Longrightarrow> Share_UserID h \<in> user_ids d"
    and "q \<in> set (share_positions d) \<Longrightarrow> Position_SessionID q \<in> share_ids d"
    and "n \<in> set (notification_mutes d) \<Longrightarrow> Mute_UserID n \<in> user_ids d"
    and "n \<in> set (notification_mutes d) \<Longrightarrow> Mute_CircleID n \<in> circle_ids d"
    and "a \<in> set (audit_log d) \<Longrightarrow> Audit_ID a \<le> sequence_audit_log d"
    and "l \<in> set (login_attempts d) \<Longrightarrow> Attempt_ID l \<le> sequence_login_attempts d"
  using db_okD [OF assms] by (simp_all add: table_ok_defs)

lemma db_ok_roles:
  assumes "db_ok d"
  shows "m \<in> set (circle_members d) \<Longrightarrow> Member_Role m \<in> {''owner'', ''member'', ''guardian''}"
    and "m \<in> set (circle_members d) \<Longrightarrow> Member_PrecisionMode m \<in> {''precise'', ''city'', ''paused''}"
    and "i \<in> set (invites d) \<Longrightarrow> Invite_Role i \<in> {''member'', ''guardian''}"
    and "i \<in> set (invites d) \<Longrightarrow> Invite_Status i \<in> {''active'', ''revoked''}"
  using db_okD(5,6) [OF assms] by (simp_all add: members_ok_def invites_ok_def)

end
