(* ===== verification/Aul_Store_Identity.thy ===== *)
theory Aul_Store_Identity
  imports Aul_Schema
begin

text \<open>
  The queries of \<^verbatim>\<open>server/internal/store/sqlite_queries.go\<close> on users, devices, sessions,
  login attempts and the audit log. \<open>now\<close> is the clock of the statement; \<open>i\<close> is the result of
  \<^verbatim>\<open>uuid.New()\<close>. An insert checks the primary key, the unique indexes, the foreign keys and the
  CHECK constraints of the schema and fails with \<open>Constraint\<close> otherwise.
\<close>

section \<open>users\<close>

definition CreateUser :: "gotime \<Rightarrow> uuid \<Rightarrow> string \<Rightarrow> string \<Rightarrow> User q" where
  "CreateUser now i email passHash = stmt (\<lambda>d.
     if fresh_in User_ID i (users d) \<and>
        fresh_in (\<lambda>u. nocase (User_Email u)) (nocase email) (users d)
     then let u = \<lparr>User_ID = i, User_Email = email, User_PassHash = passHash,
                   User_CreatedAt = tv now, User_UpdatedAt = tv now\<rparr>
          in (Inr u, d\<lparr>users := users d @ [u]\<rparr>)
     else (Inl Constraint, d))"

definition email_is :: "string \<Rightarrow> User \<Rightarrow> bool" where
  "email_is email u \<longleftrightarrow> nocase (User_Email u) = nocase email"

definition EmailExists :: "string \<Rightarrow> bool q" where
  "EmailExists email = query (\<lambda>d. \<exists>u\<in>set (users d). email_is email u)"

definition GetUserByEmail :: "string \<Rightarrow> User q" where
  "GetUserByEmail email = query_row (\<lambda>d. List.find (email_is email) (users d))"

definition GetUserByID :: "uuid \<Rightarrow> User q" where
  "GetUserByID i = query_row (\<lambda>d. List.find (\<lambda>u. User_ID u = i) (users d))"

definition UpdateUserPassword :: "gotime \<Rightarrow> uuid \<Rightarrow> string \<Rightarrow> unit q" where
  "UpdateUserPassword now i passHash = exec (\<lambda>d. d\<lparr>users :=
     update_where (\<lambda>u. User_ID u = i)
       (\<lambda>u. u\<lparr>User_PassHash := passHash, User_UpdatedAt := tv now\<rparr>) (users d)\<rparr>)"

section \<open>devices\<close>

definition CreateDevice :: "gotime \<Rightarrow> uuid \<Rightarrow> uuid \<Rightarrow> string \<Rightarrow> string option \<Rightarrow> bytes option
    \<Rightarrow> Device q" where
  "CreateDevice now i userID platform displayName pubkey = stmt (\<lambda>d.
     if fresh_in Device_ID i (devices d) \<and> userID \<in> user_ids d \<and> platform \<in> platforms
     then let v = \<lparr>Device_ID = i, Device_UserID = userID, Device_Platform = platform,
                   Device_DisplayName = displayName, Device_Pubkey = pubkey,
                   Device_PushToken = None, Device_CreatedAt = tv now, Device_LastSeen = None\<rparr>
          in (Inr v, d\<lparr>devices := devices d @ [v]\<rparr>)
     else (Inl Constraint, d))"

text \<open>
  Deleting a device cascades to its sessions, the envelopes addressed to it, its pings and
  its push subscriptions, and clears the sender and SOS references to it.
\<close>

definition DeleteDevice :: "uuid \<Rightarrow> uuid \<Rightarrow> unit q" where
  "DeleteDevice i userID = exec (\<lambda>d.
     if \<exists>v\<in>set (devices d). Device_ID v = i \<and> Device_UserID v = userID
     then d\<lparr>devices := delete_where (\<lambda>v. Device_ID v = i \<and> Device_UserID v = userID) (devices d),
            sessions := delete_where (\<lambda>s. Session_DeviceID s = i) (sessions d),
            key_envelopes := update_where (\<lambda>e. Envelope_SenderDeviceID e = Some i)
               (\<lambda>e. e\<lparr>Envelope_SenderDeviceID := None\<rparr>)
               (delete_where (\<lambda>e. Envelope_RecipientDeviceID e = i) (key_envelopes d)),
            sos_events := update_where (\<lambda>s. Sos_DeviceID s = Some i)
               (\<lambda>s. s\<lparr>Sos_DeviceID := None\<rparr>) (sos_events d),
            pings := delete_where (\<lambda>p. Ping_DeviceID p = i) (pings d),
            push_subscriptions := delete_where (\<lambda>p. Push_DeviceID p = Some i)
               (push_subscriptions d)\<rparr>
     else d)"

definition GetDevice :: "uuid \<Rightarrow> Device q" where
  "GetDevice i = query_row (\<lambda>d. List.find (\<lambda>v. Device_ID v = i) (devices d))"

definition GetDeviceForUser :: "uuid \<Rightarrow> uuid \<Rightarrow> Device q" where
  "GetDeviceForUser i userID =
     query_row (\<lambda>d. List.find (\<lambda>v. Device_ID v = i \<and> Device_UserID v = userID) (devices d))"

definition ListCircleDevices :: "uuid \<Rightarrow> Device list q" where
  "ListCircleDevices circleID = query (\<lambda>d. sort_key Device_CreatedAt
     [v. v \<leftarrow> devices d, m \<leftarrow> circle_members d,
         Member_UserID m = Device_UserID v \<and> Member_CircleID m = circleID])"

definition ListDevicesForUser :: "uuid \<Rightarrow> Device list q" where
  "ListDevicesForUser userID =
     query (\<lambda>d. sort_key Device_CreatedAt (filter (\<lambda>v. Device_UserID v = userID) (devices d)))"

definition SetDevicePubkey :: "uuid \<Rightarrow> bytes option \<Rightarrow> unit q" where
  "SetDevicePubkey i pubkey = exec (\<lambda>d. d\<lparr>devices :=
     update_where (\<lambda>v. Device_ID v = i) (\<lambda>v. v\<lparr>Device_Pubkey := pubkey\<rparr>) (devices d)\<rparr>)"

definition SetDevicePushToken :: "uuid \<Rightarrow> string option \<Rightarrow> unit q" where
  "SetDevicePushToken i tok = exec (\<lambda>d. d\<lparr>devices :=
     update_where (\<lambda>v. Device_ID v = i) (\<lambda>v. v\<lparr>Device_PushToken := tok\<rparr>) (devices d)\<rparr>)"

definition TouchDevice :: "gotime \<Rightarrow> uuid \<Rightarrow> unit q" where
  "TouchDevice now i = exec (\<lambda>d. d\<lparr>devices :=
     update_where (\<lambda>v. Device_ID v = i) (\<lambda>v. v\<lparr>Device_LastSeen := Some (tv now)\<rparr>) (devices d)\<rparr>)"

section \<open>sessions\<close>

definition CreateSession :: "gotime \<Rightarrow> uuid \<Rightarrow> uuid \<Rightarrow> uuid \<Rightarrow> string \<Rightarrow> string \<Rightarrow> gotime \<Rightarrow> gotime
    \<Rightarrow> Session q" where
  "CreateSession now i userID deviceID accessHash refreshHash accessExp refreshExp = stmt (\<lambda>d.
     if fresh_in Session_ID i (sessions d) \<and>
        fresh_in Session_AccessTokenHash accessHash (sessions d) \<and>
        fresh_in Session_RefreshTokenHash refreshHash (sessions d) \<and>
        userID \<in> user_ids d \<and> deviceID \<in> device_ids d
     then let s = \<lparr>Session_ID = i, Session_UserID = userID, Session_DeviceID = deviceID,
                   Session_AccessTokenHash = accessHash, Session_RefreshTokenHash = refreshHash,
                   Session_PrevRefreshHash = None, Session_AccessExpiresAt = tv accessExp,
                   Session_RefreshExpiresAt = tv refreshExp, Session_RevokedAt = None,
                   Session_CreatedAt = tv now, Session_RotatedAt = tv now\<rparr>
          in (Inr s, d\<lparr>sessions := sessions d @ [s]\<rparr>)
     else (Inl Constraint, d))"

definition expired_session :: "sqltime \<Rightarrow> Session \<Rightarrow> bool" where
  "expired_session cutoff s \<longleftrightarrow> Session_RefreshExpiresAt s < cutoff \<or>
     (case Session_RevokedAt s of None \<Rightarrow> False | Some t \<Rightarrow> t < cutoff)"

definition DeleteExpiredSessions :: "gotime \<Rightarrow> nat q" where
  "DeleteExpiredSessions now = (let P = expired_session (tv (now - 24 * Hour)) in
     exec_rows (\<lambda>d. count_where P (sessions d))
       (\<lambda>d. d\<lparr>sessions := delete_where P (sessions d)\<rparr>))"

definition live_access :: "gotime \<Rightarrow> string \<Rightarrow> Session \<Rightarrow> bool" where
  "live_access now h s \<longleftrightarrow> Session_AccessTokenHash s = h \<and> Session_RevokedAt s = None \<and>
     Session_AccessExpiresAt s > tv now"

definition GetSessionByAccessHash :: "gotime \<Rightarrow> string \<Rightarrow> Session q" where
  "GetSessionByAccessHash now h = query_row (\<lambda>d. List.find (live_access now h) (sessions d))"

definition spent_refresh :: "string \<Rightarrow> Session \<Rightarrow> bool" where
  "spent_refresh h s \<longleftrightarrow> Session_PrevRefreshHash s = Some h \<and> Session_RevokedAt s = None"

definition GetSessionByPrevRefreshHash :: "string \<Rightarrow> Session q" where
  "GetSessionByPrevRefreshHash h = query_row (\<lambda>d. List.find (spent_refresh h) (sessions d))"

definition live_refresh :: "gotime \<Rightarrow> string \<Rightarrow> Session \<Rightarrow> bool" where
  "live_refresh now h s \<longleftrightarrow> Session_RefreshTokenHash s = h \<and> Session_RevokedAt s = None \<and>
     Session_RefreshExpiresAt s > tv now"

definition GetSessionByRefreshHash :: "gotime \<Rightarrow> string \<Rightarrow> Session q" where
  "GetSessionByRefreshHash now h = query_row (\<lambda>d. List.find (live_refresh now h) (sessions d))"

definition ListActiveSessionsForUser :: "gotime \<Rightarrow> uuid
    \<Rightarrow> (Session \<times> string \<times> string option) list q" where
  "ListActiveSessionsForUser now userID = query (\<lambda>d.
     sort_key (\<lambda>(s, _). - Session_RotatedAt s)
       [(s, Device_Platform v, Device_DisplayName v). s \<leftarrow> sessions d, v \<leftarrow> devices d,
          Device_ID v = Session_DeviceID s \<and> Session_UserID s = userID \<and>
          Session_RevokedAt s = None \<and> Session_RefreshExpiresAt s > tv now])"

definition revoke_at :: "gotime \<Rightarrow> Session \<Rightarrow> Session" where
  "revoke_at now s = s\<lparr>Session_RevokedAt := Some (tv now)\<rparr>"

definition RevokeSession :: "gotime \<Rightarrow> uuid \<Rightarrow> unit q" where
  "RevokeSession now i = exec (\<lambda>d. d\<lparr>sessions :=
     update_where (\<lambda>s. Session_ID s = i \<and> Session_RevokedAt s = None) (revoke_at now) (sessions d)\<rparr>)"

definition RevokeSessionsForDevice :: "gotime \<Rightarrow> uuid \<Rightarrow> unit q" where
  "RevokeSessionsForDevice now deviceID = exec (\<lambda>d. d\<lparr>sessions :=
     update_where (\<lambda>s. Session_DeviceID s = deviceID \<and> Session_RevokedAt s = None) (revoke_at now)
       (sessions d)\<rparr>)"

definition RevokeSessionsForUser :: "gotime \<Rightarrow> uuid \<Rightarrow> unit q" where
  "RevokeSessionsForUser now userID = exec (\<lambda>d. d\<lparr>sessions :=
     update_where (\<lambda>s. Session_UserID s = userID \<and> Session_RevokedAt s = None) (revoke_at now)
       (sessions d)\<rparr>)"

text \<open>
  The compare-and-swap of refresh rotation: the row is found by i and by the refresh hash the
  caller presented. The unique token hashes are checked against the other rows.
\<close>

definition rotate_target :: "uuid \<Rightarrow> string \<Rightarrow> Session \<Rightarrow> bool" where
  "rotate_target i oldHash s \<longleftrightarrow> Session_ID s = i \<and> Session_RefreshTokenHash s = oldHash \<and>
     Session_RevokedAt s = None"

definition rotate_row :: "gotime \<Rightarrow> string \<Rightarrow> string \<Rightarrow> gotime \<Rightarrow> gotime \<Rightarrow> string \<Rightarrow> Session \<Rightarrow> Session" where
  "rotate_row now accessHash refreshHash accessExp refreshExp oldHash s =
     s\<lparr>Session_AccessTokenHash := accessHash, Session_RefreshTokenHash := refreshHash,
       Session_PrevRefreshHash := Some oldHash, Session_AccessExpiresAt := tv accessExp,
       Session_RefreshExpiresAt := tv refreshExp, Session_RotatedAt := tv now\<rparr>"

definition RotateSession :: "gotime \<Rightarrow> uuid \<Rightarrow> string \<Rightarrow> string \<Rightarrow> gotime \<Rightarrow> gotime \<Rightarrow> string
    \<Rightarrow> Session q" where
  "RotateSession now i accessHash refreshHash accessExp refreshExp oldHash = stmt (\<lambda>d.
     case List.find (rotate_target i oldHash) (sessions d) of
       None \<Rightarrow> (Inl NoRows, d)
     | Some s \<Rightarrow>
         if \<exists>t\<in>set (sessions d). Session_ID t \<noteq> i \<and>
              (Session_AccessTokenHash t = accessHash \<or> Session_RefreshTokenHash t = refreshHash)
         then (Inl Constraint, d)
         else let f = rotate_row now accessHash refreshHash accessExp refreshExp oldHash
              in (Inr (f s), d\<lparr>sessions := update_where (rotate_target i oldHash) f (sessions d)\<rparr>))"

section \<open>login attempts\<close>

text \<open>\<^verbatim>\<open>sqliteEpoch\<close>, 0001-01-01T00:00:00.000Z, in milliseconds.\<close>

definition sqliteEpoch :: sqltime where
  "sqliteEpoch = -62135596800000"

definition attempt_email_is :: "string \<Rightarrow> LoginAttempt \<Rightarrow> bool" where
  "attempt_email_is email a \<longleftrightarrow>
     (case Attempt_Email a of None \<Rightarrow> False | Some e \<Rightarrow> nocase e = nocase email)"

definition last_success :: "string \<Rightarrow> LoginAttempt list \<Rightarrow> sqltime" where
  "last_success email as =
     (case map Attempt_CreatedAt (filter (\<lambda>a. attempt_email_is email a \<and> Attempt_Success a) as) of
        [] \<Rightarrow> sqliteEpoch | t # ts \<Rightarrow> fold max ts t)"

definition CountRecentFailuresByEmail :: "gotime \<Rightarrow> string \<Rightarrow> duration \<Rightarrow> nat q" where
  "CountRecentFailuresByEmail now email window = query (\<lambda>d. length (filter (\<lambda>a.
     attempt_email_is email a \<and> \<not> Attempt_Success a \<and> Attempt_CreatedAt a > tv (now - window) \<and>
     Attempt_CreatedAt a > last_success email (login_attempts d)) (login_attempts d)))"

definition CountRecentFailuresByIP :: "gotime \<Rightarrow> string \<Rightarrow> duration \<Rightarrow> nat q" where
  "CountRecentFailuresByIP now ip window = query (\<lambda>d. length (filter (\<lambda>a.
     Attempt_Ip a = Some ip \<and> \<not> Attempt_Success a \<and> Attempt_CreatedAt a > tv (now - window))
     (login_attempts d)))"

definition RecordLoginAttempt :: "gotime \<Rightarrow> string option \<Rightarrow> string option \<Rightarrow> bool \<Rightarrow> unit q" where
  "RecordLoginAttempt now email ip success = exec (\<lambda>d. d\<lparr>login_attempts := login_attempts d @
     [\<lparr>Attempt_ID = Suc (sequence_login_attempts d), Attempt_Email = email, Attempt_Ip = ip,
       Attempt_Success = success, Attempt_CreatedAt = tv now\<rparr>],
     sequence_login_attempts := Suc (sequence_login_attempts d)\<rparr>)"

definition PruneLoginAttempts :: "gotime \<Rightarrow> int \<Rightarrow> nat q" where
  "PruneLoginAttempts now keepDays =
     (let P = (\<lambda>a. Attempt_CreatedAt a < tv (now - keepDays * Day)) in
      exec_rows (\<lambda>d. count_where P (login_attempts d))
        (\<lambda>d. d\<lparr>login_attempts := delete_where P (login_attempts d)\<rparr>))"

section \<open>audit log\<close>

definition WriteAudit :: "gotime \<Rightarrow> string \<Rightarrow> uuid option \<Rightarrow> uuid option \<Rightarrow> uuid option
    \<Rightarrow> string option \<Rightarrow> audit_detail option \<Rightarrow> unit q" where
  "WriteAudit now event userID deviceID circleID ip detail = exec (\<lambda>d. d\<lparr>audit_log := audit_log d @
     [\<lparr>Audit_ID = Suc (sequence_audit_log d), Audit_Ts = tv now, Audit_Event = event,
       Audit_ActorUserID = userID, Audit_ActorDeviceID = deviceID, Audit_CircleID = circleID,
       Audit_Ip = ip, Audit_Detail = detail\<rparr>],
     sequence_audit_log := Suc (sequence_audit_log d)\<rparr>)"

definition ListAuditForUser :: "uuid \<Rightarrow> nat \<Rightarrow> AuditLog list q" where
  "ListAuditForUser userID limit = query (\<lambda>d. take limit (sort_key (\<lambda>a. - Audit_Ts a)
     (filter (\<lambda>a. Audit_ActorUserID a = Some userID) (audit_log d))))"

definition PruneAuditIPs :: "gotime \<Rightarrow> int \<Rightarrow> nat q" where
  "PruneAuditIPs now keepDays =
     (let P = (\<lambda>a. Audit_Ip a \<noteq> None \<and> Audit_Ts a < tv (now - keepDays * Day)) in
      exec_rows (\<lambda>d. count_where P (audit_log d))
        (\<lambda>d. d\<lparr>audit_log := update_where P (\<lambda>a. a\<lparr>Audit_Ip := None\<rparr>) (audit_log d)\<rparr>))"

section \<open>Preservation of the schema\<close>

lemma CreateUser_ok [pres_rules]: "pres db_ok (CreateUser now i email h)"
  unfolding CreateUser_def
  by (rule pres_stmt) (auto simp: Let_def fresh_in_def users_ok_def intro!: put_users)

lemma UpdateUserPassword_ok [pres_rules]: "pres db_ok (UpdateUserPassword now i h)"
  unfolding UpdateUserPassword_def
  by (rule pres_exec) (auto simp: users_ok_def intro!: put_users)

lemma CreateDevice_ok [pres_rules]: "pres db_ok (CreateDevice now i u p n k)"
  unfolding CreateDevice_def
  by (rule pres_stmt) (auto simp: Let_def fresh_in_def devices_ok_def intro!: put_devices)

text \<open>Updating columns of a device other than its i, owner and platform.\<close>

lemma update_devices_ok:
  assumes "db_ok d" and "\<And>v. Device_ID (f v) = Device_ID v \<and> Device_UserID (f v) = Device_UserID v
    \<and> Device_Platform (f v) = Device_Platform v"
  shows "db_ok (d\<lparr>devices := update_where P f (devices d)\<rparr>)"
proof (rule put_devices [OF assms(1)])
  show "devices_ok (user_ids d) (update_where P f (devices d))"
    using assms by (auto simp: devices_ok_def ball_update_where)
  show "Device_ID ` set (devices d) \<subseteq> Device_ID ` set (update_where P f (devices d))"
    using assms(2) by simp
qed

lemma SetDevicePubkey_ok [pres_rules]: "pres db_ok (SetDevicePubkey i k)"
  unfolding SetDevicePubkey_def by (rule pres_exec) (simp_all add: update_devices_ok)

lemma SetDevicePushToken_ok [pres_rules]: "pres db_ok (SetDevicePushToken i k)"
  unfolding SetDevicePushToken_def by (rule pres_exec) (simp_all add: update_devices_ok)

lemma TouchDevice_ok [pres_rules]: "pres db_ok (TouchDevice now i)"
  unfolding TouchDevice_def by (rule pres_exec) (simp_all add: update_devices_ok)

lemma DeleteDevice_ok [pres_rules]: "pres db_ok (DeleteDevice i u)"
proof (unfold DeleteDevice_def, rule pres_exec, simp, split if_split, intro conjI impI)
  fix d assume d: "db_ok d" and "\<exists>v\<in>set (devices d). Device_ID v = i \<and> Device_UserID v = u"
  then have own: "\<And>v. v \<in> set (devices d) \<Longrightarrow> Device_ID v = i \<Longrightarrow> Device_UserID v = u"
    using db_ok_unique(3) [OF d] by (metis distinct_map inj_onD)
  let ?d = "d\<lparr>devices := delete_where (\<lambda>v. Device_ID v = i \<and> Device_UserID v = u) (devices d),
      sessions := delete_where (\<lambda>s. Session_DeviceID s = i) (sessions d),
      key_envelopes := update_where (\<lambda>e. Envelope_SenderDeviceID e = Some i)
         (\<lambda>e. e\<lparr>Envelope_SenderDeviceID := None\<rparr>)
         (delete_where (\<lambda>e. Envelope_RecipientDeviceID e = i) (key_envelopes d)),
      sos_events := update_where (\<lambda>s. Sos_DeviceID s = Some i)
         (\<lambda>s. s\<lparr>Sos_DeviceID := None\<rparr>) (sos_events d),
      pings := delete_where (\<lambda>p. Ping_DeviceID p = i) (pings d),
      push_subscriptions := delete_where (\<lambda>p. Push_DeviceID p = Some i) (push_subscriptions d)\<rparr>"
  have ids: "device_ids ?d = device_ids d - {i}" "user_ids ?d = user_ids d"
      "circle_ids ?d = circle_ids d" "share_ids ?d = share_ids d"
    using own by (auto simp: id_set_defs)
  note ok = db_okD [OF d]
  have "envelopes_ok (circle_ids d) (device_ids d - {i}) (key_envelopes ?d)"
    using ok(8) by (fastforce simp: envelopes_ok_def ball_update_where envelope_key_def)
  moreover have "sos_ok (circle_ids d) (device_ids d - {i}) (user_ids d) (sos_events ?d)"
    using ok(9) by (fastforce simp: sos_ok_def ball_update_where)
  moreover have "push_ok (user_ids d) (device_ids d - {i}) (push_subscriptions ?d)"
    using ok(10) by (fastforce simp: push_ok_def)
  moreover have "sessions_ok (user_ids d) (device_ids d - {i}) (sessions ?d)"
    using ok(3) by (simp add: sessions_ok_def)
  moreover have "pings_ok (circle_ids d) (device_ids d - {i}) (pings ?d)"
    using ok(12) by (simp add: pings_ok_def)
  moreover have "devices_ok (user_ids d) (devices ?d)"
    using ok(2) by (simp add: devices_ok_def)
  ultimately show "db_ok ?d" using ok unfolding db_ok_def ids by simp
qed simp

lemma CreateSession_ok [pres_rules]: "pres db_ok (CreateSession now i u v a r ae re)"
  unfolding CreateSession_def
  by (rule pres_stmt) (auto simp: Let_def fresh_in_def sessions_ok_def intro!: put_sessions)

lemma DeleteExpiredSessions_ok [pres_rules]: "pres db_ok (DeleteExpiredSessions now)"
  unfolding DeleteExpiredSessions_def Let_def
  by (rule pres_exec_rows) (auto simp: sessions_ok_def intro!: put_sessions)

lemma revoke_sessions_ok:
  assumes "db_ok d"
  shows "db_ok (d\<lparr>sessions := update_where P (revoke_at now) (sessions d)\<rparr>)"
  using assms by (intro put_sessions) (auto simp: sessions_ok_def revoke_at_def ball_update_where)

lemma RevokeSession_ok [pres_rules]: "pres db_ok (RevokeSession now i)"
  unfolding RevokeSession_def by (rule pres_exec) (simp_all add: revoke_sessions_ok)

lemma RevokeSessionsForDevice_ok [pres_rules]: "pres db_ok (RevokeSessionsForDevice now i)"
  unfolding RevokeSessionsForDevice_def by (rule pres_exec) (simp_all add: revoke_sessions_ok)

lemma RevokeSessionsForUser_ok [pres_rules]: "pres db_ok (RevokeSessionsForUser now i)"
  unfolding RevokeSessionsForUser_def by (rule pres_exec) (simp_all add: revoke_sessions_ok)

lemma RotateSession_ok [pres_rules]: "pres db_ok (RotateSession now i a r ae re old)"
proof (unfold RotateSession_def Let_def, rule pres_stmt, simp)
  fix d assume d: "db_ok d"
  let ?f = "rotate_row now a r ae re old"
  let ?P = "rotate_target i old"
  note ss = db_okD(3) [OF d, unfolded sessions_ok_def]
  have *: "sessions_ok (user_ids d) (device_ids d) (update_where ?P ?f (sessions d))"
    if nd: "\<forall>t\<in>set (sessions d). Session_ID t \<noteq> i \<longrightarrow>
      Session_AccessTokenHash t \<noteq> a \<and> Session_RefreshTokenHash t \<noteq> r"
    unfolding sessions_ok_def
  proof (intro conjI)
    show "distinct (map Session_ID (update_where ?P ?f (sessions d)))"
      using ss by (subst map_update_where_frame) (simp_all add: rotate_row_def)
    show "distinct (map Session_AccessTokenHash (update_where ?P ?f (sessions d)))"
      using ss nd by (intro distinct_update_one [where key = Session_ID])
        (auto simp: rotate_target_def rotate_row_def)
    show "distinct (map Session_RefreshTokenHash (update_where ?P ?f (sessions d)))"
      using ss nd by (intro distinct_update_one [where key = Session_ID])
        (auto simp: rotate_target_def rotate_row_def)
    show "\<forall>s\<in>set (update_where ?P ?f (sessions d)).
        Session_UserID s \<in> user_ids d \<and> Session_DeviceID s \<in> device_ids d"
      using d by (simp add: ball_update_where rotate_row_def)
  qed
  show "db_ok (snd (case List.find ?P (sessions d) of None \<Rightarrow> (Inl NoRows, d)
     | Some s \<Rightarrow> if \<exists>t\<in>set (sessions d). Session_ID t \<noteq> i \<and>
          (Session_AccessTokenHash t = a \<or> Session_RefreshTokenHash t = r)
        then (Inl Constraint, d)
        else (Inr (?f s), d\<lparr>sessions := update_where ?P ?f (sessions d)\<rparr>)))"
    using d * by (auto split: option.split intro!: put_sessions)
qed

lemma attempts_ok_append:
  "attempts_ok n as \<Longrightarrow> Attempt_ID a = Suc n \<Longrightarrow> attempts_ok (Suc n) (as @ [a])"
  by (fastforce simp: attempts_ok_def)

lemma RecordLoginAttempt_ok [pres_rules]: "pres db_ok (RecordLoginAttempt now e ip ok)"
  unfolding RecordLoginAttempt_def
  by (rule pres_exec) (simp_all add: put_login_attempts attempts_ok_append db_okD(17))

lemma PruneLoginAttempts_ok [pres_rules]: "pres db_ok (PruneLoginAttempts now k)"
  unfolding PruneLoginAttempts_def Let_def
  by (rule pres_exec_rows) (auto simp: attempts_ok_def intro!: put_attempt_rows)

lemma audit_ok_append: "audit_ok n as \<Longrightarrow> Audit_ID a = Suc n \<Longrightarrow> audit_ok (Suc n) (as @ [a])"
  by (fastforce simp: audit_ok_def)

lemma WriteAudit_ok [pres_rules]: "pres db_ok (WriteAudit now e u v c ip det)"
  unfolding WriteAudit_def
  by (rule pres_exec) (simp_all add: put_audit_log audit_ok_append db_okD(16))

lemma PruneAuditIPs_ok [pres_rules]: "pres db_ok (PruneAuditIPs now k)"
  unfolding PruneAuditIPs_def Let_def
  by (rule pres_exec_rows)
    (auto simp: audit_ok_def ball_update_where intro!: put_audit_rows)

end
