(* ===== verification/Aul_Base64.thy ===== *)
theory Aul_Base64
  imports Aul_Prelude
begin

text \<open>
  Go's \<^verbatim>\<open>encoding/base64\<close> as the server uses it (standard and URL alphabets, with and without
  padding), and the two helpers of \<^verbatim>\<open>server/internal/httpapi/helpers.go\<close> built on it,
  \<open>decodeBlob\<close> and \<open>encodeBlob\<close>. The decoder is the non-strict one: carriage returns and
  newlines are skipped anywhere and unused trailing bits are dropped. The locale
  \<open>base64_encoding\<close> states what an alphabet has to satisfy for decoding to invert encoding;
  it is interpreted on the four encodings.
\<close>

section \<open>Encoding and decoding\<close>

definition upper_chars :: string where "upper_chars = ''ABCDEFGHIJKLMNOPQRSTUVWXYZ''"
definition lower_chars :: string where "lower_chars = ''abcdefghijklmnopqrstuvwxyz''"
definition digit_chars :: string where "digit_chars = ''0123456789''"

definition encodeStd :: string where
  "encodeStd = upper_chars @ lower_chars @ digit_chars @ ''+/''"

definition encodeURL :: string where
  "encodeURL = upper_chars @ lower_chars @ digit_chars @ ''-_''"

fun char_index :: "string \<Rightarrow> char \<Rightarrow> nat option" where
  "char_index [] c = None"
| "char_index (a # as) c = (if a = c then Some 0 else map_option Suc (char_index as c))"

definition byte_of :: "nat \<Rightarrow> byte" where
  "byte_of n = word_of_nat n"

fun EncodeToString :: "string \<Rightarrow> char option \<Rightarrow> bytes \<Rightarrow> string" where
  "EncodeToString al pad (x # y # z # r) =
     [al ! (unat x div 4), al ! (unat x mod 4 * 16 + unat y div 16),
      al ! (unat y mod 16 * 4 + unat z div 64), al ! (unat z mod 64)] @ EncodeToString al pad r"
| "EncodeToString al pad [x, y] =
     [al ! (unat x div 4), al ! (unat x mod 4 * 16 + unat y div 16), al ! (unat y mod 16 * 4)] @
     (case pad of None \<Rightarrow> [] | Some p \<Rightarrow> [p])"
| "EncodeToString al pad [x] =
     [al ! (unat x div 4), al ! (unat x mod 4 * 16)] @ (case pad of None \<Rightarrow> [] | Some p \<Rightarrow> [p, p])"
| "EncodeToString al pad [] = []"

definition byte1 :: "nat \<Rightarrow> nat \<Rightarrow> byte" where
  "byte1 a b = byte_of (a * 4 + b div 16)"

definition byte2 :: "nat \<Rightarrow> nat \<Rightarrow> byte" where
  "byte2 b c = byte_of (b mod 16 * 16 + c div 4)"

definition byte3 :: "nat \<Rightarrow> nat \<Rightarrow> byte" where
  "byte3 c e = byte_of (c mod 4 * 64 + e)"

text \<open>One quantum of four characters at a time; padding ends the input.\<close>

fun decode_quanta :: "string \<Rightarrow> char option \<Rightarrow> string \<Rightarrow> bytes option" where
  "decode_quanta al pad (a # b # c # e # r) =
     (case (char_index al a, char_index al b) of
        (Some na, Some nb) \<Rightarrow>
          (case char_index al c of
             Some nc \<Rightarrow>
               (case char_index al e of
                  Some ne \<Rightarrow> map_option (\<lambda>bs. byte1 na nb # byte2 nb nc # byte3 nc ne # bs)
                               (decode_quanta al pad r)
                | None \<Rightarrow> if pad = Some e \<and> r = [] then Some [byte1 na nb, byte2 nb nc] else None)
           | None \<Rightarrow> if pad = Some c \<and> pad = Some e \<and> r = [] then Some [byte1 na nb] else None)
      | _ \<Rightarrow> None)"
| "decode_quanta al pad [a, b, c] =
     (case (pad, char_index al a, char_index al b, char_index al c) of
        (None, Some na, Some nb, Some nc) \<Rightarrow> Some [byte1 na nb, byte2 nb nc]
      | _ \<Rightarrow> None)"
| "decode_quanta al pad [a, b] =
     (case (pad, char_index al a, char_index al b) of
        (None, Some na, Some nb) \<Rightarrow> Some [byte1 na nb] | _ \<Rightarrow> None)"
| "decode_quanta al pad [a] = None"
| "decode_quanta al pad [] = Some []"

definition crlf :: "char \<Rightarrow> bool" where
  "crlf c \<longleftrightarrow> of_char c = (10::nat) \<or> of_char c = (13::nat)"

definition DecodeString :: "string \<Rightarrow> char option \<Rightarrow> string \<Rightarrow> bytes option" where
  "DecodeString al pad s = decode_quanta al pad (filter (\<lambda>c. \<not> crlf c) s)"

definition pad_char :: "char option" where "pad_char = Some (CHR ''='')"

section \<open>Blob fields of requests and responses\<close>

datatype blob_err = Required | NotBase64 | EmptyBlob | TooLong nat

definition decodeBlob :: "string \<Rightarrow> nat \<Rightarrow> blob_err + bytes" where
  "decodeBlob s maxBytes =
     (if s = [] then Inl Required
      else case (case DecodeString encodeStd pad_char s of
                   Some b \<Rightarrow> Some b
                 | None \<Rightarrow> (case DecodeString encodeStd None s of
                     Some b2 \<Rightarrow> Some b2
                   | None \<Rightarrow> DecodeString encodeURL pad_char s)) of
        None \<Rightarrow> Inl NotBase64
      | Some b \<Rightarrow> if b = [] then Inl EmptyBlob
                  else if length b > maxBytes then Inl (TooLong maxBytes)
                  else Inr b)"

definition encodeBlob :: "bytes \<Rightarrow> string" where
  "encodeBlob b = EncodeToString encodeStd pad_char b"

section \<open>Lemmas\<close>

lemma char_index_nth:
  "distinct xs \<Longrightarrow> i < length xs \<Longrightarrow> char_index xs (xs ! i) = Some i"
  by (induction xs arbitrary: i) (auto simp: nth_Cons split: nat.split)

lemma char_index_None: "char_index xs c = None \<longleftrightarrow> c \<notin> set xs"
  by (induction xs) auto

lemma byte_of_unat [simp]: "byte_of (unat x) = x"
  by (simp add: byte_of_def)

lemma unat_byte: "unat (x :: byte) < 256"
  using unsigned_less [of x, where 'a = nat] by simp

lemma byte1_split: "byte1 (unat x div 4) (unat x mod 4 * 16 + unat (y::byte) div 16) = x"
proof -
  have "unat y div 16 < 16" using unat_byte [of y] by simp
  then have "unat x div 4 * 4 + (unat x mod 4 * 16 + unat y div 16) div 16 = unat x" by simp
  then show ?thesis by (simp add: byte1_def)
qed

lemma byte1_last: "byte1 (unat x div 4) (unat x mod 4 * 16) = x"
  by (simp add: byte1_def)

lemma byte2_split:
  "byte2 (unat x mod 4 * 16 + unat y div 16) (unat y mod 16 * 4 + unat (z::byte) div 64) = y"
proof -
  have "unat y div 16 < 16" and "unat z div 64 < 4" using unat_byte [of y] unat_byte [of z] by simp_all
  then have "(unat x mod 4 * 16 + unat y div 16) mod 16 * 16 +
      (unat y mod 16 * 4 + unat z div 64) div 4 = unat y" by simp
  then show ?thesis by (simp add: byte2_def)
qed

lemma byte2_last: "byte2 (unat x mod 4 * 16 + unat y div 16) (unat y mod 16 * 4) = y"
  using byte2_split [of x y 0] by simp

lemma byte3_split: "byte3 (unat y mod 16 * 4 + unat (z::byte) div 64) (unat z mod 64) = z"
proof -
  have "unat z div 64 < 4" using unat_byte [of z] by simp
  then have "(unat y mod 16 * 4 + unat z div 64) mod 4 * 64 + unat z mod 64 = unat z" by simp
  then show ?thesis by (simp add: byte3_def)
qed

lemma sextets:
  "unat (x::byte) div 4 < 64" "unat x mod 4 * 16 < 64" "unat x mod 16 * 4 < 64" "unat x mod 64 < 64"
  "unat x mod 4 * 16 + unat (y::byte) div 16 < 64" "unat x mod 16 * 4 + unat y div 64 < 64"
proof -
  have x: "unat x < 256" and y: "unat y < 256" by (rule unat_byte)+
  have "unat x mod 4 < 4" "unat x mod 16 < 16" "unat y div 16 < 16" "unat y div 64 < 4"
    using x y by simp_all
  then show "unat x div 4 < 64" "unat x mod 4 * 16 < 64" "unat x mod 16 * 4 < 64" "unat x mod 64 < 64"
    "unat x mod 4 * 16 + unat y div 16 < 64" "unat x mod 16 * 4 + unat y div 64 < 64"
    using x by simp_all
qed

locale base64_encoding =
  fixes al :: string and pad :: "char option"
  assumes len: "length al = 64" and dist: "distinct al"
    and pad_free: "pad = Some p \<Longrightarrow> p \<notin> set al \<and> \<not> crlf p" and printable: "\<forall>c\<in>set al. \<not> crlf c"
begin

lemma index_nth [simp]: "i < 64 \<Longrightarrow> char_index al (al ! i) = Some i"
  using char_index_nth [OF dist] len by simp

lemma pad_index [simp]: "pad = Some p \<Longrightarrow> char_index al p = None"
  using pad_free by (simp add: char_index_None)

lemma quanta_encode: "decode_quanta al pad (EncodeToString al pad bs) = Some bs"
proof (induction al' \<equiv> al pad' \<equiv> pad bs rule: EncodeToString.induct)
  case (1 x y z r)
  then show ?case by (simp add: sextets byte1_split byte2_split byte3_split)
qed (auto simp: sextets byte1_split byte1_last byte2_split byte2_last split: option.splits)

lemma encoded_chars: "c \<in> set (EncodeToString al pad bs) \<Longrightarrow> c \<in> set al \<or> pad = Some c"
proof (induction al' \<equiv> al pad' \<equiv> pad bs rule: EncodeToString.induct)
  case (1 x y z r)
  then show ?case using nth_mem [of _ al] len by (auto simp: sextets)
qed (use nth_mem [of _ al] len in \<open>auto simp: sextets split: option.splits\<close>)

lemma decode_encode: "DecodeString al pad (EncodeToString al pad bs) = Some bs"
proof -
  have "\<not> crlf c" if "c \<in> set (EncodeToString al pad bs)" for c
    using encoded_chars [OF that] printable pad_free by blast
  then have "filter (\<lambda>c. \<not> crlf c) (EncodeToString al pad bs) = EncodeToString al pad bs"
    by (simp add: filter_id_conv)
  then show ?thesis by (simp add: DecodeString_def quanta_encode)
qed

lemma encode_empty_iff: "EncodeToString al pad bs = [] \<longleftrightarrow> bs = []"
  by (cases "(al, pad, bs)" rule: EncodeToString.cases) simp_all

end

lemmas alphabet_defs = encodeStd_def encodeURL_def upper_chars_def lower_chars_def digit_chars_def
  crlf_def pad_char_def

interpretation StdEncoding: base64_encoding encodeStd pad_char
  by unfold_locales (auto simp: alphabet_defs)

interpretation RawStdEncoding: base64_encoding encodeStd None
  by unfold_locales (auto simp: alphabet_defs)

interpretation URLEncoding: base64_encoding encodeURL pad_char
  by unfold_locales (auto simp: alphabet_defs)

interpretation RawURLEncoding: base64_encoding encodeURL None
  by unfold_locales (auto simp: alphabet_defs)

lemma EncodeToString_Nil_iff [simp]: "EncodeToString al pad bs = [] \<longleftrightarrow> bs = []"
  by (cases "(al, pad, bs)" rule: EncodeToString.cases) auto

text \<open>What a response carries decodes, within the limit, to the bytes that were stored.\<close>

lemma decodeBlob_encodeBlob:
  "bs \<noteq> [] \<Longrightarrow> length bs \<le> n \<Longrightarrow> decodeBlob (encodeBlob bs) n = Inr bs"
  by (simp add: decodeBlob_def encodeBlob_def StdEncoding.decode_encode)

lemma decodeBlob_bounds: "decodeBlob s n = Inr bs \<Longrightarrow> bs \<noteq> [] \<and> length bs \<le> n"
  by (auto simp: decodeBlob_def split: if_splits option.splits)

lemma encodeBlob_inj: "encodeBlob a = encodeBlob b \<Longrightarrow> a = b"
  by (metis StdEncoding.decode_encode encodeBlob_def option.inject)

end
