(* ===== verification/Aul_Crypto.thy ===== *)
theory Aul_Crypto
  imports Aul_Base64
begin

text \<open>
  \<^verbatim>\<open>server/internal/crypto/password.go\<close>: Argon2id password hashes in the PHC string format.
  The key derivation \<^verbatim>\<open>argon2.IDKey\<close> (\<^verbatim>\<open>golang.org/x/crypto\<close>) is the parameter \<open>idkey\<close>; the random salt
  is an argument, \<open>None\<close> when \<^verbatim>\<open>rand.Read\<close> fails. The pieces of \<^verbatim>\<open>strings.Split\<close>, \<^verbatim>\<open>fmt.Sprintf\<close> and
  \<^verbatim>\<open>fmt.Sscanf\<close> that the code uses are modelled on byte strings; of the white space
  \<^verbatim>\<open>Sscanf\<close> skips before a number only the ASCII characters are treated as such.
  The main lemma is that a hash verifies against the password it was made from.
\<close>

section \<open>Strings\<close>

definition string_bytes :: "string \<Rightarrow> bytes" where
  "string_bytes s = map (\<lambda>c. byte_of (of_char c)) s"

fun split_on :: "char \<Rightarrow> string \<Rightarrow> string list" where
  "split_on c [] = [[]]"
| "split_on c (x # xs) = (if x = c then [] # split_on c xs
     else (case split_on c xs of [] \<Rightarrow> [[x]] | p # ps \<Rightarrow> (x # p) # ps))"

definition digit :: "nat \<Rightarrow> char" where
  "digit n = char_of (48 + n)"

fun show_nat :: "nat \<Rightarrow> string" where
  "show_nat n = (if n < 10 then [digit n] else show_nat (n div 10) @ [digit (n mod 10)])"

declare show_nat.simps [simp del]

definition is_digit :: "char \<Rightarrow> bool" where
  "is_digit c \<longleftrightarrow> (48::nat) \<le> of_char c \<and> of_char c \<le> (57::nat)"

definition digits_value :: "string \<Rightarrow> nat" where
  "digits_value ds = foldl (\<lambda>n c. 10 * n + (of_char c - 48)) 0 ds"

definition is_blank :: "char \<Rightarrow> bool" where
  "is_blank c \<longleftrightarrow> of_char c \<in> {9, 11, 12, 13, 32 :: nat}"

text \<open>A literal of the format, and a number that has to fit an unsigned type of \<open>n\<close> bits.\<close>

fun scan_lit :: "string \<Rightarrow> string \<Rightarrow> string option" where
  "scan_lit [] s = Some s"
| "scan_lit (l # ls) [] = None"
| "scan_lit (l # ls) (c # cs) = (if l = c then scan_lit ls cs else None)"

definition scan_uint :: "nat \<Rightarrow> string \<Rightarrow> (nat \<times> string) option" where
  "scan_uint n s = (let t = dropWhile is_blank s; ds = takeWhile is_digit t in
     if ds = [] \<or> int (digits_value ds) \<ge> 2 ^ n then None
     else Some (digits_value ds, dropWhile is_digit t))"

definition scan_int :: "string \<Rightarrow> (int \<times> string) option" where
  "scan_int s = (let t = dropWhile is_blank s;
       (neg, u) = (case t of [] \<Rightarrow> (False, t)
          | c # cs \<Rightarrow> if c = CHR ''+'' then (False, cs) else if c = CHR ''-'' then (True, cs) else (False, t));
       ds = takeWhile is_digit u;
       v = (if neg then - int (digits_value ds) else int (digits_value ds)) in
     if ds = [] \<or> \<not> in_i64 v then None else Some (v, dropWhile is_digit u))"

section \<open>Argon2id password hashes\<close>

record Argon2Params =
  Memory :: "32 word"
  Iterations :: "32 word"
  Parallelism :: "8 word"
  SaltLength :: "32 word"
  KeyLength :: "32 word"

definition DefaultArgon2Params :: Argon2Params where
  "DefaultArgon2Params = \<lparr>Memory = 64 * 1024, Iterations = 3, Parallelism = 4, SaltLength = 16,
     KeyLength = 32\<rparr>"

definition argon2_Version :: int where "argon2_Version = 19"

datatype crypto_err = ErrInvalidHash | ErrIncompatibleVersion | ErrEmptyPassword | ErrRand

type_synonym idkey = "bytes \<Rightarrow> bytes \<Rightarrow> 32 word \<Rightarrow> 32 word \<Rightarrow> 8 word \<Rightarrow> 32 word \<Rightarrow> bytes"

definition derive :: "idkey \<Rightarrow> string \<Rightarrow> bytes \<Rightarrow> Argon2Params \<Rightarrow> bytes" where
  "derive idkey password salt p =
     idkey (string_bytes password) salt (Iterations p) (Memory p) (Parallelism p) (KeyLength p)"

definition encodeHash :: "Argon2Params \<Rightarrow> bytes \<Rightarrow> bytes \<Rightarrow> string" where
  "encodeHash p salt key =
     ''$argon2id$v='' @ show_nat 19 @ ''$m='' @ show_nat (unat (Memory p)) @ '',t='' @
     show_nat (unat (Iterations p)) @ '',p='' @ show_nat (unat (Parallelism p)) @ ''$'' @
     EncodeToString encodeStd None salt @ ''$'' @ EncodeToString encodeStd None key"

definition HashPasswordWithParams :: "idkey \<Rightarrow> bytes option \<Rightarrow> string \<Rightarrow> Argon2Params \<Rightarrow> crypto_err + string" where
  "HashPasswordWithParams idkey rand password p =
     (if password = [] then Inl ErrEmptyPassword
      else case rand of None \<Rightarrow> Inl ErrRand
        | Some salt \<Rightarrow> Inr (encodeHash p salt (derive idkey password salt p)))"

definition scan_params :: "string \<Rightarrow> (32 word \<times> 32 word \<times> 8 word) option" where
  "scan_params s = Option.bind (scan_lit ''m='' s) (\<lambda>s1.
     Option.bind (scan_uint 32 s1) (\<lambda>(m, s2).
     Option.bind (scan_lit '',t='' s2) (\<lambda>s3.
     Option.bind (scan_uint 32 s3) (\<lambda>(t, s4).
     Option.bind (scan_lit '',p='' s4) (\<lambda>s5.
     Option.bind (scan_uint 8 s5) (\<lambda>(p, _).
     Some (word_of_nat m, word_of_nat t, word_of_nat p)))))))"

definition decodeHash :: "string \<Rightarrow> crypto_err + Argon2Params \<times> bytes \<times> bytes" where
  "decodeHash encoded =
     (case split_on (CHR ''$'') encoded of
        [p0, p1, p2, p3, p4, p5] \<Rightarrow>
          if p1 \<noteq> ''argon2id'' then Inl ErrInvalidHash
          else (case Option.bind (scan_lit ''v='' p2) scan_int of
              None \<Rightarrow> Inl ErrInvalidHash
            | Some (version, _) \<Rightarrow>
                if version \<noteq> argon2_Version then Inl ErrIncompatibleVersion
                else (case (scan_params p3, DecodeString encodeStd None p4, DecodeString encodeStd None p5) of
                    (Some (m, t, p), Some salt, Some hash) \<Rightarrow>
                      if salt = [] \<or> hash = [] \<or> length salt > 1024 \<or> length hash > 1024
                      then Inl ErrInvalidHash
                      else Inr (\<lparr>Memory = m, Iterations = t, Parallelism = p,
                             SaltLength = word_of_nat (length salt), KeyLength = word_of_nat (length hash)\<rparr>,
                             salt, hash)
                  | _ \<Rightarrow> Inl ErrInvalidHash))
      | _ \<Rightarrow> Inl ErrInvalidHash)"

definition weakerThan :: "Argon2Params \<Rightarrow> Argon2Params \<Rightarrow> bool" where
  "weakerThan got want \<longleftrightarrow> Memory got < Memory want \<or> Iterations got < Iterations want \<or>
     Parallelism got < Parallelism want \<or> KeyLength got < KeyLength want"

definition VerifyPassword :: "idkey \<Rightarrow> string \<Rightarrow> string \<Rightarrow> crypto_err + bool \<times> bool" where
  "VerifyPassword idkey encoded password =
     (if password = [] then Inl ErrEmptyPassword
      else case decodeHash encoded of
        Inl e \<Rightarrow> Inl e
      | Inr (p, salt, hash) \<Rightarrow>
          if hash \<noteq> derive idkey password salt p then Inr (False, False)
          else Inr (True, weakerThan p DefaultArgon2Params))"

section \<open>Lemmas\<close>

lemma is_digit_digit: "n < 10 \<Longrightarrow> is_digit (digit n)"
  by (simp add: is_digit_def digit_def)

lemma digit_value: "n < 10 \<Longrightarrow> of_char (digit n) - 48 = n"
  by (simp add: digit_def)

lemma digits_value_snoc: "digits_value (ds @ [c]) = 10 * digits_value ds + (of_char c - 48)"
  by (simp add: digits_value_def)

lemma show_nat_ne [simp]: "show_nat n \<noteq> []"
  by (subst show_nat.simps) simp

lemma show_nat_digits: "c \<in> set (show_nat n) \<Longrightarrow> is_digit c"
proof (induction n rule: show_nat.induct)
  case (1 n)
  then show ?case by (subst (asm) (2) show_nat.simps) (auto simp: is_digit_digit split: if_splits)
qed

lemma digits_value_show: "digits_value (show_nat n) = n"
proof (induction n rule: show_nat.induct)
  case (1 n)
  then show ?case
    by (subst show_nat.simps) (auto simp: digits_value_snoc digit_value digits_value_def)
qed

lemma digit_not_blank: "is_digit c \<Longrightarrow> \<not> is_blank c"
  by (auto simp: is_digit_def is_blank_def)

text \<open>Reading back a printed number that is followed by a non-digit.\<close>

lemma takeWhile_show:
  assumes "\<And>c cs. r = c # cs \<Longrightarrow> \<not> is_digit c"
  shows "takeWhile is_digit (show_nat n @ r) = show_nat n" and "dropWhile is_digit (show_nat n @ r) = r"
    and "dropWhile is_blank (show_nat n @ r) = show_nat n @ r"
proof -
  have r: "takeWhile is_digit r = []" "dropWhile is_digit r = r" using assms by (cases r; simp)+
  have all: "\<forall>c\<in>set (show_nat n). is_digit c" using show_nat_digits by blast
  show "takeWhile is_digit (show_nat n @ r) = show_nat n" "dropWhile is_digit (show_nat n @ r) = r"
    using all r by (simp_all add: takeWhile_append2 dropWhile_append2)
  obtain c cs where "show_nat n = c # cs" by (cases "show_nat n") auto
  then show "dropWhile is_blank (show_nat n @ r) = show_nat n @ r"
    using all digit_not_blank by simp
qed

lemma scan_uint_show:
  assumes "n < 2 ^ k" and "\<And>c cs. r = c # cs \<Longrightarrow> \<not> is_digit c"
  shows "scan_uint k (show_nat n @ r) = Some (n, r)"
  using assms takeWhile_show [of r n] by (simp add: scan_uint_def digits_value_show Let_def)

lemma scan_lit_append [simp]: "scan_lit l (l @ s) = Some s"
  by (induction l) auto

lemma scan_params_show:
  "scan_params (''m='' @ show_nat (unat m) @ '',t='' @ show_nat (unat t) @ '',p='' @ show_nat (unat p)) =
   Some (m, t, p)"
proof -
  have lt: "unat m < 2 ^ 32" "unat t < 2 ^ 32" "unat p < 2 ^ 8"
    using unsigned_less [of m, where 'a = nat] unsigned_less [of t, where 'a = nat]
      unsigned_less [of p, where 'a = nat] by simp_all
  have "scan_uint 32 (show_nat (unat m) @ '',t='' @ s) = Some (unat m, '',t='' @ s)" for s
    using lt(1) by (rule scan_uint_show) (auto simp: is_digit_def)
  moreover have "scan_uint 32 (show_nat (unat t) @ '',p='' @ s) = Some (unat t, '',p='' @ s)" for s
    using lt(2) by (rule scan_uint_show) (auto simp: is_digit_def)
  moreover have "scan_uint 8 (show_nat (unat p)) = Some (unat p, [])"
    using scan_uint_show [of "unat p" 8 "[]"] lt(3) by simp
  ultimately show ?thesis by (simp add: scan_params_def)
qed

lemma split_on_append: "c \<notin> set xs \<Longrightarrow> split_on c (xs @ c # ys) = xs # split_on c ys"
  by (induction xs) auto

lemma split_on_none: "c \<notin> set xs \<Longrightarrow> split_on c xs = [xs]"
  by (induction xs) auto

lemma dollar_free:
  "CHR ''$'' \<notin> set (show_nat n)" "CHR ''$'' \<notin> set (EncodeToString encodeStd None bs)"
proof -
  show "CHR ''$'' \<notin> set (show_nat n)"
    using show_nat_digits [of "CHR ''$''" n] by (auto simp: is_digit_def)
  show "CHR ''$'' \<notin> set (EncodeToString encodeStd None bs)"
    using RawStdEncoding.encoded_chars [of "CHR ''$''" bs] by (auto simp: alphabet_defs)
qed

lemma split_encodeHash:
  "split_on (CHR ''$'') (encodeHash p salt key) = [[], ''argon2id'', ''v='' @ show_nat 19,
     ''m='' @ show_nat (unat (Memory p)) @ '',t='' @ show_nat (unat (Iterations p)) @ '',p='' @
       show_nat (unat (Parallelism p)),
     EncodeToString encodeStd None salt, EncodeToString encodeStd None key]"
proof -
  let ?v = "''v='' @ show_nat 19"
  let ?m = "''m='' @ show_nat (unat (Memory p)) @ '',t='' @ show_nat (unat (Iterations p)) @ '',p='' @
     show_nat (unat (Parallelism p))"
  let ?s = "EncodeToString encodeStd None salt" and ?k = "EncodeToString encodeStd None key"
  have "encodeHash p salt key = [] @ CHR ''$'' # (''argon2id'' @ CHR ''$'' # (?v @ CHR ''$'' #
      (?m @ CHR ''$'' # (?s @ CHR ''$'' # ?k))))"
    by (simp add: encodeHash_def)
  moreover have "CHR ''$'' \<notin> set ''argon2id''" "CHR ''$'' \<notin> set ?v" "CHR ''$'' \<notin> set ?m"
    by (simp_all add: dollar_free)
  ultimately show ?thesis
    by (simp only: split_on_append split_on_none dollar_free list.set empty_iff not_False_eq_True)
qed

lemma scan_version: "scan_int (show_nat 19) = Some (19, [])"
  by code_simp

lemma decodeHash_encodeHash:
  assumes "salt \<noteq> []" "key \<noteq> []" "length salt \<le> 1024" "length key \<le> 1024"
    and "SaltLength p = word_of_nat (length salt)" and "KeyLength p = word_of_nat (length key)"
  shows "decodeHash (encodeHash p salt key) = Inr (p, salt, key)"
  using assms
  by (cases p) (simp add: decodeHash_def split_encodeHash scan_version argon2_Version_def scan_params_show
      RawStdEncoding.decode_encode del: append_Cons)

text \<open>
  A fresh hash accepts its password, provided the key derivation returns as many bytes as
  asked for.
\<close>

lemma VerifyPassword_fresh:
  assumes key: "length (derive idkey pw salt p) = unat (KeyLength p)"
    and p: "0 < unat (KeyLength p)" "unat (KeyLength p) \<le> 1024" "0 < unat (SaltLength p)"
      "unat (SaltLength p) \<le> 1024"
    and salt: "length salt = unat (SaltLength p)"
    and hash: "HashPasswordWithParams idkey (Some salt) pw p = Inr h"
  shows "VerifyPassword idkey h pw = Inr (True, weakerThan p DefaultArgon2Params)"
proof -
  have pw: "pw \<noteq> []" and h: "h = encodeHash p salt (derive idkey pw salt p)"
    using hash by (auto simp: HashPasswordWithParams_def split: if_splits)
  have "decodeHash h = Inr (p, salt, derive idkey pw salt p)"
    unfolding h using p key salt by (intro decodeHash_encodeHash) (auto simp flip: length_greater_0_conv)
  with pw show ?thesis by (simp add: VerifyPassword_def)
qed

end
