(* ===== verification/Aul_Auth.thy ===== *)
theory Aul_Auth
  imports Aul_Store_Identity Aul_Crypto
begin

text \<open>
  The authentication service: \<^verbatim>\<open>server/internal/auth\<close> (\<^verbatim>\<open>lockout.go\<close>, \<^verbatim>\<open>validate.go\<close>,
  \<^verbatim>\<open>service.go\<close>, \<^verbatim>\<open>middleware.go\<close>) with \<^verbatim>\<open>server/internal/audit\<close>. The record \<open>Service\<close> holds the
  configuration of the Go struct and the library functions it calls: HMAC-SHA256 under the
  server's pepper, Argon2id, \<^verbatim>\<open>mail.ParseAddress\<close> and the Unicode functions
  \<^verbatim>\<open>strings.ToLower\<close> and \<^verbatim>\<open>strings.TrimSpace\<close>. What \<^verbatim>\<open>crypto/rand\<close> and \<^verbatim>\<open>uuid.New\<close> return during one call
  is the record \<open>entropy\<close> (\<open>None\<close>: the source failed). A request runs at one instant
  \<open>now\<close>.
\<close>

section \<open>Audit log\<close>

record Event =
  Ev_Name :: string
  Ev_UserID :: "uuid option"
  Ev_DeviceID :: "uuid option"
  Ev_CircleID :: "uuid option"
  Ev_IP :: string
  Ev_Detail :: "audit_detail option"

definition Event_of :: "string \<Rightarrow> uuid option \<Rightarrow> uuid option \<Rightarrow> uuid option \<Rightarrow> string \<Rightarrow> Event" where
  "Event_of name u v c ip = \<lparr>Ev_Name = name, Ev_UserID = u, Ev_DeviceID = v, Ev_CircleID = c,
     Ev_IP = ip, Ev_Detail = None\<rparr>"

definition strPtrOrNil :: "string \<Rightarrow> string option" where
  "strPtrOrNil s = (if s = [] then None else Some s)"

definition Log :: "bool \<Rightarrow> gotime \<Rightarrow> Event \<Rightarrow> unit q" where
  "Log storeIP now e = WriteAudit now (Ev_Name e) (Ev_UserID e) (Ev_DeviceID e) (Ev_CircleID e)
     (if storeIP \<and> Ev_IP e \<noteq> [] then Some (Ev_IP e) else None) (Ev_Detail e)"

section \<open>The service\<close>

record LockoutPolicy =
  Window :: duration
  EmailThreshold :: nat
  IPThreshold :: nat
  BaseBackoff :: duration
  MaxBackoff :: duration

definition DefaultLockout :: LockoutPolicy where
  "DefaultLockout = \<lparr>Window = 15 * Minute, EmailThreshold = 5, IPThreshold = 50,
     BaseBackoff = 30 * Second, MaxBackoff = 15 * Minute\<rparr>"

record LockStatus =
  Locked :: bool
  RetryAfter :: duration
  Reason :: string

definition not_locked :: LockStatus where
  "not_locked = \<lparr>Locked = False, RetryAfter = 0, Reason = []\<rparr>"

record Service =
  svc_hmac :: "string \<Rightarrow> bytes"
  svc_IDKey :: idkey
  svc_ToLower :: "string \<Rightarrow> string"
  svc_TrimSpace :: "string \<Rightarrow> string"
  svc_ParseAddress :: "string \<Rightarrow> string option"
  svc_accessTTL :: duration
  svc_refreshTTL :: duration
  svc_lockout :: LockoutPolicy
  svc_argonParams :: Argon2Params
  svc_storeIP :: bool

record entropy =
  ent_user :: uuid
  ent_device :: uuid
  ent_session :: uuid
  ent_access :: "string option"
  ent_refresh :: "string option"
  ent_salt :: "bytes option"

datatype autherr = ErrInvalidEmail | ErrWeakPassword | ErrPasswordTooLong | ErrInvalidPlatform
  | ErrInvalidPubkey | ErrEmailTaken | ErrInvalidCredentials | ErrRefreshInvalid | ErrRefreshReused
  | ErrUnauthorized | ErrDeviceNotFound | LockedError duration string
  | StoreErr dberr | CryptoErr crypto_err

type_synonym 'a auth = "db \<Rightarrow> (autherr + 'a) \<times> db"

record AuthResult =
  Res_User :: "User option"
  Res_Device :: "Device option"
  Res_Session :: Session
  Res_AccessToken :: string
  Res_RefreshToken :: string
  Res_AccessExpiresAt :: gotime
  Res_RefreshExpiresAt :: gotime

text \<open>A store call whose error is returned as it is.\<close>

definition store :: "'a q \<Rightarrow> ('a \<Rightarrow> 'b auth) \<Rightarrow> 'b auth" where
  "store m k = tryq m (\<lambda>e. fail (StoreErr e)) k"

definition hex_digit :: "nat \<Rightarrow> char" where
  "hex_digit n = (if n < 10 then char_of (48 + n) else char_of (87 + n))"

definition hex_EncodeToString :: "bytes \<Rightarrow> string" where
  "hex_EncodeToString bs = concat (map (\<lambda>b. [hex_digit (unat b div 16), hex_digit (unat b mod 16)]) bs)"

definition HashToken :: "Service \<Rightarrow> string \<Rightarrow> string" where
  "HashToken s tok = hex_EncodeToString (svc_hmac s tok)"

section \<open>lockout.go\<close>

definition backoff :: "LockoutPolicy \<Rightarrow> int \<Rightarrow> duration" where
  "backoff p over0 = (let over = (if over0 < 1 then 1 else over0) in
     if over > 20 then MaxBackoff p
     else let d = i64 (BaseBackoff p * 2 ^ nat (over - 1)) in
       if d > MaxBackoff p \<or> d \<le> 0 then MaxBackoff p else d)"

definition lock_after :: "LockoutPolicy \<Rightarrow> nat \<Rightarrow> nat \<Rightarrow> string \<Rightarrow> LockStatus" where
  "lock_after p fails threshold reason =
     \<lparr>Locked = True, RetryAfter = backoff p (int fails - int threshold + 1), Reason = reason\<rparr>"

definition checkLockout :: "Service \<Rightarrow> gotime \<Rightarrow> string \<Rightarrow> string \<Rightarrow> LockStatus auth" where
  "checkLockout s now email ip = (let p = svc_lockout s in
     store (CountRecentFailuresByEmail now email (Window p)) (\<lambda>emailFails.
       if emailFails \<ge> EmailThreshold p
       then ret (lock_after p emailFails (EmailThreshold p) ''too many failed attempts for this account'')
       else if ip \<noteq> []
       then store (CountRecentFailuresByIP now ip (Window p)) (\<lambda>ipFails.
         if ipFails \<ge> IPThreshold p
         then ret (lock_after p ipFails (IPThreshold p) ''too many failed attempts from this network'')
         else ret not_locked)
       else ret not_locked))"

definition recordAttempt :: "Service \<Rightarrow> gotime \<Rightarrow> string \<Rightarrow> string \<Rightarrow> bool \<Rightarrow> unit q" where
  "recordAttempt s now email ip success =
     RecordLoginAttempt now (Some email) (strPtrOrNil (if svc_storeIP s then ip else [])) success"

section \<open>validate.go\<close>

definition normalizeEmail :: "Service \<Rightarrow> string \<Rightarrow> string" where
  "normalizeEmail s email = svc_ToLower s (svc_TrimSpace s email)"

definition validateEmail :: "Service \<Rightarrow> string \<Rightarrow> autherr + string" where
  "validateEmail s email = (let e = normalizeEmail s email in
     if e = [] \<or> length e > 254 then Inl ErrInvalidEmail
     else if svc_ParseAddress s e \<noteq> Some e then Inl ErrInvalidEmail
     else Inr e)"

text \<open>\<^verbatim>\<open>utf8.ValidString\<close>: the length a lead byte announces and the range of its second byte.\<close>

definition utf8_tail :: "nat \<Rightarrow> nat" where
  "utf8_tail a = (if 194 \<le> a \<and> a \<le> 223 then 1 else if 224 \<le> a \<and> a \<le> 239 then 2
     else if 240 \<le> a \<and> a \<le> 244 then 3 else 0)"

definition utf8_second :: "nat \<Rightarrow> nat \<Rightarrow> bool" where
  "utf8_second a b \<longleftrightarrow> (if a = 224 then 160 else if a = 240 then 144 else 128) \<le> b \<and>
     b \<le> (if a = 237 then 159 else if a = 244 then 143 else 191)"

fun valid_utf8 :: "nat list \<Rightarrow> bool" where
  "valid_utf8 [] = True"
| "valid_utf8 (a # r) = (if a < 128 then valid_utf8 r
     else let n = utf8_tail a in
       n \<noteq> 0 \<and> n \<le> length r \<and> utf8_second a (hd r) \<and>
       list_all (\<lambda>b. 128 \<le> b \<and> b \<le> 191) (take n r) \<and> valid_utf8 (drop n r))"

definition validatePassword :: "string \<Rightarrow> autherr option" where
  "validatePassword pw =
     (if \<not> valid_utf8 (map of_char pw) then Some ErrWeakPassword
      else if length pw < 8 then Some ErrWeakPassword
      else if length pw > 1024 then Some ErrPasswordTooLong
      else None)"

definition validatePlatform :: "string \<Rightarrow> autherr option" where
  "validatePlatform p =
     (if p \<in> {''android'', ''ios'', ''web'', ''web-mobile''} then None else Some ErrInvalidPlatform)"

definition PublicKeyLength :: nat where "PublicKeyLength = 32"

text \<open>A nil byte slice is \<open>None\<close>.\<close>

definition pk_len :: "bytes option \<Rightarrow> nat" where
  "pk_len pk = (case pk of None \<Rightarrow> 0 | Some b \<Rightarrow> length b)"

definition validatePubkey :: "bytes option \<Rightarrow> autherr option" where
  "validatePubkey pk =
     (if pk_len pk \<noteq> 0 \<and> pk_len pk \<noteq> PublicKeyLength then Some ErrInvalidPubkey else None)"

section \<open>service.go\<close>

definition check :: "autherr option \<Rightarrow> 'b auth \<Rightarrow> 'b auth" where
  "check v k = (case v of Some e \<Rightarrow> fail e | None \<Rightarrow> k)"

definition issueSession :: "Service \<Rightarrow> gotime \<Rightarrow> entropy \<Rightarrow> User \<Rightarrow> Device \<Rightarrow> AuthResult auth" where
  "issueSession s now ent user device =
     (case ent_access ent of None \<Rightarrow> fail (CryptoErr ErrRand)
      | Some access \<Rightarrow> (case ent_refresh ent of None \<Rightarrow> fail (CryptoErr ErrRand)
      | Some refresh \<Rightarrow>
          let accessExp = now + svc_accessTTL s; refreshExp = now + svc_refreshTTL s in
          store (CreateSession now (ent_session ent) (User_ID user) (Device_ID device)
                   (HashToken s access) (HashToken s refresh) accessExp refreshExp)
            (\<lambda>session. ret \<lparr>Res_User = Some user, Res_Device = Some device, Res_Session = session,
               Res_AccessToken = access, Res_RefreshToken = refresh,
               Res_AccessExpiresAt = accessExp, Res_RefreshExpiresAt = refreshExp\<rparr>)))"

record RegisterInput =
  Reg_Email :: string
  Reg_Password :: string
  Reg_Platform :: string
  Reg_DisplayName :: string
  Reg_Pubkey :: "bytes option"
  Reg_IP :: string

definition Register :: "Service \<Rightarrow> gotime \<Rightarrow> entropy \<Rightarrow> RegisterInput \<Rightarrow> AuthResult auth" where
  "Register s now ent inp =
     (case validateEmail s (Reg_Email inp) of Inl e \<Rightarrow> fail e | Inr email \<Rightarrow>
      check (validatePassword (Reg_Password inp)) (
      check (validatePlatform (Reg_Platform inp)) (
      check (validatePubkey (Reg_Pubkey inp)) (
      store (EmailExists email) (\<lambda>exists.
        if exists then fail ErrEmailTaken
        else case HashPasswordWithParams (svc_IDKey s) (ent_salt ent) (Reg_Password inp) (svc_argonParams s) of
          Inl e \<Rightarrow> fail (CryptoErr e)
        | Inr hash \<Rightarrow>
            bindm (withSQLiteTx StoreErr
              (store (CreateUser now (ent_user ent) email hash) (\<lambda>user.
               store (CreateDevice now (ent_device ent) (User_ID user) (Reg_Platform inp)
                        (strPtrOrNil (Reg_DisplayName inp)) (Reg_Pubkey inp)) (\<lambda>device.
               issueSession s now ent user device))))
            (\<lambda>res. run (Log (svc_storeIP s) now (Event_of ''register''
                 (map_option User_ID (Res_User res)) (map_option Device_ID (Res_Device res)) None (Reg_IP inp)))
               (ret res)))))))"

record LoginInput =
  In_Email :: string
  In_Password :: string
  In_Platform :: string
  In_DisplayName :: string
  In_DeviceID :: "uuid option"
  In_Pubkey :: "bytes option"
  In_IP :: string

definition resolveOrCreateDevice :: "gotime \<Rightarrow> entropy \<Rightarrow> User \<Rightarrow> LoginInput \<Rightarrow> Device auth" where
  "resolveOrCreateDevice now ent user inp =
     (let create = store (CreateDevice now (ent_device ent) (User_ID user) (In_Platform inp)
                     (strPtrOrNil (In_DisplayName inp)) (In_Pubkey inp)) ret in
      case In_DeviceID inp of
        Some did \<Rightarrow> tryq (GetDeviceForUser did (User_ID user))
          (\<lambda>e. if IsNotFound e then fail ErrDeviceNotFound else fail (StoreErr e))
          (\<lambda>device. if pk_len (In_Pubkey inp) = PublicKeyLength \<and> pk_len (Device_Pubkey device) = 0
             then store (SetDevicePubkey (Device_ID device) (In_Pubkey inp))
               (\<lambda>_. ret (device\<lparr>Device_Pubkey := In_Pubkey inp\<rparr>))
             else ret device)
      | None \<Rightarrow>
          if pk_len (In_Pubkey inp) = PublicKeyLength
          then store (ListDevicesForUser (User_ID user)) (\<lambda>existing.
            case List.find (\<lambda>v. Device_Pubkey v = In_Pubkey inp) existing of
              Some v \<Rightarrow> ret v | None \<Rightarrow> create)
          else create)"

text \<open>The two steps of \<^verbatim>\<open>Login\<close> after the password was accepted.\<close>

definition login_rehash :: "Service \<Rightarrow> gotime \<Rightarrow> entropy \<Rightarrow> User \<Rightarrow> LoginInput \<Rightarrow> bool \<Rightarrow> unit q" where
  "login_rehash s now ent user inp needsRehash =
     (if needsRehash
      then (case HashPasswordWithParams (svc_IDKey s) (ent_salt ent) (In_Password inp) (svc_argonParams s) of
          Inl _ \<Rightarrow> ret ()
        | Inr nh \<Rightarrow> UpdateUserPassword now (User_ID user) nh)
      else ret ())"

definition login_finish :: "Service \<Rightarrow> gotime \<Rightarrow> entropy \<Rightarrow> User \<Rightarrow> LoginInput \<Rightarrow> AuthResult auth" where
  "login_finish s now ent user inp =
     bindm (withSQLiteTx StoreErr
        (bindm (resolveOrCreateDevice now ent user inp) (\<lambda>device. issueSession s now ent user device)))
     (\<lambda>res. run (Log (svc_storeIP s) now (Event_of ''login''
          (map_option User_ID (Res_User res)) (map_option Device_ID (Res_Device res)) None (In_IP inp)))
        (ret res))"

definition Login :: "Service \<Rightarrow> gotime \<Rightarrow> entropy \<Rightarrow> LoginInput \<Rightarrow> AuthResult auth" where
  "Login s now ent inp =
     (let email = normalizeEmail s (In_Email inp) in
      check (validatePlatform (In_Platform inp)) (
      check (validatePubkey (In_Pubkey inp)) (
      bindm (checkLockout s now email (In_IP inp)) (\<lambda>lock.
      if Locked lock then fail (LockedError (RetryAfter lock) (Reason lock))
      else tryq (GetUserByEmail email)
        (\<lambda>e. if IsNotFound e
           then run (recordAttempt s now email (In_IP inp) False)
                (run (Log (svc_storeIP s) now ((Event_of ''login_failed'' None None None (In_IP inp))
                        \<lparr>Ev_Detail := Some (DetailEmail email)\<rparr>))
                (fail ErrInvalidCredentials))
           else fail (StoreErr e))
        (\<lambda>user. case VerifyPassword (svc_IDKey s) (User_PassHash user) (In_Password inp) of
             Inl e \<Rightarrow> fail (CryptoErr e)
           | Inr (ok, needsRehash) \<Rightarrow>
               if \<not> ok
               then run (recordAttempt s now email (In_IP inp) False)
                    (run (Log (svc_storeIP s) now
                       (Event_of ''login_failed'' (Some (User_ID user)) None None (In_IP inp)))
                    (fail ErrInvalidCredentials))
               else run (login_rehash s now ent user inp needsRehash)
                    (run (recordAttempt s now email (In_IP inp) True)
                    (login_finish s now ent user inp)))))))"

text \<open>
  \<^verbatim>\<open>Refresh\<close> from the point where the session was found: the compare-and-swap. Separate from
  the lookup because another request can run in between.
\<close>

definition refresh_rotate :: "Service \<Rightarrow> gotime \<Rightarrow> entropy \<Rightarrow> string \<Rightarrow> string \<Rightarrow> Session \<Rightarrow> AuthResult auth" where
  "refresh_rotate s now ent hash ip session =
     (case ent_access ent of None \<Rightarrow> fail (CryptoErr ErrRand)
      | Some access \<Rightarrow> (case ent_refresh ent of None \<Rightarrow> fail (CryptoErr ErrRand)
      | Some newRefresh \<Rightarrow>
          let accessExp = now + svc_accessTTL s; refreshExp = now + svc_refreshTTL s in
          tryq (RotateSession now (Session_ID session) (HashToken s access) (HashToken s newRefresh)
                  accessExp refreshExp hash)
            (\<lambda>e. if IsNotFound e
               then run (RevokeSession now (Session_ID session))
                    (run (Log (svc_storeIP s) now (Event_of ''refresh_reuse_detected''
                        (Some (Session_UserID session)) (Some (Session_DeviceID session)) None ip))
                    (fail ErrRefreshReused))
               else fail (StoreErr e))
            (\<lambda>rotated. run (Log (svc_storeIP s) now (Event_of ''token_refresh''
                 (Some (Session_UserID rotated)) (Some (Session_DeviceID rotated)) None ip))
               (ret \<lparr>Res_User = None, Res_Device = None, Res_Session = rotated,
                  Res_AccessToken = access, Res_RefreshToken = newRefresh,
                  Res_AccessExpiresAt = accessExp, Res_RefreshExpiresAt = refreshExp\<rparr>))))"

definition refresh_unknown :: "Service \<Rightarrow> gotime \<Rightarrow> string \<Rightarrow> string \<Rightarrow> AuthResult auth" where
  "refresh_unknown s now hash ip = tryq (GetSessionByPrevRefreshHash hash)
     (\<lambda>_. fail ErrRefreshInvalid)
     (\<lambda>reused. run (RevokeSession now (Session_ID reused))
        (run (Log (svc_storeIP s) now (Event_of ''refresh_reuse_detected''
            (Some (Session_UserID reused)) (Some (Session_DeviceID reused)) None ip))
        (fail ErrRefreshReused)))"

definition Refresh :: "Service \<Rightarrow> gotime \<Rightarrow> entropy \<Rightarrow> string \<Rightarrow> string \<Rightarrow> AuthResult auth" where
  "Refresh s now ent refreshToken ip =
     (if refreshToken = [] then fail ErrRefreshInvalid
      else let hash = HashToken s refreshToken in
        tryq (GetSessionByRefreshHash now hash)
          (\<lambda>e. if IsNotFound e then refresh_unknown s now hash ip else fail (StoreErr e))
          (\<lambda>session. refresh_rotate s now ent hash ip session))"

definition Resolve :: "Service \<Rightarrow> gotime \<Rightarrow> string \<Rightarrow> (uuid \<times> uuid \<times> uuid) auth" where
  "Resolve s now accessToken =
     (if accessToken = [] then fail ErrUnauthorized
      else tryq (GetSessionByAccessHash now (HashToken s accessToken))
        (\<lambda>e. if IsNotFound e then fail ErrUnauthorized else fail (StoreErr e))
        (\<lambda>session. ret (Session_UserID session, Session_DeviceID session, Session_ID session)))"

definition Logout :: "Service \<Rightarrow> gotime \<Rightarrow> uuid \<Rightarrow> uuid \<Rightarrow> string \<Rightarrow> unit auth" where
  "Logout s now sessionID userID ip = store (RevokeSession now sessionID) (\<lambda>_.
     run (Log (svc_storeIP s) now (Event_of ''logout'' (Some userID) None None ip)) (ret ()))"

definition RevokeDevice :: "Service \<Rightarrow> gotime \<Rightarrow> uuid \<Rightarrow> uuid \<Rightarrow> string \<Rightarrow> unit auth" where
  "RevokeDevice s now userID deviceID ip = tryq (GetDeviceForUser deviceID userID)
     (\<lambda>e. if IsNotFound e then fail ErrDeviceNotFound else fail (StoreErr e))
     (\<lambda>device. store (RevokeSessionsForDevice now (Device_ID device)) (\<lambda>_.
        run (Log (svc_storeIP s) now (Event_of ''session_revoked'' (Some userID)
              (Some (Device_ID device)) None ip))
        (ret ())))"

section \<open>middleware.go\<close>

text \<open>The prefix is compared with ASCII case folding (the six letters and the blank).\<close>

definition BearerToken :: "Service \<Rightarrow> string \<Rightarrow> string" where
  "BearerToken s h = (let prefix = ''Bearer '' in
     if length h > length prefix \<and> nocase (take (length prefix) h) = nocase prefix
     then svc_TrimSpace s (drop (length prefix) h) else [])"

definition RequireAuth :: "Service \<Rightarrow> gotime \<Rightarrow> string \<Rightarrow> string option \<Rightarrow> (uuid \<times> uuid \<times> uuid) auth" where
  "RequireAuth s now authorization cookie =
     (let token = BearerToken s authorization;
          token' = (if token = [] then (case cookie of None \<Rightarrow> [] | Some c \<Rightarrow> c) else token) in
      tryq (Resolve s now token') (\<lambda>_. fail ErrUnauthorized) ret)"

section \<open>Invariants of the tables\<close>

lemma pres_store [pres_rules]: "pres I m \<Longrightarrow> (\<And>x. pres I (k x)) \<Longrightarrow> pres I (store m k)"
  unfolding store_def by (intro pres_rules)

lemma pres_check [pres_rules]: "pres I k \<Longrightarrow> pres I (check v k)"
  unfolding check_def by (cases v) (auto intro: pres_rules)

lemma reads_ok [pres_rules]:
  assumes "tables_only I"
  shows "pres I (CountRecentFailuresByEmail now e w)" and "pres I (CountRecentFailuresByIP now ip w)"
    and "pres I (EmailExists e)" and "pres I (GetUserByEmail e)" and "pres I (GetUserByID i)"
    and "pres I (GetDeviceForUser i u)" and "pres I (ListDevicesForUser u)"
    and "pres I (GetSessionByRefreshHash now h)" and "pres I (GetSessionByPrevRefreshHash h)"
    and "pres I (GetSessionByAccessHash now h)"
  using assms unfolding CountRecentFailuresByEmail_def CountRecentFailuresByIP_def EmailExists_def
    GetUserByEmail_def GetUserByID_def GetDeviceForUser_def ListDevicesForUser_def
    GetSessionByRefreshHash_def GetSessionByPrevRefreshHash_def GetSessionByAccessHash_def
  by (intro pres_rules; assumption)+

lemma checkLockout_ok [pres_rules]: "tables_only I \<Longrightarrow> pres I (checkLockout s now e ip)"
  unfolding checkLockout_def Let_def by (intro pres_rules)

lemma Resolve_ok [pres_rules]: "tables_only I \<Longrightarrow> pres I (Resolve s now tok)"
  unfolding Resolve_def by (intro pres_rules)

lemma RequireAuth_ok [pres_rules]: "tables_only I \<Longrightarrow> pres I (RequireAuth s now h c)"
  unfolding RequireAuth_def Let_def by (intro pres_rules)

text \<open>
  The interface between the service and the store: whatever invariant of the tables the
  statements on accounts, devices, sessions, attempts and the audit log keep, every
  operation of the service keeps, its failures included.
\<close>

locale identity_invariant =
  fixes I :: "db \<Rightarrow> bool"
  assumes tables [simp, pres_rules]: "tables_only I"
    and CreateUser_inv [pres_rules]: "pres I (CreateUser now i email h)"
    and UpdateUserPassword_inv [pres_rules]: "pres I (UpdateUserPassword now i h)"
    and CreateDevice_inv [pres_rules]: "pres I (CreateDevice now i u pf nm pk)"
    and SetDevicePubkey_inv [pres_rules]: "pres I (SetDevicePubkey i pk)"
    and TouchDevice_inv [pres_rules]: "pres I (TouchDevice now i)"
    and CreateSession_inv [pres_rules]: "pres I (CreateSession now i u v ah rh ae re)"
    and RotateSession_inv [pres_rules]: "pres I (RotateSession now i ah rh ae re old)"
    and RevokeSession_inv [pres_rules]: "pres I (RevokeSession now i)"
    and RevokeSessionsForDevice_inv [pres_rules]: "pres I (RevokeSessionsForDevice now v)"
    and RecordLoginAttempt_inv [pres_rules]: "pres I (RecordLoginAttempt now e ip ok)"
    and WriteAudit_inv [pres_rules]: "pres I (WriteAudit now ev u' v' c' ip det)"
begin

lemma Log_inv [pres_rules]: "pres I (Log b now e)"
  unfolding Log_def by (intro pres_rules)

lemma recordAttempt_inv [pres_rules]: "pres I (recordAttempt s now e ip ok)"
  unfolding recordAttempt_def by (intro pres_rules)

lemma issueSession_inv [pres_rules]: "pres I (issueSession s now ent u v)"
  unfolding issueSession_def Let_def by (intro pres_rules)

lemma Register_inv [pres_rules]: "pres I (Register s now ent inp)"
  unfolding Register_def by (intro pres_rules)

lemma resolveOrCreateDevice_inv [pres_rules]: "pres I (resolveOrCreateDevice now ent u inp)"
  unfolding resolveOrCreateDevice_def Let_def by (intro pres_rules)

lemma login_rehash_inv [pres_rules]: "pres I (login_rehash s now ent u inp b)"
  unfolding login_rehash_def by (intro pres_rules)

lemma login_finish_inv [pres_rules]: "pres I (login_finish s now ent u inp)"
  unfolding login_finish_def by (intro pres_rules)

lemma Login_inv [pres_rules]: "pres I (Login s now ent inp)"
  unfolding Login_def Let_def by (intro pres_rules)

lemma refresh_rotate_inv [pres_rules]: "pres I (refresh_rotate s now ent h ip x)"
  unfolding refresh_rotate_def Let_def by (intro pres_rules)

lemma refresh_unknown_inv [pres_rules]: "pres I (refresh_unknown s now h ip)"
  unfolding refresh_unknown_def by (intro pres_rules)

lemma Refresh_inv [pres_rules]: "pres I (Refresh s now ent tok ip)"
  unfolding Refresh_def Let_def by (intro pres_rules)

lemma Logout_inv [pres_rules]: "pres I (Logout s now i u ip)"
  unfolding Logout_def by (intro pres_rules)

lemma RevokeDevice_inv [pres_rules]: "pres I (RevokeDevice s now u v ip)"
  unfolding RevokeDevice_def by (intro pres_rules)

end

interpretation schema: identity_invariant db_ok
  by unfold_locales (rule pres_rules)+

section \<open>Errors\<close>

lemma errs_store [err_rules]: "range StoreErr \<subseteq> E \<Longrightarrow> (\<And>x. errs E (k x)) \<Longrightarrow> errs E (store m k)"
  unfolding store_def by (intro err_rules) auto

definition internal_errs :: "autherr set" where
  "internal_errs = range StoreErr \<union> range CryptoErr"

lemma internal_errs [simp]:
  "range StoreErr \<subseteq> internal_errs" "range StoreErr \<subseteq> insert e internal_errs" "StoreErr x \<in> internal_errs"
  "CryptoErr y \<in> internal_errs"
  by (auto simp: internal_errs_def)

lemma checkLockout_errs: "errs internal_errs (checkLockout s now e ip)"
  unfolding checkLockout_def Let_def by (intro err_rules) simp_all

lemma issueSession_errs: "errs internal_errs (issueSession s now ent u v)"
  unfolding issueSession_def Let_def by (intro err_rules) simp_all

lemma resolveOrCreateDevice_errs:
  "errs (insert ErrDeviceNotFound internal_errs) (resolveOrCreateDevice now ent u inp)"
  unfolding resolveOrCreateDevice_def Let_def by (intro err_rules) simp_all

lemma errs_mono: "errs E m \<Longrightarrow> E \<subseteq> F \<Longrightarrow> errs F m"
  by (auto simp: errs_def)

lemma validate_errs:
  "validatePlatform p = Some e \<Longrightarrow> e = ErrInvalidPlatform"
  "validatePubkey k = Some e \<Longrightarrow> e = ErrInvalidPubkey"
  by (auto simp: validatePlatform_def validatePubkey_def split: if_splits)

lemma login_finish_errs: "errs (insert ErrDeviceNotFound internal_errs) (login_finish s now ent user inp)"
  unfolding login_finish_def
  by (intro err_rules resolveOrCreateDevice_errs errs_mono [OF issueSession_errs]) auto

end
