(* ===== verification/Aul_Auth_Lockout.thy ===== *)
theory Aul_Auth_Lockout
  imports Aul_Auth
begin

text \<open>
  Brute-force protection: the lockout back-off, what a failed login records, and that the
  threshold of failures inside the window locks the account.
\<close>

lemmas auth_run_defs = store_def tryq_def run_def ret_def fail_def bindm_def check_def

section \<open>Back-off\<close>

lemma backoff_default:
  "backoff DefaultLockout n = min (15 * Minute) (30 * Second * 2 ^ nat (max n 1 - 1))"
proof -
  let ?over = "max n 1"
  have over: "(if n < 1 then 1 else n) = ?over" by simp
  show ?thesis
  proof (cases "?over > 20")
    case True
    then have "20 \<le> nat (?over - 1)" by simp
    then have "(2::int) ^ 20 \<le> 2 ^ nat (?over - 1)" by (intro power_increasing) simp_all
    then have "15 * Minute \<le> 30 * Second * 2 ^ nat (?over - 1)" by (simp add: duration_defs)
    moreover have "backoff DefaultLockout n = 15 * Minute"
      using True by (auto simp: backoff_def Let_def DefaultLockout_def max_def split: if_splits)
    ultimately show ?thesis by simp
  next
    case False
    then have "nat (?over - 1) \<le> 19" by simp
    then have le: "(2::int) ^ nat (?over - 1) \<le> 2 ^ 19" by (intro power_increasing) simp_all
    have pos: "(1::int) \<le> 2 ^ nat (?over - 1)" by simp
    have "in_i64 (30 * Second * x)" if "1 \<le> x" "x \<le> 2 ^ 19" for x
      using that by (simp add: in_i64_def duration_defs)
    then have "in_i64 (30 * Second * 2 ^ nat (?over - 1))" using le pos by blast
    then show ?thesis using False pos unfolding backoff_def over Let_def
      by (simp add: DefaultLockout_def min_def duration_defs) (simp add: in_i64_def)
  qed
qed

section \<open>Failed logins\<close>

lemma recordAttempt_run:
  "faults d = [] \<Longrightarrow> recordAttempt s now e ip ok d = (Inr (), d\<lparr>login_attempts := login_attempts d @
     [\<lparr>Attempt_ID = Suc (sequence_login_attempts d), Attempt_Email = Some e,
       Attempt_Ip = strPtrOrNil (if svc_storeIP s then ip else []), Attempt_Success = ok,
       Attempt_CreatedAt = tv now\<rparr>], sequence_login_attempts := Suc (sequence_login_attempts d)\<rparr>)"
  by (simp add: recordAttempt_def RecordLoginAttempt_def)

text \<open>Writing the audit log touches neither the attempts nor the failure schedule.\<close>

lemma Log_frame [simp]:
  assumes "faults d = []"
  shows "faults (snd (Log b now e d)) = []" "login_attempts (snd (Log b now e d)) = login_attempts d"
    "users (snd (Log b now e d)) = users d" "devices (snd (Log b now e d)) = devices d"
    "sessions (snd (Log b now e d)) = sessions d" "fst (Log b now e d) = Inr ()"
  using assms by (simp_all add: Log_def WriteAudit_def)

lemma checkLockout_run:
  assumes "faults d = []"
  shows "snd (checkLockout s now e ip d) = d"
  using assms by (simp add: checkLockout_def Let_def auth_run_defs CountRecentFailuresByEmail_def
      CountRecentFailuresByIP_def)

definition email_failures :: "db \<Rightarrow> gotime \<Rightarrow> string \<Rightarrow> duration \<Rightarrow> nat" where
  "email_failures d now email window = length (filter (\<lambda>a. attempt_email_is email a \<and>
     \<not> Attempt_Success a \<and> Attempt_CreatedAt a > tv (now - window) \<and>
     Attempt_CreatedAt a > last_success email (login_attempts d)) (login_attempts d))"

lemma checkLockout_email:
  assumes "faults d = []" and "email_failures d now e (Window (svc_lockout s)) \<ge> EmailThreshold (svc_lockout s)"
  shows "checkLockout s now e ip d = (Inr (lock_after (svc_lockout s)
     (email_failures d now e (Window (svc_lockout s))) (EmailThreshold (svc_lockout s))
     ''too many failed attempts for this account''), d)"
  using assms by (simp add: checkLockout_def Let_def auth_run_defs CountRecentFailuresByEmail_def
      email_failures_def)

text \<open>A login that is refused for its credentials records exactly one failure.\<close>

lemma Login_failed_records:
  assumes "faults d = []" and "Login s now ent inp d = (Inl ErrInvalidCredentials, d')"
  shows "faults d' = [] \<and> sessions d' = sessions d \<and> users d' = users d \<and> (\<exists>a. login_attempts d' = login_attempts d @ [a] \<and>
     Attempt_Email a = Some (normalizeEmail s (In_Email inp)) \<and> \<not> Attempt_Success a \<and>
     Attempt_CreatedAt a = tv now)"
proof -
  let ?e = "normalizeEmail s (In_Email inp)"
  let ?rec = "snd (recordAttempt s now ?e (In_IP inp) False d)"
  have "\<exists>ev. d' = snd (Log (svc_storeIP s) now ev ?rec)"
    using assms checkLockout_run [OF assms(1), of s now ?e "In_IP inp"]
    by (auto simp: Login_def Let_def auth_run_defs GetUserByEmail_def internal_errs_def
        split: option.splits if_splits sum.splits prod.splits
        dest!: validate_errs errsD [OF checkLockout_errs] errsD [OF login_finish_errs])
  then show ?thesis using assms(1) by (auto simp: recordAttempt_run)
qed

section \<open>Runs of login attempts\<close>

type_synonym login_call = "gotime \<times> entropy \<times> LoginInput"

fun logins :: "Service \<Rightarrow> login_call list \<Rightarrow> db \<Rightarrow> (autherr + AuthResult) list \<times> db" where
  "logins s [] d = ([], d)"
| "logins s ((now, ent, inp) # cs) d =
     (case Login s now ent inp d of (r, d1) \<Rightarrow> (case logins s cs d1 of (rs, d2) \<Rightarrow> (r # rs, d2)))"

text \<open>The recorded failures of one account that are newer than \<open>t\<close>.\<close>

definition failures_after :: "string \<Rightarrow> sqltime \<Rightarrow> LoginAttempt list \<Rightarrow> LoginAttempt list" where
  "failures_after email t as = filter (\<lambda>a. attempt_email_is email a \<and> \<not> Attempt_Success a \<and>
     Attempt_CreatedAt a > t) as"

lemma last_success_append_failure:
  "\<not> Attempt_Success a \<Longrightarrow> last_success email (as @ [a]) = last_success email as"
  by (simp add: last_success_def)

lemma failed_run:
  assumes "faults d = []" and "logins s cs d = (rs, d')" and "\<forall>r\<in>set rs. r = Inl ErrInvalidCredentials"
    and "\<forall>(now, ent, inp)\<in>set cs. normalizeEmail s (In_Email inp) = email \<and> tv now > t"
  shows "faults d' = [] \<and> last_success email (login_attempts d') = last_success email (login_attempts d) \<and>
    sessions d' = sessions d \<and>
    length (failures_after email t (login_attempts d')) =
      length (failures_after email t (login_attempts d)) + length cs"
  using assms
proof (induction cs arbitrary: d rs)
  case Nil
  then show ?case by simp
next
  case (Cons c cs)
  obtain now ent inp where c: "c = (now, ent, inp)" by (cases c)
  obtain r d1 where l: "Login s now ent inp d = (r, d1)" by (cases "Login s now ent inp d")
  obtain rs1 d2 where l2: "logins s cs d1 = (rs1, d2)" by (cases "logins s cs d1")
  have rs: "rs = r # rs1" and d': "d' = d2" using Cons.prems(2) c l l2 by simp_all
  have "r = Inl ErrInvalidCredentials" using Cons.prems(3) rs by simp
  then obtain a where f: "faults d1 = []" and ss: "sessions d1 = sessions d"
    and a: "login_attempts d1 = login_attempts d @ [a]" "Attempt_Email a = Some email"
      "\<not> Attempt_Success a" "Attempt_CreatedAt a = tv now"
    using Login_failed_records [OF Cons.prems(1), of s now ent inp d1] l Cons.prems(4) c by auto
  have "tv now > t" using Cons.prems(4) c by auto
  then have "length (failures_after email t (login_attempts d1)) =
      Suc (length (failures_after email t (login_attempts d)))"
    using a by (simp add: failures_after_def attempt_email_is_def)
  with Cons.IH [OF f l2 [folded d']] Cons.prems(3,4) rs a ss show ?case
    by (simp add: last_success_append_failure)
qed

text \<open>
  Reaching the threshold: enough refused attempts inside the window, none of them before the
  last success, lock the account whatever the next attempt presents.
\<close>

lemma locked_after_failures:
  assumes d: "faults d = []" and run: "logins s cs d = (rs, d')"
    and refused: "\<forall>r\<in>set rs. r = Inl ErrInvalidCredentials"
    and times: "\<forall>(t, _, inp)\<in>set cs. normalizeEmail s (In_Email inp) = normalizeEmail s (In_Email next) \<and>
      tv t > tv (now - Window (svc_lockout s)) \<and>
      tv t > last_success (normalizeEmail s (In_Email next)) (login_attempts d)"
    and enough: "EmailThreshold (svc_lockout s) \<le> length cs"
    and valid: "validatePlatform (In_Platform next) = None" "validatePubkey (In_Pubkey next) = None"
  shows "\<exists>retry. Login s now ent next d' =
     (Inl (LockedError retry ''too many failed attempts for this account''), d')"
proof -
  let ?e = "normalizeEmail s (In_Email next)" and ?p = "svc_lockout s"
  let ?t = "max (tv (now - Window ?p)) (last_success ?e (login_attempts d))"
  have "\<forall>(t, _, inp)\<in>set cs. normalizeEmail s (In_Email inp) = ?e \<and> tv t > ?t"
    using times by auto
  from failed_run [OF d run refused this]
  have f: "faults d' = []" and ls: "last_success ?e (login_attempts d') = last_success ?e (login_attempts d)"
    and n: "length cs \<le> length (failures_after ?e ?t (login_attempts d'))" by simp_all
  have "email_failures d' now ?e (Window ?p) = length (failures_after ?e ?t (login_attempts d'))"
    unfolding email_failures_def failures_after_def ls by (simp add: conj_assoc)
  then have "EmailThreshold ?p \<le> email_failures d' now ?e (Window ?p)" using n enough by simp
  from checkLockout_email [OF f this] show ?thesis
    using valid by (simp add: Login_def Let_def auth_run_defs lock_after_def)
qed

end
