(* ===== verification/Aul_Auth_Sessions.thy ===== *)
theory Aul_Auth_Sessions
  imports Aul_Auth_Lockout
begin

text \<open>
  Sessions: what resolves, what registration and login establish, what rotation, revocation
  and reuse detection do, and the race of several refresh requests presenting the same token.
\<close>

section \<open>Resolving access tokens\<close>

lemma Resolve_run:
  "faults d = [] \<Longrightarrow> tok \<noteq> [] \<Longrightarrow> Resolve s now tok d =
     (case List.find (live_access now (HashToken s tok)) (sessions d) of
        None \<Rightarrow> (Inl ErrUnauthorized, d)
      | Some x \<Rightarrow> (Inr (Session_UserID x, Session_DeviceID x, Session_ID x), d))"
  by (auto simp: Resolve_def GetSessionByAccessHash_def auth_run_defs IsNotFound_def split: option.split)

lemma find_live_access:
  assumes "db_ok d" and "x \<in> set (sessions d)" and "live_access now h x"
  shows "List.find (live_access now h) (sessions d) = Some x"
  using db_ok_unique(5) [OF assms(1)] assms(2,3)
  by (rule find_Some_unique) (use assms(3) in \<open>simp add: live_access_def\<close>)

lemma Resolve_live:
  assumes "db_ok d" "faults d = []" "tok \<noteq> []" "x \<in> set (sessions d)" "live_access now (HashToken s tok) x"
  shows "Resolve s now tok d = (Inr (Session_UserID x, Session_DeviceID x, Session_ID x), d)"
  using assms by (simp add: Resolve_run find_live_access [of d x])

lemma Resolve_sound:
  assumes "Resolve s now tok d = (Inr (u, v, i), d')"
  shows "\<exists>x\<in>set (sessions d). live_access now (HashToken s tok) x \<and> Session_UserID x = u \<and>
     Session_DeviceID x = v \<and> Session_ID x = i"
proof -
  obtain r e where g: "GetSessionByAccessHash now (HashToken s tok) d = (r, e)"
    by (cases "GetSessionByAccessHash now (HashToken s tok) d")
  with assms obtain x where r: "r = Inr x" and x: "Session_UserID x = u" "Session_DeviceID x = v"
    "Session_ID x = i"
    by (auto simp: Resolve_def auth_run_defs split: if_splits sum.splits)
  from g [unfolded GetSessionByAccessHash_def query_row_def] have "x \<in> set (sessions d) \<and> live_access now (HashToken s tok) x"
    by (cases rule: stmt_cases) (auto simp: r split: option.splits dest: find_Some_in)
  with x show ?thesis by blast
qed

section \<open>Issued sessions\<close>

lemma issueSession_run:
  assumes d: "db_ok d" "faults d = []" and ok: "issueSession s now ent u v d = (Inr res, d')"
  shows "faults d' = [] \<and> db_ok d' \<and> users d' = users d \<and> devices d' = devices d \<and>
     Res_User res = Some u \<and> Res_Device res = Some v \<and> Res_Session res \<in> set (sessions d') \<and>
     sessions d' = sessions d @ [Res_Session res] \<and>
     Session_UserID (Res_Session res) = User_ID u \<and> Session_DeviceID (Res_Session res) = Device_ID v \<and>
     Session_AccessTokenHash (Res_Session res) = HashToken s (Res_AccessToken res) \<and>
     Session_RefreshTokenHash (Res_Session res) = HashToken s (Res_RefreshToken res) \<and>
     Session_RevokedAt (Res_Session res) = None \<and>
     Session_AccessExpiresAt (Res_Session res) = tv (now + svc_accessTTL s) \<and>
     Session_RefreshExpiresAt (Res_Session res) = tv (now + svc_refreshTTL s)"
proof -
  have "db_ok d'" using presD2 [OF schema.issueSession_inv ok] d(1) by simp
  then show ?thesis using ok d(2)
    by (auto simp: issueSession_def auth_run_defs Let_def CreateSession_def split: option.splits if_splits)
qed

text \<open>
  The tables after a committed transaction: the body ran from the same tables, and without
  scheduled faults the commit changed nothing.
\<close>

lemma tx_run:
  assumes "withSQLiteTx wrap fn d = (Inr x, d')" and "faults d = []"
  shows "\<exists>d2. fn d = (Inr x, d2) \<and> (faults d2 = [] \<longrightarrow> d' = d2)"
proof -
  have "stmt (ret ()) d = (Inr (), d)" using assms(2) by (simp add: ret_def)
  with assms(1) obtain d2 r d3 where f: "fn d = (Inr x, d2)" and c: "stmt (ret ()) d2 = (r, d3)" "d3 = d'"
    by (auto simp: withSQLiteTx_def split: prod.splits sum.splits)
  have "faults d2 = [] \<Longrightarrow> d' = d2" using c by (simp add: ret_def)
  with f show ?thesis by blast
qed

lemma resolveOrCreateDevice_run:
  assumes d: "db_ok d" "faults d = []" and ok: "resolveOrCreateDevice now ent u inp d = (Inr v, d')"
  shows "faults d' = [] \<and> db_ok d' \<and> users d' = users d \<and> sessions d' = sessions d \<and>
    v \<in> set (devices d') \<and> Device_UserID v = User_ID u"
proof -
  have "db_ok d'" using presD2 [OF schema.resolveOrCreateDevice_inv ok] d(1) by simp
  moreover have "v \<in> set (devices d') \<and> Device_UserID v = User_ID u \<and> faults d' = [] \<and> users d' = users d \<and>
      sessions d' = sessions d"
    using ok d(2)
    by (auto simp: resolveOrCreateDevice_def Let_def auth_run_defs GetDeviceForUser_def SetDevicePubkey_def
        ListDevicesForUser_def CreateDevice_def set_update_where image_iff split: option.splits if_splits
        dest!: find_Some_in intro!: bexI)
  ultimately show ?thesis by blast
qed

text \<open>
  A login that succeeds was made with the right password for an account of that address, and
  returns a fresh session of that account on a device of that account.
\<close>

lemma Login_cases:
  assumes d: "faults d = []" and ok: "Login s now ent inp d = (Inr res, d')"
  obtains u rh where "u \<in> set (users d)" and "email_is (normalizeEmail s (In_Email inp)) u"
    and "VerifyPassword (svc_IDKey s) (User_PassHash u) (In_Password inp) = Inr (True, rh)"
    and "login_finish s now ent u inp (snd (recordAttempt s now (normalizeEmail s (In_Email inp)) (In_IP inp) True
      (snd (login_rehash s now ent u inp rh d)))) = (Inr res, d')"
  using ok d checkLockout_run [OF d, of s now "normalizeEmail s (In_Email inp)" "In_IP inp"]
  by (auto simp: Login_def Let_def auth_run_defs GetUserByEmail_def
      split: option.splits if_splits sum.splits prod.splits dest!: find_Some_in)

lemma login_rehash_frame:
  assumes "faults d = []"
  shows "faults (snd (login_rehash s now ent u inp b d)) = []"
    and "sessions (snd (login_rehash s now ent u inp b d)) = sessions d"
  using assms by (auto simp: login_rehash_def ret_def UpdateUserPassword_def split: sum.split)

lemma login_finish_run:
  assumes d: "db_ok d" "faults d = []" and ok: "login_finish s now ent u inp d = (Inr res, d')"
  shows "\<exists>v. Res_User res = Some u \<and> Res_Device res = Some v \<and> v \<in> set (devices d') \<and>
    Device_UserID v = User_ID u \<and> db_ok d' \<and> faults d' = [] \<and>
    sessions d' = sessions d @ [Res_Session res] \<and>
    Session_UserID (Res_Session res) = User_ID u \<and> Session_DeviceID (Res_Session res) = Device_ID v \<and>
    Session_AccessTokenHash (Res_Session res) = HashToken s (Res_AccessToken res) \<and>
    Session_RevokedAt (Res_Session res) = None \<and>
    Session_AccessExpiresAt (Res_Session res) = tv (now + svc_accessTTL s)"
proof -
  let ?body = "bindm (resolveOrCreateDevice now ent u inp) (issueSession s now ent u)"
  obtain dt ev where tx: "withSQLiteTx StoreErr ?body d = (Inr res, dt)"
    and d': "d' = snd (Log (svc_storeIP s) now ev dt)"
    using ok by (auto simp: login_finish_def bindm_def run_def ret_def split: prod.splits sum.splits)
  from tx_run [OF tx d(2)] obtain d2 where body: "?body d = (Inr res, d2)"
    and dt: "faults d2 = [] \<Longrightarrow> dt = d2" by blast
  then obtain v d1 where r: "resolveOrCreateDevice now ent u inp d = (Inr v, d1)"
    and i: "issueSession s now ent u v d1 = (Inr res, d2)"
    by (auto simp: bindm_def split: prod.splits sum.splits)
  note R = resolveOrCreateDevice_run [OF d r]
  note I = issueSession_run [OF _ _ i]
  have "db_ok d'" using presD2 [OF schema.login_finish_inv ok] d(1) by simp
  with R I dt d' show ?thesis by auto
qed

lemma Login_success:
  assumes d: "db_ok d" "faults d = []" and ok: "Login s now ent inp d = (Inr res, d')"
  shows "\<exists>u v rh. Res_User res = Some u \<and> u \<in> set (users d) \<and>
     email_is (normalizeEmail s (In_Email inp)) u \<and>
     VerifyPassword (svc_IDKey s) (User_PassHash u) (In_Password inp) = Inr (True, rh) \<and>
     Res_Device res = Some v \<and> v \<in> set (devices d') \<and> Device_UserID v = User_ID u \<and>
     sessions d' = sessions d @ [Res_Session res] \<and>
     (Res_AccessToken res \<noteq> [] \<and> tv now < tv (now + svc_accessTTL s) \<longrightarrow>
       Resolve s now (Res_AccessToken res) d' = (Inr (User_ID u, Device_ID v, Session_ID (Res_Session res)), d'))"
proof -
  from Login_cases [OF d(2) ok] obtain u rh where u: "u \<in> set (users d)"
    "email_is (normalizeEmail s (In_Email inp)) u"
    "VerifyPassword (svc_IDKey s) (User_PassHash u) (In_Password inp) = Inr (True, rh)"
    and f: "login_finish s now ent u inp (snd (recordAttempt s now (normalizeEmail s (In_Email inp)) (In_IP inp) True
      (snd (login_rehash s now ent u inp rh d)))) = (Inr res, d')" by blast
  let ?d1 = "snd (login_rehash s now ent u inp rh d)"
  let ?d2 = "snd (recordAttempt s now (normalizeEmail s (In_Email inp)) (In_IP inp) True ?d1)"
  have ok2: "db_ok ?d2" using presD [OF schema.recordAttempt_inv] presD [OF schema.login_rehash_inv] d(1) by blast
  have f1: "faults ?d1 = []" "sessions ?d1 = sessions d" using d(2) by (simp_all add: login_rehash_frame)
  then have f2: "faults ?d2 = []" "sessions ?d2 = sessions d" by (simp_all add: recordAttempt_run)
  from login_finish_run [OF ok2 f2(1) f] obtain v where v: "Res_User res = Some u" "Res_Device res = Some v"
    "v \<in> set (devices d')" "Device_UserID v = User_ID u" "db_ok d'" "faults d' = []"
    "sessions d' = sessions d @ [Res_Session res]" "Session_UserID (Res_Session res) = User_ID u"
    "Session_DeviceID (Res_Session res) = Device_ID v"
    "Session_AccessTokenHash (Res_Session res) = HashToken s (Res_AccessToken res)"
    "Session_RevokedAt (Res_Session res) = None"
    "Session_AccessExpiresAt (Res_Session res) = tv (now + svc_accessTTL s)"
    using f2 by auto
  have "Resolve s now (Res_AccessToken res) d' = (Inr (User_ID u, Device_ID v, Session_ID (Res_Session res)), d')"
    if "Res_AccessToken res \<noteq> []" "tv now < tv (now + svc_accessTTL s)"
    using Resolve_live [OF v(5,6) that(1), of "Res_Session res" now s] v that(2)
    by (simp add: live_access_def)
  with u v show ?thesis by blast
qed

text \<open>A registration that fails, for whatever reason, leaves every table as it was.\<close>

lemma query_frame: "query f d = (r, d') \<Longrightarrow> \<exists>bs. d' = d\<lparr>faults := bs\<rparr>"
  unfolding query_def by (erule stmt_cases) auto

lemma Register_failed:
  assumes "Register s now ent inp d = (Inl e, d')"
  shows "\<exists>bs. d' = d\<lparr>faults := bs\<rparr>"
proof -
  have self: "\<exists>bs. d = d\<lparr>faults := bs\<rparr>" by (rule exI [of _ "faults d"]) simp
  have q: "\<exists>bs. d1 = d\<lparr>faults := bs\<rparr>" if "EmailExists email d = (r, d1)" for email r d1
    using that query_frame unfolding EmailExists_def by blast
  have tx: "\<exists>bs. d2 = d\<lparr>faults := bs\<rparr>"
    if "withSQLiteTx StoreErr fn d1 = (Inl x, d2)" "EmailExists email d = (r, d1)"
    for fn :: "AuthResult auth" and email r d1 x d2
    using withSQLiteTx_error [OF that(1)] q [OF that(2)] by auto
  show ?thesis using assms self
    by (auto simp: Register_def auth_run_defs split: sum.splits option.splits if_splits prod.splits
        dest: q tx)
qed

section \<open>Revocation\<close>

lemma RevokeDevice_effect:
  assumes "faults d = []" and "RevokeDevice s now u v ip d = (Inr (), d')"
  shows "sessions d' = update_where (\<lambda>x. Session_DeviceID x = v \<and> Session_RevokedAt x = None) (revoke_at now) (sessions d)"
    and "\<exists>w\<in>set (devices d). Device_ID w = v \<and> Device_UserID w = u"
  using assms
  by (auto simp: RevokeDevice_def GetDeviceForUser_def RevokeSessionsForDevice_def auth_run_defs
      split: option.splits if_splits dest!: find_Some_in)

lemma RevokeDevice_dead:
  assumes "faults d = []" and "RevokeDevice s now u v ip d = (Inr (), d')"
  shows "Resolve s t tok d' \<noteq> (Inr (u', v, i), d'')"
proof
  assume "Resolve s t tok d' = (Inr (u', v, i), d'')"
  from Resolve_sound [OF this] obtain x where x: "x \<in> set (sessions d')" "Session_DeviceID x = v"
    "live_access t (HashToken s tok) x" by blast
  have "\<forall>x\<in>set (sessions d'). Session_DeviceID x = v \<longrightarrow> Session_RevokedAt x \<noteq> None"
    unfolding RevokeDevice_effect(1) [OF assms] by (simp add: ball_update_where revoke_at_def)
  with x show False by (simp add: live_access_def)
qed

end
