(* ===== verification/Aul_Auth_Refresh.thy ===== *)
theory Aul_Auth_Refresh
  imports Aul_Auth_Sessions
begin

text \<open>
  Refresh rotation with reuse detection (\<^verbatim>\<open>Service.Refresh\<close>): a live refresh token is exchanged
  once; presenting it again revokes the session. The second part is the race the
  compare-and-swap in \<^verbatim>\<open>RotateSession\<close> is there for: any number of requests that present the same
  token, interleaved between their lookup and their rotation. One step of the interleaving
  runs one of the two halves of one request.
\<close>

section \<open>One request\<close>

lemma find_live_refresh:
  assumes "db_ok d" and "x \<in> set (sessions d)" and "live_refresh now h x"
  shows "List.find (live_refresh now h) (sessions d) = Some x"
  using db_ok_unique(6) [OF assms(1)] assms(2,3)
  by (rule find_Some_unique) (use assms(3) in \<open>simp add: live_refresh_def\<close>)

lemma find_rotate_target:
  assumes "db_ok d" and "x \<in> set (sessions d)" and "rotate_target i h x"
  shows "List.find (rotate_target i h) (sessions d) = Some x"
  using db_ok_unique(4) [OF assms(1)] assms(2,3)
  by (rule find_Some_unique) (use assms(3) in \<open>simp add: rotate_target_def\<close>)

definition fresh_hashes :: "db \<Rightarrow> string \<Rightarrow> string \<Rightarrow> bool" where
  "fresh_hashes d a r \<longleftrightarrow> (\<forall>t\<in>set (sessions d). Session_AccessTokenHash t \<noteq> a \<and> Session_RefreshTokenHash t \<noteq> r)"

definition rotated :: "Service \<Rightarrow> gotime \<Rightarrow> string \<Rightarrow> string \<Rightarrow> string \<Rightarrow> Session \<Rightarrow> Session" where
  "rotated s now a r tok = rotate_row now (HashToken s a) (HashToken s r) (now + svc_accessTTL s)
     (now + svc_refreshTTL s) (HashToken s tok)"

lemma Refresh_live:
  assumes d: "db_ok d" "faults d = []" and tok: "tok \<noteq> []"
    and x: "x \<in> set (sessions d)" "live_refresh now (HashToken s tok) x"
    and ent: "ent_access ent = Some a" "ent_refresh ent = Some r"
    and fresh: "fresh_hashes d (HashToken s a) (HashToken s r)"
  shows "\<exists>res d'. Refresh s now ent tok ip d = (Inr res, d') \<and> Res_AccessToken res = a \<and>
     Res_RefreshToken res = r \<and> Res_Session res = rotated s now a r tok x \<and>
     faults d' = [] \<and> db_ok d' \<and>
     sessions d' = update_where (\<lambda>t. Session_ID t = Session_ID x) (rotated s now a r tok) (sessions d)"
proof -
  let ?h = "HashToken s tok" and ?i = "Session_ID x"
  have tgt: "rotate_target ?i ?h x" using x(2) by (simp add: live_refresh_def rotate_target_def)
  have same: "rotate_target ?i ?h t = (Session_ID t = ?i)" if "t \<in> set (sessions d)" for t
  proof -
    have "Session_ID t = ?i \<Longrightarrow> t = x"
      using db_ok_unique(4) [OF d(1)] x(1) that by (metis distinct_map inj_onD)
    then show ?thesis using tgt by (auto simp: rotate_target_def)
  qed
  have upd: "update_where (rotate_target ?i ?h) f (sessions d) =
      update_where (\<lambda>t. Session_ID t = ?i) f (sessions d)" for f
    using same by (auto simp: update_where_def)
  have run: "RotateSession now ?i (HashToken s a) (HashToken s r) (now + svc_accessTTL s)
      (now + svc_refreshTTL s) ?h d = (Inr (rotated s now a r tok x), d\<lparr>sessions :=
        update_where (\<lambda>t. Session_ID t = ?i) (rotated s now a r tok) (sessions d)\<rparr>)"
    using d(2) fresh upd find_rotate_target [OF d(1) x(1) tgt]
    by (auto simp: RotateSession_def Let_def rotated_def fresh_hashes_def)
  have look: "GetSessionByRefreshHash now ?h d = (Inr x, d)"
    using d(2) find_live_refresh [OF d(1) x] by (simp add: GetSessionByRefreshHash_def)
  obtain res d' where R: "Refresh s now ent tok ip d = (res, d')" by (cases "Refresh s now ent tok ip d")
  have "db_ok d'" using presD2 [OF schema.Refresh_inv R] d(1) by simp
  with R tok ent look run d(2) show ?thesis
    by (auto simp: Refresh_def refresh_rotate_def Let_def tryq_def run_def ret_def)
qed

lemma RevokeSession_run:
  "faults d = [] \<Longrightarrow> RevokeSession now i d = (Inr (), d\<lparr>sessions :=
     update_where (\<lambda>t. Session_ID t = i \<and> Session_RevokedAt t = None) (revoke_at now) (sessions d)\<rparr>)"
  by (simp add: RevokeSession_def)

definition session_revoked :: "uuid \<Rightarrow> db \<Rightarrow> bool" where
  "session_revoked i d \<longleftrightarrow> (\<forall>t\<in>set (sessions d). Session_ID t = i \<longrightarrow> Session_RevokedAt t \<noteq> None)"

lemma revoked_after_RevokeSession:
  "faults d = [] \<Longrightarrow> session_revoked i (snd (RevokeSession now i d))"
  by (simp add: RevokeSession_run session_revoked_def ball_update_where revoke_at_def)

lemma Refresh_spent:
  assumes "faults d = []" and "tok \<noteq> []" and "\<forall>t\<in>set (sessions d). Session_RefreshTokenHash t \<noteq> HashToken s tok"
    and y: "List.find (spent_refresh (HashToken s tok)) (sessions d) = Some y"
  shows "\<exists>d'. Refresh s now ent tok ip d = (Inl ErrRefreshReused, d') \<and> session_revoked (Session_ID y) d' \<and>
     faults d' = [] \<and> sessions d' = update_where (\<lambda>t. Session_ID t = Session_ID y \<and> Session_RevokedAt t = None)
       (revoke_at now) (sessions d)"
proof -
  have "List.find (live_refresh now (HashToken s tok)) (sessions d) = None"
    using assms(3) by (auto simp: find_None_all live_refresh_def)
  with assms show ?thesis
    by (simp add: Refresh_def Let_def refresh_unknown_def GetSessionByRefreshHash_def
        GetSessionByPrevRefreshHash_def tryq_def run_def fail_def IsNotFound_def RevokeSession_run
        session_revoked_def ball_update_where revoke_at_def)
qed

text \<open>
  The reuse guarantee: once a token has been exchanged, presenting it again revokes the
  session, and neither the old nor the new tokens are accepted afterwards.
\<close>

lemma Refresh_reuse:
  assumes d: "db_ok d" "faults d = []" and tok: "tok \<noteq> []"
    and x: "x \<in> set (sessions d)" "live_refresh now (HashToken s tok) x"
    and ent: "ent_access ent = Some a" "ent_refresh ent = Some r"
    and fresh: "fresh_hashes d (HashToken s a) (HashToken s r)"
    and unspent: "\<forall>t\<in>set (sessions d). Session_PrevRefreshHash t \<noteq> Some (HashToken s tok)"
    and first: "Refresh s now ent tok ip d = (res, d1)"
    and again: "Refresh s now' ent' tok ip' d1 = (res', d2)"
  shows "res' = Inl ErrRefreshReused \<and> session_revoked (Session_ID x) d2 \<and>
     (\<forall>t. List.find (live_access t (HashToken s a)) (sessions d2) = None) \<and>
     (\<forall>t. List.find (live_refresh t (HashToken s r)) (sessions d2) = None)"
proof -
  let ?i = "Session_ID x" and ?h = "HashToken s tok" and ?f = "rotated s now a r tok"
  from Refresh_live [OF d tok x ent fresh, of ip] first have f1: "faults d1 = []"
    and s1: "sessions d1 = update_where (\<lambda>t. Session_ID t = ?i) ?f (sessions d)" by auto
  have f: "Session_ID (?f t) = Session_ID t" "Session_PrevRefreshHash (?f t) = Some ?h"
    "Session_RefreshTokenHash (?f t) = HashToken s r" "Session_AccessTokenHash (?f t) = HashToken s a"
    "Session_RevokedAt (?f t) = Session_RevokedAt t" for t
    by (simp_all add: rotated_def rotate_row_def)
  have h: "Session_RefreshTokenHash x = ?h" "Session_RevokedAt x = None" using x(2) by (simp_all add: live_refresh_def)
  have ne: "HashToken s r \<noteq> ?h" using fresh x(1) h(1) by (auto simp: fresh_hashes_def)
  have others: "Session_RefreshTokenHash t \<noteq> ?h" if "t \<in> set (sessions d)" "Session_ID t \<noteq> ?i" for t
    using db_ok_unique(6) [OF d(1)] x(1) that h(1) by (metis distinct_map inj_onD)
  have gone: "\<forall>t\<in>set (sessions d1). Session_RefreshTokenHash t \<noteq> ?h"
    unfolding s1 ball_update_where using others ne f by auto
  have "?f x \<in> set (sessions d1) \<and> spent_refresh ?h (?f x)"
    using x(1) h(2) f by (auto simp: s1 set_update_where spent_refresh_def)
  then have "List.find (spent_refresh ?h) (sessions d1) \<noteq> None" by (auto simp: find_None_all)
  then obtain y where y: "List.find (spent_refresh ?h) (sessions d1) = Some y" by blast
  have yi: "Session_ID y = ?i"
    using find_Some_in [OF y] unspent f by (auto simp: s1 set_update_where spent_refresh_def split: if_splits)
  from Refresh_spent [OF f1 tok gone y, of now' ent' ip'] again yi have r2: "res' = Inl ErrRefreshReused"
    and rev: "session_revoked ?i d2" and s2: "sessions d2 = update_where (\<lambda>t. Session_ID t = ?i \<and> Session_RevokedAt t = None)
       (revoke_at now') (sessions d1)" by auto
  have tokens: "Session_ID t = ?i" if "t \<in> set (sessions d2)"
      "Session_AccessTokenHash t = HashToken s a \<or> Session_RefreshTokenHash t = HashToken s r" for t
    using that fresh f by (auto simp: s2 s1 set_update_where fresh_hashes_def revoke_at_def split: if_splits)
  show ?thesis using r2 rev tokens
    by (auto simp: find_None_all live_access_def live_refresh_def session_revoked_def)
qed

section \<open>Racing requests with the same token\<close>

datatype refresh_pc = Start | Looked Session | Done "autherr + AuthResult"

type_synonym refresh_call = "gotime \<times> entropy \<times> string"

definition race_step :: "Service \<Rightarrow> string \<Rightarrow> refresh_call list \<Rightarrow> nat \<Rightarrow> db \<times> refresh_pc list
    \<Rightarrow> db \<times> refresh_pc list" where
  "race_step s h reqs k = (\<lambda>(d, pcs).
     if k < length pcs \<and> k < length reqs
     then (case reqs ! k of (now, ent, ip) \<Rightarrow> (case pcs ! k of
         Start \<Rightarrow> (case GetSessionByRefreshHash now h d of
             (Inr x, d1) \<Rightarrow> (d1, pcs[k := Looked x])
           | (Inl e, d1) \<Rightarrow> (case (if IsNotFound e then refresh_unknown s now h ip else fail (StoreErr e)) d1 of
               (r, d2) \<Rightarrow> (d2, pcs[k := Done r])))
       | Looked x \<Rightarrow> (case refresh_rotate s now ent h ip x d of (r, d1) \<Rightarrow> (d1, pcs[k := Done r]))
       | Done r \<Rightarrow> (d, pcs)))
     else (d, pcs))"

text \<open>Without interleaving the two halves are \<open>Refresh\<close>.\<close>

lemma race_alone:
  assumes "tok \<noteq> []"
  shows "fold (race_step s (HashToken s tok) [(now, ent, ip)]) [0, 0] (d, [Start]) =
     (snd (Refresh s now ent tok ip d), [Done (fst (Refresh s now ent tok ip d))])"
  using assms
  by (auto simp: race_step_def Refresh_def Let_def tryq_def split: prod.split sum.split)

lemma refresh_unknown_effect:
  assumes "faults d = []" and "refresh_unknown s now h ip d = (r, d')"
  obtains (unknown) "r = Inl ErrRefreshInvalid" and "d' = d"
  | (reused) y where "r = Inl ErrRefreshReused" and "y \<in> set (sessions d)" and "Session_PrevRefreshHash y = Some h"
      and "sessions d' = sessions (snd (RevokeSession now (Session_ID y) d))" and "faults d' = []"
proof (cases "List.find (spent_refresh h) (sessions d)")
  case None
  then show ?thesis using assms unknown
    by (simp add: refresh_unknown_def GetSessionByPrevRefreshHash_def tryq_def fail_def)
next
  case (Some y)
  then show ?thesis using assms reused [of y] find_Some_in [OF Some]
    by (auto simp: refresh_unknown_def GetSessionByPrevRefreshHash_def tryq_def fail_def run_def
        RevokeSession_run spent_refresh_def)
qed

lemma refresh_rotate_effect:
  assumes "faults d = []" and "refresh_rotate s now ent h ip x d = (r, d')"
  obtains (error) e where "r = Inl e" and "e \<noteq> ErrRefreshReused" and "d' = d"
  | (reused) "r = Inl ErrRefreshReused" and "sessions d' = sessions (snd (RevokeSession now (Session_ID x) d))"
      and "faults d' = []"
  | (rotated) res a rr z where "r = Inr res" and "ent_refresh ent = Some rr" and "z \<in> set (sessions d)"
      and "rotate_target (Session_ID x) h z" and "faults d' = []"
      and "sessions d' = update_where (rotate_target (Session_ID x) h) (rotate_row now a (HashToken s rr)
          (now + svc_accessTTL s) (now + svc_refreshTTL s) h) (sessions d)"
proof -
  consider (norand) "ent_access ent = None \<or> ent_refresh ent = None"
    | (rand) a rr where "ent_access ent = Some a" "ent_refresh ent = Some rr"
    by (cases "ent_access ent"; cases "ent_refresh ent") auto
  then show ?thesis
  proof cases
    case norand
    then show ?thesis using assms error [of "CryptoErr ErrRand"]
      by (auto simp: refresh_rotate_def fail_def split: option.splits)
  next
    case (rand a rr)
    show ?thesis
    proof (cases "List.find (rotate_target (Session_ID x) h) (sessions d)")
      case None
      then show ?thesis using assms rand reused
        by (auto simp: refresh_rotate_def Let_def RotateSession_def tryq_def run_def fail_def IsNotFound_def
            RevokeSession_run)
    next
      case (Some z)
      then show ?thesis using assms rand find_Some_in [OF Some] error [of "StoreErr Constraint"]
          rotated [of _ rr z "HashToken s a"]
        by (auto simp: refresh_rotate_def Let_def RotateSession_def tryq_def run_def fail_def ret_def
            IsNotFound_def split: if_splits)
    qed
  qed
qed

definition only_session :: "string \<Rightarrow> uuid \<Rightarrow> db \<Rightarrow> bool" where
  "only_session h i d \<longleftrightarrow> (\<forall>t\<in>set (sessions d).
     Session_RefreshTokenHash t = h \<or> Session_PrevRefreshHash t = Some h \<longrightarrow> Session_ID t = i)"

definition token_gone :: "string \<Rightarrow> db \<Rightarrow> bool" where
  "token_gone h d \<longleftrightarrow> (\<forall>t\<in>set (sessions d). Session_RefreshTokenHash t \<noteq> h)"

definition fresh_calls :: "Service \<Rightarrow> string \<Rightarrow> refresh_call list \<Rightarrow> bool" where
  "fresh_calls s h reqs \<longleftrightarrow> (\<forall>(now, ent, ip)\<in>set reqs. \<forall>r. ent_refresh ent = Some r \<longrightarrow> HashToken s r \<noteq> h)"

definition race_inv :: "Service \<Rightarrow> string \<Rightarrow> refresh_call list \<Rightarrow> uuid \<Rightarrow> db \<times> refresh_pc list \<Rightarrow> bool" where
  "race_inv s h reqs i = (\<lambda>(d, pcs). db_ok d \<and> faults d = [] \<and> fresh_calls s h reqs \<and> only_session h i d \<and>
     (\<forall>x. Looked x \<in> set pcs \<longrightarrow> Session_ID x = i) \<and>
     (\<forall>k j a b. k < length pcs \<and> j < length pcs \<and> pcs ! k = Done (Inr a) \<and> pcs ! j = Done (Inr b) \<longrightarrow> k = j) \<and>
     ((\<exists>a. Done (Inr a) \<in> set pcs) \<longrightarrow> token_gone h d) \<and>
     (Done (Inl ErrRefreshReused) \<in> set pcs \<longrightarrow> session_revoked i d))"

lemma revoke_keeps:
  assumes "faults d = []" and "sessions d' = sessions (snd (RevokeSession now j d))"
  shows "only_session h i d \<Longrightarrow> only_session h i d'" and "token_gone h d \<Longrightarrow> token_gone h d'"
    and "session_revoked i d \<Longrightarrow> session_revoked i d'" and "session_revoked j d'"
  using assms
  by (auto simp: RevokeSession_run only_session_def token_gone_def session_revoked_def ball_update_where
      revoke_at_def)

lemma rotate_keeps:
  assumes "db_ok d" and only: "only_session h i d" and z: "z \<in> set (sessions d)" "rotate_target i h z"
    and ne: "r \<noteq> h" and s': "sessions d' = update_where (rotate_target i h) (rotate_row now a r ae re h) (sessions d)"
  shows "only_session h i d'" and "token_gone h d'" and "\<not> token_gone h d" and "\<not> session_revoked i d"
proof -
  have zi: "Session_ID z = i" "Session_RefreshTokenHash z = h" "Session_RevokedAt z = None"
    using z(2) by (simp_all add: rotate_target_def)
  show "\<not> token_gone h d" "\<not> session_revoked i d"
    using z(1) zi by (auto simp: token_gone_def session_revoked_def)
  have uniq: "t = z" if "t \<in> set (sessions d)" "Session_ID t = i" for t
    using db_ok_unique(4) [OF assms(1)] z(1) zi(1) that by (metis distinct_map inj_onD)
  show "only_session h i d'"
    using only by (auto simp: only_session_def s' ball_update_where rotate_row_def rotate_target_def)
  have "rotate_target i h t" if "t \<in> set (sessions d)" "Session_RefreshTokenHash t = h" for t
    using uniq that only z(2) by (auto simp: only_session_def)
  then show "token_gone h d'"
    using ne by (auto simp: token_gone_def s' ball_update_where rotate_row_def)
qed

text \<open>What finishing one request has to establish.\<close>

lemma race_inv_done:
  assumes inv: "race_inv s h reqs i (d, pcs)" and k: "k < length pcs"
    and d': "db_ok d'" "faults d' = []" "only_session h i d'"
    and keep: "token_gone h d \<Longrightarrow> token_gone h d'" "session_revoked i d \<Longrightarrow> session_revoked i d'"
    and won: "\<And>a. r = Inr a \<Longrightarrow> \<not> token_gone h d \<and> token_gone h d'"
    and caught: "r = Inl ErrRefreshReused \<Longrightarrow> session_revoked i d'"
  shows "race_inv s h reqs i (d', pcs[k := Done r])"
proof -
  from inv have I: "fresh_calls s h reqs" "\<And>x. Looked x \<in> set pcs \<Longrightarrow> Session_ID x = i"
    "\<And>k j a b. k < length pcs \<Longrightarrow> j < length pcs \<Longrightarrow> pcs ! k = Done (Inr a) \<Longrightarrow> pcs ! j = Done (Inr b) \<Longrightarrow> k = j"
    "\<And>a. Done (Inr a) \<in> set pcs \<Longrightarrow> token_gone h d"
    "Done (Inl ErrRefreshReused) \<in> set pcs \<Longrightarrow> session_revoked i d"
    by (auto simp: race_inv_def)
  have old: "y \<in> set (pcs[k := Done r]) \<Longrightarrow> y = Done r \<or> y \<in> set pcs" for y
    using set_update_subset_insert [of pcs k "Done r"] by blast
  have one: "m = j" if "m < length pcs" "j < length pcs" "pcs[k := Done r] ! m = Done (Inr a)"
      "pcs[k := Done r] ! j = Done (Inr b)" for m j a b
  proof -
    have none: "pcs ! l \<noteq> Done (Inr c)" if "r = Inr e" "l < length pcs" for l c e
      using I(4) [of c] won [OF that(1)] nth_mem [OF that(2)] by auto
    show ?thesis using that I(3) none k by (cases "m = k"; cases "j = k") auto
  qed
  show ?thesis unfolding race_inv_def
    using d' I(1,2,4,5) keep won caught one by (auto dest!: old)
qed

lemma race_step_inv:
  assumes inv: "race_inv s h reqs i st"
  shows "race_inv s h reqs i (race_step s h reqs k st)"
proof -
  obtain d pcs where st: "st = (d, pcs)" by (cases st)
  show ?thesis
  proof (cases "k < length pcs \<and> k < length reqs")
    case False
    then show ?thesis using inv st by (auto simp: race_step_def)
  next
    case True
    then have k: "k < length pcs" "k < length reqs" by simp_all
    obtain now ent ip where req: "reqs ! k = (now, ent, ip)" by (cases "reqs ! k")
    from inv st have d: "db_ok d" "faults d = []" and only: "only_session h i d" and fresh: "fresh_calls s h reqs"
      and looked: "\<And>x. Looked x \<in> set pcs \<Longrightarrow> Session_ID x = i" by (auto simp: race_inv_def)
    have inv': "race_inv s h reqs i (d, pcs)" using inv st by simp
    show ?thesis
    proof (cases "pcs ! k")
      case Start
      show ?thesis
      proof (cases "List.find (live_refresh now h) (sessions d)")
        case None
        obtain r d1 where u: "refresh_unknown s now h ip d = (r, d1)" by (cases "refresh_unknown s now h ip d")
        have step: "race_step s h reqs k st = (d1, pcs[k := Done r])"
          using None Start k req d(2) u by (simp add: race_step_def st GetSessionByRefreshHash_def IsNotFound_def)
        have ok: "db_ok d1" using presD2 [OF schema.refresh_unknown_inv u] d(1) by simp
        from d(2) u show ?thesis
        proof (cases rule: refresh_unknown_effect)
          case unknown
          then show ?thesis unfolding step using d only
            by (intro race_inv_done [OF inv' k(1)]) simp_all
        next
          case (reused y)
          then have "Session_ID y = i" using only by (auto simp: only_session_def)
          with reused show ?thesis unfolding step using d only ok revoke_keeps [OF d(2) reused(4)]
            by (intro race_inv_done [OF inv' k(1)]) auto
        qed
      next
        case (Some x)
        have "Session_ID x = i" using find_Some_in [OF Some] only
          by (auto simp: only_session_def live_refresh_def)
        moreover have "race_step s h reqs k st = (d, pcs[k := Looked x])"
          using Some Start k req d(2) by (simp add: race_step_def st GetSessionByRefreshHash_def)
        ultimately show ?thesis using inv' set_update_subset_insert [of pcs k "Looked x"] k Start
          by (auto simp: race_inv_def nth_list_update split: if_splits)
      qed
    next
      case (Looked x)
      then have xi: "Session_ID x = i" using looked nth_mem [OF k(1)] by simp
      obtain r d1 where u: "refresh_rotate s now ent h ip x d = (r, d1)" by (cases "refresh_rotate s now ent h ip x d")
      have step: "race_step s h reqs k st = (d1, pcs[k := Done r])"
        using Looked k req u by (simp add: race_step_def st)
      have ok: "db_ok d1" using presD2 [OF schema.refresh_rotate_inv u] d(1) by simp
      from d(2) u show ?thesis
      proof (cases rule: refresh_rotate_effect)
        case (error e)
        then show ?thesis unfolding step using d only by (intro race_inv_done [OF inv' k(1)]) simp_all
      next
        case reused
        then show ?thesis unfolding step using d only ok xi revoke_keeps [OF d(2) reused(2)]
          by (intro race_inv_done [OF inv' k(1)]) auto
      next
        case (rotated res a rr z)
        have ne: "HashToken s rr \<noteq> h" using fresh nth_mem [OF k(2)] req rotated(2) by (auto simp: fresh_calls_def)
        note R = rotate_keeps [OF d(1) only rotated(3) rotated(4) [unfolded xi] ne rotated(6) [unfolded xi]]
        show ?thesis unfolding step using R ok rotated(1,5)
          by (intro race_inv_done [OF inv' k(1)]) auto
      qed
    next
      case (Done r)
      then show ?thesis using inv st req by (simp add: race_step_def)
    qed
  qed
qed

interpretation refresh_race: stepper "race_inv s h reqs i" "race_step s h reqs" for s h reqs i
  by unfold_locales (rule race_step_inv)

lemma race_inv_start:
  assumes "db_ok d" "faults d = []" "fresh_calls s h reqs" "only_session h i d"
  shows "race_inv s h reqs i (d, replicate n Start)"
  using assms by (auto simp: race_inv_def)

end
