(* ===== verification/Aul_Store_Circles.thy ===== *)
theory Aul_Store_Circles
  imports Aul_Schema
begin

text \<open>
  The queries of \<^verbatim>\<open>server/internal/store/sqlite_queries.go\<close> on circles and what belongs to a
  circle: members, invites, key envelopes, SOS events, places and notification mutes.
  \<open>scanCircle\<close> and \<open>scanPlace\<close> keep the \<^verbatim>\<open>int32\<close> width of the scanned counters: SQLite increments
  a 64-bit integer, and a value outside \<^verbatim>\<open>int32\<close> makes the scan fail after the update took
  effect.
\<close>

section \<open>circles\<close>

definition scanCircle :: "Circle \<Rightarrow> dberr + Circle" where
  "scanCircle c = (if in_i32 (Circle_RetentionDays c) \<and> in_i32 (Circle_KeyEpoch c)
     then Inr c else Inl ScanErr)"

fun scan_all :: "('r \<Rightarrow> dberr + 'r) \<Rightarrow> 'r list \<Rightarrow> dberr + 'r list" where
  "scan_all scan [] = Inr []"
| "scan_all scan (r # rs) = (case scan r of Inl e \<Rightarrow> Inl e
     | Inr x \<Rightarrow> (case scan_all scan rs of Inl e \<Rightarrow> Inl e | Inr xs \<Rightarrow> Inr (x # xs)))"

definition circle_is :: "uuid \<Rightarrow> Circle \<Rightarrow> bool" where
  "circle_is i c \<longleftrightarrow> Circle_ID c = i"

definition AllCircleRetention :: "(uuid \<times> int) list q" where
  "AllCircleRetention = query (\<lambda>d. map (\<lambda>c. (Circle_ID c, Circle_RetentionDays c)) (circles d))"

text \<open>An \<^verbatim>\<open>UPDATE circles ... WHERE id = ? RETURNING\<close>.\<close>

definition update_circle :: "uuid \<Rightarrow> (Circle \<Rightarrow> Circle) \<Rightarrow> db \<Rightarrow> (dberr + Circle) \<times> db" where
  "update_circle i f d = (case List.find (circle_is i) (circles d) of
      None \<Rightarrow> (Inl NoRows, d)
    | Some c \<Rightarrow> (scanCircle (f c), d\<lparr>circles := update_where (circle_is i) f (circles d)\<rparr>))"

definition bump_epoch :: "Circle \<Rightarrow> Circle" where
  "bump_epoch c = c\<lparr>Circle_KeyEpoch := Circle_KeyEpoch c + 1\<rparr>"

definition BumpCircleKeyEpoch :: "uuid \<Rightarrow> Circle q" where
  "BumpCircleKeyEpoch i = stmt (update_circle i bump_epoch)"

definition CreateCircle :: "gotime \<Rightarrow> uuid \<Rightarrow> bytes option \<Rightarrow> int \<Rightarrow> uuid \<Rightarrow> Circle q" where
  "CreateCircle now i nameEnc retentionDays createdBy = stmt (\<lambda>d.
     if fresh_in Circle_ID i (circles d) \<and> 1 \<le> retentionDays \<and> retentionDays \<le> 3650 \<and>
        createdBy \<in> user_ids d
     then let c = \<lparr>Circle_ID = i, Circle_NameEnc = nameEnc, Circle_RetentionDays = retentionDays,
                   Circle_KeyEpoch = 1, Circle_CreatedBy = createdBy, Circle_CreatedAt = tv now\<rparr>
          in (Inr c, d\<lparr>circles := circles d @ [c]\<rparr>)
     else (Inl Constraint, d))"

text \<open>Deleting a circle cascades to everything that belongs to it.\<close>

definition DeleteCircle :: "uuid \<Rightarrow> unit q" where
  "DeleteCircle i = exec (\<lambda>d. d\<lparr>circles := delete_where (circle_is i) (circles d),
     circle_members := delete_where (\<lambda>m. Member_CircleID m = i) (circle_members d),
     invites := delete_where (\<lambda>v. Invite_CircleID v = i) (invites d),
     places_enc := delete_where (\<lambda>p. Place_CircleID p = i) (places_enc d),
     key_envelopes := delete_where (\<lambda>e. Envelope_CircleID e = i) (key_envelopes d),
     sos_events := delete_where (\<lambda>s. Sos_CircleID s = i) (sos_events d),
     pings := delete_where (\<lambda>p. Ping_CircleID p = i) (pings d),
     notification_mutes := delete_where (\<lambda>m. Mute_CircleID m = i) (notification_mutes d)\<rparr>)"

definition GetCircle :: "uuid \<Rightarrow> Circle q" where
  "GetCircle i = stmt (\<lambda>d. (case List.find (circle_is i) (circles d) of
      None \<Rightarrow> Inl NoRows | Some c \<Rightarrow> scanCircle c, d))"

definition ListCirclesForUser :: "uuid \<Rightarrow> (Circle \<times> string \<times> string) list q" where
  "ListCirclesForUser userID = stmt (\<lambda>d. (
     scan_all (\<lambda>(c, r). case scanCircle c of Inl e \<Rightarrow> Inl e | Inr c' \<Rightarrow> Inr (c', r))
       (sort_key (\<lambda>(c, _). Circle_CreatedAt c)
         [(c, Member_Role m, Member_PrecisionMode m). c \<leftarrow> circles d, m \<leftarrow> circle_members d,
            Member_CircleID m = Circle_ID c \<and> Member_UserID m = userID]), d))"

definition UpdateCircleName :: "uuid \<Rightarrow> bytes option \<Rightarrow> Circle q" where
  "UpdateCircleName i nameEnc = stmt (update_circle i (\<lambda>c. c\<lparr>Circle_NameEnc := nameEnc\<rparr>))"

definition UpdateCircleRetention :: "uuid \<Rightarrow> int \<Rightarrow> Circle q" where
  "UpdateCircleRetention i days = stmt (\<lambda>d.
     if i \<in> circle_ids d \<and> \<not> (1 \<le> days \<and> days \<le> 3650) then (Inl Constraint, d)
     else update_circle i (\<lambda>c. c\<lparr>Circle_RetentionDays := days\<rparr>) d)"

section \<open>circle\_members\<close>

definition member_is :: "uuid \<Rightarrow> uuid \<Rightarrow> CircleMember \<Rightarrow> bool" where
  "member_is circleID userID m \<longleftrightarrow> Member_CircleID m = circleID \<and> Member_UserID m = userID"

definition roles :: "string set" where
  "roles = {''owner'', ''member'', ''guardian''}"

definition precisions :: "string set" where
  "precisions = {''precise'', ''city'', ''paused''}"

definition AddMember :: "gotime \<Rightarrow> uuid \<Rightarrow> uuid \<Rightarrow> string \<Rightarrow> CircleMember q" where
  "AddMember now circleID userID role = stmt (\<lambda>d.
     if role \<notin> roles then (Inl Constraint, d)
     else case List.find (member_is circleID userID) (circle_members d) of
       Some m \<Rightarrow> (Inr (m\<lparr>Member_Role := role\<rparr>), d\<lparr>circle_members :=
          update_where (member_is circleID userID) (\<lambda>m. m\<lparr>Member_Role := role\<rparr>) (circle_members d)\<rparr>)
     | None \<Rightarrow>
         if circleID \<in> circle_ids d \<and> userID \<in> user_ids d
         then let m = \<lparr>Member_CircleID = circleID, Member_UserID = userID, Member_Role = role,
                       Member_PrecisionMode = ''precise'', Member_JoinedAt = tv now,
                       Member_ProfileEnc = None\<rparr>
              in (Inr m, d\<lparr>circle_members := circle_members d @ [m]\<rparr>)
         else (Inl Constraint, d))"

definition CountOwners :: "uuid \<Rightarrow> nat q" where
  "CountOwners circleID = query (\<lambda>d.
     count_where (\<lambda>m. Member_CircleID m = circleID \<and> Member_Role m = ''owner'') (circle_members d))"

definition GetMembership :: "uuid \<Rightarrow> uuid \<Rightarrow> CircleMember q" where
  "GetMembership circleID userID =
     query_row (\<lambda>d. List.find (member_is circleID userID) (circle_members d))"

definition ListMembers :: "uuid \<Rightarrow> (CircleMember \<times> string) list q" where
  "ListMembers circleID = query (\<lambda>d. sort_key (\<lambda>(m, _). Member_JoinedAt m)
     [(m, User_Email u). m \<leftarrow> circle_members d, u \<leftarrow> users d,
        User_ID u = Member_UserID m \<and> Member_CircleID m = circleID])"

definition RemoveMember :: "uuid \<Rightarrow> uuid \<Rightarrow> unit q" where
  "RemoveMember circleID userID = exec (\<lambda>d. d\<lparr>circle_members :=
     delete_where (member_is circleID userID) (circle_members d)\<rparr>)"

definition SetMemberProfile :: "uuid \<Rightarrow> uuid \<Rightarrow> bytes option \<Rightarrow> unit q" where
  "SetMemberProfile circleID userID profileEnc = exec (\<lambda>d. d\<lparr>circle_members :=
     update_where (member_is circleID userID) (\<lambda>m. m\<lparr>Member_ProfileEnc := profileEnc\<rparr>)
       (circle_members d)\<rparr>)"

text \<open>An \<^verbatim>\<open>UPDATE circle_members ... RETURNING\<close> of a checked column.\<close>

definition update_member :: "bool \<Rightarrow> uuid \<Rightarrow> uuid \<Rightarrow> (CircleMember \<Rightarrow> CircleMember) \<Rightarrow> CircleMember q" where
  "update_member checked circleID userID f = stmt (\<lambda>d.
     case List.find (member_is circleID userID) (circle_members d) of
       None \<Rightarrow> (Inl NoRows, d)
     | Some m \<Rightarrow> if checked
         then (Inr (f m), d\<lparr>circle_members := update_where (member_is circleID userID) f (circle_members d)\<rparr>)
         else (Inl Constraint, d))"

definition SetMemberRole :: "uuid \<Rightarrow> uuid \<Rightarrow> string \<Rightarrow> CircleMember q" where
  "SetMemberRole circleID userID role =
     update_member (role \<in> roles) circleID userID (\<lambda>m. m\<lparr>Member_Role := role\<rparr>)"

definition SetPrecisionMode :: "uuid \<Rightarrow> uuid \<Rightarrow> string \<Rightarrow> CircleMember q" where
  "SetPrecisionMode circleID userID mode =
     update_member (mode \<in> precisions) circleID userID (\<lambda>m. m\<lparr>Member_PrecisionMode := mode\<rparr>)"

section \<open>invites\<close>

definition consumable :: "gotime \<Rightarrow> uuid \<Rightarrow> Invite \<Rightarrow> bool" where
  "consumable now i v \<longleftrightarrow> Invite_ID v = i \<and> Invite_Status v = ''active'' \<and>
     Invite_ExpiresAt v > tv now \<and> Invite_Uses v < Invite_MaxUses v"

definition use_invite :: "Invite \<Rightarrow> Invite" where
  "use_invite v = v\<lparr>Invite_Uses := Invite_Uses v + 1\<rparr>"

definition ConsumeInvite :: "gotime \<Rightarrow> uuid \<Rightarrow> Invite q" where
  "ConsumeInvite now i = stmt (\<lambda>d. case List.find (consumable now i) (invites d) of
      None \<Rightarrow> (Inl NoRows, d)
    | Some v \<Rightarrow> (Inr (use_invite v), d\<lparr>invites := update_where (consumable now i) use_invite (invites d)\<rparr>))"

definition CountRecentInvitesByUser :: "gotime \<Rightarrow> uuid \<Rightarrow> nat q" where
  "CountRecentInvitesByUser now createdBy = query (\<lambda>d. count_where
     (\<lambda>v. Invite_CreatedBy v = createdBy \<and> Invite_CreatedAt v > tv (now - Hour)) (invites d))"

definition CreateInvite :: "gotime \<Rightarrow> uuid \<Rightarrow> uuid \<Rightarrow> uuid \<Rightarrow> string \<Rightarrow> int \<Rightarrow> gotime \<Rightarrow> Invite q" where
  "CreateInvite now i circleID createdBy role maxUses expiresAt = stmt (\<lambda>d.
     if fresh_in Invite_ID i (invites d) \<and> circleID \<in> circle_ids d \<and> createdBy \<in> user_ids d \<and>
        role \<in> {''member'', ''guardian''} \<and> 1 \<le> maxUses \<and> maxUses \<le> 1000
     then let v = \<lparr>Invite_ID = i, Invite_CircleID = circleID, Invite_CreatedBy = createdBy,
                   Invite_Role = role, Invite_MaxUses = maxUses, Invite_Uses = 0,
                   Invite_ExpiresAt = tv expiresAt, Invite_Status = ''active'',
                   Invite_CreatedAt = tv now\<rparr>
          in (Inr v, d\<lparr>invites := invites d @ [v]\<rparr>)
     else (Inl Constraint, d))"

definition GetInvite :: "uuid \<Rightarrow> Invite q" where
  "GetInvite i = query_row (\<lambda>d. List.find (\<lambda>v. Invite_ID v = i) (invites d))"

definition ListInvitesForCircle :: "gotime \<Rightarrow> uuid \<Rightarrow> Invite list q" where
  "ListInvitesForCircle now circleID = query (\<lambda>d. sort_key (\<lambda>v. - Invite_CreatedAt v)
     (filter (\<lambda>v. Invite_CircleID v = circleID \<and> Invite_Status v = ''active'' \<and>
        Invite_ExpiresAt v > tv now) (invites d)))"

definition RevokeInvite :: "uuid \<Rightarrow> uuid \<Rightarrow> unit q" where
  "RevokeInvite i circleID = exec (\<lambda>d. d\<lparr>invites :=
     update_where (\<lambda>v. Invite_ID v = i \<and> Invite_CircleID v = circleID)
       (\<lambda>v. v\<lparr>Invite_Status := ''revoked''\<rparr>) (invites d)\<rparr>)"

section \<open>key\_envelopes\<close>

definition CreateKeyEnvelope :: "gotime \<Rightarrow> uuid \<Rightarrow> uuid \<Rightarrow> uuid \<Rightarrow> uuid option \<Rightarrow> bytes \<Rightarrow> int
    \<Rightarrow> KeyEnvelope q" where
  "CreateKeyEnvelope now i circleID recipient sender ct epoch = stmt (\<lambda>d.
     if fresh_in Envelope_ID i (key_envelopes d) \<and> circleID \<in> circle_ids d \<and>
        recipient \<in> device_ids d \<and> set_option sender \<subseteq> device_ids d
     then (let P = (\<lambda>e. envelope_key e = (circleID, recipient, epoch));
               f = (\<lambda>e. e\<lparr>Envelope_Ciphertext := ct, Envelope_SenderDeviceID := sender,
                          Envelope_CreatedAt := tv now, Envelope_ConsumedAt := None\<rparr>)
           in case List.find P (key_envelopes d) of
             Some e \<Rightarrow> (Inr (f e), d\<lparr>key_envelopes := update_where P f (key_envelopes d)\<rparr>)
           | None \<Rightarrow> (let e = \<lparr>Envelope_ID = i, Envelope_CircleID = circleID,
                 Envelope_RecipientDeviceID = recipient, Envelope_SenderDeviceID = sender,
                 Envelope_Ciphertext = ct, Envelope_KeyEpoch = epoch, Envelope_CreatedAt = tv now,
                 Envelope_ConsumedAt = None\<rparr>
               in (Inr e, d\<lparr>key_envelopes := key_envelopes d @ [e]\<rparr>)))
     else (Inl Constraint, d))"

definition MarkEnvelopeConsumed :: "gotime \<Rightarrow> uuid \<Rightarrow> uuid \<Rightarrow> unit q" where
  "MarkEnvelopeConsumed now i recipient = exec (\<lambda>d. d\<lparr>key_envelopes :=
     update_where (\<lambda>e. Envelope_ID e = i \<and> Envelope_RecipientDeviceID e = recipient \<and>
        Envelope_ConsumedAt e = None) (\<lambda>e. e\<lparr>Envelope_ConsumedAt := Some (tv now)\<rparr>) (key_envelopes d)\<rparr>)"

definition PendingEnvelopesForDevice :: "uuid \<Rightarrow> KeyEnvelope list q" where
  "PendingEnvelopesForDevice recipient = query (\<lambda>d. take 500 (sort_key Envelope_CreatedAt
     (filter (\<lambda>e. Envelope_RecipientDeviceID e = recipient \<and> Envelope_ConsumedAt e = None)
       (key_envelopes d))))"

definition stale_envelope :: "gotime \<Rightarrow> KeyEnvelope \<Rightarrow> bool" where
  "stale_envelope now e = (case Envelope_ConsumedAt e of
      Some t \<Rightarrow> t < tv (now - 7 * Day)
    | None \<Rightarrow> Envelope_CreatedAt e < tv (now - 30 * Day))"

definition PruneKeyEnvelopes :: "gotime \<Rightarrow> nat q" where
  "PruneKeyEnvelopes now = exec_rows (\<lambda>d. count_where (stale_envelope now) (key_envelopes d))
     (\<lambda>d. d\<lparr>key_envelopes := delete_where (stale_envelope now) (key_envelopes d)\<rparr>)"

section \<open>sos\_events\<close>

definition CreateSOS :: "gotime \<Rightarrow> uuid \<Rightarrow> uuid \<Rightarrow> uuid option \<Rightarrow> bytes \<Rightarrow> SosEvent q" where
  "CreateSOS now i circleID deviceID ct = stmt (\<lambda>d.
     if fresh_in Sos_ID i (sos_events d) \<and> circleID \<in> circle_ids d \<and>
        set_option deviceID \<subseteq> device_ids d
     then let s = \<lparr>Sos_ID = i, Sos_CircleID = circleID, Sos_DeviceID = deviceID,
                   Sos_Ciphertext = ct, Sos_CreatedAt = tv now, Sos_ResolvedAt = None,
                   Sos_ResolvedBy = None\<rparr>
          in (Inr s, d\<lparr>sos_events := sos_events d @ [s]\<rparr>)
     else (Inl Constraint, d))"

definition GetSOS :: "uuid \<Rightarrow> SosEvent q" where
  "GetSOS i = query_row (\<lambda>d. List.find (\<lambda>s. Sos_ID s = i) (sos_events d))"

definition ListActiveSOS :: "uuid \<Rightarrow> SosEvent list q" where
  "ListActiveSOS circleID = query (\<lambda>d. sort_key (\<lambda>s. - Sos_CreatedAt s)
     (filter (\<lambda>s. Sos_CircleID s = circleID \<and> Sos_ResolvedAt s = None) (sos_events d)))"

definition resolved_before :: "gotime \<Rightarrow> SosEvent \<Rightarrow> bool" where
  "resolved_before cutoff s = (case Sos_ResolvedAt s of None \<Rightarrow> False | Some t \<Rightarrow> t < tv cutoff)"

definition PruneResolvedSOS :: "gotime \<Rightarrow> nat q" where
  "PruneResolvedSOS cutoff = exec_rows (\<lambda>d. count_where (resolved_before cutoff) (sos_events d))
     (\<lambda>d. d\<lparr>sos_events := delete_where (resolved_before cutoff) (sos_events d)\<rparr>)"

definition active_sos :: "uuid \<Rightarrow> uuid \<Rightarrow> SosEvent \<Rightarrow> bool" where
  "active_sos i circleID s \<longleftrightarrow> Sos_ID s = i \<and> Sos_CircleID s = circleID \<and> Sos_ResolvedAt s = None"

definition ResolveSOS :: "gotime \<Rightarrow> uuid \<Rightarrow> uuid \<Rightarrow> uuid option \<Rightarrow> SosEvent q" where
  "ResolveSOS now i circleID resolvedBy = stmt (\<lambda>d.
     case List.find (active_sos i circleID) (sos_events d) of
       None \<Rightarrow> (Inl NoRows, d)
     | Some s \<Rightarrow> if set_option resolvedBy \<subseteq> user_ids d
         then let f = (\<lambda>s. s\<lparr>Sos_ResolvedAt := Some (tv now), Sos_ResolvedBy := resolvedBy\<rparr>)
              in (Inr (f s), d\<lparr>sos_events := update_where (active_sos i circleID) f (sos_events d)\<rparr>)
         else (Inl Constraint, d))"

section \<open>places\_enc\<close>

definition scanPlace :: "PlacesEnc \<Rightarrow> dberr + PlacesEnc" where
  "scanPlace p = (if in_i32 (Place_Version p) then Inr p else Inl ScanErr)"

definition CreatePlace :: "gotime \<Rightarrow> uuid \<Rightarrow> uuid \<Rightarrow> bytes \<Rightarrow> uuid option \<Rightarrow> PlacesEnc q" where
  "CreatePlace now i circleID ct author = stmt (\<lambda>d.
     if fresh_in Place_ID i (places_enc d) \<and> circleID \<in> circle_ids d \<and> set_option author \<subseteq> user_ids d
     then let p = \<lparr>Place_ID = i, Place_CircleID = circleID, Place_Ciphertext = ct, Place_Version = 1,
                   Place_Deleted = False, Place_UpdatedBy = author, Place_UpdatedAt = tv now,
                   Place_CreatedAt = tv now, Place_CreatedBy = author\<rparr>
          in (Inr p, d\<lparr>places_enc := places_enc d @ [p]\<rparr>)
     else (Inl Constraint, d))"

definition ListPlaces :: "uuid \<Rightarrow> PlacesEnc list q" where
  "ListPlaces circleID = stmt (\<lambda>d. (scan_all scanPlace (sort_key Place_CreatedAt
     (filter (\<lambda>p. Place_CircleID p = circleID \<and> \<not> Place_Deleted p) (places_enc d))), d))"

definition tombstone_before :: "gotime \<Rightarrow> PlacesEnc \<Rightarrow> bool" where
  "tombstone_before cutoff p \<longleftrightarrow> Place_Deleted p \<and> Place_UpdatedAt p < tv cutoff"

definition PrunePlaceTombstones :: "gotime \<Rightarrow> nat q" where
  "PrunePlaceTombstones cutoff = exec_rows (\<lambda>d. count_where (tombstone_before cutoff) (places_enc d))
     (\<lambda>d. d\<lparr>places_enc := delete_where (tombstone_before cutoff) (places_enc d)\<rparr>)"

definition update_place :: "(PlacesEnc \<Rightarrow> bool) \<Rightarrow> uuid option \<Rightarrow> (PlacesEnc \<Rightarrow> PlacesEnc)
    \<Rightarrow> PlacesEnc q" where
  "update_place P updatedBy f = stmt (\<lambda>d. case List.find P (places_enc d) of
      None \<Rightarrow> (Inl NoRows, d)
    | Some p \<Rightarrow> if set_option updatedBy \<subseteq> user_ids d
        then (scanPlace (f p), d\<lparr>places_enc := update_where P f (places_enc d)\<rparr>)
        else (Inl Constraint, d))"

definition live_place :: "uuid \<Rightarrow> uuid \<Rightarrow> PlacesEnc \<Rightarrow> bool" where
  "live_place i circleID p \<longleftrightarrow> Place_ID p = i \<and> Place_CircleID p = circleID \<and> \<not> Place_Deleted p"

definition SoftDeletePlace :: "gotime \<Rightarrow> uuid \<Rightarrow> uuid \<Rightarrow> uuid option \<Rightarrow> PlacesEnc q" where
  "SoftDeletePlace now i circleID updatedBy = update_place (live_place i circleID) updatedBy
     (\<lambda>p. p\<lparr>Place_Deleted := True, Place_Version := Place_Version p + 1,
            Place_UpdatedBy := updatedBy, Place_UpdatedAt := tv now\<rparr>)"

definition UpdatePlace :: "gotime \<Rightarrow> uuid \<Rightarrow> uuid \<Rightarrow> bytes \<Rightarrow> uuid option \<Rightarrow> int \<Rightarrow> PlacesEnc q" where
  "UpdatePlace now i circleID ct updatedBy version =
     update_place (\<lambda>p. live_place i circleID p \<and> Place_Version p = version) updatedBy
       (\<lambda>p. p\<lparr>Place_Ciphertext := ct, Place_Version := Place_Version p + 1,
              Place_UpdatedBy := updatedBy, Place_UpdatedAt := tv now\<rparr>)"

section \<open>notification\_mutes\<close>

definition ListMutes :: "uuid \<Rightarrow> uuid \<Rightarrow> uuid option list q" where
  "ListMutes userID circleID = query (\<lambda>d. map Mute_MutedUserID (sort_key Mute_CreatedAt
     (filter (\<lambda>m. Mute_UserID m = userID \<and> Mute_CircleID m = circleID) (notification_mutes d))))"

definition DeleteMutes :: "uuid \<Rightarrow> uuid \<Rightarrow> unit q" where
  "DeleteMutes userID circleID = exec (\<lambda>d. d\<lparr>notification_mutes :=
     delete_where (\<lambda>m. Mute_UserID m = userID \<and> Mute_CircleID m = circleID) (notification_mutes d)\<rparr>)"

definition InsertMute :: "gotime \<Rightarrow> uuid \<Rightarrow> uuid \<Rightarrow> uuid option \<Rightarrow> unit q" where
  "InsertMute now userID circleID muted = stmt (\<lambda>d.
     if (userID, circleID, muted) \<in> set (map mute_key (notification_mutes d)) then (Inr (), d)
     else if userID \<in> user_ids d \<and> circleID \<in> circle_ids d \<and> set_option muted \<subseteq> user_ids d
     then (Inr (), d\<lparr>notification_mutes := notification_mutes d @
        [\<lparr>Mute_UserID = userID, Mute_CircleID = circleID, Mute_MutedUserID = muted,
          Mute_CreatedAt = tv now\<rparr>]\<rparr>)
     else (Inl Constraint, d))"

definition CountMembersIn :: "uuid \<Rightarrow> uuid list \<Rightarrow> nat q" where
  "CountMembersIn circleID userIDs = (if userIDs = [] then ret 0
     else query (\<lambda>d. count_where (\<lambda>m. Member_CircleID m = circleID \<and> Member_UserID m \<in> set userIDs)
       (circle_members d)))"

section \<open>Preservation of the schema\<close>

lemma GetCircle_ok [pres_rules]: "tables_only I \<Longrightarrow> pres I (GetCircle i)"
  unfolding GetCircle_def by (rule pres_stmt) simp_all

lemma ListCirclesForUser_ok [pres_rules]: "tables_only I \<Longrightarrow> pres I (ListCirclesForUser u)"
  unfolding ListCirclesForUser_def by (rule pres_stmt) simp_all

lemma ListPlaces_ok [pres_rules]: "tables_only I \<Longrightarrow> pres I (ListPlaces u)"
  unfolding ListPlaces_def by (rule pres_stmt) simp_all

lemma update_circle_ok:
  assumes "db_ok d" and "\<And>c. Circle_ID (f c) = Circle_ID c \<and> Circle_CreatedBy (f c) = Circle_CreatedBy c"
    and "\<And>c. c \<in> set (circles d) \<Longrightarrow> 1 \<le> Circle_RetentionDays (f c) \<and> Circle_RetentionDays (f c) \<le> 3650"
  shows "db_ok (snd (update_circle i f d))"
proof -
  have "circles_ok (user_ids d) (update_where (circle_is i) f (circles d))"
    using assms by (auto simp: circles_ok_def ball_update_where)
  then have "db_ok (d\<lparr>circles := update_where (circle_is i) f (circles d)\<rparr>)"
    using assms(1,2) by (intro put_circles) simp_all
  with assms(1) show ?thesis by (auto simp: update_circle_def split: option.split)
qed

lemma BumpCircleKeyEpoch_ok [pres_rules]: "pres db_ok (BumpCircleKeyEpoch i)"
  unfolding BumpCircleKeyEpoch_def
  by (rule pres_stmt) (auto simp: bump_epoch_def intro!: update_circle_ok)

lemma UpdateCircleName_ok [pres_rules]: "pres db_ok (UpdateCircleName i n)"
  unfolding UpdateCircleName_def by (rule pres_stmt) (auto intro!: update_circle_ok)

lemma update_circle_absent: "i \<notin> circle_ids d \<Longrightarrow> update_circle i f d = (Inl NoRows, d)"
  by (cases "List.find (circle_is i) (circles d)")
    (auto simp: update_circle_def circle_ids_def circle_is_def dest!: find_Some_in)

lemma UpdateCircleRetention_ok [pres_rules]: "pres db_ok (UpdateCircleRetention i n)"
  unfolding UpdateCircleRetention_def
proof (rule pres_stmt, simp)
  fix d assume "db_ok d"
  then show "db_ok (snd (if i \<in> circle_ids d \<and> \<not> (1 \<le> n \<and> n \<le> 3650) then (Inl Constraint, d)
     else update_circle i (\<lambda>c. c\<lparr>Circle_RetentionDays := n\<rparr>) d))"
    by (cases "i \<in> circle_ids d") (auto simp: update_circle_absent intro!: update_circle_ok)
qed

lemma CreateCircle_ok [pres_rules]: "pres db_ok (CreateCircle now i n r u)"
  unfolding CreateCircle_def
  by (rule pres_stmt) (auto simp: Let_def fresh_in_def circles_ok_def intro!: put_circles)

lemma DeleteCircle_ok [pres_rules]: "pres db_ok (DeleteCircle i)"
proof (unfold DeleteCircle_def, rule pres_exec, simp)
  fix d assume d: "db_ok d"
  let ?d = "d\<lparr>circles := delete_where (circle_is i) (circles d),
     circle_members := delete_where (\<lambda>m. Member_CircleID m = i) (circle_members d),
     invites := delete_where (\<lambda>v. Invite_CircleID v = i) (invites d),
     places_enc := delete_where (\<lambda>p. Place_CircleID p = i) (places_enc d),
     key_envelopes := delete_where (\<lambda>e. Envelope_CircleID e = i) (key_envelopes d),
     sos_events := delete_where (\<lambda>s. Sos_CircleID s = i) (sos_events d),
     pings := delete_where (\<lambda>p. Ping_CircleID p = i) (pings d),
     notification_mutes := delete_where (\<lambda>m. Mute_CircleID m = i) (notification_mutes d)\<rparr>"
  have ids: "circle_ids ?d = circle_ids d - {i}" "user_ids ?d = user_ids d"
      "device_ids ?d = device_ids d" "share_ids ?d = share_ids d"
    by (auto simp: id_set_defs circle_is_def)
  show "db_ok ?d" using db_okD [OF d] unfolding db_ok_def ids by (simp add: table_ok_defs)
qed

lemma AddMember_ok [pres_rules]: "pres db_ok (AddMember now c u r)"
  unfolding AddMember_def
proof (rule pres_stmt, simp)
  fix d assume d: "db_ok d"
  note k = db_okD(5) [OF d]
  show "db_ok (snd (if r \<notin> roles then (Inl Constraint, d)
     else case List.find (member_is c u) (circle_members d) of
       Some m \<Rightarrow> (Inr (m\<lparr>Member_Role := r\<rparr>), d\<lparr>circle_members :=
          update_where (member_is c u) (\<lambda>m. m\<lparr>Member_Role := r\<rparr>) (circle_members d)\<rparr>)
     | None \<Rightarrow> if c \<in> circle_ids d \<and> u \<in> user_ids d
         then let m = \<lparr>Member_CircleID = c, Member_UserID = u, Member_Role = r,
                       Member_PrecisionMode = ''precise'', Member_JoinedAt = tv now,
                       Member_ProfileEnc = None\<rparr>
              in (Inr m, d\<lparr>circle_members := circle_members d @ [m]\<rparr>)
         else (Inl Constraint, d)))"
    using d k
    by (auto simp: members_ok_def roles_def member_key_def ball_update_where Let_def
        find_None_all member_is_def split: option.split intro!: put_circle_members)
qed

lemma RemoveMember_ok [pres_rules]: "pres db_ok (RemoveMember c u)"
  unfolding RemoveMember_def
  by (rule pres_exec) (auto simp: members_ok_def dest: db_okD(5) intro!: put_circle_members)

lemma update_members_ok:
  assumes "db_ok d" and "\<And>m. member_key (f m) = member_key m"
    and "\<And>m. m \<in> set (circle_members d) \<Longrightarrow> Member_Role (f m) \<in> roles \<and> Member_PrecisionMode (f m) \<in> precisions"
  shows "db_ok (d\<lparr>circle_members := update_where P f (circle_members d)\<rparr>)"
proof (rule put_circle_members [OF assms(1)])
  have k: "Member_CircleID (f m) = Member_CircleID m \<and> Member_UserID (f m) = Member_UserID m" for m
    using assms(2) [of m] by (simp add: member_key_def)
  show "members_ok (circle_ids d) (user_ids d) (update_where P f (circle_members d))"
    using db_okD(5) [OF assms(1)] assms(2,3) k
    by (auto simp: members_ok_def ball_update_where roles_def precisions_def)
qed

lemma SetMemberProfile_ok [pres_rules]: "pres db_ok (SetMemberProfile c u p)"
  unfolding SetMemberProfile_def
  by (rule pres_exec, simp, rule update_members_ok)
    (auto simp: member_key_def roles_def precisions_def dest: db_ok_roles)

lemma update_member_ok:
  assumes "\<And>m. member_key (f m) = member_key m"
    and "\<And>d m. b \<Longrightarrow> db_ok d \<Longrightarrow> m \<in> set (circle_members d) \<Longrightarrow>
       Member_Role (f m) \<in> roles \<and> Member_PrecisionMode (f m) \<in> precisions"
  shows "pres db_ok (update_member b c u f)"
  unfolding update_member_def
  by (rule pres_stmt) (auto split: option.split intro!: update_members_ok simp: assms)

lemma SetMemberRole_ok [pres_rules]: "pres db_ok (SetMemberRole c u r)"
  unfolding SetMemberRole_def
  by (rule update_member_ok) (auto simp: member_key_def precisions_def dest: db_ok_roles)

lemma SetPrecisionMode_ok [pres_rules]: "pres db_ok (SetPrecisionMode c u r)"
  unfolding SetPrecisionMode_def
  by (rule update_member_ok) (auto simp: member_key_def roles_def dest: db_ok_roles)

lemma ConsumeInvite_ok [pres_rules]: "pres db_ok (ConsumeInvite now i)"
  unfolding ConsumeInvite_def
  by (rule pres_stmt) (auto simp: invites_ok_def ball_update_where use_invite_def
      split: option.split intro!: put_invites dest: db_ok_roles)

lemma CreateInvite_ok [pres_rules]: "pres db_ok (CreateInvite now i c u r m e)"
  unfolding CreateInvite_def
  by (rule pres_stmt) (auto simp: Let_def fresh_in_def invites_ok_def intro!: put_invites dest: db_ok_roles)

lemma RevokeInvite_ok [pres_rules]: "pres db_ok (RevokeInvite i c)"
  unfolding RevokeInvite_def
  by (rule pres_exec) (auto simp: invites_ok_def ball_update_where intro!: put_invites dest: db_ok_roles)

lemma CreateKeyEnvelope_ok [pres_rules]: "pres db_ok (CreateKeyEnvelope now i c r s ct ep)"
  unfolding CreateKeyEnvelope_def Let_def
  by (rule pres_stmt, simp)
    (frule db_okD(8), auto simp: envelopes_ok_def fresh_in_def ball_update_where envelope_key_def
       find_None_all split: option.split intro!: put_key_envelopes)

lemma MarkEnvelopeConsumed_ok [pres_rules]: "pres db_ok (MarkEnvelopeConsumed now i r)"
  unfolding MarkEnvelopeConsumed_def
  by (rule pres_exec, simp, frule db_okD(8))
    (auto simp: envelopes_ok_def ball_update_where envelope_key_def intro!: put_key_envelopes)

lemma PruneKeyEnvelopes_ok [pres_rules]: "pres db_ok (PruneKeyEnvelopes now)"
  unfolding PruneKeyEnvelopes_def
  by (rule pres_exec_rows, simp, frule db_okD(8)) (auto simp: envelopes_ok_def intro!: put_key_envelopes)

lemma CreateSOS_ok [pres_rules]: "pres db_ok (CreateSOS now i c v ct)"
  unfolding CreateSOS_def
  by (rule pres_stmt, simp, frule db_okD(9))
    (auto simp: Let_def fresh_in_def sos_ok_def intro!: put_sos_events)

lemma PruneResolvedSOS_ok [pres_rules]: "pres db_ok (PruneResolvedSOS now)"
  unfolding PruneResolvedSOS_def
  by (rule pres_exec_rows, simp, frule db_okD(9)) (auto simp: sos_ok_def intro!: put_sos_events)

lemma ResolveSOS_ok [pres_rules]: "pres db_ok (ResolveSOS now i c u)"
  unfolding ResolveSOS_def Let_def
  by (rule pres_stmt, simp, frule db_okD(9))
    (auto simp: sos_ok_def ball_update_where split: option.split intro!: put_sos_events)

lemma CreatePlace_ok [pres_rules]: "pres db_ok (CreatePlace now i c ct u)"
  unfolding CreatePlace_def
  by (rule pres_stmt, simp, frule db_okD(7))
    (auto simp: Let_def fresh_in_def places_ok_def intro!: put_places)

lemma PrunePlaceTombstones_ok [pres_rules]: "pres db_ok (PrunePlaceTombstones now)"
  unfolding PrunePlaceTombstones_def
  by (rule pres_exec_rows, simp, frule db_okD(7)) (auto simp: places_ok_def intro!: put_places)

lemma update_place_ok:
  assumes "\<And>p. Place_ID (f p) = Place_ID p \<and> Place_CircleID (f p) = Place_CircleID p \<and>
      Place_CreatedBy (f p) = Place_CreatedBy p \<and> Place_UpdatedBy (f p) = u"
  shows "pres db_ok (update_place P u f)"
  unfolding update_place_def
  by (rule pres_stmt, simp, frule db_okD(7))
    (auto simp: places_ok_def ball_update_where assms split: option.split intro!: put_places)

lemma SoftDeletePlace_ok [pres_rules]: "pres db_ok (SoftDeletePlace now i c u)"
  unfolding SoftDeletePlace_def by (rule update_place_ok) simp

lemma UpdatePlace_ok [pres_rules]: "pres db_ok (UpdatePlace now i c ct u v)"
  unfolding UpdatePlace_def by (rule update_place_ok) simp

lemma DeleteMutes_ok [pres_rules]: "pres db_ok (DeleteMutes u c)"
  unfolding DeleteMutes_def
  by (rule pres_exec, simp, frule db_okD(15)) (auto simp: mutes_ok_def intro!: put_notification_mutes)

lemma InsertMute_ok [pres_rules]: "pres db_ok (InsertMute now u c m)"
  unfolding InsertMute_def
  by (rule pres_stmt, simp, frule db_okD(15))
    (auto simp: mutes_ok_def mute_key_def intro!: put_notification_mutes)

end
