(* ===== verification/Aul_Store_Feeds.thy ===== *)
theory Aul_Store_Feeds
  imports Aul_Schema
begin

text \<open>
  The queries of \<^verbatim>\<open>server/internal/store/sqlite_queries.go\<close> on location pings, live-share
  sessions, push subscriptions and published app versions, with
  \<^verbatim>\<open>Store.PruneAllPingsBefore\<close> of \<^verbatim>\<open>store.go\<close>. The lemmas show that every statement keeps the
  schema, that an insert of a ping is idempotent, and that the two carve-out deletes never
  change what \<open>LatestPingsForCircle\<close> returns.
\<close>

section \<open>pings\<close>

definition CountPingsForCircle :: "uuid \<Rightarrow> nat q" where
  "CountPingsForCircle circleID = query (\<lambda>d. count_where (\<lambda>p. Ping_CircleID p = circleID) (pings d))"

text \<open>
  \<^verbatim>\<open>ON CONFLICT (device_id, client_id, captured_at) DO NOTHING RETURNING\<close>: a duplicate is no row.
\<close>

definition InsertPing :: "gotime \<Rightarrow> uuid \<Rightarrow> uuid \<Rightarrow> uuid \<Rightarrow> string \<Rightarrow> bytes \<Rightarrow> bytes \<Rightarrow> gotime
    \<Rightarrow> gotime option \<Rightarrow> Ping q" where
  "InsertPing now i circleID deviceID clientID nonce ct capturedAt expiresAt = stmt (\<lambda>d.
     if (deviceID, clientID, tv capturedAt) \<in> set (map ping_key (pings d)) then (Inl NoRows, d)
     else if fresh_in Ping_ID i (pings d) \<and> circleID \<in> circle_ids d \<and> deviceID \<in> device_ids d
     then let p = \<lparr>Ping_ID = i, Ping_CircleID = circleID, Ping_DeviceID = deviceID,
                   Ping_ClientID = clientID, Ping_Nonce = nonce, Ping_Ciphertext = ct,
                   Ping_CapturedAt = tv capturedAt, Ping_ReceivedAt = tv now,
                   Ping_ExpiresAt = map_option tv expiresAt\<rparr>
          in (Inr p, d\<lparr>pings := pings d @ [p]\<rparr>)
     else (Inl Constraint, d))"

text \<open>
  \<^verbatim>\<open>ROW_NUMBER() OVER (PARTITION BY device_id ORDER BY captured_at DESC) = 1\<close>, ordered by device.
  Rows with equal \<^verbatim>\<open>captured_at\<close> keep their insertion order (the index the query runs on ends
  with the row id).
\<close>

definition newest_first :: "uuid \<Rightarrow> Ping list \<Rightarrow> Ping list" where
  "newest_first v ps = sort_key (\<lambda>p. - Ping_CapturedAt p) (filter (\<lambda>p. Ping_DeviceID p = v) ps)"

definition latest_per_device :: "Ping list \<Rightarrow> Ping list" where
  "latest_per_device ps = map (\<lambda>v. hd (newest_first v ps)) (sort (remdups (map Ping_DeviceID ps)))"

definition LatestPingsForCircle :: "uuid \<Rightarrow> Ping list q" where
  "LatestPingsForCircle circleID = query (\<lambda>d.
     latest_per_device (filter (\<lambda>p. Ping_CircleID p = circleID) (pings d)))"

definition superseded :: "Ping list \<Rightarrow> Ping \<Rightarrow> bool" where
  "superseded ps p \<longleftrightarrow> (\<exists>n\<in>set ps. Ping_CircleID n = Ping_CircleID p \<and>
     Ping_DeviceID n = Ping_DeviceID p \<and> Ping_CapturedAt n > Ping_CapturedAt p)"

definition delete_pings :: "(Ping list \<Rightarrow> Ping \<Rightarrow> bool) \<Rightarrow> nat q" where
  "delete_pings P = exec_rows (\<lambda>d. count_where (P (pings d)) (pings d))
     (\<lambda>d. d\<lparr>pings := delete_where (P (pings d)) (pings d)\<rparr>)"

definition DeleteExpiredPingsForCircle :: "gotime \<Rightarrow> uuid \<Rightarrow> int \<Rightarrow> nat q" where
  "DeleteExpiredPingsForCircle now circleID retentionDays = delete_pings (\<lambda>ps p.
     Ping_CircleID p = circleID \<and> Ping_CapturedAt p < tv (now - retentionDays * Day) \<and> superseded ps p)"

definition PruneStalePings :: "gotime \<Rightarrow> int \<Rightarrow> nat q" where
  "PruneStalePings now keepHours = delete_pings (\<lambda>ps p.
     Ping_CapturedAt p < tv (now - i64 (keepHours * Hour)) \<and> superseded ps p)"

definition PruneAllPingsBefore :: "gotime \<Rightarrow> nat q" where
  "PruneAllPingsBefore cutoff = delete_pings (\<lambda>ps p. Ping_CapturedAt p < tv cutoff)"

section \<open>share\_sessions and share\_positions\<close>

definition share_is :: "uuid \<Rightarrow> ShareSession \<Rightarrow> bool" where
  "share_is i s \<longleftrightarrow> Share_ID s = i"

definition owned_share :: "uuid \<Rightarrow> uuid \<Rightarrow> ShareSession \<Rightarrow> bool" where
  "owned_share i userID s \<longleftrightarrow> Share_ID s = i \<and> Share_UserID s = userID"

text \<open>An \<^verbatim>\<open>UPDATE share_sessions ... RETURNING\<close>.\<close>

definition update_share :: "(ShareSession \<Rightarrow> bool) \<Rightarrow> (ShareSession \<Rightarrow> ShareSession) \<Rightarrow> ShareSession q" where
  "update_share P f = stmt (\<lambda>d. case List.find P (share_sessions d) of
      None \<Rightarrow> (Inl NoRows, d)
    | Some s \<Rightarrow> (Inr (f s), d\<lparr>share_sessions := update_where P f (share_sessions d)\<rparr>))"

definition unbound_share :: "uuid \<Rightarrow> ShareSession \<Rightarrow> bool" where
  "unbound_share i s \<longleftrightarrow> Share_ID s = i \<and> Share_ViewerTokenHash s = None"

definition bind_viewer :: "gotime \<Rightarrow> bytes \<Rightarrow> ShareSession \<Rightarrow> ShareSession" where
  "bind_viewer now h s = s\<lparr>Share_ViewerTokenHash := Some h, Share_ViewerBoundAt := Some (tv now)\<rparr>"

definition BindShareViewer :: "gotime \<Rightarrow> uuid \<Rightarrow> bytes \<Rightarrow> ShareSession q" where
  "BindShareViewer now i viewerTokenHash =
     update_share (unbound_share i) (bind_viewer now viewerTokenHash)"

definition CreateShareSession :: "gotime \<Rightarrow> uuid \<Rightarrow> uuid \<Rightarrow> gotime \<Rightarrow> ShareSession q" where
  "CreateShareSession now i userID expiresAt = stmt (\<lambda>d.
     if fresh_in Share_ID i (share_sessions d) \<and> userID \<in> user_ids d
     then let s = \<lparr>Share_ID = i, Share_UserID = userID, Share_CreatedAt = tv now,
                   Share_ExpiresAt = tv expiresAt, Share_RevokedAt = None,
                   Share_ViewerTokenHash = None, Share_ViewerBoundAt = None\<rparr>
          in (Inr s, d\<lparr>share_sessions := share_sessions d @ [s]\<rparr>)
     else (Inl Constraint, d))"

definition position_is :: "uuid \<Rightarrow> SharePosition \<Rightarrow> bool" where
  "position_is i p \<longleftrightarrow> Position_SessionID p = i"

definition GetSharePosition :: "uuid \<Rightarrow> SharePosition q" where
  "GetSharePosition sessionID = query_row (\<lambda>d. List.find (position_is sessionID) (share_positions d))"

definition GetShareSession :: "uuid \<Rightarrow> ShareSession q" where
  "GetShareSession i = query_row (\<lambda>d. List.find (share_is i) (share_sessions d))"

definition GetShareSessionForOwner :: "uuid \<Rightarrow> uuid \<Rightarrow> ShareSession q" where
  "GetShareSessionForOwner i userID = query_row (\<lambda>d. List.find (owned_share i userID) (share_sessions d))"

definition ListShareSessionsForUser :: "gotime \<Rightarrow> uuid \<Rightarrow> ShareSession list q" where
  "ListShareSessionsForUser now userID = query (\<lambda>d. sort_key (\<lambda>s. - Share_CreatedAt s)
     (filter (\<lambda>s. Share_UserID s = userID \<and> Share_ExpiresAt s > tv now) (share_sessions d)))"

definition dead_share :: "sqltime \<Rightarrow> ShareSession \<Rightarrow> bool" where
  "dead_share cutoff s \<longleftrightarrow> Share_ExpiresAt s < cutoff \<or>
     (case Share_RevokedAt s of None \<Rightarrow> False | Some t \<Rightarrow> t < cutoff)"

text \<open>The positions of a deleted session go with it (\<^verbatim>\<open>ON DELETE CASCADE\<close>).\<close>

definition PruneShareSessions :: "gotime \<Rightarrow> int \<Rightarrow> nat q" where
  "PruneShareSessions now graceHours =
     (let cutoff = tv (now - i64 (graceHours * Hour)) in
      exec_rows (\<lambda>d. count_where (dead_share cutoff) (share_sessions d))
        (\<lambda>d. d\<lparr>share_sessions := delete_where (dead_share cutoff) (share_sessions d),
               share_positions := delete_where (\<lambda>p. Position_SessionID p \<in>
                 Share_ID ` set (filter (dead_share cutoff) (share_sessions d))) (share_positions d)\<rparr>))"

definition revoke_share :: "gotime \<Rightarrow> ShareSession \<Rightarrow> ShareSession" where
  "revoke_share now s = s\<lparr>Share_RevokedAt :=
     (case Share_RevokedAt s of None \<Rightarrow> Some (tv now) | Some t \<Rightarrow> Some t)\<rparr>"

definition RevokeShareSession :: "gotime \<Rightarrow> uuid \<Rightarrow> uuid \<Rightarrow> ShareSession q" where
  "RevokeShareSession now i userID = update_share (owned_share i userID) (revoke_share now)"

definition UpsertSharePosition :: "gotime \<Rightarrow> uuid \<Rightarrow> bytes \<Rightarrow> bytes \<Rightarrow> gotime \<Rightarrow> unit q" where
  "UpsertSharePosition now sessionID nonce ct capturedAt = stmt (\<lambda>d.
     case List.find (position_is sessionID) (share_positions d) of
       Some _ \<Rightarrow> (Inr (), d\<lparr>share_positions := update_where (position_is sessionID)
         (\<lambda>p. p\<lparr>Position_Nonce := nonce, Position_Ciphertext := ct,
                Position_CapturedAt := tv capturedAt, Position_UpdatedAt := tv now\<rparr>) (share_positions d)\<rparr>)
     | None \<Rightarrow> if sessionID \<in> share_ids d
         then (Inr (), d\<lparr>share_positions := share_positions d @
            [\<lparr>Position_SessionID = sessionID, Position_Nonce = nonce, Position_Ciphertext = ct,
              Position_CapturedAt = tv capturedAt, Position_UpdatedAt = tv now\<rparr>]\<rparr>)
         else (Inl Constraint, d))"

section \<open>push\_subscriptions and app\_versions\<close>

definition DeletePushSubscription :: "string \<Rightarrow> uuid \<Rightarrow> unit q" where
  "DeletePushSubscription endpoint userID = exec (\<lambda>d. d\<lparr>push_subscriptions :=
     delete_where (\<lambda>p. Push_Endpoint p = endpoint \<and> Push_UserID p = userID) (push_subscriptions d)\<rparr>)"

definition DeletePushSubscriptionByID :: "uuid \<Rightarrow> unit q" where
  "DeletePushSubscriptionByID i = exec (\<lambda>d. d\<lparr>push_subscriptions :=
     delete_where (\<lambda>p. Push_ID p = i) (push_subscriptions d)\<rparr>)"

text \<open>
  The recipients of a push from one sender into one circle: members other than the sender who
  muted neither the circle nor the sender.
\<close>

definition muted_by :: "db \<Rightarrow> uuid \<Rightarrow> uuid \<Rightarrow> uuid \<Rightarrow> bool" where
  "muted_by d user circleID sender \<longleftrightarrow> (\<exists>m\<in>set (notification_mutes d). Mute_UserID m = user \<and>
     Mute_CircleID m = circleID \<and> (Mute_MutedUserID m = None \<or> Mute_MutedUserID m = Some sender))"

definition ListCirclePushSubscriptions :: "uuid \<Rightarrow> uuid \<Rightarrow> PushSubscription list q" where
  "ListCirclePushSubscriptions circleID sender = query (\<lambda>d. sort_key Push_CreatedAt
     [p. p \<leftarrow> push_subscriptions d, m \<leftarrow> circle_members d, Member_UserID m = Push_UserID p \<and>
       Member_CircleID m = circleID \<and> Push_UserID p \<noteq> sender \<and>
       \<not> muted_by d (Push_UserID p) circleID sender])"

definition UpsertPushSubscription :: "gotime \<Rightarrow> uuid \<Rightarrow> uuid \<Rightarrow> uuid option \<Rightarrow> string \<Rightarrow> string option
    \<Rightarrow> string option \<Rightarrow> string \<Rightarrow> PushSubscription q" where
  "UpsertPushSubscription now i userID deviceID endpoint p256dh auth kind = stmt (\<lambda>d.
     if push_kind_shape kind p256dh auth \<and> fresh_in Push_ID i (push_subscriptions d) \<and> userID \<in> user_ids d
     then (case List.find (\<lambda>p. Push_Endpoint p = endpoint) (push_subscriptions d) of
        Some p \<Rightarrow> (let f = (\<lambda>p. p\<lparr>Push_P256dh := p256dh, Push_Auth := auth, Push_UserID := userID,
                                   Push_Kind := kind\<rparr>)
                   in (Inr (f p), d\<lparr>push_subscriptions :=
                         update_where (\<lambda>p. Push_Endpoint p = endpoint) f (push_subscriptions d)\<rparr>))
      | None \<Rightarrow> if set_option deviceID \<subseteq> device_ids d
          then let p = \<lparr>Push_ID = i, Push_UserID = userID, Push_DeviceID = deviceID,
                        Push_Endpoint = endpoint, Push_P256dh = p256dh, Push_Auth = auth,
                        Push_CreatedAt = tv now, Push_Kind = kind\<rparr>
               in (Inr p, d\<lparr>push_subscriptions := push_subscriptions d @ [p]\<rparr>)
          else (Inl Constraint, d))
     else (Inl Constraint, d))"

definition LatestActiveVersion :: "string \<Rightarrow> AppVersion q" where
  "LatestActiveVersion platform = query_row (\<lambda>d.
     case sort_key (\<lambda>v. - Version_VersionCode v)
       (filter (\<lambda>v. Version_Platform v = platform \<and> Version_IsActive v) (app_versions d)) of
       [] \<Rightarrow> None | v # _ \<Rightarrow> Some v)"

definition UpsertAppVersion :: "gotime \<Rightarrow> uuid \<Rightarrow> string \<Rightarrow> int \<Rightarrow> string \<Rightarrow> string option
    \<Rightarrow> string option \<Rightarrow> string option \<Rightarrow> int \<Rightarrow> AppVersion q" where
  "UpsertAppVersion now i platform code name apk sha changelog minSupported = stmt (\<lambda>d.
     if platform \<in> {''android'', ''ios''} \<and> fresh_in Version_ID i (app_versions d)
     then (let P = (\<lambda>v. version_key v = (platform, code));
               f = (\<lambda>v. v\<lparr>Version_VersionName := name, Version_ApkUrl := apk, Version_Sha256 := sha,
                          Version_Changelog := changelog, Version_MinSupported := minSupported,
                          Version_IsActive := True\<rparr>)
           in case List.find P (app_versions d) of
             Some v \<Rightarrow> (Inr (f v), d\<lparr>app_versions := update_where P f (app_versions d)\<rparr>)
           | None \<Rightarrow> (let v = \<lparr>Version_ID = i, Version_Platform = platform, Version_VersionCode = code,
                 Version_VersionName = name, Version_ApkUrl = apk, Version_Sha256 = sha,
                 Version_Changelog = changelog, Version_MinSupported = minSupported,
                 Version_IsActive = True, Version_CreatedAt = tv now\<rparr>
               in (Inr v, d\<lparr>app_versions := app_versions d @ [v]\<rparr>)))
     else (Inl Constraint, d))"

section \<open>Preservation of the schema\<close>

lemma InsertPing_ok [pres_rules]: "pres db_ok (InsertPing now i c v cl n ct cap ex)"
  unfolding InsertPing_def
  by (rule pres_stmt) (auto simp: Let_def fresh_in_def pings_ok_def ping_key_def intro!: put_pings)

lemma delete_pings_ok: "pres db_ok (delete_pings P)"
  unfolding delete_pings_def
  by (rule pres_exec_rows) (auto simp: pings_ok_def intro!: put_pings)

lemma DeleteExpiredPingsForCircle_ok [pres_rules]: "pres db_ok (DeleteExpiredPingsForCircle now c r)"
  unfolding DeleteExpiredPingsForCircle_def by (rule delete_pings_ok)

lemma PruneStalePings_ok [pres_rules]: "pres db_ok (PruneStalePings now h)"
  unfolding PruneStalePings_def by (rule delete_pings_ok)

lemma PruneAllPingsBefore_ok [pres_rules]: "pres db_ok (PruneAllPingsBefore t)"
  unfolding PruneAllPingsBefore_def by (rule delete_pings_ok)

lemma update_share_ok:
  assumes "\<And>s. Share_ID (f s) = Share_ID s \<and> Share_UserID (f s) = Share_UserID s"
  shows "pres db_ok (update_share P f)"
  unfolding update_share_def
  by (rule pres_stmt) (auto simp: assms shares_ok_def ball_update_where split: option.split
      intro!: put_share_sessions)

lemma BindShareViewer_ok [pres_rules]: "pres db_ok (BindShareViewer now i h)"
  unfolding BindShareViewer_def by (rule update_share_ok) (simp add: bind_viewer_def)

lemma RevokeShareSession_ok [pres_rules]: "pres db_ok (RevokeShareSession now i u)"
  unfolding RevokeShareSession_def by (rule update_share_ok) (simp add: revoke_share_def)

lemma CreateShareSession_ok [pres_rules]: "pres db_ok (CreateShareSession now i u e)"
  unfolding CreateShareSession_def
  by (rule pres_stmt) (auto simp: Let_def fresh_in_def shares_ok_def intro!: put_share_sessions)

lemma PruneShareSessions_ok [pres_rules]: "pres db_ok (PruneShareSessions now h)"
proof (unfold PruneShareSessions_def Let_def, rule pres_exec_rows, simp)
  fix d assume d: "db_ok d"
  let ?c = "tv (now - i64 (h * Hour))"
  let ?d = "d\<lparr>share_sessions := delete_where (dead_share ?c) (share_sessions d),
     share_positions := delete_where (\<lambda>p. Position_SessionID p \<in>
       Share_ID ` set (filter (dead_share ?c) (share_sessions d))) (share_positions d)\<rparr>"
  note ok = db_okD [OF d]
  have pos: "positions_ok (share_ids ?d) (share_positions ?d)"
    using ok(14) by (auto simp: positions_ok_def share_ids_def image_iff)
  have ids: "user_ids ?d = user_ids d" "device_ids ?d = device_ids d" "circle_ids ?d = circle_ids d"
    by (simp_all add: id_set_defs)
  have "shares_ok (user_ids d) (share_sessions ?d)" using ok(13) by (simp add: shares_ok_def)
  with ok pos show "db_ok ?d" unfolding db_ok_def ids by simp
qed

lemma UpsertSharePosition_ok [pres_rules]: "pres db_ok (UpsertSharePosition now i n ct cap)"
  unfolding UpsertSharePosition_def
  by (rule pres_stmt) (auto simp: positions_ok_def ball_update_where position_is_def find_None_all
      split: option.split intro!: put_share_positions)

lemma DeletePushSubscription_ok [pres_rules]: "pres db_ok (DeletePushSubscription e u)"
  unfolding DeletePushSubscription_def
  by (rule pres_exec) (auto simp: push_ok_def dest: db_okD(10) intro!: put_push_subscriptions)

lemma DeletePushSubscriptionByID_ok [pres_rules]: "pres db_ok (DeletePushSubscriptionByID i)"
  unfolding DeletePushSubscriptionByID_def
  by (rule pres_exec) (auto simp: push_ok_def dest: db_okD(10) intro!: put_push_subscriptions)

lemma UpsertPushSubscription_ok [pres_rules]: "pres db_ok (UpsertPushSubscription now i u v e p a k)"
proof (unfold UpsertPushSubscription_def Let_def, rule pres_stmt, simp)
  fix d assume d: "db_ok d"
  let ?f = "\<lambda>x. x\<lparr>Push_P256dh := p, Push_Auth := a, Push_UserID := u, Push_Kind := k\<rparr>"
  have upd: "push_ok (user_ids d) (device_ids d)
      (update_where (\<lambda>x. Push_Endpoint x = e) ?f (push_subscriptions d))"
    if "push_kind_shape k p a" "u \<in> user_ids d"
    using db_okD(10) [OF d] that by (auto simp: push_ok_def ball_update_where)
  show "db_ok (snd (if push_kind_shape k p a \<and> fresh_in Push_ID i (push_subscriptions d) \<and> u \<in> user_ids d
     then (case List.find (\<lambda>x. Push_Endpoint x = e) (push_subscriptions d) of
        Some x \<Rightarrow> (Inr (?f x), d\<lparr>push_subscriptions :=
           update_where (\<lambda>x. Push_Endpoint x = e) ?f (push_subscriptions d)\<rparr>)
      | None \<Rightarrow> if set_option v \<subseteq> device_ids d
          then (Inr \<lparr>Push_ID = i, Push_UserID = u, Push_DeviceID = v, Push_Endpoint = e,
                  Push_P256dh = p, Push_Auth = a, Push_CreatedAt = tv now, Push_Kind = k\<rparr>,
                d\<lparr>push_subscriptions := push_subscriptions d @
                  [\<lparr>Push_ID = i, Push_UserID = u, Push_DeviceID = v, Push_Endpoint = e,
                    Push_P256dh = p, Push_Auth = a, Push_CreatedAt = tv now, Push_Kind = k\<rparr>]\<rparr>)
          else (Inl Constraint, d))
     else (Inl Constraint, d)))"
    using d upd db_okD(10) [OF d]
    by (auto simp: push_ok_def fresh_in_def find_None_all split: option.split
        intro!: put_push_subscriptions)
qed

lemma versions_ok_append:
  assumes "versions_ok vs" and "Version_Platform v \<in> {''android'', ''ios''}"
    and "\<forall>w\<in>set vs. version_key w \<noteq> version_key v \<and> Version_ID w \<noteq> Version_ID v"
  shows "versions_ok (vs @ [v])"
  using assms by (auto simp: versions_ok_def)

lemma UpsertAppVersion_ok [pres_rules]: "pres db_ok (UpsertAppVersion now i p c n a s ch m)"
  unfolding UpsertAppVersion_def Let_def
proof (rule pres_stmt, simp)
  fix d assume d: "db_ok d"
  note v = db_okD(11) [OF d]
  let ?f = "\<lambda>v. v\<lparr>Version_VersionName := n, Version_ApkUrl := a, Version_Sha256 := s,
     Version_Changelog := ch, Version_MinSupported := m, Version_IsActive := True\<rparr>"
  let ?v = "\<lparr>Version_ID = i, Version_Platform = p, Version_VersionCode = c, Version_VersionName = n,
     Version_ApkUrl = a, Version_Sha256 = s, Version_Changelog = ch, Version_MinSupported = m,
     Version_IsActive = True, Version_CreatedAt = tv now\<rparr>"
  have "versions_ok (update_where (\<lambda>v. version_key v = (p, c)) ?f (app_versions d))"
    using v by (auto simp: versions_ok_def ball_update_where version_key_def)
  moreover have "versions_ok (app_versions d @ [?v])"
    if "p \<in> {''android'', ''ios''}" "fresh_in Version_ID i (app_versions d)"
      "\<forall>w\<in>set (app_versions d). version_key w \<noteq> (p, c)"
    using that by (intro versions_ok_append [OF v]) (auto simp: fresh_in_def version_key_def)
  ultimately show "db_ok (snd (if p \<in> {''android'', ''ios''} \<and> fresh_in Version_ID i (app_versions d)
     then (case List.find (\<lambda>v. version_key v = (p, c)) (app_versions d) of
             Some v \<Rightarrow> (Inr (?f v), d\<lparr>app_versions :=
                update_where (\<lambda>v. version_key v = (p, c)) ?f (app_versions d)\<rparr>)
           | None \<Rightarrow> (Inr ?v, d\<lparr>app_versions := app_versions d @ [?v]\<rparr>))
     else (Inl Constraint, d)))"
    using d by (auto simp: find_None_all split: option.split intro!: put_app_versions)
qed

section \<open>What the newest-per-device carve-out keeps\<close>

text \<open>Removing elements that are not minimal does not change the head of a sorted list.\<close>

lemma sort_key_delete_where: "sort_key f (delete_where P xs) = delete_where P (sort_key f xs)"
  by (simp add: delete_where_def filter_sort)

lemma sort_key_Nil_iff [simp]: "sort_key f xs = [] \<longleftrightarrow> xs = []"
  by (metis set_empty2 set_sort sort_key_simps(1))

lemma hd_sort_key_least:
  assumes "xs \<noteq> []"
  shows "hd (sort_key f xs) \<in> set xs" and "\<And>y. y \<in> set xs \<Longrightarrow> f (hd (sort_key f xs)) \<le> f y"
proof -
  obtain a r where s: "sort_key f xs = a # r" using assms by (cases "sort_key f xs") auto
  have set: "set xs = insert a (set r)" using s by (metis list.simps(15) set_sort)
  have "sorted (map f (a # r))" using s by (metis sorted_sort_key)
  then show "hd (sort_key f xs) \<in> set xs" and "\<And>y. y \<in> set xs \<Longrightarrow> f (hd (sort_key f xs)) \<le> f y"
    using s set by auto
qed

lemma hd_sort_key_delete_where:
  assumes "xs \<noteq> []" and "\<And>x. x \<in> set xs \<Longrightarrow> P x \<Longrightarrow> \<exists>y\<in>set xs. f y < f x"
  shows "hd (sort_key f (delete_where P xs)) = hd (sort_key f xs)" and "delete_where P xs \<noteq> []"
proof -
  let ?h = "hd (sort_key f xs)"
  have keep: "\<not> P ?h" using hd_sort_key_least [OF assms(1), where f = f] assms(2) by (meson leD)
  show "delete_where P xs \<noteq> []"
    using keep hd_sort_key_least(1) [OF assms(1), where f = f] by (auto simp: delete_where_def filter_empty_conv)
  obtain a r where "sort_key f xs = a # r" using assms(1) by (cases "sort_key f xs") auto
  with keep show "hd (sort_key f (delete_where P xs)) = ?h"
    by (simp add: sort_key_delete_where)
qed

lemma delete_where_filter: "delete_where P (filter Q xs) = filter Q (delete_where P xs)"
  by (simp add: delete_where_def conj_commute)

lemma latest_per_device_carve_out:
  assumes "\<And>p. p \<in> set ps \<Longrightarrow> P p \<Longrightarrow>
      \<exists>n\<in>set ps. Ping_DeviceID n = Ping_DeviceID p \<and> Ping_CapturedAt n > Ping_CapturedAt p"
  shows "latest_per_device (delete_where P ps) = latest_per_device ps"
proof -
  let ?of = "\<lambda>v. filter (\<lambda>p. Ping_DeviceID p = v) ps"
  have head: "hd (newest_first v (delete_where P ps)) = hd (newest_first v ps) \<and>
      delete_where P (?of v) \<noteq> []" if "v \<in> Ping_DeviceID ` set ps" for v
  proof -
    have "?of v \<noteq> []" using that by (auto simp: filter_empty_conv)
    moreover have "\<exists>y\<in>set (?of v). - Ping_CapturedAt y < - Ping_CapturedAt x"
      if "x \<in> set (?of v)" "P x" for x using that assms [of x] by auto
    ultimately show ?thesis
      using hd_sort_key_delete_where [of "?of v" P "\<lambda>p. - Ping_CapturedAt p"]
      by (simp add: newest_first_def delete_where_filter)
  qed
  have "Ping_DeviceID ` set (delete_where P ps) = Ping_DeviceID ` set ps"
  proof
    show "Ping_DeviceID ` set ps \<subseteq> Ping_DeviceID ` set (delete_where P ps)"
    proof
      fix v assume "v \<in> Ping_DeviceID ` set ps"
      then have "delete_where P (?of v) \<noteq> []" using head by blast
      then show "v \<in> Ping_DeviceID ` set (delete_where P ps)"
        by (auto simp: delete_where_def filter_empty_conv)
    qed
  qed auto
  then have "sort (remdups (map Ping_DeviceID (delete_where P ps))) =
      sort (remdups (map Ping_DeviceID ps))"
    by (metis set_map sorted_list_of_set_sort_remdups)
  with head show ?thesis by (simp add: latest_per_device_def)
qed

definition latest_rows :: "db \<Rightarrow> uuid \<Rightarrow> Ping list" where
  "latest_rows d circleID = latest_per_device (filter (\<lambda>p. Ping_CircleID p = circleID) (pings d))"

lemma latest_rows_carve_out:
  assumes "\<And>p. P p \<Longrightarrow> superseded (pings d) p"
  shows "latest_rows (d\<lparr>pings := delete_where P (pings d)\<rparr>) c = latest_rows d c"
proof -
  have "latest_per_device (delete_where P (filter (\<lambda>p. Ping_CircleID p = c) (pings d))) =
      latest_per_device (filter (\<lambda>p. Ping_CircleID p = c) (pings d))"
  proof (rule latest_per_device_carve_out)
    fix p assume "p \<in> set (filter (\<lambda>p. Ping_CircleID p = c) (pings d))" and "P p"
    then show "\<exists>n\<in>set (filter (\<lambda>p. Ping_CircleID p = c) (pings d)).
        Ping_DeviceID n = Ping_DeviceID p \<and> Ping_CapturedAt n > Ping_CapturedAt p"
      using assms [of p] by (auto simp: superseded_def)
  qed
  then show ?thesis by (simp add: latest_rows_def delete_where_filter)
qed

lemma latest_rows_faults [simp]: "latest_rows (d\<lparr>faults := fs\<rparr>) c = latest_rows d c"
  by (simp add: latest_rows_def)

text \<open>Every device of the circle has exactly one row, and no stored row of it is newer.\<close>

lemma latest_rows_newest:
  assumes "p \<in> set (latest_rows d c)"
  shows "p \<in> set (pings d)" and "Ping_CircleID p = c"
    and "\<And>q. q \<in> set (pings d) \<Longrightarrow> Ping_CircleID q = c \<Longrightarrow> Ping_DeviceID q = Ping_DeviceID p \<Longrightarrow>
        Ping_CapturedAt q \<le> Ping_CapturedAt p"
proof -
  let ?ps = "filter (\<lambda>p. Ping_CircleID p = c) (pings d)"
  from assms obtain v where v: "v \<in> Ping_DeviceID ` set ?ps" and p: "p = hd (newest_first v ?ps)"
    by (auto simp: latest_rows_def latest_per_device_def)
  let ?of = "filter (\<lambda>p. Ping_DeviceID p = v) ?ps"
  have ne: "?of \<noteq> []" using v by (auto simp: filter_empty_conv)
  note h = hd_sort_key_least [OF ne, where f = "\<lambda>p. - Ping_CapturedAt p"]
  have pv: "p \<in> set ?of" using h(1) p by (simp add: newest_first_def)
  then show "p \<in> set (pings d)" and "Ping_CircleID p = c" by simp_all
  fix q assume "q \<in> set (pings d)" "Ping_CircleID q = c" "Ping_DeviceID q = Ping_DeviceID p"
  then have "q \<in> set ?of" using pv by simp
  then show "Ping_CapturedAt q \<le> Ping_CapturedAt p" using h(2) p by (force simp: newest_first_def)
qed

lemma latest_rows_devices:
  "map Ping_DeviceID (latest_rows d c) =
   sorted_list_of_set (Ping_DeviceID ` {p \<in> set (pings d). Ping_CircleID p = c})"
proof -
  let ?ps = "filter (\<lambda>p. Ping_CircleID p = c) (pings d)"
  have "Ping_DeviceID (hd (newest_first v ?ps)) = v" if "v \<in> Ping_DeviceID ` set ?ps" for v
  proof -
    have "filter (\<lambda>p. Ping_DeviceID p = v) ?ps \<noteq> []" using that by (auto simp: filter_empty_conv)
    from hd_sort_key_least(1) [OF this, where f = "\<lambda>p. - Ping_CapturedAt p"] show ?thesis
      by (simp add: newest_first_def)
  qed
  then have "map Ping_DeviceID (latest_rows d c) = sort (remdups (map Ping_DeviceID ?ps))"
    by (auto simp: latest_rows_def latest_per_device_def intro!: map_idI)
  then show ?thesis by (simp flip: sorted_list_of_set_sort_remdups)
qed

text \<open>The rows of the query are those of the specification.\<close>

lemma LatestPingsForCircle_eq: "LatestPingsForCircle c = query (\<lambda>d. latest_rows d c)"
  by (simp add: LatestPingsForCircle_def latest_rows_def)

lemma delete_pings_latest:
  assumes "\<And>ps p. P ps p \<Longrightarrow> superseded ps p"
  shows "latest_rows (snd (delete_pings P d)) c = latest_rows d c"
proof -
  obtain r d' where e: "delete_pings P d = (r, d')" by (cases "delete_pings P d")
  from e have s: "stmt (\<lambda>d. (Inr (count_where (P (pings d)) (pings d)),
      d\<lparr>pings := delete_where (P (pings d)) (pings d)\<rparr>)) d = (r, d')"
    by (simp add: delete_pings_def exec_rows_def)
  from s show ?thesis
  proof (cases rule: stmt_cases)
    case (fault bs)
    then show ?thesis using e by simp
  next
    case (run bs)
    let ?d = "d\<lparr>faults := bs\<rparr>"
    have "d' = ?d\<lparr>pings := delete_where (P (pings ?d)) (pings ?d)\<rparr>" using run by simp
    moreover have "latest_rows (?d\<lparr>pings := delete_where (P (pings ?d)) (pings ?d)\<rparr>) c = latest_rows ?d c"
      using assms by (intro latest_rows_carve_out)
    ultimately show ?thesis using e by simp
  qed
qed

end
