(* ===== verification/Aul_Hub.thy ===== *)
theory Aul_Hub
  imports Aul_Rows
begin

text \<open>
  The realtime hub of \<^verbatim>\<open>server/internal/realtime/hub.go\<close>. A client handle (\<^verbatim>\<open>*Client\<close>) is a
  number \<open>cid\<close>, its struct is in \<open>hub_store\<close>: the hub's maps share that one struct. A map used
  as a set is a list without duplicates; Go iterates over it in an unspecified order, the
  model in list order, and the lemmas describe the outcome for each client separately. The
  channel \<^verbatim>\<open>send\<close> is its buffered frames with a capacity and a closed flag; sending on or
  closing a closed channel panics, which \<open>hub_panicked\<close> records. The two buffered channels of
  the hub are queues of 256 and 64 entries. One \<open>hub_step\<close> is one branch of the \<^verbatim>\<open>select\<close> in
  \<^verbatim>\<open>Run\<close>, one call of an exported method, or one receive by a transport goroutine.
\<close>

section \<open>State\<close>

type_synonym cid = nat

text \<open>Payloads are the JSON of one of these values.\<close>

datatype payload = PayloadPing Ping | PayloadSOS SosEvent | PayloadID uuid

record HubEvent =
  Event_Type :: string
  Event_CircleID :: uuid
  Event_Payload :: "payload option"

datatype frame = EventFrame HubEvent | Unsubscribed uuid

record Client =
  Client_UserID :: uuid
  Client_circles :: "uuid list"
  Client_send :: "frame list"
  Client_cap :: nat
  Client_closed :: bool

record evictReq =
  evict_circleID :: uuid
  evict_userID :: uuid
  evict_allUsers :: bool

record Hub =
  hub_store :: "cid \<Rightarrow> Client option"
  hub_clients :: "cid list"
  hub_circles :: "uuid \<Rightarrow> cid list option"
  hub_broadcast :: "HubEvent list"
  hub_evict :: "evictReq list"
  hub_totalConns :: nat
  hub_perUser :: "uuid \<Rightarrow> nat"
  hub_maxPerUser :: nat
  hub_maxTotal :: nat
  hub_running :: bool
  hub_panicked :: bool

definition broadcast_cap :: nat where "broadcast_cap = 256"
definition evict_cap :: nat where "evict_cap = 64"

definition NewHub :: Hub where
  "NewHub = \<lparr>hub_store = (\<lambda>_. None), hub_clients = [], hub_circles = (\<lambda>_. None), hub_broadcast = [],
     hub_evict = [], hub_totalConns = 0, hub_perUser = (\<lambda>_. 0), hub_maxPerUser = 10,
     hub_maxTotal = 10000, hub_running = True, hub_panicked = False\<rparr>"

section \<open>Operations\<close>

definition NewClient :: "uuid \<Rightarrow> uuid list \<Rightarrow> int \<Rightarrow> Client" where
  "NewClient userID cs buffer = \<lparr>Client_UserID = userID, Client_circles = remdups cs,
     Client_send = [], Client_cap = nat (if buffer \<le> 0 then 64 else buffer), Client_closed = False\<rparr>"

definition Subscribed :: "uuid \<Rightarrow> Client \<Rightarrow> bool" where
  "Subscribed circleID c \<longleftrightarrow> circleID \<in> set (Client_circles c)"

definition SetConnLimits :: "int \<Rightarrow> int \<Rightarrow> Hub \<Rightarrow> Hub" where
  "SetConnLimits perUser tot h =
     (let h1 = (if perUser > 0 then h\<lparr>hub_maxPerUser := nat perUser\<rparr> else h) in
      if tot > 0 then h1\<lparr>hub_maxTotal := nat tot\<rparr> else h1)"

definition Admit :: "uuid \<Rightarrow> Hub \<Rightarrow> bool \<times> Hub" where
  "Admit u h = (if hub_totalConns h \<ge> hub_maxTotal h \<or> hub_perUser h u \<ge> hub_maxPerUser h then (False, h)
     else (True, h\<lparr>hub_totalConns := hub_totalConns h + 1,
                   hub_perUser := (hub_perUser h)(u := hub_perUser h u + 1)\<rparr>))"

definition Release :: "uuid \<Rightarrow> Hub \<Rightarrow> Hub" where
  "Release u h = h\<lparr>hub_totalConns := (if hub_totalConns h > 0 then hub_totalConns h - 1 else hub_totalConns h),
     hub_perUser := (if hub_perUser h u > 0 then (hub_perUser h)(u := hub_perUser h u - 1) else hub_perUser h)\<rparr>"

text \<open>Changing a client struct in place.\<close>

definition modify_client :: "cid \<Rightarrow> (Client \<Rightarrow> Client) \<Rightarrow> Hub \<Rightarrow> Hub" where
  "modify_client k f h = h\<lparr>hub_store := (hub_store h)(k := map_option f (hub_store h k))\<rparr>"

definition circles_of :: "Hub \<Rightarrow> cid \<Rightarrow> uuid list" where
  "circles_of h k = (case hub_store h k of None \<Rightarrow> [] | Some c \<Rightarrow> Client_circles c)"

definition close_send :: "cid \<Rightarrow> Hub \<Rightarrow> Hub" where
  "close_send k h = (case hub_store h k of None \<Rightarrow> h
     | Some c \<Rightarrow> if Client_closed c then h\<lparr>hub_panicked := True\<rparr>
                 else modify_client k (\<lambda>c. c\<lparr>Client_closed := True\<rparr>) h)"

text \<open>The non-blocking send \<^verbatim>\<open>select { case c.send <- frame: default: }\<close>: whether it was taken.\<close>

definition try_send :: "cid \<Rightarrow> frame \<Rightarrow> Hub \<Rightarrow> bool \<times> Hub" where
  "try_send k f h = (case hub_store h k of None \<Rightarrow> (False, h)
     | Some c \<Rightarrow> if Client_closed c then (True, h\<lparr>hub_panicked := True\<rparr>)
                 else if length (Client_send c) < Client_cap c
                 then (True, modify_client k (\<lambda>c. c\<lparr>Client_send := Client_send c @ [f]\<rparr>) h)
                 else (False, h))"

definition set_add :: "cid \<Rightarrow> cid list \<Rightarrow> cid list" where
  "set_add k xs = (if k \<in> set xs then xs else xs @ [k])"

definition subscribe :: "cid \<Rightarrow> uuid \<Rightarrow> (uuid \<Rightarrow> cid list option) \<Rightarrow> uuid \<Rightarrow> cid list option" where
  "subscribe k c m = m(c := Some (set_add k (case m c of None \<Rightarrow> [] | Some s \<Rightarrow> s)))"

definition unsubscribe :: "cid \<Rightarrow> uuid \<Rightarrow> (uuid \<Rightarrow> cid list option) \<Rightarrow> uuid \<Rightarrow> cid list option" where
  "unsubscribe k c m = (case m c of None \<Rightarrow> m
     | Some s \<Rightarrow> (let s' = removeAll k s in if s' = [] then m(c := None) else m(c := Some s')))"

definition addClient :: "cid \<Rightarrow> Hub \<Rightarrow> Hub" where
  "addClient k h = h\<lparr>hub_clients := set_add k (hub_clients h),
     hub_circles := fold (subscribe k) (circles_of h k) (hub_circles h)\<rparr>"

definition removeClient :: "cid \<Rightarrow> Hub \<Rightarrow> Hub" where
  "removeClient k h = (if k \<notin> set (hub_clients h) then h
     else close_send k (h\<lparr>hub_clients := removeAll k (hub_clients h),
       hub_circles := fold (unsubscribe k) (circles_of h k) (hub_circles h)\<rparr>))"

definition dispatch_one :: "HubEvent \<Rightarrow> cid \<Rightarrow> Hub \<Rightarrow> Hub" where
  "dispatch_one ev k h = (case try_send k (EventFrame ev) h of
     (taken, h1) \<Rightarrow> if taken then h1 else removeClient k h1)"

definition dispatch :: "HubEvent \<Rightarrow> Hub \<Rightarrow> Hub" where
  "dispatch ev h = (case hub_circles h (Event_CircleID ev) of None \<Rightarrow> h
     | Some s \<Rightarrow> fold (dispatch_one ev) s h)"

definition evict_matches :: "evictReq \<Rightarrow> Hub \<Rightarrow> cid \<Rightarrow> bool" where
  "evict_matches req h k = (case hub_store h k of None \<Rightarrow> False
     | Some c \<Rightarrow> evict_allUsers req \<or> Client_UserID c = evict_userID req)"

definition evict_one :: "evictReq \<Rightarrow> cid \<Rightarrow> Hub \<Rightarrow> Hub" where
  "evict_one req k h = (if \<not> evict_matches req h k then h
     else snd (try_send k (Unsubscribed (evict_circleID req))
       ((modify_client k (\<lambda>c. c\<lparr>Client_circles := removeAll (evict_circleID req) (Client_circles c)\<rparr>) h)
         \<lparr>hub_circles := unsubscribe k (evict_circleID req) (hub_circles h)\<rparr>)))"

definition doEvict :: "evictReq \<Rightarrow> Hub \<Rightarrow> Hub" where
  "doEvict req h = (case hub_circles h (evict_circleID req) of None \<Rightarrow> h
     | Some s \<Rightarrow> fold (evict_one req) s h)"

definition EvictUser :: "uuid \<Rightarrow> uuid \<Rightarrow> Hub \<Rightarrow> Hub" where
  "EvictUser circleID userID h = (if length (hub_evict h) < evict_cap
     then h\<lparr>hub_evict := hub_evict h @ [\<lparr>evict_circleID = circleID, evict_userID = userID, evict_allUsers = False\<rparr>]\<rparr>
     else h)"

definition EvictCircle :: "uuid \<Rightarrow> Hub \<Rightarrow> Hub" where
  "EvictCircle circleID h = (if length (hub_evict h) < evict_cap
     then h\<lparr>hub_evict := hub_evict h @ [\<lparr>evict_circleID = circleID, evict_userID = 0, evict_allUsers = True\<rparr>]\<rparr>
     else h)"

definition Publish :: "HubEvent \<Rightarrow> Hub \<Rightarrow> Hub" where
  "Publish ev h = (if length (hub_broadcast h) < broadcast_cap
     then h\<lparr>hub_broadcast := hub_broadcast h @ [ev]\<rparr> else h)"

definition shutdown :: "Hub \<Rightarrow> Hub" where
  "shutdown h = (fold close_send (hub_clients h) h)
     \<lparr>hub_clients := [], hub_circles := (\<lambda>_. None), hub_running := False\<rparr>"

datatype hub_op = OpRegister cid uuid "uuid list" int | OpUnregister cid | OpDispatch | OpEvict
  | OpPublish HubEvent | OpEvictUser uuid uuid | OpEvictCircle uuid | OpDrain cid
  | OpAdmit uuid | OpRelease uuid | OpShutdown

text \<open>
  \<open>OpRegister\<close> allocates the struct (a fresh handle) and hands it to the loop. After the
  shutdown the loop no longer receives.
\<close>

fun hub_step :: "hub_op \<Rightarrow> Hub \<Rightarrow> Hub" where
  "hub_step (OpRegister k u cs buffer) h = (if hub_running h \<and> hub_store h k = None
     then addClient k (h\<lparr>hub_store := (hub_store h)(k := Some (NewClient u cs buffer))\<rparr>) else h)"
| "hub_step (OpUnregister k) h = (if hub_running h then removeClient k h else h)"
| "hub_step OpDispatch h = (case hub_broadcast h of
      ev # evs \<Rightarrow> if hub_running h then dispatch ev (h\<lparr>hub_broadcast := evs\<rparr>) else h | [] \<Rightarrow> h)"
| "hub_step OpEvict h = (case hub_evict h of
      req # reqs \<Rightarrow> if hub_running h then doEvict req (h\<lparr>hub_evict := reqs\<rparr>) else h | [] \<Rightarrow> h)"
| "hub_step (OpPublish ev) h = Publish ev h"
| "hub_step (OpEvictUser c u) h = EvictUser c u h"
| "hub_step (OpEvictCircle c) h = EvictCircle c h"
| "hub_step (OpDrain k) h = modify_client k (\<lambda>c. c\<lparr>Client_send := tl (Client_send c)\<rparr>) h"
| "hub_step (OpAdmit u) h = snd (Admit u h)"
| "hub_step (OpRelease u) h = Release u h"
| "hub_step OpShutdown h = (if hub_running h then shutdown h else h)"

section \<open>Invariant\<close>

definition client_ok :: "Client \<Rightarrow> bool" where
  "client_ok c \<longleftrightarrow> length (Client_send c) \<le> Client_cap c \<and> distinct (Client_circles c)"

definition registered :: "Hub \<Rightarrow> cid \<Rightarrow> Client \<Rightarrow> bool" where
  "registered h k c \<longleftrightarrow> k \<in> set (hub_clients h) \<and> hub_store h k = Some c"

definition members :: "(uuid \<Rightarrow> cid list option) \<Rightarrow> uuid \<Rightarrow> cid set" where
  "members m i = (case m i of None \<Rightarrow> {} | Some s \<Rightarrow> set s)"

definition sets_ok :: "(uuid \<Rightarrow> cid list option) \<Rightarrow> bool" where
  "sets_ok m \<longleftrightarrow> (\<forall>i s. m i = Some s \<longrightarrow> s \<noteq> [] \<and> distinct s)"

text \<open>The two indexes agree and hold only live, open clients.\<close>

definition index_ok :: "Hub \<Rightarrow> bool" where
  "index_ok h \<longleftrightarrow> distinct (hub_clients h) \<and>
     (\<forall>k\<in>set (hub_clients h). \<exists>c. hub_store h k = Some c \<and> \<not> Client_closed c) \<and>
     (\<forall>k c. hub_store h k = Some c \<longrightarrow> client_ok c) \<and> sets_ok (hub_circles h) \<and>
     (\<forall>i k. k \<in> members (hub_circles h) i \<longleftrightarrow> k \<in> set (hub_clients h) \<and> i \<in> set (circles_of h k))"

definition queues_ok :: "Hub \<Rightarrow> bool" where
  "queues_ok h \<longleftrightarrow> length (hub_broadcast h) \<le> broadcast_cap \<and> length (hub_evict h) \<le> evict_cap"

definition conns_ok :: "Hub \<Rightarrow> bool" where
  "conns_ok h \<longleftrightarrow> hub_totalConns h \<le> hub_maxTotal h \<and> (\<forall>u. hub_perUser h u \<le> hub_maxPerUser h)"

definition hub_inv :: "Hub \<Rightarrow> bool" where
  "hub_inv h \<longleftrightarrow> index_ok h \<and> \<not> hub_panicked h \<and> queues_ok h \<and> conns_ok h"

section \<open>Lemmas\<close>

lemma members_subscribe: "members (subscribe k c m) i = members m i \<union> (if i = c then {k} else {})"
  by (auto simp: members_def subscribe_def set_add_def split: option.split)

lemma sets_ok_subscribe: "sets_ok m \<Longrightarrow> sets_ok (subscribe k c m)"
  by (auto simp: sets_ok_def subscribe_def set_add_def split: option.splits if_splits)

lemma members_unsubscribe: "members (unsubscribe k c m) i = members m i - (if i = c then {k} else {})"
proof (cases "m c")
  case None
  then show ?thesis by (simp add: unsubscribe_def members_def)
next
  case (Some s)
  have "removeAll k s = [] \<Longrightarrow> set s - {k} = {}" by (metis set_removeAll list.set(1))
  then show ?thesis using Some by (auto simp: unsubscribe_def members_def Let_def)
qed

lemma sets_ok_unsubscribe: "sets_ok m \<Longrightarrow> sets_ok (unsubscribe k c m)"
  by (auto simp: sets_ok_def unsubscribe_def Let_def distinct_removeAll split: option.splits if_splits)

lemma members_fold_subscribe:
  "members (fold (subscribe k) cs m) i = members m i \<union> (if i \<in> set cs then {k} else {})"
  by (induction cs arbitrary: m) (auto simp: members_subscribe)

lemma sets_ok_fold_subscribe: "sets_ok m \<Longrightarrow> sets_ok (fold (subscribe k) cs m)"
  by (induction cs arbitrary: m) (simp_all add: sets_ok_subscribe)

lemma members_fold_unsubscribe:
  "members (fold (unsubscribe k) cs m) i = members m i - (if i \<in> set cs then {k} else {})"
  by (induction cs arbitrary: m) (auto simp: members_unsubscribe)

lemma sets_ok_fold_unsubscribe: "sets_ok m \<Longrightarrow> sets_ok (fold (unsubscribe k) cs m)"
  by (induction cs arbitrary: m) (simp_all add: sets_ok_unsubscribe)

lemma set_set_add [simp]: "set (set_add k xs) = insert k (set xs)"
  by (auto simp: set_add_def)

lemma distinct_set_add [simp]: "distinct xs \<Longrightarrow> distinct (set_add k xs)"
  by (auto simp: set_add_def)

lemma index_okD:
  assumes "index_ok h"
  shows "distinct (hub_clients h)" and "sets_ok (hub_circles h)"
    and "k \<in> set (hub_clients h) \<Longrightarrow> \<exists>c. hub_store h k = Some c \<and> \<not> Client_closed c"
    and "hub_store h k = Some c \<Longrightarrow> client_ok c"
    and "k \<in> members (hub_circles h) i \<longleftrightarrow> k \<in> set (hub_clients h) \<and> i \<in> set (circles_of h k)"
  using assms by (auto simp: index_ok_def)

lemma NewClient_ok: "client_ok (NewClient u cs b)" "\<not> Client_closed (NewClient u cs b)"
  by (simp_all add: client_ok_def NewClient_def)

lemma addClient_ok:
  assumes h: "index_ok h" and k: "hub_store h k = None"
  shows "index_ok (addClient k (h\<lparr>hub_store := (hub_store h)(k := Some (NewClient u cs b))\<rparr>))"
proof -
  have "k \<notin> set (hub_clients h)" using index_okD(3) [OF h, of k] k by auto
  then show ?thesis using h NewClient_ok [of u cs b]
    by (auto simp: index_ok_def addClient_def members_fold_subscribe sets_ok_fold_subscribe circles_of_def)
qed

lemma circles_of_frame [simp]:
  "circles_of (h\<lparr>hub_clients := x\<rparr>) = circles_of h" "circles_of (h\<lparr>hub_circles := y\<rparr>) = circles_of h"
  "circles_of (h\<lparr>hub_panicked := p\<rparr>) = circles_of h" "circles_of (h\<lparr>hub_broadcast := q\<rparr>) = circles_of h"
  "circles_of (h\<lparr>hub_evict := e\<rparr>) = circles_of h"
  by (simp_all add: circles_of_def fun_eq_iff)

lemma removeClient_eq:
  assumes "index_ok h" and "k \<in> set (hub_clients h)"
  shows "removeClient k h = modify_client k (\<lambda>c. c\<lparr>Client_closed := True\<rparr>)
     (h\<lparr>hub_clients := removeAll k (hub_clients h),
        hub_circles := fold (unsubscribe k) (circles_of h k) (hub_circles h)\<rparr>)"
  using index_okD(3) [OF assms] assms(2) by (auto simp: removeClient_def close_send_def)

lemma removeClient_ok:
  assumes h: "index_ok h"
  shows "index_ok (removeClient k h)"
proof (cases "k \<in> set (hub_clients h)")
  case False
  then show ?thesis using h by (simp add: removeClient_def)
next
  case True
  let ?h = "removeClient k h"
  note eq = removeClient_eq [OF h True]
  have store: "hub_store ?h = (hub_store h)(k := map_option (\<lambda>c. c\<lparr>Client_closed := True\<rparr>) (hub_store h k))"
    and clients: "hub_clients ?h = removeAll k (hub_clients h)"
    and circles: "hub_circles ?h = fold (unsubscribe k) (circles_of h k) (hub_circles h)"
    unfolding eq by (simp_all add: modify_client_def)
  have of: "circles_of ?h j = circles_of h j" for j
    by (cases "hub_store h k") (auto simp: circles_of_def store)
  have "client_ok c" if "hub_store ?h j = Some c" for j c
    using that index_okD(4) [OF h] by (auto simp: store client_ok_def split: if_splits)
  moreover have "\<exists>c. hub_store ?h j = Some c \<and> \<not> Client_closed c" if "j \<in> set (hub_clients ?h)" for j
    using that index_okD(3) [OF h, of j] by (auto simp: clients store)
  ultimately show ?thesis unfolding index_ok_def clients circles of
    using index_okD(1,2,5) [OF h]
    by (auto simp: members_fold_unsubscribe sets_ok_fold_unsubscribe distinct_removeAll)
qed

subsection \<open>Dispatch, client by client\<close>

text \<open>What an event does to a subscribed client: queued, or the slow client is dropped.\<close>

definition deliver :: "HubEvent \<Rightarrow> Client \<Rightarrow> Client" where
  "deliver ev c = (if length (Client_send c) < Client_cap c
     then c\<lparr>Client_send := Client_send c @ [EventFrame ev]\<rparr> else c\<lparr>Client_closed := True\<rparr>)"

definition rest_of :: "Hub \<Rightarrow> HubEvent list \<times> evictReq list \<times> nat \<times> (uuid \<Rightarrow> nat) \<times> nat \<times> nat \<times> bool \<times> bool" where
  "rest_of h = (hub_broadcast h, hub_evict h, hub_totalConns h, hub_perUser h, hub_maxPerUser h,
     hub_maxTotal h, hub_running h, hub_panicked h)"

lemma index_ok_store:
  assumes h: "index_ok h" and k: "hub_store h k = Some c"
    and f: "client_ok (f c)" "Client_circles (f c) = Client_circles c" "Client_closed (f c) = Client_closed c"
  shows "index_ok (modify_client k f h)"
proof -
  have "circles_of (modify_client k f h) j = circles_of h j" for j
    using k f by (auto simp: circles_of_def modify_client_def)
  with h k f show ?thesis by (auto simp: index_ok_def modify_client_def)
qed

lemma dispatch_one_effect:
  assumes h: "index_ok h" and k: "k \<in> set (hub_clients h)"
  shows "index_ok (dispatch_one ev k h) \<and>
    hub_store (dispatch_one ev k h) = (hub_store h)(k := map_option (deliver ev) (hub_store h k)) \<and>
    rest_of (dispatch_one ev k h) = rest_of h \<and> set (hub_clients h) - {k} \<subseteq> set (hub_clients (dispatch_one ev k h))"
proof -
  obtain c where c: "hub_store h k = Some c" "\<not> Client_closed c" using index_okD(3) [OF h k] by blast
  show ?thesis
  proof (cases "length (Client_send c) < Client_cap c")
    case True
    then have eq: "dispatch_one ev k h = modify_client k (\<lambda>c. c\<lparr>Client_send := Client_send c @ [EventFrame ev]\<rparr>) h"
      using c by (simp add: dispatch_one_def try_send_def)
    have "index_ok (dispatch_one ev k h)"
      unfolding eq using True index_okD(4) [OF h c(1)] by (intro index_ok_store [OF h c(1)]) (simp_all add: client_ok_def)
    then show ?thesis using True c by (auto simp: eq modify_client_def deliver_def rest_of_def)
  next
    case False
    then have eq: "dispatch_one ev k h = removeClient k h"
      using c by (simp add: dispatch_one_def try_send_def)
    have "hub_store (removeClient k h) = (hub_store h)(k := map_option (deliver ev) (hub_store h k)) \<and>
        rest_of (removeClient k h) = rest_of h \<and> set (hub_clients h) - {k} \<subseteq> set (hub_clients (removeClient k h))"
      using False c by (auto simp: removeClient_eq [OF h k] modify_client_def deliver_def rest_of_def)
    then show ?thesis unfolding eq using removeClient_ok [OF h] by blast
  qed
qed

lemma fold_dispatch:
  assumes "index_ok h" and "set s \<subseteq> set (hub_clients h)" and "distinct s"
  shows "index_ok (fold (dispatch_one ev) s h) \<and> rest_of (fold (dispatch_one ev) s h) = rest_of h \<and>
    (\<forall>j. hub_store (fold (dispatch_one ev) s h) j =
       (if j \<in> set s then map_option (deliver ev) (hub_store h j) else hub_store h j))"
  using assms
proof (induction s arbitrary: h)
  case Nil
  then show ?case by simp
next
  case (Cons k s)
  have k: "k \<in> set (hub_clients h)" using Cons.prems by simp
  note E = dispatch_one_effect [OF Cons.prems(1) k, of ev]
  have "set s \<subseteq> set (hub_clients (dispatch_one ev k h))" using E Cons.prems by auto
  from Cons.IH [OF _ this] E Cons.prems show ?case by auto
qed

lemma dispatch_effect:
  assumes h: "index_ok h"
  shows "index_ok (dispatch ev h)" and "rest_of (dispatch ev h) = rest_of h"
    and "hub_store (dispatch ev h) j = (if j \<in> members (hub_circles h) (Event_CircleID ev)
       then map_option (deliver ev) (hub_store h j) else hub_store h j)"
proof (atomize (full), cases "hub_circles h (Event_CircleID ev)")
  case None
  then show "index_ok (dispatch ev h) \<and> rest_of (dispatch ev h) = rest_of h \<and>
     hub_store (dispatch ev h) j = (if j \<in> members (hub_circles h) (Event_CircleID ev)
       then map_option (deliver ev) (hub_store h j) else hub_store h j)"
    using h by (simp add: dispatch_def members_def)
next
  case (Some s)
  have "set s = members (hub_circles h) (Event_CircleID ev)" using Some by (simp add: members_def)
  moreover have "distinct s" using index_okD(2) [OF h] Some by (auto simp: sets_ok_def)
  moreover have "set s \<subseteq> set (hub_clients h)"
    using index_okD(5) [OF h] calculation(1) by auto
  ultimately show "index_ok (dispatch ev h) \<and> rest_of (dispatch ev h) = rest_of h \<and>
     hub_store (dispatch ev h) j = (if j \<in> members (hub_circles h) (Event_CircleID ev)
       then map_option (deliver ev) (hub_store h j) else hub_store h j)"
    using fold_dispatch [OF h, of s ev] Some by (simp add: dispatch_def)
qed

subsection \<open>Eviction, client by client\<close>

definition evicted :: "evictReq \<Rightarrow> Client \<Rightarrow> Client" where
  "evicted req c = (let c1 = c\<lparr>Client_circles := removeAll (evict_circleID req) (Client_circles c)\<rparr> in
     if length (Client_send c) < Client_cap c
     then c1\<lparr>Client_send := Client_send c @ [Unsubscribed (evict_circleID req)]\<rparr> else c1)"

lemma evict_one_effect:
  assumes h: "index_ok h" and k: "k \<in> set (hub_clients h)" and m: "evict_matches req h k"
  shows "index_ok (evict_one req k h) \<and>
    hub_store (evict_one req k h) = (hub_store h)(k := map_option (evicted req) (hub_store h k)) \<and>
    rest_of (evict_one req k h) = rest_of h \<and> hub_clients (evict_one req k h) = hub_clients h"
proof -
  let ?i = "evict_circleID req" and ?h = "evict_one req k h"
  obtain c where c: "hub_store h k = Some c" "\<not> Client_closed c" using index_okD(3) [OF h k] by blast
  have store: "hub_store ?h = (hub_store h)(k := Some (evicted req c))" and clients: "hub_clients ?h = hub_clients h"
    and circles: "hub_circles ?h = unsubscribe k ?i (hub_circles h)" and rest: "rest_of ?h = rest_of h"
    using m c by (simp_all add: evict_one_def try_send_def modify_client_def evicted_def rest_of_def)
  have ev: "client_ok (evicted req c)" "\<not> Client_closed (evicted req c)"
    "set (Client_circles (evicted req c)) = set (Client_circles c) - {?i}"
    using c(2) index_okD(4) [OF h c(1)] by (auto simp: evicted_def client_ok_def Let_def distinct_removeAll)
  have of: "set (circles_of ?h j) = set (circles_of h j) - (if j = k then {?i} else {})" for j
    using c ev by (auto simp: circles_of_def store)
  have "index_ok ?h"
    unfolding index_ok_def clients circles of members_unsubscribe
    using h ev(1,2) by (auto simp: index_ok_def store sets_ok_unsubscribe)
  then show ?thesis using store clients rest c by simp
qed

lemma fold_evict:
  assumes "index_ok h" and "set s \<subseteq> set (hub_clients h)" and "distinct s"
  shows "index_ok (fold (evict_one req) s h) \<and> rest_of (fold (evict_one req) s h) = rest_of h \<and>
    hub_clients (fold (evict_one req) s h) = hub_clients h \<and>
    (\<forall>j. hub_store (fold (evict_one req) s h) j =
       (if j \<in> set s \<and> evict_matches req h j then map_option (evicted req) (hub_store h j) else hub_store h j))"
  using assms
proof (induction s arbitrary: h)
  case Nil
  then show ?case by simp
next
  case (Cons k s)
  have k: "k \<in> set (hub_clients h)" and ks: "k \<notin> set s" using Cons.prems by simp_all
  show ?case
  proof (cases "evict_matches req h k")
    case False
    then have "evict_one req k h = h" by (simp add: evict_one_def)
    with Cons.IH [OF Cons.prems(1)] Cons.prems False show ?thesis by auto
  next
    case True
    note E = evict_one_effect [OF Cons.prems(1) k True]
    have same: "evict_matches req (evict_one req k h) j = evict_matches req h j" if "j \<noteq> k" for j
      using E that by (simp add: evict_matches_def)
    have "set s \<subseteq> set (hub_clients (evict_one req k h))" using E Cons.prems by auto
    from Cons.IH [OF _ this] E Cons.prems ks True same show ?thesis by auto
  qed
qed

lemma doEvict_effect:
  assumes h: "index_ok h"
  shows "index_ok (doEvict req h) \<and> rest_of (doEvict req h) = rest_of h \<and>
    hub_clients (doEvict req h) = hub_clients h \<and>
    hub_store (doEvict req h) j = (if j \<in> members (hub_circles h) (evict_circleID req) \<and> evict_matches req h j
       then map_option (evicted req) (hub_store h j) else hub_store h j)"
proof (cases "hub_circles h (evict_circleID req)")
  case None
  then show ?thesis using h by (simp add: doEvict_def members_def)
next
  case (Some s)
  have "set s = members (hub_circles h) (evict_circleID req)" using Some by (simp add: members_def)
  moreover have "distinct s" using index_okD(2) [OF h] Some by (auto simp: sets_ok_def)
  moreover have "set s \<subseteq> set (hub_clients h)"
    using index_okD(5) [OF h] calculation(1) by auto
  ultimately show ?thesis using fold_evict [OF h, of s req] Some by (simp add: doEvict_def)
qed

subsection \<open>Every step keeps the invariant\<close>

lemma fold_close_send:
  assumes "\<forall>k\<in>set ks. \<exists>c. hub_store h k = Some c \<and> \<not> Client_closed c" and "distinct ks"
  shows "hub_store (fold close_send ks h) = (\<lambda>k. if k \<in> set ks
       then map_option (\<lambda>c. c\<lparr>Client_closed := True\<rparr>) (hub_store h k) else hub_store h k) \<and>
     rest_of (fold close_send ks h) = rest_of h"
  using assms
proof (induction ks arbitrary: h)
  case Nil
  then show ?case by simp
next
  case (Cons k ks)
  then have eq: "close_send k h = modify_client k (\<lambda>c. c\<lparr>Client_closed := True\<rparr>) h"
    by (auto simp: close_send_def)
  have "\<forall>j\<in>set ks. \<exists>c. hub_store (close_send k h) j = Some c \<and> \<not> Client_closed c"
    unfolding eq using Cons.prems by (auto simp: modify_client_def)
  from Cons.IH [OF this] Cons.prems show ?case
    by (auto simp: fun_eq_iff eq modify_client_def rest_of_def)
qed

lemma shutdown_inv:
  assumes "hub_inv h"
  shows "hub_inv (shutdown h)"
proof -
  have ix: "index_ok h" using assms by (simp add: hub_inv_def)
  let ?g = "fold close_send (hub_clients h) h"
  have F: "hub_store ?g = (\<lambda>k. if k \<in> set (hub_clients h)
       then map_option (\<lambda>c. c\<lparr>Client_closed := True\<rparr>) (hub_store h k) else hub_store h k)"
    and R: "rest_of ?g = rest_of h"
    using fold_close_send [of "hub_clients h" h] index_okD(1,3) [OF ix] by auto
  have "client_ok c" if "hub_store ?g k = Some c" for k c
    using that index_okD(4) [OF ix] by (auto simp: F client_ok_def split: if_splits)
  then show ?thesis using assms R
    by (auto simp: shutdown_def hub_inv_def index_ok_def sets_ok_def members_def rest_of_def queues_ok_def conns_ok_def)
qed

lemma hub_inv_rest: "index_ok h' \<Longrightarrow> rest_of h' = rest_of h \<Longrightarrow> hub_inv h \<Longrightarrow> hub_inv h'"
  by (simp add: hub_inv_def rest_of_def queues_ok_def conns_ok_def)

lemma index_ok_queues [simp]:
  "index_ok (h\<lparr>hub_broadcast := q\<rparr>) = index_ok h" "index_ok (h\<lparr>hub_evict := r\<rparr>) = index_ok h"
  "index_ok (h\<lparr>hub_totalConns := n, hub_perUser := p\<rparr>) = index_ok h"
  by (simp_all add: index_ok_def circles_of_def)

lemma Admit_inv: "hub_inv h \<Longrightarrow> hub_inv (snd (Admit u h))"
  by (auto simp: Admit_def hub_inv_def conns_ok_def queues_ok_def)

lemma Release_inv: "hub_inv h \<Longrightarrow> hub_inv (Release u h)"
  by (auto simp: Release_def hub_inv_def conns_ok_def queues_ok_def intro: le_trans diff_le_self)

lemma hub_step_inv:
  assumes inv: "hub_inv h"
  shows "hub_inv (hub_step op h)"
proof -
  have ix: "index_ok h" using inv by (simp add: hub_inv_def)
  show ?thesis
  proof (cases op)
    case (OpRegister k u cs b)
    have "rest_of (addClient k (h\<lparr>hub_store := (hub_store h)(k := Some (NewClient u cs b))\<rparr>)) = rest_of h"
      by (simp add: addClient_def rest_of_def)
    then show ?thesis using addClient_ok [OF ix, of k u cs b] OpRegister inv by (auto intro: hub_inv_rest)
  next
    case (OpUnregister k)
    have "rest_of (removeClient k h) = rest_of h"
      by (cases "k \<in> set (hub_clients h)")
        (simp add: removeClient_eq [OF ix] rest_of_def modify_client_def, simp add: removeClient_def)
    then show ?thesis using removeClient_ok [OF ix, of k] OpUnregister inv by (auto intro: hub_inv_rest)
  next
    case OpDispatch
    have "hub_inv (dispatch ev (h\<lparr>hub_broadcast := evs\<rparr>))" if "hub_broadcast h = ev # evs" for ev evs
    proof -
      have "hub_inv (h\<lparr>hub_broadcast := evs\<rparr>)" using inv that by (simp add: hub_inv_def queues_ok_def conns_ok_def)
      then show ?thesis using dispatch_effect(1,2) [of "h\<lparr>hub_broadcast := evs\<rparr>"] ix by (auto intro: hub_inv_rest)
    qed
    then show ?thesis using OpDispatch inv by (auto split: list.split)
  next
    case OpEvict
    have "hub_inv (doEvict r (h\<lparr>hub_evict := rs\<rparr>))" if "hub_evict h = r # rs" for r rs
    proof -
      have "hub_inv (h\<lparr>hub_evict := rs\<rparr>)" using inv that by (simp add: hub_inv_def queues_ok_def conns_ok_def)
      then show ?thesis using doEvict_effect [of "h\<lparr>hub_evict := rs\<rparr>"] ix by (auto intro: hub_inv_rest)
    qed
    then show ?thesis using OpEvict inv by (auto split: list.split)
  next
    case (OpDrain k)
    show ?thesis
    proof (cases "hub_store h k")
      case None
      then have "modify_client k (\<lambda>c. c\<lparr>Client_send := tl (Client_send c)\<rparr>) h = h"
        by (simp add: modify_client_def fun_upd_idem)
      then show ?thesis using OpDrain inv by simp
    next
      case (Some c)
      have "index_ok (modify_client k (\<lambda>c. c\<lparr>Client_send := tl (Client_send c)\<rparr>) h)"
        using index_okD(4) [OF ix Some] by (intro index_ok_store [OF ix Some]) (auto simp: client_ok_def)
      then show ?thesis using OpDrain inv by (auto simp: modify_client_def rest_of_def intro: hub_inv_rest)
    qed
  qed (use inv Admit_inv Release_inv shutdown_inv in
      \<open>auto simp: Publish_def EvictUser_def EvictCircle_def hub_inv_def queues_ok_def conns_ok_def\<close>)
qed

interpretation hub: stepper hub_inv hub_step
  by unfold_locales (rule hub_step_inv)

lemma hub_inv_NewHub: "hub_inv NewHub"
  by (simp add: hub_inv_def NewHub_def index_ok_def sets_ok_def members_def queues_ok_def conns_ok_def)

subsection \<open>An evicted user hears nothing more of the circle\<close>

definition heard :: "uuid \<Rightarrow> Client \<Rightarrow> frame set" where
  "heard i c = {EventFrame ev | ev. EventFrame ev \<in> set (Client_send c) \<and> Event_CircleID ev = i}"

definition quiet :: "uuid \<Rightarrow> uuid \<Rightarrow> (cid \<Rightarrow> frame set) \<Rightarrow> Hub \<Rightarrow> bool" where
  "quiet u i F h \<longleftrightarrow> hub_inv h \<and> (\<forall>k c. hub_store h k = Some c \<and> Client_UserID c = u \<longrightarrow>
     heard i c \<subseteq> F k \<and> (k \<in> set (hub_clients h) \<longrightarrow> i \<notin> set (Client_circles c)))"

text \<open>The only step that subscribes a user to a circle is a new connection of that user.\<close>

definition resubscribes :: "uuid \<Rightarrow> uuid \<Rightarrow> hub_op \<Rightarrow> bool" where
  "resubscribes u i op = (case op of OpRegister k v cs b \<Rightarrow> v = u \<and> i \<in> set cs | _ \<Rightarrow> False)"

lemma quiet_update:
  assumes q: "quiet u i F h" and inv: "hub_inv h'"
    and frame: "\<And>k c'. hub_store h' k = Some c' \<Longrightarrow> Client_UserID c' = u \<Longrightarrow>
      (\<exists>c. hub_store h k = Some c \<and> Client_UserID c = u \<and> heard i c' \<subseteq> heard i c \<and>
        set (Client_circles c') \<subseteq> set (Client_circles c) \<and> (k \<in> set (hub_clients h') \<longrightarrow> k \<in> set (hub_clients h))) \<or>
      heard i c' = {} \<and> i \<notin> set (Client_circles c')"
  shows "quiet u i F h'"
  unfolding quiet_def
proof (intro conjI allI impI)
  fix k c' assume a: "hub_store h' k = Some c' \<and> Client_UserID c' = u"
  have Q: "heard i c \<subseteq> F k" "k \<in> set (hub_clients h) \<Longrightarrow> i \<notin> set (Client_circles c)"
    if "hub_store h k = Some c" "Client_UserID c = u" for c
    using q that by (auto simp: quiet_def)
  from a frame [of k c'] show "heard i c' \<subseteq> F k" using Q(1) by blast
next
  fix k c' assume a: "hub_store h' k = Some c' \<and> Client_UserID c' = u" and k: "k \<in> set (hub_clients h')"
  then show "i \<notin> set (Client_circles c')" using frame [of k c'] q unfolding quiet_def by blast
qed (rule inv)

lemma clients_removeClient: "set (hub_clients (removeClient k h)) \<subseteq> set (hub_clients h)"
  by (auto simp: removeClient_def close_send_def modify_client_def split: option.splits if_splits)

lemma clients_dispatch: "set (hub_clients (dispatch ev h)) \<subseteq> set (hub_clients h)"
proof -
  have one: "set (hub_clients (dispatch_one ev k g)) \<subseteq> set (hub_clients g)" for k g
  proof -
    have "hub_clients (snd (try_send k f g)) = hub_clients g" for f
      by (simp add: try_send_def modify_client_def split: option.split)
    then show ?thesis using clients_removeClient [of k]
      by (auto simp: dispatch_one_def split: prod.splits) (metis snd_conv subsetD)+
  qed
  have "set (hub_clients (fold (dispatch_one ev) s g)) \<subseteq> set (hub_clients g)" for s g
  proof (induction s arbitrary: g)
    case (Cons k s)
    then show ?case using one [of k g] by (auto simp: subset_iff)
  qed simp
  then show ?thesis by (simp add: dispatch_def split: option.split)
qed

lemma quiet_step:
  assumes q: "quiet u i F h" and op: "\<not> resubscribes u i op"
  shows "quiet u i F (hub_step op h)"
proof -
  have inv: "hub_inv h" and ix: "index_ok h" using q by (simp_all add: quiet_def hub_inv_def)
  have inv': "hub_inv (hub_step op h)" by (rule hub_step_inv [OF inv])
  show ?thesis
  proof (rule quiet_update [OF q inv'])
    fix k c' assume c': "hub_store (hub_step op h) k = Some c'" "Client_UserID c' = u"
    let ?goal = "(\<exists>c. hub_store h k = Some c \<and> Client_UserID c = u \<and> heard i c' \<subseteq> heard i c \<and>
        set (Client_circles c') \<subseteq> set (Client_circles c) \<and>
        (k \<in> set (hub_clients (hub_step op h)) \<longrightarrow> k \<in> set (hub_clients h))) \<or>
      heard i c' = {} \<and> i \<notin> set (Client_circles c')"
    show ?goal
    proof (cases op)
      case (OpRegister j v cs b)
      then show ?thesis using c' op
        by (auto simp: addClient_def NewClient_def heard_def resubscribes_def split: if_splits)
    next
      case (OpUnregister j)
      then show ?thesis using c' clients_removeClient [of j h]
        by (auto simp: removeClient_def close_send_def modify_client_def heard_def split: if_splits option.splits)
    next
      case OpDispatch
      show ?thesis
      proof (cases "hub_broadcast h = [] \<or> \<not> hub_running h")
        case True
        then show ?thesis using c' OpDispatch by (auto split: list.splits)
      next
        case False
        then obtain ev evs where b: "hub_broadcast h = ev # evs" "hub_running h" by (cases "hub_broadcast h") auto
        let ?h = "h\<lparr>hub_broadcast := evs\<rparr>"
        have step: "hub_step op h = dispatch ev ?h" using OpDispatch b by simp
        have eff: "hub_store (dispatch ev ?h) k = (if k \<in> members (hub_circles h) (Event_CircleID ev)
            then map_option (deliver ev) (hub_store h k) else hub_store h k)"
          using dispatch_effect(3) [of ?h] ix by simp
        then obtain c where c: "hub_store h k = Some c" using c' step by (cases "hub_store h k") (auto split: if_splits)
        have no: "k \<notin> members (hub_circles h) i" if "Client_UserID c = u"
          using q that c index_okD(5) [OF ix, of k i] by (auto simp: quiet_def circles_of_def)
        have "Client_UserID c = u" using c' eff c step by (auto simp: deliver_def split: if_splits)
        then show ?thesis using c' eff c step no clients_dispatch [of ev ?h]
          by (auto simp: deliver_def heard_def split: if_splits)
      qed
    next
      case OpEvict
      show ?thesis
      proof (cases "hub_evict h = [] \<or> \<not> hub_running h")
        case True
        then show ?thesis using c' OpEvict by (auto split: list.splits)
      next
        case False
        then obtain r rs where b: "hub_evict h = r # rs" "hub_running h" by (cases "hub_evict h") auto
        then show ?thesis using c' OpEvict doEvict_effect [of "h\<lparr>hub_evict := rs\<rparr>" r k] ix
          by (cases "hub_store h k") (auto simp: evicted_def Let_def heard_def split: if_splits)
      qed
    next
      case (OpDrain j)
      have "x \<in> set (tl xs) \<Longrightarrow> x \<in> set xs" for x :: frame and xs by (cases xs) auto
      then show ?thesis using c' OpDrain
        by (auto simp: modify_client_def heard_def split: if_splits)
    next
      case OpShutdown
      then show ?thesis using c' fold_close_send [of "hub_clients h" h] index_okD(1,3) [OF ix]
        by (auto simp: shutdown_def heard_def split: if_splits)
    qed (use c' in \<open>auto simp: Publish_def EvictUser_def EvictCircle_def Admit_def Release_def split: if_splits\<close>)
  qed
qed

lemma quiet_run:
  assumes "quiet u i F h" and "\<forall>op\<in>set ops. \<not> resubscribes u i op"
  shows "quiet u i F (fold hub_step ops h)"
  using assms by (induction ops arbitrary: h) (simp_all add: quiet_step)

lemma quiet_after_evict:
  assumes inv: "hub_inv h" and run: "hub_running h"
    and ev: "hub_evict h = \<lparr>evict_circleID = i, evict_userID = u, evict_allUsers = False\<rparr> # rest"
  shows "quiet u i (\<lambda>k. case hub_store h k of None \<Rightarrow> {} | Some c0 \<Rightarrow> heard i c0) (hub_step OpEvict h)"
proof -
  let ?r = "\<lparr>evict_circleID = i, evict_userID = u, evict_allUsers = False\<rparr>"
  let ?h = "h\<lparr>hub_evict := rest\<rparr>"
  have ix: "index_ok ?h" using inv by (simp add: hub_inv_def)
  have step: "hub_step OpEvict h = doEvict ?r ?h" using run ev by simp
  note E = doEvict_effect [OF ix, of ?r]
  have clients: "hub_clients (doEvict ?r ?h) = hub_clients h" using E by simp
  show ?thesis unfolding quiet_def
  proof (intro conjI allI impI)
    show "hub_inv (hub_step OpEvict h)" by (rule hub_step_inv [OF inv])
  next
    fix k c assume c: "hub_store (hub_step OpEvict h) k = Some c \<and> Client_UserID c = u"
    then obtain c0 where c0: "hub_store h k = Some c0"
      and eq: "c = (if k \<in> members (hub_circles h) i \<and> evict_matches ?r h k then evicted ?r c0 else c0)"
      using E [of k] step by (cases "hub_store h k") (auto simp: evict_matches_def split: if_splits)
    then show "heard i c \<subseteq> (case hub_store h k of None \<Rightarrow> {} | Some c0 \<Rightarrow> heard i c0)"
      by (auto simp: heard_def evicted_def Let_def)
    assume k: "k \<in> set (hub_clients (hub_step OpEvict h))"
    have "Client_UserID c0 = u" using c eq by (auto simp: evicted_def Let_def split: if_splits)
    then show "i \<notin> set (Client_circles c)"
      using eq c0 k clients step index_okD(5) [OF ix, of k i]
      by (auto simp: evicted_def Let_def evict_matches_def circles_of_def)
  qed
qed

subsection \<open>The connection limits are fixed once the hub runs\<close>

definition limits :: "Hub \<Rightarrow> nat \<times> nat" where
  "limits h = (hub_maxTotal h, hub_maxPerUser h)"

lemma limits_fold: "(\<And>k h. limits (f k h) = limits h) \<Longrightarrow> limits (fold f ks h) = limits h"
  by (induction ks arbitrary: h) simp_all

lemma limits_primitive [simp]:
  "limits (modify_client k f h) = limits h" "limits (close_send k h) = limits h"
  "limits (snd (try_send k fr h)) = limits h" "limits (removeClient k h) = limits h"
  "limits (h\<lparr>hub_store := st\<rparr>) = limits h" "limits (addClient k h) = limits h"
  by (simp_all add: limits_def modify_client_def close_send_def try_send_def removeClient_def addClient_def
      split: option.split)

lemma limits_evict_one [simp]: "limits (evict_one req k h) = limits h"
  by (simp add: evict_one_def) (simp add: limits_def modify_client_def)

lemma limits_dispatch_one [simp]: "limits (dispatch_one ev k h) = limits h"
  using limits_primitive(3) [of k "EventFrame ev" h]
  by (auto simp: dispatch_one_def simp del: limits_primitive(3) split: prod.split)

lemma limits_step: "limits (hub_step op h) = limits h"
proof (cases op)
  case OpDispatch
  then show ?thesis using limits_fold [of "dispatch_one ev" for ev]
    by (auto simp: dispatch_def split: list.split option.split) (simp_all add: limits_def)
next
  case OpEvict
  then show ?thesis using limits_fold [of "evict_one req" for req]
    by (auto simp: doEvict_def split: list.split option.split) (simp_all add: limits_def)
next
  case OpShutdown
  have "limits (fold close_send (hub_clients h) h) = limits h" by (rule limits_fold) simp
  then show ?thesis using OpShutdown by (simp add: shutdown_def limits_def)
qed (auto simp: Publish_def EvictUser_def EvictCircle_def Admit_def Release_def, simp_all add: limits_def)

interpretation hub_limits: stepper "\<lambda>h. limits h = l" hub_step for l
  by unfold_locales (simp add: limits_step)

end
