(* ===== verification/Aul_Http.thy ===== *)
theory Aul_Http
  imports Aul_Auth_Refresh Aul_Store_Circles Aul_Store_Feeds Aul_Hub
begin

text \<open>
  What the handlers of \<^verbatim>\<open>server/internal/httpapi\<close> share: the error envelope of
  \<^verbatim>\<open>server/internal/httpx\<close>, the guards \<^verbatim>\<open>requireCircleMember\<close> and \<^verbatim>\<open>requireOwner\<close>, and the
  access to the database, the hub and the audit log. A handler is a state-passing computation
  over the \<open>world\<close> (database and hub): \<open>Inl\<close> is an error response, \<open>Inr (status, body)\<close> a
  success. The outcome of decoding the JSON body is an argument (\<open>Inl\<close>: the decoder's
  message), an id in the path is an \<open>option\<close> (\<open>None\<close>: not a UUID). A request runs at one
  instant and between two of its statements no other request runs, except where stated.
\<close>

datatype http_err = BadRequest string | Validation string | Unauthorized string | Forbidden string
  | NotFound string | Gone string | GoneConflict string | Conflict string | TooManyRequests string
  | AccountLocked duration string | ServiceUnavailable string | PayloadTooLarge string | UpgradeRefused nat | Internal

fun status_of :: "http_err \<Rightarrow> nat" where
  "status_of (BadRequest _) = 400"
| "status_of (Validation _) = 400"
| "status_of (Unauthorized _) = 401"
| "status_of (Forbidden _) = 403"
| "status_of (NotFound _) = 404"
| "status_of (Gone _) = 410"
| "status_of (GoneConflict _) = 410"
| "status_of (Conflict _) = 409"
| "status_of (TooManyRequests _) = 429"
| "status_of (AccountLocked _ _) = 429"
| "status_of (ServiceUnavailable _) = 503"
| "status_of (PayloadTooLarge _) = 413"
| "status_of (UpgradeRefused st) = st"
| "status_of Internal = 500"

record world =
  w_db :: db
  w_hub :: Hub

type_synonym 'b handler = "world \<Rightarrow> (http_err + nat \<times> 'b) \<times> world"

record Auth =
  Auth_UserID :: uuid
  Auth_DeviceID :: uuid
  Auth_SessionID :: uuid

text \<open>The configuration the handlers read, and the request context.\<close>

record Server =
  srv_auth :: Service
  srv_storeIP :: bool
  srv_DefaultRetentionDays :: int
  srv_MaxRetentionDays :: int

record request =
  rq_now :: gotime
  rq_auth :: Auth
  rq_ip :: string

definition rq_user :: "request \<Rightarrow> uuid" where "rq_user rq = Auth_UserID (rq_auth rq)"
definition rq_device :: "request \<Rightarrow> uuid" where "rq_device rq = Auth_DeviceID (rq_auth rq)"

section \<open>Combinators\<close>

definition on_db :: "(db \<Rightarrow> 'x \<times> db) \<Rightarrow> world \<Rightarrow> 'x \<times> world" where
  "on_db m w = (case m (w_db w) of (x, d) \<Rightarrow> (x, w\<lparr>w_db := d\<rparr>))"

definition on_hub :: "(Hub \<Rightarrow> Hub) \<Rightarrow> world \<Rightarrow> unit \<times> world" where
  "on_hub f w = ((), w\<lparr>w_hub := f (w_hub w)\<rparr>)"

text \<open>A store call whose error is answered with 500, and one with its own error branch.\<close>

definition call :: "'a q \<Rightarrow> ('a \<Rightarrow> 'b handler) \<Rightarrow> 'b handler" where
  "call m k = tryq (on_db m) (\<lambda>e. fail Internal) k"

definition call_or :: "'a q \<Rightarrow> http_err \<Rightarrow> ('a \<Rightarrow> 'b handler) \<Rightarrow> 'b handler" where
  "call_or m notFound k =
     tryq (on_db m) (\<lambda>e. if IsNotFound e then fail notFound else fail Internal) k"

definition respond :: "nat \<Rightarrow> 'b \<Rightarrow> 'b handler" where
  "respond status body = ret (status, body)"

definition audit :: "Server \<Rightarrow> request \<Rightarrow> Event \<Rightarrow> 'b handler \<Rightarrow> 'b handler" where
  "audit srv rq e k = run (on_db (Log (srv_storeIP srv) (rq_now rq) e)) k"

definition hub_do :: "(Hub \<Rightarrow> Hub) \<Rightarrow> 'b handler \<Rightarrow> 'b handler" where
  "hub_do f k = run (on_hub f) k"

definition publish :: "string \<Rightarrow> uuid \<Rightarrow> payload option \<Rightarrow> 'b handler \<Rightarrow> 'b handler" where
  "publish ty circleID p k =
     hub_do (Publish \<lparr>Event_Type = ty, Event_CircleID = circleID, Event_Payload = p\<rparr>) k"

definition decoded :: "string + 'r \<Rightarrow> ('r \<Rightarrow> 'b handler) \<Rightarrow> 'b handler" where
  "decoded body k = (case body of Inl msg \<Rightarrow> fail (BadRequest msg) | Inr req \<Rightarrow> k req)"

text \<open>\<^verbatim>\<open>parseUUIDParam\<close>\<close>

definition path_id :: "string \<Rightarrow> uuid option \<Rightarrow> (uuid \<Rightarrow> 'b handler) \<Rightarrow> 'b handler" where
  "path_id name i k = (case i of None \<Rightarrow> fail (BadRequest (name @ '' must be a valid id'')) | Some x \<Rightarrow> k x)"

fun blob_msg :: "string \<Rightarrow> blob_err \<Rightarrow> string" where
  "blob_msg field Required = field @ '' is required''"
| "blob_msg field NotBase64 = field @ '' must be base64''"
| "blob_msg field EmptyBlob = field @ '' must not be empty''"
| "blob_msg field (TooLong n) = field @ '' exceeds '' @ show_nat n @ '' bytes''"

definition blob :: "string \<Rightarrow> string \<Rightarrow> nat \<Rightarrow> (bytes \<Rightarrow> 'b handler) \<Rightarrow> 'b handler" where
  "blob field s maxBytes k =
     (case decodeBlob s maxBytes of Inl e \<Rightarrow> fail (BadRequest (blob_msg field e)) | Inr b \<Rightarrow> k b)"

definition maxBlobBytes :: nat where "maxBlobBytes = 4096"
definition maxNonceBytes :: nat where "maxNonceBytes = 40"
definition maxProfileBytes :: nat where "maxProfileBytes = 131072"

section \<open>Guards\<close>

definition requireCircleMember :: "request \<Rightarrow> uuid option \<Rightarrow> (CircleMember \<Rightarrow> 'b handler) \<Rightarrow> 'b handler" where
  "requireCircleMember rq circleID next =
     (case circleID of None \<Rightarrow> fail (NotFound ''circle not found'')
      | Some cid \<Rightarrow> call_or (GetMembership cid (rq_user rq)) (NotFound ''circle not found'') next)"

definition requireOwner :: "CircleMember \<Rightarrow> 'b handler \<Rightarrow> 'b handler" where
  "requireOwner m k = (if Member_Role m \<noteq> ''owner'' then fail (Forbidden ''owner role required'') else k)"

section \<open>Preservation\<close>

definition world_inv :: "(db \<Rightarrow> bool) \<Rightarrow> world \<Rightarrow> bool" where
  "world_inv I w \<longleftrightarrow> I (w_db w) \<and> hub_inv (w_hub w)"

lemma circle_reads_ok [pres_rules]:
  assumes "tables_only I"
  shows "pres I (GetMembership c u)" and "pres I (CountOwners c)" and "pres I (ListMembers c)"
    and "pres I (GetInvite i)" and "pres I (ListInvitesForCircle now c)"
    and "pres I (PendingEnvelopesForDevice v)" and "pres I (ListActiveSOS c)" and "pres I (ListMutes u c)"
    and "pres I (LatestPingsForCircle c)" and "pres I (GetShareSession i)" and "pres I (GetSharePosition i)"
    and "pres I (GetShareSessionForOwner i u)" and "pres I (ListShareSessionsForUser now u)"
    and "pres I (ListCirclePushSubscriptions c u)" and "pres I (LatestActiveVersion p)"
    and "pres I (GetDevice i)" and "pres I (ListCircleDevices c)" and "pres I (AllCircleRetention)"
    and "pres I (ListActiveSessionsForUser now u)" and "pres I (ListAuditForUser u n)"
  using assms unfolding GetMembership_def CountOwners_def ListMembers_def GetInvite_def
    ListInvitesForCircle_def PendingEnvelopesForDevice_def ListActiveSOS_def ListMutes_def
    LatestPingsForCircle_def GetShareSession_def GetSharePosition_def GetShareSessionForOwner_def
    ListShareSessionsForUser_def ListCirclePushSubscriptions_def LatestActiveVersion_def GetDevice_def
    ListCircleDevices_def AllCircleRetention_def ListActiveSessionsForUser_def ListAuditForUser_def
  by (intro pres_rules; assumption)+

lemma gives_on_db: "gives I m Q \<Longrightarrow> gives (world_inv I) (on_db m) (\<lambda>x w. Q x (w_db w))"
  unfolding gives_def on_db_def world_inv_def by (auto split: prod.splits)

text \<open>
  An invariant of the tables that does not depend on the failure schedule and that writing the
  audit log keeps. Every combinator keeps it, together with the hub's invariant, if the
  queries it runs do.
\<close>

locale db_invariant =
  fixes I :: "db \<Rightarrow> bool"
  assumes db_tables [simp]: "tables_only I" and log: "pres I (Log b now e)"
begin

lemma on_db_inv [pres_rules]: "pres I m \<Longrightarrow> pres (world_inv I) (on_db m)"
  unfolding pres_def on_db_def world_inv_def by (auto split: prod.splits)

lemma hub_do_inv:
  "(\<And>h. hub_inv h \<Longrightarrow> hub_inv (f h)) \<Longrightarrow> pres (world_inv I) k \<Longrightarrow> pres (world_inv I) (hub_do f k)"
  unfolding pres_def hub_do_def on_hub_def run_def world_inv_def by simp

lemma call_inv [pres_rules]: "pres I m \<Longrightarrow> (\<And>x. pres (world_inv I) (k x)) \<Longrightarrow> pres (world_inv I) (call m k)"
  unfolding call_def by (intro pres_rules on_db_inv)

lemma call_or_inv [pres_rules]:
  "pres I m \<Longrightarrow> (\<And>x. pres (world_inv I) (k x)) \<Longrightarrow> pres (world_inv I) (call_or m e k)"
  unfolding call_or_def by (intro pres_rules on_db_inv)

lemma respond_inv [pres_rules]: "pres (world_inv I) (respond st b)"
  unfolding respond_def by (intro pres_rules)

lemma audit_inv [pres_rules]: "pres (world_inv I) k \<Longrightarrow> pres (world_inv I) (audit srv rq e k)"
  unfolding audit_def by (intro pres_rules on_db_inv log)

lemma evict_inv [pres_rules]:
  "pres (world_inv I) k \<Longrightarrow> pres (world_inv I) (hub_do (EvictUser c u) k)"
  "pres (world_inv I) k \<Longrightarrow> pres (world_inv I) (hub_do (EvictCircle c) k)"
  using hub_step_inv [of _ "OpEvictUser c u"] hub_step_inv [of _ "OpEvictCircle c"]
  by (auto intro: hub_do_inv)

lemma publish_inv [pres_rules]: "pres (world_inv I) k \<Longrightarrow> pres (world_inv I) (publish t c p k)"
  unfolding publish_def using hub_step_inv [of _ "OpPublish e" for e] by (auto intro: hub_do_inv)

lemma decoded_inv [pres_rules]: "(\<And>r. pres (world_inv I) (k r)) \<Longrightarrow> pres (world_inv I) (decoded b k)"
  unfolding decoded_def by (intro pres_rules)

lemma path_id_inv [pres_rules]: "(\<And>r. pres (world_inv I) (k r)) \<Longrightarrow> pres (world_inv I) (path_id n b k)"
  unfolding path_id_def by (intro pres_rules)

lemma blob_inv [pres_rules]: "(\<And>r. pres (world_inv I) (k r)) \<Longrightarrow> pres (world_inv I) (blob f s n k)"
  unfolding blob_def by (intro pres_rules)

lemma requireCircleMember_inv [pres_rules]:
  "(\<And>m. pres (world_inv I) (k m)) \<Longrightarrow> pres (world_inv I) (requireCircleMember rq c k)"
  unfolding requireCircleMember_def by (intro pres_rules call_or_inv db_tables)

lemma requireOwner_inv [pres_rules]: "pres (world_inv I) k \<Longrightarrow> pres (world_inv I) (requireOwner m k)"
  unfolding requireOwner_def by (intro pres_rules)

end

abbreviation world_ok :: "world \<Rightarrow> bool" where
  "world_ok \<equiv> world_inv db_ok"

sublocale identity_invariant \<subseteq> db_invariant
  by unfold_locales (rule tables, rule Log_inv)

text \<open>
  The interface of the handlers below \<^verbatim>\<open>/circles/{circleID}\<close> to the store: the statements they
  run on the circle \<open>c\<close>. Removing members, creating circles and accepting invites depend on more
  than the circle and are treated invariant by invariant.
\<close>

locale circle_invariant = identity_invariant I for I +
  fixes c :: uuid
  assumes UpdateCircleName_inv [pres_rules]: "pres I (UpdateCircleName c nm)"
    and UpdateCircleRetention_inv [pres_rules]: "pres I (UpdateCircleRetention c days)"
    and BumpCircleKeyEpoch_inv [pres_rules]: "pres I (BumpCircleKeyEpoch c)"
    and DeleteCircle_inv [pres_rules]: "pres I (DeleteCircle c)"
    and SetMemberProfile_inv [pres_rules]: "pres I (SetMemberProfile c u pr)"
    and SetPrecisionMode_inv [pres_rules]: "pres I (SetPrecisionMode c u mode)"
    and CreateInvite_inv [pres_rules]: "pres I (CreateInvite now i c u role uses exp)"
    and RevokeInvite_inv [pres_rules]: "pres I (RevokeInvite i c)"
    and InsertPing_inv [pres_rules]: "pres I (InsertPing now i c v cl nn ct cap ex)"
    and CreatePlace_inv [pres_rules]: "pres I (CreatePlace now i c ct au)"
    and UpdatePlace_inv [pres_rules]: "pres I (UpdatePlace now i c ct au ver)"
    and SoftDeletePlace_inv [pres_rules]: "pres I (SoftDeletePlace now i c au)"
    and CreateSOS_inv [pres_rules]: "pres I (CreateSOS now i c dv ct)"
    and ResolveSOS_inv [pres_rules]: "pres I (ResolveSOS now i c rb)"
    and CreateKeyEnvelope_inv [pres_rules]: "pres I (CreateKeyEnvelope now i c rv sv ct ep)"
    and DeleteMutes_inv [pres_rules]: "pres I (DeleteMutes u c)"
    and InsertMute_inv [pres_rules]: "pres I (InsertMute now u c mu)"
    and DeletePushSubscriptionByID_inv [pres_rules]: "pres I (DeletePushSubscriptionByID i)"

interpretation schema_circle: circle_invariant db_ok c for c
  by unfold_locales (rule pres_rules)+

lemma world_ok_empty: "world_ok \<lparr>w_db = empty_db, w_hub = NewHub\<rparr>"
  by (simp add: world_inv_def db_ok_empty hub_inv_NewHub)

end
