(* ===== verification/Aul_Api_Circles.thy ===== *)
theory Aul_Api_Circles
  imports Aul_Http
begin

text \<open>
  The handlers of \<^verbatim>\<open>httpapi/circles.go\<close> and \<^verbatim>\<open>httpapi/invites.go\<close>. A circle-scoped handler takes
  the membership that \<^verbatim>\<open>requireCircleMember\<close> loaded; \<open>circle_route\<close> composes the two as the
  router does.
\<close>

section \<open>circles.go\<close>

record circleDTO =
  circle_ID :: uuid
  circle_NameEnc :: "string option"
  circle_RetentionDays :: int
  circle_KeyEpoch :: int
  circle_Role :: string
  circle_PrecisionMode :: string
  circle_CreatedAt :: sqltime

record memberDTO =
  member_UserID :: uuid
  member_Email :: string
  member_Role :: string
  member_PrecisionMode :: string
  member_JoinedAt :: sqltime
  member_ProfileEnc :: "string option"

definition nameEncPtr :: "bytes option \<Rightarrow> string option" where
  "nameEncPtr b = (case b of None \<Rightarrow> None | Some bs \<Rightarrow> if bs = [] then None else Some (encodeBlob bs))"

definition circle_dto :: "Circle \<Rightarrow> string \<Rightarrow> string \<Rightarrow> circleDTO" where
  "circle_dto c role mode = \<lparr>circle_ID = Circle_ID c, circle_NameEnc = nameEncPtr (Circle_NameEnc c),
     circle_RetentionDays = Circle_RetentionDays c, circle_KeyEpoch = Circle_KeyEpoch c,
     circle_Role = role, circle_PrecisionMode = mode, circle_CreatedAt = Circle_CreatedAt c\<rparr>"

definition circle_route :: "request \<Rightarrow> uuid option \<Rightarrow> (CircleMember \<Rightarrow> 'b handler) \<Rightarrow> 'b handler" where
  "circle_route rq circleID h = requireCircleMember rq circleID h"

definition handleListCircles :: "request \<Rightarrow> circleDTO list handler" where
  "handleListCircles rq = call (ListCirclesForUser (rq_user rq)) (\<lambda>rows.
     respond 200 (map (\<lambda>(c, role, mode). circle_dto c role mode) rows))"

definition validRetention :: "Server \<Rightarrow> int \<Rightarrow> bool" where
  "validRetention srv days \<longleftrightarrow> days \<ge> 1 \<and> days \<le> srv_MaxRetentionDays srv"

record createCircleReq =
  cc_NameEnc :: string
  cc_RetentionDays :: "int option"

definition optional_blob :: "string \<Rightarrow> string \<Rightarrow> nat \<Rightarrow> (bytes option \<Rightarrow> 'b handler) \<Rightarrow> 'b handler" where
  "optional_blob field s n k = (if s = [] then k None else blob field s n (\<lambda>b. k (Some b)))"

definition create_circle_tx :: "gotime \<Rightarrow> uuid \<Rightarrow> bytes option \<Rightarrow> int \<Rightarrow> uuid \<Rightarrow> Circle q" where
  "create_circle_tx now i nameEnc retention user = withSQLiteTx (\<lambda>e. e)
     (bindm (CreateCircle now i nameEnc retention user) (\<lambda>c.
      bindm (AddMember now (Circle_ID c) user ''owner'') (\<lambda>_. ret c)))"

definition handleCreateCircle :: "Server \<Rightarrow> request \<Rightarrow> uuid \<Rightarrow> string + createCircleReq \<Rightarrow> circleDTO handler" where
  "handleCreateCircle srv rq i body = decoded body (\<lambda>req.
     optional_blob ''name_enc'' (cc_NameEnc req) maxBlobBytes (\<lambda>nameEnc.
     let retention = (case cc_RetentionDays req of None \<Rightarrow> srv_DefaultRetentionDays srv | Some r \<Rightarrow> r) in
     if \<not> validRetention srv retention then fail (BadRequest ''retention_days out of allowed range'')
     else call (create_circle_tx (rq_now rq) i nameEnc retention (rq_user rq)) (\<lambda>circle.
       audit srv rq (Event_of ''circle_created'' (Some (rq_user rq)) None (Some (Circle_ID circle)) (rq_ip rq))
       (respond 201 (circle_dto circle ''owner'' ''precise'')))))"

definition handleGetCircle :: "CircleMember \<Rightarrow> circleDTO handler" where
  "handleGetCircle m = call (GetCircle (Member_CircleID m)) (\<lambda>circle.
     respond 200 (circle_dto circle (Member_Role m) (Member_PrecisionMode m)))"

record patchCircleReq =
  pc_NameEnc :: "string option"
  pc_RetentionDays :: "int option"

definition handlePatchCircle :: "Server \<Rightarrow> string + patchCircleReq \<Rightarrow> CircleMember \<Rightarrow> circleDTO handler" where
  "handlePatchCircle srv body m = requireOwner m (decoded body (\<lambda>req.
     let patch_retention = (case pc_RetentionDays req of None \<Rightarrow> handleGetCircle m
         | Some days \<Rightarrow>
             if \<not> validRetention srv days then fail (BadRequest ''retention_days out of allowed range'')
             else call (UpdateCircleRetention (Member_CircleID m) days) (\<lambda>_. handleGetCircle m)) in
     case pc_NameEnc req of None \<Rightarrow> patch_retention
     | Some s \<Rightarrow> blob ''name_enc'' s maxBlobBytes (\<lambda>b.
         call (UpdateCircleName (Member_CircleID m) (Some b)) (\<lambda>_. patch_retention))))"

definition handleDeleteCircle :: "CircleMember \<Rightarrow> string handler" where
  "handleDeleteCircle m = requireOwner m (call (DeleteCircle (Member_CircleID m)) (\<lambda>_.
     hub_do (EvictCircle (Member_CircleID m)) (respond 200 ''deleted'')))"

definition handleListMembers :: "CircleMember \<Rightarrow> memberDTO list handler" where
  "handleListMembers m = call (ListMembers (Member_CircleID m)) (\<lambda>rows.
     respond 200 (map (\<lambda>(mm, email). \<lparr>member_UserID = Member_UserID mm, member_Email = email,
       member_Role = Member_Role mm, member_PrecisionMode = Member_PrecisionMode mm,
       member_JoinedAt = Member_JoinedAt mm, member_ProfileEnc = nameEncPtr (Member_ProfileEnc mm)\<rparr>) rows))"

text \<open>
  Decoding an empty string gives an empty slice, not nil, and is stored as an empty blob.
\<close>

definition handleSetProfile :: "string + string option \<Rightarrow> CircleMember \<Rightarrow> string handler" where
  "handleSetProfile body m = decoded body (\<lambda>profileEnc.
     let save = (\<lambda>b. call (SetMemberProfile (Member_CircleID m) (Member_UserID m) b) (\<lambda>_. respond 200 ''ok'')) in
     case profileEnc of None \<Rightarrow> save None
     | Some s \<Rightarrow> (case DecodeString encodeStd pad_char s of
           None \<Rightarrow> fail (BadRequest ''profile_enc must be base64'')
         | Some b \<Rightarrow> if length b > maxProfileBytes then fail (BadRequest ''profile too large'')
                     else save (Some b)))"

definition handleRemoveMember :: "Server \<Rightarrow> request \<Rightarrow> uuid option \<Rightarrow> CircleMember \<Rightarrow> string handler" where
  "handleRemoveMember srv rq target m = requireOwner m (path_id ''userID'' target (\<lambda>t.
     if t = Member_UserID m then fail (BadRequest ''use /leave to remove yourself'')
     else call (RemoveMember (Member_CircleID m) t) (\<lambda>_.
       audit srv rq ((Event_of ''member_removed'' (Some (Member_UserID m)) None (Some (Member_CircleID m)) (rq_ip rq))
           \<lparr>Ev_Detail := Some (DetailRemoved t)\<rparr>)
       (hub_do (EvictUser (Member_CircleID m) t)
       (publish ''member_changed'' (Member_CircleID m) None
       (respond 200 ''removed''))))))"

definition handleLeaveCircle :: "Server \<Rightarrow> request \<Rightarrow> CircleMember \<Rightarrow> string handler" where
  "handleLeaveCircle srv rq m =
     (let leave = call (RemoveMember (Member_CircleID m) (Member_UserID m)) (\<lambda>_.
        audit srv rq (Event_of ''member_left'' (Some (Member_UserID m)) None (Some (Member_CircleID m)) (rq_ip rq))
        (hub_do (EvictUser (Member_CircleID m) (Member_UserID m))
        (publish ''member_changed'' (Member_CircleID m) None
        (respond 200 ''left'')))) in
      if Member_Role m = ''owner''
      then call (CountOwners (Member_CircleID m)) (\<lambda>owners.
        if owners \<le> 1 then fail (Conflict ''transfer ownership or delete the circle before leaving'') else leave)
      else leave)"

definition handleSetPrecision :: "string + string \<Rightarrow> CircleMember \<Rightarrow> string handler" where
  "handleSetPrecision body m = decoded body (\<lambda>mode.
     if mode \<notin> {''precise'', ''city'', ''paused''} then fail (BadRequest ''mode must be precise, city, or paused'')
     else call (SetPrecisionMode (Member_CircleID m) (Member_UserID m) mode) (\<lambda>updated.
       publish ''precision_mode'' (Member_CircleID m) None
       (respond 200 (Member_PrecisionMode updated))))"

definition handleRotateKey :: "Server \<Rightarrow> request \<Rightarrow> CircleMember \<Rightarrow> int handler" where
  "handleRotateKey srv rq m = requireOwner m (call (BumpCircleKeyEpoch (Member_CircleID m)) (\<lambda>circle.
     audit srv rq ((Event_of ''key_rotation'' (Some (Member_UserID m)) None (Some (Member_CircleID m)) (rq_ip rq))
         \<lparr>Ev_Detail := Some (DetailEpoch (Circle_KeyEpoch circle))\<rparr>)
     (respond 200 (Circle_KeyEpoch circle))))"

section \<open>invites.go\<close>

record createInviteReq =
  ci_Role :: string
  ci_MaxUses :: int
  ci_TTLSeconds :: int

definition handleCreateInvite :: "Server \<Rightarrow> request \<Rightarrow> uuid \<Rightarrow> string + createInviteReq \<Rightarrow> CircleMember \<Rightarrow> Invite handler" where
  "handleCreateInvite srv rq i body m =
     (if Member_Role m = ''guardian'' then fail (Forbidden ''guardian accounts cannot create invites'')
      else decoded body (\<lambda>req.
        let role = (if ci_Role req = [] then ''member'' else ci_Role req);
            maxUses = (if ci_MaxUses req \<le> 0 then 1 else ci_MaxUses req);
            ttl0 = i64 (ci_TTLSeconds req * Second);
            ttl = (if ttl0 \<le> 0 then 7 * 24 * Hour else ttl0) in
        if role \<noteq> ''member'' \<and> role \<noteq> ''guardian'' then fail (BadRequest ''role must be member or guardian'')
        else if maxUses > 1000 then fail (BadRequest ''max_uses too large'')
        else if ttl > 30 * 24 * Hour then fail (BadRequest ''ttl_seconds exceeds 30 days'')
        else call (CreateInvite (rq_now rq) i (Member_CircleID m) (Member_UserID m) role maxUses (rq_now rq + ttl))
          (\<lambda>inv. audit srv rq (Event_of ''invite_created'' (Some (Member_UserID m)) None
                (Some (Member_CircleID m)) (rq_ip rq))
             (respond 201 inv))))"

definition handleListInvites :: "request \<Rightarrow> CircleMember \<Rightarrow> Invite list handler" where
  "handleListInvites rq m = call (ListInvitesForCircle (rq_now rq) (Member_CircleID m)) (respond 200)"

definition handleRevokeInvite :: "uuid option \<Rightarrow> CircleMember \<Rightarrow> string handler" where
  "handleRevokeInvite inviteID m = requireOwner m (path_id ''inviteID'' inviteID (\<lambda>i.
     call (RevokeInvite i (Member_CircleID m)) (\<lambda>_. respond 200 ''revoked'')))"

definition invite_valid :: "gotime \<Rightarrow> Invite \<Rightarrow> bool" where
  "invite_valid now v \<longleftrightarrow> Invite_Status v = ''active'' \<and> ns (Invite_ExpiresAt v) > now \<and>
     Invite_Uses v < Invite_MaxUses v"

definition handleGetInvite :: "request \<Rightarrow> uuid option \<Rightarrow> (uuid \<times> string \<times> sqltime \<times> bool) handler" where
  "handleGetInvite rq inviteID = path_id ''inviteID'' inviteID (\<lambda>i.
     call_or (GetInvite i) (NotFound ''invite not found'') (\<lambda>inv.
       respond 200 (Invite_CircleID inv, Invite_Role inv, Invite_ExpiresAt inv, invite_valid (rq_now rq) inv)))"

datatype accept_result = AlreadyMember uuid | Joined uuid string

definition accept_tx :: "gotime \<Rightarrow> uuid \<Rightarrow> uuid \<Rightarrow> string q" where
  "accept_tx now inviteID user = withSQLiteTx (\<lambda>e. e)
     (bindm (ConsumeInvite now inviteID) (\<lambda>consumed.
      bindm (AddMember now (Invite_CircleID consumed) user (Invite_Role consumed)) (\<lambda>_.
      ret (Invite_Role consumed))))"

definition handleAcceptInvite :: "Server \<Rightarrow> request \<Rightarrow> uuid option \<Rightarrow> accept_result handler" where
  "handleAcceptInvite srv rq inviteID = path_id ''inviteID'' inviteID (\<lambda>i.
     call_or (GetInvite i) (NotFound ''invite not found'') (\<lambda>inv.
     tryq (on_db (GetMembership (Invite_CircleID inv) (rq_user rq)))
       (\<lambda>merr. if \<not> IsNotFound merr then fail Internal
          else call_or (accept_tx (rq_now rq) i (rq_user rq))
            (GoneConflict ''invite expired, revoked, or fully used'') (\<lambda>joinedRole.
            audit srv rq (Event_of ''invite_accepted'' (Some (rq_user rq)) None (Some (Invite_CircleID inv)) (rq_ip rq))
            (publish ''member_changed'' (Invite_CircleID inv) None
            (respond 200 (Joined (Invite_CircleID inv) joinedRole)))))
       (\<lambda>_. respond 200 (AlreadyMember (Invite_CircleID inv)))))"

section \<open>Invariants of the tables\<close>

context identity_invariant
begin

lemma optional_blob_inv [pres_rules]:
  "(\<And>r. pres (world_inv I) (k r)) \<Longrightarrow> pres (world_inv I) (optional_blob f s n k)"
  unfolding optional_blob_def by (intro pres_rules)

lemma circles_reads_inv [pres_rules]:
  "pres (world_inv I) (handleListCircles rq)" "pres (world_inv I) (handleGetCircle m)"
  "pres (world_inv I) (handleListMembers m)" "pres (world_inv I) (handleListInvites rq m)"
  "pres (world_inv I) (handleGetInvite rq j)"
  unfolding handleListCircles_def handleGetCircle_def handleListMembers_def handleListInvites_def
    handleGetInvite_def
  by (intro pres_rules)+

lemma handleCreateCircle_inv:
  "(\<And>n r. pres I (create_circle_tx (rq_now rq) i n r (rq_user rq))) \<Longrightarrow>
     pres (world_inv I) (handleCreateCircle srv rq i b)"
  unfolding handleCreateCircle_def Let_def by (intro pres_rules)

end

context circle_invariant
begin

lemma circles_handlers_inv:
  assumes m: "Member_CircleID m = c"
  shows "pres (world_inv I) (handlePatchCircle srv b2 m)" "pres (world_inv I) (handleDeleteCircle m)"
    "pres (world_inv I) (handleSetProfile b3 m)" "pres (world_inv I) (handleSetPrecision b4 m)"
    "pres (world_inv I) (handleRotateKey srv rq m)" "pres (world_inv I) (handleCreateInvite srv rq i b m)"
    "pres (world_inv I) (handleRevokeInvite j m)"
  unfolding handlePatchCircle_def handleDeleteCircle_def handleSetProfile_def handleSetPrecision_def
    handleRotateKey_def handleCreateInvite_def handleRevokeInvite_def Let_def m
  by (intro pres_rules)+

end

section \<open>The schema\<close>

lemma create_circle_tx_ok [pres_rules]: "pres db_ok (create_circle_tx now i n r u)"
  unfolding create_circle_tx_def by (intro pres_rules)

lemma accept_tx_ok [pres_rules]: "pres db_ok (accept_tx now i u)"
  unfolding accept_tx_def by (intro pres_rules)

lemmas circles_handlers_ok [pres_rules] = schema_circle.circles_handlers_inv [OF refl]

lemma membership_handlers_ok [pres_rules]:
  "pres world_ok (handleCreateCircle srv rq i b1)" "pres world_ok (handleRemoveMember srv rq t m)"
  "pres world_ok (handleLeaveCircle srv rq m)" "pres world_ok (handleAcceptInvite srv rq j)"
  unfolding handleCreateCircle_def handleRemoveMember_def handleLeaveCircle_def handleAcceptInvite_def Let_def
  by (intro pres_rules)+

end
