(* ===== verification/Aul_Api_Feeds.thy ===== *)
theory Aul_Api_Feeds
  imports Aul_Http
begin

text \<open>
  The handlers of \<^verbatim>\<open>httpapi/pings.go\<close>, \<^verbatim>\<open>places.go\<close>, \<^verbatim>\<open>sos.go\<close>, \<^verbatim>\<open>keyenvelopes.go\<close> and
  \<^verbatim>\<open>mutes.go\<close>. Ids and timestamps inside a request are given as the outcome of parsing
  them (\<open>None\<close>: rejected by \<^verbatim>\<open>uuid.Parse\<close> or \<^verbatim>\<open>time.Parse\<close>); \<open>ids\<close> gives the UUIDs drawn for the
  rows inserted by one request.
\<close>

section \<open>pings.go\<close>

record pingItem =
  item_CircleID :: "uuid option"
  item_ClientID :: string
  item_Nonce :: string
  item_Ciphertext :: string
  item_CapturedAt :: "gotime option"
  item_TTLSeconds :: int

record InsertPingParams =
  ip_CircleID :: uuid
  ip_DeviceID :: uuid
  ip_ClientID :: string
  ip_Nonce :: bytes
  ip_Ciphertext :: bytes
  ip_CapturedAt :: gotime
  ip_ExpiresAt :: "gotime option"

record pingDTO =
  ping_ID :: uuid
  ping_CircleID :: uuid
  ping_DeviceID :: uuid
  ping_Nonce :: string
  ping_Ciphertext :: string
  ping_CapturedAt :: sqltime

definition maxBatchPings :: nat where "maxBatchPings = 100"
definition pingFutureSkew :: duration where "pingFutureSkew = 5 * Minute"

definition itemErr :: "nat \<Rightarrow> string \<Rightarrow> string" where
  "itemErr i msg = ''ping['' @ show_nat i @ '']: '' @ msg"

text \<open>The three bytes of the sign in the message for an overlong client id.\<close>

definition le_sign :: string where
  "le_sign = map char_of [226, 137, 164 :: nat]"

definition item_blob :: "nat \<Rightarrow> string \<Rightarrow> string \<Rightarrow> nat \<Rightarrow> http_err + bytes" where
  "item_blob i field s n = (case decodeBlob s n of
     Inl e \<Rightarrow> Inl (BadRequest (itemErr i (blob_msg field e))) | Inr b \<Rightarrow> Inr b)"

text \<open>The checks of one item after its circle was accepted.\<close>

definition validate_item :: "Server \<Rightarrow> request \<Rightarrow> nat \<Rightarrow> uuid \<Rightarrow> pingItem \<Rightarrow> http_err + InsertPingParams" where
  "validate_item srv rq i cid p =
     (if item_ClientID p = [] \<or> length (item_ClientID p) > 128
      then Inl (BadRequest (itemErr i (''client_id required, '' @ le_sign @ ''128 chars'')))
      else case item_blob i ''nonce'' (item_Nonce p) maxNonceBytes of Inl e \<Rightarrow> Inl e
      | Inr nonce \<Rightarrow> (case item_blob i ''ciphertext'' (item_Ciphertext p) maxBlobBytes of Inl e \<Rightarrow> Inl e
      | Inr ct \<Rightarrow> (case item_CapturedAt p of
          None \<Rightarrow> Inl (BadRequest (itemErr i ''captured_at must be RFC3339''))
        | Some captured \<Rightarrow>
            if captured < rq_now rq - srv_MaxRetentionDays srv * 24 * Hour \<or>
               captured > rq_now rq + pingFutureSkew
            then Inl (BadRequest (itemErr i ''captured_at outside allowed window''))
            else Inr \<lparr>ip_CircleID = cid, ip_DeviceID = rq_device rq, ip_ClientID = item_ClientID p,
                   ip_Nonce = nonce, ip_Ciphertext = ct, ip_CapturedAt = captured,
                   ip_ExpiresAt = (if item_TTLSeconds p > 0
                     then Some (captured + i64 (item_TTLSeconds p * Second)) else None)\<rparr>)))"

text \<open>Membership, checked once per distinct circle of the batch.\<close>

type_synonym memo = "(uuid \<times> bool) list"

definition checkMember :: "request \<Rightarrow> memo \<Rightarrow> uuid \<Rightarrow> world \<Rightarrow> (http_err + bool \<times> memo) \<times> world" where
  "checkMember rq memo cid = (case map_of memo cid of
      Some v \<Rightarrow> ret (v, memo)
    | None \<Rightarrow> tryq (on_db (GetMembership cid (rq_user rq)))
        (\<lambda>e. if IsNotFound e then ret (False, (cid, False) # memo) else fail Internal)
        (\<lambda>_. ret (True, (cid, True) # memo)))"

fun prepare_pings :: "Server \<Rightarrow> request \<Rightarrow> nat \<Rightarrow> memo \<Rightarrow> pingItem list \<Rightarrow> world
    \<Rightarrow> (http_err + InsertPingParams list) \<times> world" where
  "prepare_pings srv rq i memo [] = ret []"
| "prepare_pings srv rq i memo (p # ps) = (case item_CircleID p of
      None \<Rightarrow> fail (BadRequest (itemErr i ''circle_id must be a valid id''))
    | Some cid \<Rightarrow> bindm (checkMember rq memo cid) (\<lambda>(ok, memo').
        if \<not> ok then fail (Forbidden (itemErr i ''not a member of circle_id''))
        else case validate_item srv rq i cid p of Inl e \<Rightarrow> fail e
        | Inr x \<Rightarrow> bindm (prepare_pings srv rq (Suc i) memo' ps) (\<lambda>xs. ret (x # xs))))"

definition insert_one :: "gotime \<Rightarrow> uuid \<Rightarrow> InsertPingParams \<Rightarrow> Ping q" where
  "insert_one now i x = InsertPing now i (ip_CircleID x) (ip_DeviceID x) (ip_ClientID x) (ip_Nonce x)
     (ip_Ciphertext x) (ip_CapturedAt x) (ip_ExpiresAt x)"

fun insert_pings :: "gotime \<Rightarrow> (nat \<Rightarrow> uuid) \<Rightarrow> nat \<Rightarrow> InsertPingParams list \<Rightarrow> Ping list q" where
  "insert_pings now ids n [] = ret []"
| "insert_pings now ids n (x # xs) = tryq (insert_one now (ids n) x)
     (\<lambda>e. if IsNotFound e then insert_pings now ids (Suc n) xs else fail e)
     (\<lambda>row. bindm (insert_pings now ids (Suc n) xs) (\<lambda>rows. ret (row # rows)))"

definition ping_tx :: "request \<Rightarrow> (nat \<Rightarrow> uuid) \<Rightarrow> InsertPingParams list \<Rightarrow> Ping list q" where
  "ping_tx rq ids items = withSQLiteTx (\<lambda>e. e) (bindm (insert_pings (rq_now rq) ids 0 items) (\<lambda>inserted.
     bindm (TouchDevice (rq_now rq) (rq_device rq)) (\<lambda>_. ret inserted)))"

definition publishPing :: "Ping \<Rightarrow> 'b handler \<Rightarrow> 'b handler" where
  "publishPing row k = publish ''ping'' (Ping_CircleID row) (Some (PayloadPing row)) k"

record batch_result =
  accepted :: nat
  stored :: nat
  duplicate :: nat

definition handlePingBatch :: "Server \<Rightarrow> request \<Rightarrow> (nat \<Rightarrow> uuid) \<Rightarrow> string + pingItem list \<Rightarrow> batch_result handler" where
  "handlePingBatch srv rq ids body = decoded body (\<lambda>ps.
     if ps = [] then fail (BadRequest ''pings must not be empty'')
     else if length ps > maxBatchPings then fail (BadRequest ''batch exceeds 100 pings'')
     else bindm (prepare_pings srv rq 0 [] ps) (\<lambda>items.
       call (ping_tx rq ids items) (\<lambda>inserted.
         foldr publishPing inserted
         (respond 200 \<lparr>accepted = length ps, stored = length inserted,
            duplicate = length ps - length inserted\<rparr>))))"

definition pingToDTO :: "Ping \<Rightarrow> pingDTO" where
  "pingToDTO row = \<lparr>ping_ID = Ping_ID row, ping_CircleID = Ping_CircleID row, ping_DeviceID = Ping_DeviceID row,
     ping_Nonce = encodeBlob (Ping_Nonce row), ping_Ciphertext = encodeBlob (Ping_Ciphertext row),
     ping_CapturedAt = Ping_CapturedAt row\<rparr>"

definition handleLatestPings :: "CircleMember \<Rightarrow> pingDTO list handler" where
  "handleLatestPings m = call (LatestPingsForCircle (Member_CircleID m)) (\<lambda>rows. respond 200 (map pingToDTO rows))"

section \<open>places.go\<close>

record placeDTO =
  place_ID :: uuid
  place_Ciphertext :: string
  place_Version :: int
  place_UpdatedAt :: sqltime
  place_CreatedBy :: "uuid option"

definition placeToDTO :: "PlacesEnc \<Rightarrow> placeDTO" where
  "placeToDTO p = \<lparr>place_ID = Place_ID p, place_Ciphertext = encodeBlob (Place_Ciphertext p),
     place_Version = Place_Version p, place_UpdatedAt = Place_UpdatedAt p, place_CreatedBy = Place_CreatedBy p\<rparr>"

definition handleListPlaces :: "CircleMember \<Rightarrow> placeDTO list handler" where
  "handleListPlaces m = call (ListPlaces (Member_CircleID m)) (\<lambda>rows. respond 200 (map placeToDTO rows))"

record placeReq =
  place_req_Ciphertext :: string
  place_req_Version :: int

definition handleCreatePlace :: "request \<Rightarrow> uuid \<Rightarrow> string + placeReq \<Rightarrow> CircleMember \<Rightarrow> placeDTO handler" where
  "handleCreatePlace rq i body m = decoded body (\<lambda>req.
     blob ''ciphertext'' (place_req_Ciphertext req) maxBlobBytes (\<lambda>ct.
     call (CreatePlace (rq_now rq) i (Member_CircleID m) ct (Some (Member_UserID m))) (\<lambda>p.
     publish ''place_updated'' (Member_CircleID m) None
     (respond 201 (placeToDTO p)))))"

definition handleUpdatePlace :: "request \<Rightarrow> uuid option \<Rightarrow> string + placeReq \<Rightarrow> CircleMember \<Rightarrow> placeDTO handler" where
  "handleUpdatePlace rq placeID body m = path_id ''placeID'' placeID (\<lambda>i. decoded body (\<lambda>req.
     blob ''ciphertext'' (place_req_Ciphertext req) maxBlobBytes (\<lambda>ct.
     call_or (UpdatePlace (rq_now rq) i (Member_CircleID m) ct (Some (Member_UserID m)) (place_req_Version req))
       (Conflict ''place not found or version mismatch; re-sync and retry'') (\<lambda>p.
     publish ''place_updated'' (Member_CircleID m) None
     (respond 200 (placeToDTO p))))))"

definition handleDeletePlace :: "request \<Rightarrow> uuid option \<Rightarrow> CircleMember \<Rightarrow> string handler" where
  "handleDeletePlace rq placeID m = path_id ''placeID'' placeID (\<lambda>i.
     call_or (SoftDeletePlace (rq_now rq) i (Member_CircleID m) (Some (Member_UserID m)))
       (NotFound ''place not found'') (\<lambda>_.
     publish ''place_updated'' (Member_CircleID m) None (respond 200 ''deleted'')))"

section \<open>sos.go\<close>

record sosDTO =
  sos_ID :: uuid
  sos_CircleID :: uuid
  sos_DeviceID :: "uuid option"
  sos_Ciphertext :: string
  sos_CreatedAt :: sqltime
  sos_ResolvedAt :: "sqltime option"

definition sosToDTO :: "SosEvent \<Rightarrow> sosDTO" where
  "sosToDTO ev = \<lparr>sos_ID = Sos_ID ev, sos_CircleID = Sos_CircleID ev, sos_DeviceID = Sos_DeviceID ev,
     sos_Ciphertext = encodeBlob (Sos_Ciphertext ev), sos_CreatedAt = Sos_CreatedAt ev,
     sos_ResolvedAt = Sos_ResolvedAt ev\<rparr>"

definition handleCreateSOS :: "Server \<Rightarrow> request \<Rightarrow> uuid \<Rightarrow> string + string \<Rightarrow> CircleMember \<Rightarrow> sosDTO handler" where
  "handleCreateSOS srv rq i body m = decoded body (\<lambda>ciphertext.
     blob ''ciphertext'' ciphertext maxBlobBytes (\<lambda>ct.
     call (CreateSOS (rq_now rq) i (Member_CircleID m) (Some (rq_device rq)) ct) (\<lambda>ev.
     audit srv rq (Event_of ''sos_created'' (Some (Member_UserID m)) (Some (rq_device rq))
         (Some (Member_CircleID m)) (rq_ip rq))
     (publish ''sos'' (Member_CircleID m) (Some (PayloadSOS ev))
     (respond 201 (sosToDTO ev))))))"

definition handleResolveSOS :: "Server \<Rightarrow> request \<Rightarrow> uuid option \<Rightarrow> CircleMember \<Rightarrow> sosDTO handler" where
  "handleResolveSOS srv rq sosID m = path_id ''sosID'' sosID (\<lambda>i.
     call_or (ResolveSOS (rq_now rq) i (Member_CircleID m) (Some (Member_UserID m)))
       (NotFound ''active SOS not found'') (\<lambda>ev.
     audit srv rq (Event_of ''sos_resolved'' (Some (Member_UserID m)) None (Some (Member_CircleID m)) (rq_ip rq))
     (publish ''sos_resolved'' (Member_CircleID m) (Some (PayloadID (Sos_ID ev)))
     (respond 200 (sosToDTO ev)))))"

definition handleListSOS :: "CircleMember \<Rightarrow> sosDTO list handler" where
  "handleListSOS m = call (ListActiveSOS (Member_CircleID m)) (\<lambda>rows. respond 200 (map sosToDTO rows))"

section \<open>keyenvelopes.go\<close>

record circleDeviceDTO =
  cdev_ID :: uuid
  cdev_UserID :: uuid
  cdev_Platform :: string
  cdev_Pubkey :: "string option"

definition handleCircleDevices :: "CircleMember \<Rightarrow> circleDeviceDTO list handler" where
  "handleCircleDevices m = call (ListCircleDevices (Member_CircleID m)) (\<lambda>devs.
     respond 200 (map (\<lambda>v. \<lparr>cdev_ID = Device_ID v, cdev_UserID = Device_UserID v,
       cdev_Platform = Device_Platform v,
       cdev_Pubkey = (case Device_Pubkey v of None \<Rightarrow> None
          | Some pk \<Rightarrow> if pk = [] then None else Some (encodeBlob pk))\<rparr>) devs))"

record keyEnvelopeItem =
  kei_Recipient :: "uuid option"
  kei_Ciphertext :: string
  kei_KeyEpoch :: int

definition maxKeyEnvelopes :: nat where "maxKeyEnvelopes = 200"

text \<open>An item error aborts the transaction and is answered with 400, a store error with 500.\<close>

definition badItem :: "nat \<Rightarrow> string \<Rightarrow> http_err" where
  "badItem i msg = BadRequest (''envelope['' @ show_nat i @ '']: '' @ msg)"

fun post_envelopes :: "request \<Rightarrow> (nat \<Rightarrow> uuid) \<Rightarrow> uuid \<Rightarrow> int \<Rightarrow> uuid set \<Rightarrow> nat \<Rightarrow> keyEnvelopeItem list
    \<Rightarrow> db \<Rightarrow> (http_err + nat) \<times> db" where
  "post_envelopes rq ids circleID epoch valid i [] = ret i"
| "post_envelopes rq ids circleID epoch valid i (e # es) = (case kei_Recipient e of
      None \<Rightarrow> fail (badItem i ''recipient_device_id must be a valid id'')
    | Some rid \<Rightarrow>
        if rid \<notin> valid then fail (badItem i ''recipient_device_id is not a device of a circle member'')
        else case decodeBlob (kei_Ciphertext e) maxBlobBytes of
          Inl b \<Rightarrow> fail (badItem i (blob_msg ''ciphertext'' b))
        | Inr ct \<Rightarrow> tryq (CreateKeyEnvelope (rq_now rq) (ids i) circleID rid (Some (rq_device rq)) ct
              (if kei_KeyEpoch e \<le> 0 then epoch else kei_KeyEpoch e))
            (\<lambda>_. fail Internal)
            (\<lambda>_. post_envelopes rq ids circleID epoch valid (Suc i) es))"

definition handlePostKeyEnvelopes :: "Server \<Rightarrow> request \<Rightarrow> (nat \<Rightarrow> uuid)
    \<Rightarrow> string + uuid option \<times> keyEnvelopeItem list \<Rightarrow> nat handler" where
  "handlePostKeyEnvelopes srv rq ids body = decoded body (\<lambda>(circle_id, envelopes).
     case circle_id of None \<Rightarrow> fail (BadRequest ''circle_id must be a valid id'')
     | Some circleID \<Rightarrow>
         call_or (GetMembership circleID (rq_user rq)) (NotFound ''circle not found'') (\<lambda>membership.
         if Member_Role membership \<noteq> ''owner'' then fail (Forbidden ''owner role required to distribute keys'')
         else if envelopes = [] \<or> length envelopes > maxKeyEnvelopes
         then fail (BadRequest ''envelopes must contain 1..200 items'')
         else call (GetCircle circleID) (\<lambda>circle.
           call (ListCircleDevices circleID) (\<lambda>devs.
           bindm (on_db (withSQLiteTx (\<lambda>_. Internal)
               (post_envelopes rq ids circleID (Circle_KeyEpoch circle) (Device_ID ` set devs) 0 envelopes))) (\<lambda>count.
           audit srv rq ((Event_of ''key_envelope_sent'' (Some (rq_user rq)) (Some (rq_device rq))
               (Some circleID) (rq_ip rq))\<lparr>Ev_Detail := Some (DetailCount count)\<rparr>)
           (publish ''key_envelope'' circleID None
           (respond 201 count)))))))"

record keyEnvelopeDTO =
  ke_ID :: uuid
  ke_CircleID :: uuid
  ke_SenderDeviceID :: "uuid option"
  ke_Ciphertext :: string
  ke_KeyEpoch :: int
  ke_CreatedAt :: sqltime

definition handlePendingKeyEnvelopes :: "request \<Rightarrow> keyEnvelopeDTO list handler" where
  "handlePendingKeyEnvelopes rq = call (PendingEnvelopesForDevice (rq_device rq)) (\<lambda>rows.
     respond 200 (map (\<lambda>e. \<lparr>ke_ID = Envelope_ID e, ke_CircleID = Envelope_CircleID e,
       ke_SenderDeviceID = Envelope_SenderDeviceID e, ke_Ciphertext = encodeBlob (Envelope_Ciphertext e),
       ke_KeyEpoch = Envelope_KeyEpoch e, ke_CreatedAt = Envelope_CreatedAt e\<rparr>) rows))"

definition handleConsumeKeyEnvelope :: "request \<Rightarrow> uuid option \<Rightarrow> string handler" where
  "handleConsumeKeyEnvelope rq envelopeID = path_id ''envelopeID'' envelopeID (\<lambda>i.
     call (MarkEnvelopeConsumed (rq_now rq) i (rq_device rq)) (\<lambda>_. respond 200 ''consumed''))"

section \<open>mutes.go\<close>

record mutesDTO =
  CircleMuted :: bool
  MutedUserIDs :: "uuid list"

definition maxMutedUsers :: nat where "maxMutedUsers = 500"

definition mutesFromRows :: "uuid option list \<Rightarrow> mutesDTO" where
  "mutesFromRows rows = \<lparr>CircleMuted = (None \<in> set rows), MutedUserIDs = List.map_filter (\<lambda>x. x) rows\<rparr>"

definition handleGetMutes :: "CircleMember \<Rightarrow> mutesDTO handler" where
  "handleGetMutes m = call (ListMutes (Member_UserID m) (Member_CircleID m)) (\<lambda>rows.
     respond 200 (mutesFromRows rows))"

text \<open>The deduplicated list, in order of first occurrence; \<open>None\<close> when it contains \<open>me\<close>.\<close>

fun dedupe_mutes :: "uuid \<Rightarrow> uuid list \<Rightarrow> uuid list \<Rightarrow> uuid list option" where
  "dedupe_mutes me seen [] = Some (rev seen)"
| "dedupe_mutes me seen (i # is) = (if i = me then None
     else if i \<in> set seen then dedupe_mutes me seen is else dedupe_mutes me (i # seen) is)"

fun insert_mutes :: "gotime \<Rightarrow> uuid \<Rightarrow> uuid \<Rightarrow> uuid option list \<Rightarrow> unit q" where
  "insert_mutes now u c [] = ret ()"
| "insert_mutes now u c (x # xs) = bindm (InsertMute now u c x) (\<lambda>_. insert_mutes now u c xs)"

definition mutes_tx :: "gotime \<Rightarrow> uuid \<Rightarrow> uuid \<Rightarrow> bool \<Rightarrow> uuid list \<Rightarrow> unit q" where
  "mutes_tx now u c circleMuted ids = withSQLiteTx (\<lambda>e. e) (bindm (DeleteMutes u c) (\<lambda>_.
     insert_mutes now u c ((if circleMuted then [None] else []) @ map Some ids)))"

definition handleSetMutes :: "request \<Rightarrow> string + mutesDTO \<Rightarrow> CircleMember \<Rightarrow> mutesDTO handler" where
  "handleSetMutes rq body m = decoded body (\<lambda>req.
     if length (MutedUserIDs req) > maxMutedUsers then fail (BadRequest ''too many muted_user_ids'')
     else case dedupe_mutes (Member_UserID m) [] (MutedUserIDs req) of
       None \<Rightarrow> fail (BadRequest ''cannot mute yourself'')
     | Some ids \<Rightarrow>
         let save = call (mutes_tx (rq_now rq) (Member_UserID m) (Member_CircleID m) (CircleMuted req) ids) (\<lambda>_.
           respond 200 \<lparr>CircleMuted = CircleMuted req, MutedUserIDs = ids\<rparr>) in
         if ids = [] then save
         else call (CountMembersIn (Member_CircleID m) ids) (\<lambda>n.
           if n \<noteq> length ids then fail (BadRequest ''muted_user_ids must all be members of this circle'')
           else save))"

section \<open>Invariants of the tables\<close>

lemma CountMembersIn_ok [pres_rules]: "tables_only I \<Longrightarrow> pres I (CountMembersIn c us)"
  unfolding CountMembersIn_def by (intro pres_rules)

context identity_invariant
begin

lemma checkMember_inv [pres_rules]: "pres (world_inv I) (checkMember rq memo c)"
  unfolding checkMember_def by (intro pres_rules)

lemma prepare_pings_inv [pres_rules]: "pres (world_inv I) (prepare_pings srv rq i memo ps)"
proof (induction ps arbitrary: i memo)
  case (Cons p ps)
  show ?case unfolding prepare_pings.simps by (intro pres_rules Cons.IH)
qed (simp add: pres_rules)

lemma publish_all_inv [pres_rules]: "pres (world_inv I) k \<Longrightarrow> pres (world_inv I) (foldr publishPing rows k)"
proof (induction rows)
  case (Cons r rows)
  then show ?case unfolding foldr.simps comp_def publishPing_def by (intro pres_rules)
qed simp

lemma insert_pings_inv:
  assumes "\<And>x i. x \<in> set xs \<Longrightarrow> pres I (insert_one now i x)"
  shows "pres I (insert_pings now ids n xs)"
  using assms
proof (induction xs arbitrary: n)
  case (Cons x xs)
  then show ?case unfolding insert_pings.simps by (intro pres_rules) simp_all
qed (simp add: pres_rules)

lemma ping_tx_inv:
  assumes "\<And>x i. x \<in> set items \<Longrightarrow> pres I (insert_one (rq_now rq) i x)"
  shows "pres I (ping_tx rq ids items)"
  unfolding ping_tx_def by (intro pres_rules insert_pings_inv assms)

lemma feeds_reads_inv [pres_rules]:
  "pres (world_inv I) (handleLatestPings m)" "pres (world_inv I) (handleListPlaces m)"
  "pres (world_inv I) (handleListSOS m)" "pres (world_inv I) (handleCircleDevices m)"
  "pres (world_inv I) (handlePendingKeyEnvelopes rq)" "pres (world_inv I) (handleGetMutes m)"
  unfolding handleLatestPings_def handleListPlaces_def handleListSOS_def handleCircleDevices_def
    handlePendingKeyEnvelopes_def handleGetMutes_def
  by (intro pres_rules)+

lemma handleConsumeKeyEnvelope_inv:
  "(\<And>i. pres I (MarkEnvelopeConsumed (rq_now rq) i (rq_device rq))) \<Longrightarrow>
     pres (world_inv I) (handleConsumeKeyEnvelope rq j)"
  unfolding handleConsumeKeyEnvelope_def by (intro pres_rules)

end

context circle_invariant
begin

lemma post_envelopes_inv [pres_rules]: "pres I (post_envelopes rq ids c ep valid i es)"
proof (induction es arbitrary: i)
  case (Cons e es)
  show ?case unfolding post_envelopes.simps by (intro pres_rules Cons.IH)
qed (simp add: pres_rules)

lemma insert_mutes_inv [pres_rules]: "pres I (insert_mutes now u c xs)"
proof (induction xs)
  case (Cons x xs)
  show ?case unfolding insert_mutes.simps by (intro pres_rules Cons.IH)
qed (simp add: pres_rules)

lemma mutes_tx_inv [pres_rules]: "pres I (mutes_tx now u c b is)"
  unfolding mutes_tx_def by (intro pres_rules)

lemma feeds_handlers_inv:
  assumes m: "Member_CircleID m = c"
  shows "pres (world_inv I) (handleCreatePlace rq i b2 m)" "pres (world_inv I) (handleUpdatePlace rq j b2 m)"
    "pres (world_inv I) (handleDeletePlace rq j m)" "pres (world_inv I) (handleCreateSOS srv rq i b3 m)"
    "pres (world_inv I) (handleResolveSOS srv rq j m)" "pres (world_inv I) (handleSetMutes rq b5 m)"
  unfolding handleCreatePlace_def handleUpdatePlace_def handleDeletePlace_def handleCreateSOS_def
    handleResolveSOS_def handleSetMutes_def Let_def m
  by (intro pres_rules)+

end

section \<open>The schema\<close>

lemma insert_one_ok [pres_rules]: "pres db_ok (insert_one now i x)"
  unfolding insert_one_def by (intro pres_rules)

lemmas ping_tx_ok [pres_rules] = schema.ping_tx_inv [OF insert_one_ok]
lemmas feeds_handlers_ok [pres_rules] = schema_circle.feeds_handlers_inv [OF refl]

lemma unscoped_handlers_ok [pres_rules]:
  "pres world_ok (handlePingBatch srv rq ids b1)" "pres world_ok (handlePostKeyEnvelopes srv rq ids b4)"
  "pres world_ok (handleConsumeKeyEnvelope rq j)"
  unfolding handlePingBatch_def handlePostKeyEnvelopes_def handleConsumeKeyEnvelope_def by (intro pres_rules)+

end
