(* ===== verification/Aul_Api_Account.thy ===== *)
theory Aul_Api_Account
  imports Aul_Http
begin

text \<open>
  The handlers of \<^verbatim>\<open>httpapi/auth_handlers.go\<close>, \<^verbatim>\<open>misc.go\<close>, \<^verbatim>\<open>push.go\<close>, \<^verbatim>\<open>share.go\<close> and
  \<^verbatim>\<open>ws.go\<close>. What a push service answers for a subscription is the parameter \<open>outcome\<close>; a
  subscription that the fan-out did not reach within its deadline counts as \<open>PushFailed\<close>, like
  one the service refused. \<^verbatim>\<open>Set-Cookie\<close> headers are part of the response body here.
\<close>

section \<open>auth\_handlers.go\<close>

fun writeAuthError :: "autherr \<Rightarrow> http_err" where
  "writeAuthError (LockedError retry reason) = AccountLocked retry reason"
| "writeAuthError ErrEmailTaken = Conflict ''email already registered''"
| "writeAuthError ErrInvalidCredentials = Unauthorized ''invalid email or password''"
| "writeAuthError ErrRefreshReused = Unauthorized ''session revoked; please sign in again''"
| "writeAuthError ErrRefreshInvalid = Unauthorized ''invalid or expired refresh token''"
| "writeAuthError ErrDeviceNotFound = NotFound ''device not found''"
| "writeAuthError ErrInvalidEmail = Validation ''invalid email address''"
| "writeAuthError ErrWeakPassword = Validation ''password must be at least 8 characters''"
| "writeAuthError ErrPasswordTooLong = Validation ''password is too long''"
| "writeAuthError ErrInvalidPlatform = Validation ''platform must be android, ios, web, or web-mobile''"
| "writeAuthError ErrInvalidPubkey = Internal"
| "writeAuthError ErrUnauthorized = Internal"
| "writeAuthError (StoreErr e) = Internal"
| "writeAuthError (CryptoErr e) = Internal"

definition auth_call :: "'a auth \<Rightarrow> ('a \<Rightarrow> 'b handler) \<Rightarrow> 'b handler" where
  "auth_call m k = tryq (on_db m) (\<lambda>e. fail (writeAuthError e)) k"

record deviceDTO =
  dev_ID :: uuid
  dev_Platform :: string
  dev_DisplayName :: "string option"
  dev_HasPubkey :: bool
  dev_LastSeen :: "sqltime option"

record authResp =
  resp_AccessToken :: string
  resp_RefreshToken :: string
  resp_AccessExpiresAt :: gotime
  resp_RefreshExpiresAt :: gotime
  resp_User :: "(uuid \<times> string) option"
  resp_Device :: "deviceDTO option"

definition deviceToDTO :: "Device \<Rightarrow> deviceDTO" where
  "deviceToDTO v = \<lparr>dev_ID = Device_ID v, dev_Platform = Device_Platform v,
     dev_DisplayName = Device_DisplayName v, dev_HasPubkey = (pk_len (Device_Pubkey v) > 0),
     dev_LastSeen = Device_LastSeen v\<rparr>"

definition authResultToResp :: "AuthResult \<Rightarrow> bool \<Rightarrow> authResp" where
  "authResultToResp res includeIdentity = \<lparr>resp_AccessToken = Res_AccessToken res,
     resp_RefreshToken = Res_RefreshToken res, resp_AccessExpiresAt = Res_AccessExpiresAt res,
     resp_RefreshExpiresAt = Res_RefreshExpiresAt res,
     resp_User = (if includeIdentity then map_option (\<lambda>u. (User_ID u, User_Email u)) (Res_User res) else None),
     resp_Device = (if includeIdentity then map_option deviceToDTO (Res_Device res) else None)\<rparr>"

definition optionalPubkey :: "string \<Rightarrow> (bytes option \<Rightarrow> 'b handler) \<Rightarrow> 'b handler" where
  "optionalPubkey b64 k = (if b64 = [] then k None
     else blob ''pubkey'' b64 64 (\<lambda>pk.
       if length pk \<noteq> 32 then fail (BadRequest ''pubkey must be 32 bytes'') else k (Some pk)))"

record registerReq =
  rr_Email :: string
  rr_Password :: string
  rr_Platform :: string
  rr_DisplayName :: string
  rr_Pubkey :: string

definition handleRegister :: "Server \<Rightarrow> gotime \<Rightarrow> string \<Rightarrow> entropy \<Rightarrow> string + registerReq \<Rightarrow> authResp handler" where
  "handleRegister srv now ip ent body = decoded body (\<lambda>req.
     optionalPubkey (rr_Pubkey req) (\<lambda>pubkey.
     auth_call (Register (srv_auth srv) now ent \<lparr>Reg_Email = rr_Email req, Reg_Password = rr_Password req,
         Reg_Platform = rr_Platform req, Reg_DisplayName = rr_DisplayName req, Reg_Pubkey = pubkey,
         Reg_IP = ip\<rparr>) (\<lambda>res.
     respond 201 (authResultToResp res True))))"

text \<open>The device id of a login: absent, malformed, or an id.\<close>

record loginReq =
  lr_Email :: string
  lr_Password :: string
  lr_Platform :: string
  lr_DisplayName :: string
  lr_DeviceID :: "uuid option option"
  lr_Pubkey :: string

definition handleLogin :: "Server \<Rightarrow> gotime \<Rightarrow> string \<Rightarrow> entropy \<Rightarrow> string + loginReq \<Rightarrow> authResp handler" where
  "handleLogin srv now ip ent body = decoded body (\<lambda>req.
     optionalPubkey (lr_Pubkey req) (\<lambda>pubkey.
     if lr_DeviceID req = Some None then fail (BadRequest ''device_id must be a valid id'')
     else auth_call (Login (srv_auth srv) now ent \<lparr>In_Email = lr_Email req, In_Password = lr_Password req,
         In_Platform = lr_Platform req, In_DisplayName = lr_DisplayName req,
         In_DeviceID = Option.bind (lr_DeviceID req) (\<lambda>x. x), In_Pubkey = pubkey, In_IP = ip\<rparr>) (\<lambda>res.
       respond 200 (authResultToResp res True))))"

text \<open>\<open>body = None\<close>: no request body; the token then comes from the cookie.\<close>

definition handleRefresh :: "Server \<Rightarrow> gotime \<Rightarrow> string \<Rightarrow> entropy \<Rightarrow> (string + string) option \<Rightarrow> string option
    \<Rightarrow> authResp handler" where
  "handleRefresh srv now ip ent body cookie =
     (case (case body of None \<Rightarrow> Inr [] | Some b \<Rightarrow> b) of Inl msg \<Rightarrow> fail (BadRequest msg)
      | Inr tok \<Rightarrow>
          let token = (if tok = [] then (case cookie of None \<Rightarrow> [] | Some c \<Rightarrow> c) else tok) in
          auth_call (Refresh (srv_auth srv) now ent token ip) (\<lambda>res.
            respond 200 (authResultToResp res False)))"

definition handleLogout :: "Server \<Rightarrow> request \<Rightarrow> string handler" where
  "handleLogout srv rq = tryq
     (on_db (Logout (srv_auth srv) (rq_now rq) (Auth_SessionID (rq_auth rq)) (rq_user rq) (rq_ip rq)))
     (\<lambda>_. fail Internal) (\<lambda>_. respond 200 ''logged_out'')"

definition handleMe :: "request \<Rightarrow> (uuid \<times> string) handler" where
  "handleMe rq = call (GetUserByID (rq_user rq)) (\<lambda>u. respond 200 (User_ID u, User_Email u))"

definition handleListDevices :: "request \<Rightarrow> deviceDTO list handler" where
  "handleListDevices rq = call (ListDevicesForUser (rq_user rq)) (\<lambda>vs. respond 200 (map deviceToDTO vs))"

definition handleRevokeDevice :: "Server \<Rightarrow> request \<Rightarrow> uuid option \<Rightarrow> string handler" where
  "handleRevokeDevice srv rq deviceID = path_id ''deviceID'' deviceID (\<lambda>v.
     tryq (on_db (RevokeDevice (srv_auth srv) (rq_now rq) (rq_user rq) v (rq_ip rq)))
       (\<lambda>e. if e = ErrDeviceNotFound then fail (NotFound ''device not found'') else fail Internal)
       (\<lambda>_. respond 200 ''revoked''))"

record sessionDTO =
  sess_ID :: uuid
  sess_DeviceID :: uuid
  sess_Platform :: string
  sess_DisplayName :: "string option"
  sess_Current :: bool
  sess_RotatedAt :: sqltime
  sess_RefreshUntil :: sqltime

definition handleListSessions :: "request \<Rightarrow> sessionDTO list handler" where
  "handleListSessions rq = call (ListActiveSessionsForUser (rq_now rq) (rq_user rq)) (\<lambda>rows.
     respond 200 (map (\<lambda>(s, platform, name). \<lparr>sess_ID = Session_ID s, sess_DeviceID = Session_DeviceID s,
       sess_Platform = platform, sess_DisplayName = name,
       sess_Current = (Session_ID s = Auth_SessionID (rq_auth rq)), sess_RotatedAt = Session_RotatedAt s,
       sess_RefreshUntil = Session_RefreshExpiresAt s\<rparr>) rows))"

definition handleListAudit :: "request \<Rightarrow> (string \<times> sqltime) list handler" where
  "handleListAudit rq = call (ListAuditForUser (rq_user rq) 100) (\<lambda>rows.
     respond 200 (map (\<lambda>e. (Audit_Event e, Audit_Ts e)) rows))"

section \<open>misc.go\<close>

definition handleVersionLatest :: "string \<Rightarrow> AppVersion handler" where
  "handleVersionLatest platform =
     (if platform \<noteq> ''android'' \<and> platform \<noteq> ''ios'' then fail (BadRequest ''platform must be android or ios'')
      else call_or (LatestActiveVersion platform) (NotFound ''no published version'') (respond 200))"

record pushSubscribeReq =
  ps_Kind :: string
  ps_Endpoint :: string
  ps_P256dh :: string
  ps_Auth :: string
  ps_Token :: string

text \<open>The row columns: endpoint, p256dh, auth, kind. Double quotes are written as \<open>CHR 34\<close>.\<close>

definition quoted :: "string \<Rightarrow> string" where
  "quoted s = [char_of (34::nat)] @ s @ [char_of (34::nat)]"

definition pushSubscriptionParams :: "pushSubscribeReq
    \<Rightarrow> string + string \<times> string option \<times> string option \<times> string" where
  "pushSubscriptionParams req =
     (if ps_Kind req = ''fcm'' then
        (if ps_Token req = [] then Inl (''token is required for kind='' @ quoted ''fcm'')
         else if length (ps_Token req) > 4096 then Inl ''token is too large''
         else if ps_P256dh req \<noteq> [] \<or> ps_Auth req \<noteq> [] then
           Inl (''kind='' @ quoted ''fcm'' @ '' must not carry p256dh or auth: they are Web Push key material and FCM has no use for them'')
         else if ps_Endpoint req \<noteq> [] then
           Inl (''kind='' @ quoted ''fcm'' @ '' carries the registration token in '' @ quoted ''token'' @ '', not '' @ quoted ''endpoint'')
         else Inr (ps_Token req, None, None, ''fcm''))
      else if ps_Kind req = [] \<or> ps_Kind req = ''webpush'' then
        (if ps_Endpoint req = [] \<or> ps_P256dh req = [] \<or> ps_Auth req = [] then
           Inl ''endpoint, p256dh, and auth are required''
         else if length (ps_Endpoint req) > 2048 \<or> length (ps_P256dh req) > 512 \<or> length (ps_Auth req) > 512 then
           Inl ''push subscription fields too large''
         else if ps_Token req \<noteq> [] then Inl (''token is only valid with kind='' @ quoted ''fcm'')
         else Inr (ps_Endpoint req, Some (ps_P256dh req), Some (ps_Auth req), ''webpush''))
      else Inl (''kind must be '' @ quoted ''webpush'' @ '' or '' @ quoted ''fcm''))"

definition handlePushSubscribe :: "request \<Rightarrow> uuid \<Rightarrow> string + pushSubscribeReq \<Rightarrow> string handler" where
  "handlePushSubscribe rq i body = decoded body (\<lambda>req.
     case pushSubscriptionParams req of Inl msg \<Rightarrow> fail (BadRequest msg)
     | Inr (endpoint, p256dh, auth, kind) \<Rightarrow>
         call (UpsertPushSubscription (rq_now rq) i (rq_user rq) (Some (rq_device rq)) endpoint p256dh auth kind)
           (\<lambda>_. respond 201 ''subscribed''))"

definition handlePushUnsubscribe :: "request \<Rightarrow> string + pushSubscribeReq \<Rightarrow> string handler" where
  "handlePushUnsubscribe rq body = decoded body (\<lambda>req.
     let target = (if ps_Endpoint req = [] then ps_Token req else ps_Endpoint req) in
     if target = [] then fail (BadRequest ''endpoint or token is required'')
     else call (DeletePushSubscription target (rq_user rq)) (\<lambda>_. respond 200 ''unsubscribed''))"

section \<open>push.go\<close>

record push_config =
  push_web :: bool
  push_fcm :: bool

datatype push_outcome = PushSent | PushGone | PushFailed

definition deliverable :: "push_config \<Rightarrow> PushSubscription list \<Rightarrow> PushSubscription list" where
  "deliverable cfg subs = (if push_web cfg \<and> push_fcm cfg then subs
     else filter (\<lambda>p. if Push_Kind p = ''fcm'' then push_fcm cfg else push_web cfg) subs)"

text \<open>One delivery; a subscription reported dead is pruned, best effort.\<close>

definition sendPush :: "(PushSubscription \<Rightarrow> push_outcome) \<Rightarrow> PushSubscription \<Rightarrow> bool q" where
  "sendPush outcome p = (case outcome p of
      PushSent \<Rightarrow> ret True
    | PushFailed \<Rightarrow> ret False
    | PushGone \<Rightarrow> run (DeletePushSubscriptionByID (Push_ID p)) (ret False))"

fun fanOutPush :: "(PushSubscription \<Rightarrow> push_outcome) \<Rightarrow> PushSubscription list \<Rightarrow> (nat \<times> nat) q" where
  "fanOutPush outcome [] = ret (0, 0)"
| "fanOutPush outcome (p # ps) = bindm (sendPush outcome p) (\<lambda>ok.
     bindm (fanOutPush outcome ps) (\<lambda>(sent, failed).
     ret (if ok then (sent + 1, failed) else (sent, failed + 1))))"

definition maxNotifyBytes :: nat where "maxNotifyBytes = 3072"
definition maxPushPlaintextBytes :: nat where "maxPushPlaintextBytes = 3993"

definition handleNotify :: "push_config \<Rightarrow> (PushSubscription \<Rightarrow> push_outcome) \<Rightarrow> string + string
    \<Rightarrow> CircleMember \<Rightarrow> (nat \<times> nat) handler" where
  "handleNotify cfg outcome body m =
     (if \<not> (push_web cfg \<or> push_fcm cfg) then fail (ServiceUnavailable ''push is not configured'')
      else decoded body (\<lambda>payloadEnc.
        blob ''payload_enc'' payloadEnc maxNotifyBytes (\<lambda>_.
        if length payloadEnc > maxPushPlaintextBytes
        then fail (BadRequest ''payload_enc exceeds the web push payload limit'')
        else call (ListCirclePushSubscriptions (Member_CircleID m) (Member_UserID m)) (\<lambda>subs.
          call (fanOutPush outcome (deliverable cfg subs)) (respond 200)))))"

section \<open>share.go\<close>

definition minShareTTL :: duration where "minShareTTL = 60 * Second"
definition maxShareTTL :: duration where "maxShareTTL = 60 * Minute"
definition defaultShareTTL :: duration where "defaultShareTTL = 15 * Minute"

definition clampShareTTL :: "int \<Rightarrow> duration" where
  "clampShareTTL seconds =
     (if seconds \<le> 0 then defaultShareTTL
      else if seconds < minShareTTL div Second then minShareTTL
      else if seconds > maxShareTTL div Second then maxShareTTL
      else i64 (seconds * Second))"

definition shareLive :: "ShareSession \<Rightarrow> gotime \<Rightarrow> bool" where
  "shareLive s now \<longleftrightarrow> Share_RevokedAt s = None \<and> ns (Share_ExpiresAt s) > now"

definition shareGoneMsg :: string where "shareGoneMsg = ''this share link is no longer live''"

definition handleCreateShare :: "request \<Rightarrow> uuid \<Rightarrow> (string + int) option \<Rightarrow> (uuid \<times> sqltime) handler" where
  "handleCreateShare rq i body =
     (case (case body of None \<Rightarrow> Inr 0 | Some b \<Rightarrow> b) of Inl msg \<Rightarrow> fail (BadRequest msg)
      | Inr ttl \<Rightarrow> call (CreateShareSession (rq_now rq) i (rq_user rq) (rq_now rq + clampShareTTL ttl)) (\<lambda>sess.
          respond 201 (Share_ID sess, Share_ExpiresAt sess)))"

record shareSessionDTO =
  sh_ID :: uuid
  sh_CreatedAt :: sqltime
  sh_ExpiresAt :: sqltime
  sh_ViewerBound :: bool
  sh_Revoked :: bool

definition handleListShares :: "request \<Rightarrow> shareSessionDTO list handler" where
  "handleListShares rq = call (ListShareSessionsForUser (rq_now rq) (rq_user rq)) (\<lambda>rows.
     respond 200 (map (\<lambda>s. \<lparr>sh_ID = Share_ID s, sh_CreatedAt = Share_CreatedAt s,
       sh_ExpiresAt = Share_ExpiresAt s, sh_ViewerBound = (Share_ViewerBoundAt s \<noteq> None),
       sh_Revoked = (Share_RevokedAt s \<noteq> None)\<rparr>) rows))"

definition share_not_found :: http_err where "share_not_found = NotFound ''share link not found''"

definition handleRevokeShare :: "request \<Rightarrow> uuid option \<Rightarrow> string handler" where
  "handleRevokeShare rq shareID = (case shareID of None \<Rightarrow> fail share_not_found
     | Some i \<Rightarrow> call_or (RevokeShareSession (rq_now rq) i (rq_user rq)) share_not_found (\<lambda>_.
         respond 200 ''revoked''))"

definition loadOwnedShare :: "request \<Rightarrow> uuid option \<Rightarrow> (ShareSession \<Rightarrow> 'b handler) \<Rightarrow> 'b handler" where
  "loadOwnedShare rq shareID k = (case shareID of None \<Rightarrow> fail share_not_found
     | Some i \<Rightarrow> call_or (GetShareSessionForOwner i (rq_user rq)) share_not_found (\<lambda>sess.
         if \<not> shareLive sess (rq_now rq) then fail (Gone shareGoneMsg) else k sess))"

record sharePingReq =
  sp_Nonce :: string
  sp_Ciphertext :: string
  sp_CapturedAt :: "gotime option"

definition handleSharePing :: "request \<Rightarrow> uuid option \<Rightarrow> string + sharePingReq \<Rightarrow> string handler" where
  "handleSharePing rq shareID body = loadOwnedShare rq shareID (\<lambda>sess. decoded body (\<lambda>req.
     blob ''nonce'' (sp_Nonce req) maxNonceBytes (\<lambda>nonce.
     blob ''ciphertext'' (sp_Ciphertext req) maxBlobBytes (\<lambda>ct.
     case sp_CapturedAt req of None \<Rightarrow> fail (BadRequest ''captured_at must be RFC3339'')
     | Some captured \<Rightarrow>
         if captured < rq_now rq - maxShareTTL \<or> captured > rq_now rq + 5 * Minute
         then fail (BadRequest ''captured_at outside allowed window'')
         else call (UpsertSharePosition (rq_now rq) (Share_ID sess) nonce ct captured) (\<lambda>_. respond 200 ''ok'')))))"

text \<open>
  The viewer's request: \<open>cookie\<close> is the value of this link's cookie, \<open>token\<close> what
  \<^verbatim>\<open>GenerateToken\<close> returns if it is called. The first component of the continuation's argument
  is the token set in a new cookie.
\<close>

definition HashTokenBytes :: "Service \<Rightarrow> string \<Rightarrow> bytes" where
  "HashTokenBytes s tok = svc_hmac s tok"

definition viewer_check :: "Server \<Rightarrow> string option \<Rightarrow> ShareSession \<Rightarrow> (string option \<times> ShareSession \<Rightarrow> 'b handler)
    \<Rightarrow> 'b handler" where
  "viewer_check srv cookie sess k = (case cookie of
      None \<Rightarrow> fail (Forbidden ''this link is already open on another device'')
    | Some c \<Rightarrow> if Share_ViewerTokenHash sess \<noteq> Some (HashTokenBytes (srv_auth srv) c)
        then fail (Forbidden ''this link is already open on another device'')
        else k (None, sess))"

definition bindShareViewer :: "Server \<Rightarrow> gotime \<Rightarrow> string option \<Rightarrow> string option \<Rightarrow> ShareSession
    \<Rightarrow> (string option \<times> ShareSession \<Rightarrow> 'b handler) \<Rightarrow> 'b handler" where
  "bindShareViewer srv now token cookie sess k =
     (if Share_ViewerTokenHash sess = None
      then case token of None \<Rightarrow> fail Internal
        | Some t \<Rightarrow> tryq (on_db (BindShareViewer now (Share_ID sess) (HashTokenBytes (srv_auth srv) t)))
            (\<lambda>e. if \<not> IsNotFound e then fail Internal
               else call_or (GetShareSession (Share_ID sess)) (Gone shareGoneMsg) (\<lambda>reloaded.
                 viewer_check srv cookie reloaded k))
            (\<lambda>bound. k (Some t, bound))
      else viewer_check srv cookie sess k)"

record shareView =
  view_ExpiresAt :: sqltime
  view_Position :: "(string \<times> string \<times> sqltime) option"
  view_SetCookie :: "string option"

definition handleGetShare :: "Server \<Rightarrow> gotime \<Rightarrow> string option \<Rightarrow> string option \<Rightarrow> uuid option \<Rightarrow> shareView handler" where
  "handleGetShare srv now token cookie shareID = (case shareID of None \<Rightarrow> fail share_not_found
     | Some i \<Rightarrow> call_or (GetShareSession i) share_not_found (\<lambda>sess.
         if \<not> shareLive sess now then fail (Gone shareGoneMsg)
         else bindShareViewer srv now token cookie sess (\<lambda>(setCookie, sess').
           tryq (on_db (GetSharePosition (Share_ID sess')))
             (\<lambda>e. if \<not> IsNotFound e then fail Internal
                else respond 200 \<lparr>view_ExpiresAt = Share_ExpiresAt sess', view_Position = None,
                       view_SetCookie = setCookie\<rparr>)
             (\<lambda>pos. respond 200 \<lparr>view_ExpiresAt = Share_ExpiresAt sess',
                view_Position = Some (encodeBlob (Position_Nonce pos), encodeBlob (Position_Ciphertext pos),
                  Position_CapturedAt pos), view_SetCookie = setCookie\<rparr>))))"

section \<open>ws.go\<close>

text \<open>
  A WebSocket connection up to its registration, with the answer of the per-IP limiter and the
  outcome of the upgrade (\<open>Some st\<close>: refused with that status) as arguments, and its end. \<open>k\<close> is the handle of the new client.
  The three sources of the token are the header, the cookie and the query parameter.
\<close>

definition release_on :: "uuid \<Rightarrow> (http_err + nat \<times> 'b) \<times> world \<Rightarrow> (http_err + nat \<times> 'b) \<times> world" where
  "release_on u = (\<lambda>(r, w). (r, case r of Inl _ \<Rightarrow> w\<lparr>w_hub := Release u (w_hub w)\<rparr> | Inr _ \<Rightarrow> w))"

definition wsSendBuffer :: int where "wsSendBuffer = 128"

definition ws_subscribe :: "gotime \<Rightarrow> cid \<Rightarrow> nat option \<Rightarrow> uuid \<Rightarrow> uuid \<Rightarrow> uuid list handler" where
  "ws_subscribe now k refused userID deviceID = call (ListCirclesForUser userID) (\<lambda>rows.
     let circleIDs = map (\<lambda>(c, _). Circle_ID c) rows in
     case refused of Some st \<Rightarrow> fail (UpgradeRefused st)
     | None \<Rightarrow> hub_do (hub_step (OpRegister k userID circleIDs wsSendBuffer))
       (run (on_db (TouchDevice now deviceID)) (respond 101 circleIDs)))"

definition handleRealtime_open :: "Server \<Rightarrow> gotime \<Rightarrow> bool \<Rightarrow> string \<Rightarrow> string option \<Rightarrow> string \<Rightarrow> cid \<Rightarrow> nat option
    \<Rightarrow> uuid list handler" where
  "handleRealtime_open srv now allowed header cookie param k refused =
     (if \<not> allowed then fail (TooManyRequests ''too many connection attempts'')
      else let t1 = BearerToken (srv_auth srv) header;
               t2 = (if t1 = [] then (case cookie of None \<Rightarrow> [] | Some c \<Rightarrow> c) else t1);
               token = (if t2 = [] then param else t2) in
        tryq (on_db (Resolve (srv_auth srv) now token)) (\<lambda>_. fail (Unauthorized ''authentication required''))
          (\<lambda>(userID, deviceID, _). \<lambda>w. case Admit userID (w_hub w) of
              (False, h) \<Rightarrow> fail (ServiceUnavailable ''connection limit reached'') (w\<lparr>w_hub := h\<rparr>)
            | (True, h) \<Rightarrow> release_on userID (ws_subscribe now k refused userID deviceID (w\<lparr>w_hub := h\<rparr>))))"

definition handleRealtime_close :: "uuid \<Rightarrow> cid \<Rightarrow> world \<Rightarrow> world" where
  "handleRealtime_close userID k w = w\<lparr>w_hub := Release userID (hub_step (OpUnregister k) (w_hub w))\<rparr>"

section \<open>Invariants of the tables\<close>

text \<open>The interface of the account handlers to the store: besides accounts, push subscriptions and share links.\<close>

locale account_invariant = identity_invariant I for I +
  assumes UpsertPushSubscription_inv [pres_rules]: "pres I (UpsertPushSubscription now i u dv ep pk au kd)"
    and DeletePushSubscription_inv [pres_rules]: "pres I (DeletePushSubscription ep u)"
    and DeletePushSubscriptionByID_inv [pres_rules]: "pres I (DeletePushSubscriptionByID i)"
    and CreateShareSession_inv [pres_rules]: "pres I (CreateShareSession now i u ex)"
    and RevokeShareSession_inv [pres_rules]: "pres I (RevokeShareSession now i u)"
    and BindShareViewer_inv [pres_rules]: "pres I (BindShareViewer now i h)"
    and UpsertSharePosition_inv [pres_rules]: "pres I (UpsertSharePosition now i nn ct cap)"
begin

lemma auth_call_inv [pres_rules]:
  "pres I m \<Longrightarrow> (\<And>x. pres (world_inv I) (k x)) \<Longrightarrow> pres (world_inv I) (auth_call m k)"
  unfolding auth_call_def by (intro pres_rules)

lemma optionalPubkey_inv [pres_rules]:
  "(\<And>x. pres (world_inv I) (k x)) \<Longrightarrow> pres (world_inv I) (optionalPubkey b k)"
  unfolding optionalPubkey_def by (intro pres_rules)

lemma auth_handlers_inv [pres_rules]:
  "pres (world_inv I) (handleRegister srv now ip ent b1)" "pres (world_inv I) (handleLogin srv now ip ent b2)"
  "pres (world_inv I) (handleRefresh srv now ip ent b3 c)" "pres (world_inv I) (handleLogout srv rq)"
  "pres (world_inv I) (handleMe rq)" "pres (world_inv I) (handleListDevices rq)"
  "pres (world_inv I) (handleRevokeDevice srv rq v)" "pres (world_inv I) (handleListSessions rq)"
  "pres (world_inv I) (handleListAudit rq)"
  unfolding handleRegister_def handleLogin_def handleRefresh_def handleLogout_def handleMe_def
    handleListDevices_def handleRevokeDevice_def handleListSessions_def handleListAudit_def Let_def
  by (intro pres_rules)+

lemma fanOutPush_inv [pres_rules]: "pres I (fanOutPush outcome ps)"
proof (induction ps)
  case (Cons p ps)
  have "pres I (sendPush outcome p)"
    unfolding sendPush_def by (cases "outcome p") (simp_all add: pres_rules)
  then show ?case unfolding fanOutPush.simps by (intro pres_rules Cons.IH)
qed (simp add: pres_rules)

lemma misc_handlers_inv [pres_rules]:
  "pres (world_inv I) (handleVersionLatest p)" "pres (world_inv I) (handlePushSubscribe rq i b)"
  "pres (world_inv I) (handlePushUnsubscribe rq b)" "pres (world_inv I) (handleNotify cfg outcome b6 m)"
  unfolding handleVersionLatest_def handlePushSubscribe_def handlePushUnsubscribe_def handleNotify_def Let_def
  by (intro pres_rules)+

lemma viewer_check_inv [pres_rules]:
  "(\<And>x. pres (world_inv I) (k x)) \<Longrightarrow> pres (world_inv I) (viewer_check srv c s k)"
  unfolding viewer_check_def by (intro pres_rules)

lemma bindShareViewer_inv [pres_rules]:
  "(\<And>x. pres (world_inv I) (k x)) \<Longrightarrow> pres (world_inv I) (bindShareViewer srv now t c s k)"
  unfolding bindShareViewer_def by (intro pres_rules)

lemma loadOwnedShare_inv [pres_rules]:
  "(\<And>x. pres (world_inv I) (k x)) \<Longrightarrow> pres (world_inv I) (loadOwnedShare rq i k)"
  unfolding loadOwnedShare_def by (intro pres_rules)

lemma share_handlers_inv [pres_rules]:
  "pres (world_inv I) (handleCreateShare rq i b)" "pres (world_inv I) (handleListShares rq)"
  "pres (world_inv I) (handleRevokeShare rq j)" "pres (world_inv I) (handleSharePing rq j b2)"
  "pres (world_inv I) (handleGetShare srv now t c j)"
  unfolding handleCreateShare_def handleListShares_def handleRevokeShare_def handleSharePing_def handleGetShare_def
  by (intro pres_rules)+

lemma ws_subscribe_inv: "pres (world_inv I) (ws_subscribe now k r u v)"
  unfolding ws_subscribe_def Let_def by (intro pres_rules hub_do_inv hub_step_inv)

lemma handleRealtime_open_inv [pres_rules]: "pres (world_inv I) (handleRealtime_open srv now a hdr c p k r)"
proof -
  have admit: "pres (world_inv I) (\<lambda>w. case Admit u (w_hub w) of
       (False, h) \<Rightarrow> fail (ServiceUnavailable ''connection limit reached'') (w\<lparr>w_hub := h\<rparr>)
     | (True, h) \<Rightarrow> release_on u (ws_subscribe now k r u v (w\<lparr>w_hub := h\<rparr>)))" for u v
  proof (rule presI)
    fix w assume w: "world_inv I w"
    obtain b h where a: "Admit u (w_hub w) = (b, h)" by (cases "Admit u (w_hub w)")
    have h: "world_inv I (w\<lparr>w_hub := h\<rparr>)"
      using w Admit_inv [of "w_hub w" u] a by (simp add: world_inv_def)
    obtain res w' where s: "ws_subscribe now k r u v (w\<lparr>w_hub := h\<rparr>) = (res, w')"
      by (cases "ws_subscribe now k r u v (w\<lparr>w_hub := h\<rparr>)")
    have w': "world_inv I w'" using presD2 [OF ws_subscribe_inv s h] .
    show "world_inv I (snd (case Admit u (w_hub w) of
       (False, h) \<Rightarrow> fail (ServiceUnavailable ''connection limit reached'') (w\<lparr>w_hub := h\<rparr>)
     | (True, h) \<Rightarrow> release_on u (ws_subscribe now k r u v (w\<lparr>w_hub := h\<rparr>))))"
      using h w' Release_inv [of "w_hub w'" u] a s
      by (cases b) (auto simp: fail_def release_on_def world_inv_def split: sum.split)
  qed
  show ?thesis unfolding handleRealtime_open_def Let_def by (intro pres_rules admit)
qed

lemma handleRealtime_close_inv: "world_inv I w \<Longrightarrow> world_inv I (handleRealtime_close u k w)"
  using hub_step_inv [of "w_hub w" "OpUnregister k"] Release_inv
  by (simp add: handleRealtime_close_def world_inv_def del: hub_step.simps)

end

interpretation schema_account: account_invariant db_ok
  by unfold_locales (rule pres_rules)+

end
