(* ===== verification/Aul_Retention.thy ===== *)
theory Aul_Retention
  imports Aul_Http
begin

text \<open>
  The maintenance worker of \<^verbatim>\<open>server/internal/retention/retention.go\<close> on the SQLite backend: one
  pass is the sequence of statements below, each best effort (an error is logged and the next
  step runs). The pass on Postgres is in \<open>Aul_Pg_Retention\<close>. \<open>now\<close> is the worker's clock; a day
  is 24 hours.
\<close>

record Worker =
  wk_maxRetentionDays :: int
  wk_pingRetentionHours :: int
  wk_ipLogDays :: int

definition defaultPingRetentionHours :: int where "defaultPingRetentionHours = 6"
definition shareGraceHours :: int where "shareGraceHours = 24"

definition New :: "int \<Rightarrow> int \<Rightarrow> int \<Rightarrow> Worker" where
  "New maxDays pingHours ipDays = \<lparr>wk_maxRetentionDays = maxDays,
     wk_pingRetentionHours = (if pingHours \<le> 0 then defaultPingRetentionHours else pingHours),
     wk_ipLogDays = ipDays\<rparr>"

fun delete_expired_for :: "gotime \<Rightarrow> (uuid \<times> int) list \<Rightarrow> nat q" where
  "delete_expired_for now [] = ret 0"
| "delete_expired_for now ((c, days) # cs) = tryq (DeleteExpiredPingsForCircle now c days)
     (\<lambda>_. delete_expired_for now cs)
     (\<lambda>n. bindm (delete_expired_for now cs) (\<lambda>total. ret (n + total)))"

definition deleteExpiredPings :: "gotime \<Rightarrow> nat q" where
  "deleteExpiredPings now = bindm AllCircleRetention (delete_expired_for now)"

definition RunOnce :: "Worker \<Rightarrow> gotime \<Rightarrow> unit q" where
  "RunOnce w now =
     run (PruneAllPingsBefore (now - wk_maxRetentionDays w * Day)) (
     run (PruneStalePings now (wk_pingRetentionHours w)) (
     run (deleteExpiredPings now) (
     run (PruneLoginAttempts now 1) (
     run (PruneAuditIPs now (wk_ipLogDays w)) (
     run (DeleteExpiredSessions now) (
     run (PruneKeyEnvelopes now) (
     run (PruneResolvedSOS (now - wk_maxRetentionDays w * Day)) (
     run (PrunePlaceTombstones (now - wk_maxRetentionDays w * Day)) (
     run (PruneShareSessions now shareGraceHours)
     (ret ()))))))))))"

section \<open>Lemmas\<close>

lemma delete_expired_for_ok [pres_rules]: "pres db_ok (delete_expired_for now cs)"
proof (induction cs)
  case (Cons c cs)
  obtain i n where "c = (i, n)" by (cases c)
  then show ?case by (simp add: pres_rules Cons.IH)
qed (simp add: pres_rules)

lemma deleteExpiredPings_ok [pres_rules]: "pres db_ok (deleteExpiredPings now)"
  unfolding deleteExpiredPings_def by (intro pres_rules)

lemma RunOnce_ok [pres_rules]: "pres db_ok (RunOnce w now)"
  unfolding RunOnce_def by (intro pres_rules)

text \<open>Steps after the ping steps do not touch the pings, whatever faults occur.\<close>

definition pings_are :: "Ping list \<Rightarrow> db \<Rightarrow> bool" where
  "pings_are ps d \<longleftrightarrow> pings d = ps"

lemma pings_are_tables [simp]: "tables_only (pings_are ps)"
  by (simp add: tables_only_def pings_are_def)

lemma later_steps_pings:
  "pres (pings_are ps) (PruneLoginAttempts now n)" "pres (pings_are ps) (PruneAuditIPs now n)"
  "pres (pings_are ps) (DeleteExpiredSessions now)" "pres (pings_are ps) (PruneKeyEnvelopes now)"
  "pres (pings_are ps) (PruneResolvedSOS t)" "pres (pings_are ps) (PrunePlaceTombstones t)"
  "pres (pings_are ps) (PruneShareSessions now n)"
  unfolding PruneLoginAttempts_def PruneAuditIPs_def DeleteExpiredSessions_def PruneKeyEnvelopes_def
    PruneResolvedSOS_def PrunePlaceTombstones_def PruneShareSessions_def Let_def
  by (rule pres_exec_rows; simp add: pings_are_def)+

definition ping_steps :: "Worker \<Rightarrow> gotime \<Rightarrow> db \<Rightarrow> db" where
  "ping_steps w now d = snd (deleteExpiredPings now (snd (PruneStalePings now (wk_pingRetentionHours w)
     (snd (PruneAllPingsBefore (now - wk_maxRetentionDays w * Day) d)))))"

lemma RunOnce_pings: "pings (snd (RunOnce w now d)) = pings (ping_steps w now d)"
proof -
  let ?later = "run (PruneLoginAttempts now 1) (
     run (PruneAuditIPs now (wk_ipLogDays w)) (
     run (DeleteExpiredSessions now) (
     run (PruneKeyEnvelopes now) (
     run (PruneResolvedSOS (now - wk_maxRetentionDays w * Day)) (
     run (PrunePlaceTombstones (now - wk_maxRetentionDays w * Day)) (
     run (PruneShareSessions now shareGraceHours) (ret ())))))))"
  have "pres (pings_are ps) ?later" for ps
    by (intro pres_rules later_steps_pings)
  then have "pings_are (pings (ping_steps w now d)) (snd (?later (ping_steps w now d)))"
    by (rule presD) (simp add: pings_are_def)
  then show ?thesis by (simp add: pings_are_def RunOnce_def run_def ping_steps_def)
qed

lemma latest_delete_expired_for: "latest_rows (snd (delete_expired_for now cs d)) c = latest_rows d c"
proof (induction cs arbitrary: d)
  case Nil
  then show ?case by (simp add: ret_def)
next
  case (Cons x cs)
  obtain i n where x: "x = (i, n)" by (cases x)
  have one: "latest_rows (snd (DeleteExpiredPingsForCircle now i n d)) c = latest_rows d c"
    unfolding DeleteExpiredPingsForCircle_def by (rule delete_pings_latest) simp
  obtain r d1 where r: "DeleteExpiredPingsForCircle now i n d = (r, d1)" by (cases "DeleteExpiredPingsForCircle now i n d")
  obtain r2 d2 where r2: "delete_expired_for now cs d1 = (r2, d2)" by (cases "delete_expired_for now cs d1")
  show ?case using one Cons.IH [of d1] r r2 x
    by (cases r; cases r2) (simp_all add: tryq_def bindm_def ret_def)
qed

lemma latest_deleteExpiredPings: "latest_rows (snd (deleteExpiredPings now d)) c = latest_rows d c"
proof -
  obtain r d1 where q: "AllCircleRetention d = (r, d1)" by (cases "AllCircleRetention d")
  have "latest_rows d1 c = latest_rows d c"
    using query_frame [OF q [unfolded AllCircleRetention_def]] by auto
  then show ?thesis using q by (cases r) (simp_all add: deleteExpiredPings_def bindm_def latest_delete_expired_for)
qed

lemma latest_PruneStale: "latest_rows (snd (PruneStalePings now h d)) c = latest_rows d c"
  unfolding PruneStalePings_def by (rule delete_pings_latest) simp

text \<open>
  Deleting everything before a horizon drops a device from the latest rows exactly when its
  newest fix is before the horizon.
\<close>

lemma latest_horizon:
  "latest_rows (d\<lparr>pings := delete_where (\<lambda>p. Ping_CapturedAt p < t) (pings d)\<rparr>) c =
   filter (\<lambda>p. Ping_CapturedAt p \<ge> t) (latest_rows d c)"
proof -
  let ?ps = "filter (\<lambda>p. Ping_CircleID p = c) (pings d)"
  let ?P = "\<lambda>p. Ping_CapturedAt p < t"
  let ?key = "\<lambda>p. - Ping_CapturedAt p"
  let ?of = "\<lambda>v. filter (\<lambda>p. Ping_DeviceID p = v) ?ps"
  have split: "newest_first v (delete_where ?P ?ps) = delete_where ?P (newest_first v ?ps)" for v
    by (simp add: newest_first_def delete_where_filter sort_key_delete_where flip: delete_where_filter)
  have head: "(hd (newest_first v (delete_where ?P ?ps)) = hd (newest_first v ?ps) \<longleftrightarrow> True) \<and>
      v \<in> Ping_DeviceID ` set (delete_where ?P ?ps)"
    if "v \<in> Ping_DeviceID ` set ?ps" "\<not> ?P (hd (newest_first v ?ps))" for v
  proof -
    have ne: "?of v \<noteq> []" using that(1) by (auto simp: filter_empty_conv)
    then obtain a r where ar: "newest_first v ?ps = a # r"
      by (cases "newest_first v ?ps") (auto simp: newest_first_def)
    have "a \<in> set (?of v)" using hd_sort_key_least(1) [OF ne, where f = ?key] ar by (simp add: newest_first_def)
    then show ?thesis using that(2) ar split [of v] by auto
  qed
  have gone: "v \<notin> Ping_DeviceID ` set (delete_where ?P ?ps)"
    if "v \<in> Ping_DeviceID ` set ?ps" "?P (hd (newest_first v ?ps))" for v
  proof -
    have ne: "?of v \<noteq> []" using that(1) by (auto simp: filter_empty_conv)
    have "Ping_CapturedAt q < t" if "q \<in> set (?of v)" for q
      using hd_sort_key_least(2) [OF ne that, where f = ?key] \<open>?P (hd (newest_first v ?ps))\<close>
      by (simp add: newest_first_def)
    then show ?thesis by auto
  qed
  let ?vs = "sort (remdups (map Ping_DeviceID ?ps))"
  let ?keep = "\<lambda>v. \<not> ?P (hd (newest_first v ?ps))"
  have set_eq: "Ping_DeviceID ` set (delete_where ?P ?ps) = {v \<in> Ping_DeviceID ` set ?ps. ?keep v}"
    using head gone by auto
  have "sort (remdups (map Ping_DeviceID (delete_where ?P ?ps))) = filter ?keep ?vs"
  proof (rule sorted_distinct_set_unique)
    show "set (sort (remdups (map Ping_DeviceID (delete_where ?P ?ps)))) = set (filter ?keep ?vs)"
      using set_eq by (auto simp: set_eq_iff)
  qed (simp_all add: sorted_wrt_filter)
  then have "latest_per_device (delete_where ?P ?ps) =
      map (\<lambda>v. hd (newest_first v (delete_where ?P ?ps))) (filter ?keep ?vs)"
    by (simp add: latest_per_device_def)
  also have "\<dots> = map (\<lambda>v. hd (newest_first v ?ps)) (filter ?keep ?vs)"
    using head by (intro map_cong) auto
  also have "\<dots> = filter (\<lambda>p. Ping_CapturedAt p \<ge> t) (latest_per_device ?ps)"
    by (simp add: latest_per_device_def filter_map comp_def not_less)
  finally show ?thesis by (simp add: latest_rows_def delete_where_filter)
qed

lemma ping_steps_latest:
  assumes "faults d = []"
  shows "latest_rows (ping_steps w now d) c =
    filter (\<lambda>p. Ping_CapturedAt p \<ge> tv (now - wk_maxRetentionDays w * Day)) (latest_rows d c)"
  using assms
  by (simp add: ping_steps_def latest_deleteExpiredPings latest_PruneStale PruneAllPingsBefore_def
      delete_pings_def latest_horizon)

subsection \<open>What survives a pass\<close>

lemma superseded_mono: "superseded ps p \<Longrightarrow> set ps \<subseteq> set qs \<Longrightarrow> superseded qs p"
  by (auto simp: superseded_def)

lemma delete_pings_run:
  "faults d = [] \<Longrightarrow> delete_pings P d = (Inr (count_where (P (pings d)) (pings d)),
     d\<lparr>pings := delete_where (P (pings d)) (pings d)\<rparr>)"
  by (simp add: delete_pings_def)

lemma delete_expired_for_run:
  assumes "faults d = []"
  shows "faults (snd (delete_expired_for now cs d)) = [] \<and>
    set (pings (snd (delete_expired_for now cs d))) \<subseteq> set (pings d) \<and>
    (\<forall>p\<in>set (pings (snd (delete_expired_for now cs d))). \<forall>(c, days)\<in>set cs.
       Ping_CircleID p = c \<and> Ping_CapturedAt p < tv (now - days * Day) \<longrightarrow>
       \<not> superseded (pings (snd (delete_expired_for now cs d))) p)"
  using assms
proof (induction cs arbitrary: d)
  case Nil
  then show ?case by (simp add: ret_def)
next
  case (Cons x cs)
  obtain i n where x: "x = (i, n)" by (cases x)
  let ?P = "\<lambda>ps p. Ping_CircleID p = i \<and> Ping_CapturedAt p < tv (now - n * Day) \<and> superseded ps p"
  let ?d1 = "d\<lparr>pings := delete_where (?P (pings d)) (pings d)\<rparr>"
  have one: "snd (DeleteExpiredPingsForCircle now i n d) = ?d1" "\<exists>k. fst (DeleteExpiredPingsForCircle now i n d) = Inr k"
    using Cons.prems by (simp_all add: DeleteExpiredPingsForCircle_def delete_pings_run)
  have eq: "snd (delete_expired_for now (x # cs) d) = snd (delete_expired_for now cs ?d1)"
    using one x by (auto simp: tryq_def bindm_def ret_def split: prod.splits sum.splits)
  note IH = Cons.IH [of ?d1]
  have d1: "faults ?d1 = []" using Cons.prems by simp
  let ?f = "pings (snd (delete_expired_for now cs ?d1))"
  have sub: "set ?f \<subseteq> set (pings d) - {p \<in> set (pings d). ?P (pings d) p}"
    using IH d1 by auto
  show ?case unfolding eq
  proof (intro conjI)
    show "\<forall>p\<in>set ?f. \<forall>(c, days)\<in>set (x # cs). Ping_CircleID p = c \<and> Ping_CapturedAt p < tv (now - days * Day) \<longrightarrow>
        \<not> superseded ?f p"
      using IH d1 x sub superseded_mono [of ?f _ "pings d"] by auto
  qed (use IH d1 sub in auto)
qed

lemma ping_steps_survivors:
  assumes d: "faults d = []" and p: "p \<in> set (pings (ping_steps w now d))"
  shows "p \<in> set (pings d)" and "Ping_CapturedAt p \<ge> tv (now - wk_maxRetentionDays w * Day)"
    and "Ping_CapturedAt p < tv (now - i64 (wk_pingRetentionHours w * Hour)) \<or>
      (\<exists>c\<in>set (circles d). Circle_ID c = Ping_CircleID p \<and>
         Ping_CapturedAt p < tv (now - Circle_RetentionDays c * Day)) \<Longrightarrow>
      \<not> superseded (pings (ping_steps w now d)) p"
proof -
  let ?h = "tv (now - wk_maxRetentionDays w * Day)"
  let ?d1 = "d\<lparr>pings := delete_where (\<lambda>p. Ping_CapturedAt p < ?h) (pings d)\<rparr>"
  let ?stale = "\<lambda>ps p. Ping_CapturedAt p < tv (now - i64 (wk_pingRetentionHours w * Hour)) \<and> superseded ps p"
  let ?d2 = "?d1\<lparr>pings := delete_where (?stale (pings ?d1)) (pings ?d1)\<rparr>"
  let ?cs = "map (\<lambda>c. (Circle_ID c, Circle_RetentionDays c)) (circles d)"
  have fin: "ping_steps w now d = snd (delete_expired_for now ?cs ?d2)"
    using d by (simp add: ping_steps_def PruneAllPingsBefore_def PruneStalePings_def delete_pings_run
        deleteExpiredPings_def AllCircleRetention_def bindm_def)
  have f2: "faults ?d2 = []" using d by simp
  note F = delete_expired_for_run [OF f2, of now ?cs, folded fin]
  have p2: "p \<in> set (pings ?d2)" using F p by blast
  then show "p \<in> set (pings d)" and "Ping_CapturedAt p \<ge> ?h" by auto
  assume "Ping_CapturedAt p < tv (now - i64 (wk_pingRetentionHours w * Hour)) \<or>
      (\<exists>c\<in>set (circles d). Circle_ID c = Ping_CircleID p \<and> Ping_CapturedAt p < tv (now - Circle_RetentionDays c * Day))"
  then show "\<not> superseded (pings (ping_steps w now d)) p"
  proof
    assume "Ping_CapturedAt p < tv (now - i64 (wk_pingRetentionHours w * Hour))"
    then have "\<not> superseded (pings ?d1) p" using p2 by auto
    moreover have "set (pings (ping_steps w now d)) \<subseteq> set (pings ?d1)" using F by auto
    ultimately show ?thesis using superseded_mono by blast
  next
    assume "\<exists>c\<in>set (circles d). Circle_ID c = Ping_CircleID p \<and> Ping_CapturedAt p < tv (now - Circle_RetentionDays c * Day)"
    then show ?thesis using F p by auto
  qed
qed

end
