(* ===== verification/Aul_Server.thy ===== *)
theory Aul_Server
  imports Aul_Api_Circles Aul_Api_Feeds Aul_Api_Account Aul_Retention
begin

text \<open>
  The routes of \<^verbatim>\<open>httpapi\<close> put together: which requests reach which handler behind which guard,
  and the steps of the whole server. A step is one request, one step of the hub's loop or of a
  connection, or one maintenance pass. \<open>void\<close> drops the body of a response: the
  theorems here are about the state.
\<close>

definition void :: "'b handler \<Rightarrow> unit handler" where
  "void h = bindm h (\<lambda>(status, _). respond status ())"

text \<open>\<^verbatim>\<open>RequireAuth\<close> in front of a route.\<close>

record credentials =
  cred_header :: string
  cred_cookie :: "string option"
  cred_ip :: string
  cred_now :: gotime

definition with_auth :: "Server \<Rightarrow> credentials \<Rightarrow> (request \<Rightarrow> 'b handler) \<Rightarrow> 'b handler" where
  "with_auth srv c k = tryq (on_db (RequireAuth (srv_auth srv) (cred_now c) (cred_header c) (cred_cookie c)))
     (\<lambda>_. fail (Unauthorized ''authentication required''))
     (\<lambda>(u, v, s). k \<lparr>rq_now = cred_now c, rq_auth = \<lparr>Auth_UserID = u, Auth_DeviceID = v, Auth_SessionID = s\<rparr>,
        rq_ip = cred_ip c\<rparr>)"

text \<open>
  \<^verbatim>\<open>timeout\<close> around the routes of \<^verbatim>\<open>/v1\<close> (\<^verbatim>\<open>http.TimeoutHandler\<close>): when the deadline passes first, the client
  is answered 503 and what the handler answers later is dropped. The handler is not stopped: it
  runs on to its end with a cancelled context, which is a driver that fails some of its later statements.
  The state after the request is therefore the one the handler leaves, whatever the client was told.
\<close>

datatype 'b served = Answered "http_err + 'b" | TimedOut

definition timeout :: "bool \<Rightarrow> (world \<Rightarrow> (http_err + 'b) \<times> world) \<Rightarrow> world \<Rightarrow> 'b served \<times> world" where
  "timeout expired next w = (let (r, w') = next w in (if expired then TimedOut else Answered r, w'))"

section \<open>Routes\<close>

text \<open>The routes below \<^verbatim>\<open>/circles/{circleID}\<close>.\<close>

datatype circle_call =
    CGet | CPatch "string + patchCircleReq" | CDelete | CMembers | CProfile "string + string option"
  | CDevices | CRemoveMember "uuid option" | CLeave | CPrecision "string + string" | CRotateKey
  | CInvites | CCreateInvite uuid "string + createInviteReq" | CRevokeInvite "uuid option"
  | CNotify "string + string" | CGetMutes | CSetMutes "string + mutesDTO" | CLatestPings
  | CPlaces | CCreatePlace uuid "string + placeReq" | CUpdatePlace "uuid option" "string + placeReq"
  | CDeletePlace "uuid option" | CListSOS | CCreateSOS uuid "string + string" | CResolveSOS "uuid option"

record deployment =
  dep_server :: Server
  dep_push :: push_config
  dep_outcome :: "PushSubscription \<Rightarrow> push_outcome"
  dep_worker :: Worker

fun circle_handler :: "deployment \<Rightarrow> request \<Rightarrow> circle_call \<Rightarrow> CircleMember \<Rightarrow> unit handler" where
  "circle_handler dep rq CGet m = void (handleGetCircle m)"
| "circle_handler dep rq (CPatch b) m = void (handlePatchCircle (dep_server dep) b m)"
| "circle_handler dep rq CDelete m = void (handleDeleteCircle m)"
| "circle_handler dep rq CMembers m = void (handleListMembers m)"
| "circle_handler dep rq (CProfile b) m = void (handleSetProfile b m)"
| "circle_handler dep rq CDevices m = void (handleCircleDevices m)"
| "circle_handler dep rq (CRemoveMember t) m = void (handleRemoveMember (dep_server dep) rq t m)"
| "circle_handler dep rq CLeave m = void (handleLeaveCircle (dep_server dep) rq m)"
| "circle_handler dep rq (CPrecision b) m = void (handleSetPrecision b m)"
| "circle_handler dep rq CRotateKey m = void (handleRotateKey (dep_server dep) rq m)"
| "circle_handler dep rq CInvites m = void (handleListInvites rq m)"
| "circle_handler dep rq (CCreateInvite i b) m = void (handleCreateInvite (dep_server dep) rq i b m)"
| "circle_handler dep rq (CRevokeInvite i) m = void (handleRevokeInvite i m)"
| "circle_handler dep rq (CNotify b) m = void (handleNotify (dep_push dep) (dep_outcome dep) b m)"
| "circle_handler dep rq CGetMutes m = void (handleGetMutes m)"
| "circle_handler dep rq (CSetMutes b) m = void (handleSetMutes rq b m)"
| "circle_handler dep rq CLatestPings m = void (handleLatestPings m)"
| "circle_handler dep rq CPlaces m = void (handleListPlaces m)"
| "circle_handler dep rq (CCreatePlace i b) m = void (handleCreatePlace rq i b m)"
| "circle_handler dep rq (CUpdatePlace i b) m = void (handleUpdatePlace rq i b m)"
| "circle_handler dep rq (CDeletePlace i) m = void (handleDeletePlace rq i m)"
| "circle_handler dep rq CListSOS m = void (handleListSOS m)"
| "circle_handler dep rq (CCreateSOS i b) m = void (handleCreateSOS (dep_server dep) rq i b m)"
| "circle_handler dep rq (CResolveSOS i) m = void (handleResolveSOS (dep_server dep) rq i m)"

text \<open>The authenticated routes.\<close>

datatype user_call =
    UCircle "uuid option" circle_call | UListCircles | UCreateCircle uuid "string + createCircleReq"
  | UGetInvite "uuid option" | UAcceptInvite "uuid option" | UPings "nat \<Rightarrow> uuid" "string + pingItem list"
  | UPostEnvelopes "nat \<Rightarrow> uuid" "string + uuid option \<times> keyEnvelopeItem list" | UPendingEnvelopes
  | UConsumeEnvelope "uuid option" | ULogout | UMe | UDevices | URevokeDevice "uuid option" | USessions | UAudit
  | UPushSubscribe uuid "string + pushSubscribeReq" | UPushUnsubscribe "string + pushSubscribeReq"
  | UCreateShare uuid "(string + int) option" | UListShares | URevokeShare "uuid option"
  | USharePing "uuid option" "string + sharePingReq"

fun user_handler :: "deployment \<Rightarrow> user_call \<Rightarrow> request \<Rightarrow> unit handler" where
  "user_handler dep (UCircle c cc) rq = circle_route rq c (circle_handler dep rq cc)"
| "user_handler dep UListCircles rq = void (handleListCircles rq)"
| "user_handler dep (UCreateCircle i b) rq = void (handleCreateCircle (dep_server dep) rq i b)"
| "user_handler dep (UGetInvite i) rq = void (handleGetInvite rq i)"
| "user_handler dep (UAcceptInvite i) rq = void (handleAcceptInvite (dep_server dep) rq i)"
| "user_handler dep (UPings ids b) rq = void (handlePingBatch (dep_server dep) rq ids b)"
| "user_handler dep (UPostEnvelopes ids b) rq = void (handlePostKeyEnvelopes (dep_server dep) rq ids b)"
| "user_handler dep UPendingEnvelopes rq = void (handlePendingKeyEnvelopes rq)"
| "user_handler dep (UConsumeEnvelope i) rq = void (handleConsumeKeyEnvelope rq i)"
| "user_handler dep ULogout rq = void (handleLogout (dep_server dep) rq)"
| "user_handler dep UMe rq = void (handleMe rq)"
| "user_handler dep UDevices rq = void (handleListDevices rq)"
| "user_handler dep (URevokeDevice i) rq = void (handleRevokeDevice (dep_server dep) rq i)"
| "user_handler dep USessions rq = void (handleListSessions rq)"
| "user_handler dep UAudit rq = void (handleListAudit rq)"
| "user_handler dep (UPushSubscribe i b) rq = void (handlePushSubscribe rq i b)"
| "user_handler dep (UPushUnsubscribe b) rq = void (handlePushUnsubscribe rq b)"
| "user_handler dep (UCreateShare i b) rq = void (handleCreateShare rq i b)"
| "user_handler dep UListShares rq = void (handleListShares rq)"
| "user_handler dep (URevokeShare i) rq = void (handleRevokeShare rq i)"
| "user_handler dep (USharePing i b) rq = void (handleSharePing rq i b)"

datatype action =
    AUser credentials user_call
  | ARegister gotime string entropy "string + registerReq"
  | ALogin gotime string entropy "string + loginReq"
  | ARefresh gotime string entropy "(string + string) option" "string option"
  | AGetShare gotime "string option" "string option" "uuid option"
  | AVersion string
  | AConnect gotime bool string "string option" string cid "nat option"
  | ADisconnect uuid cid
  | AHub hub_op
  | ARetention gotime
  | AFaults "bool list"

text \<open>\<open>AFaults\<close> lets the driver fail from then on as the given schedule says.\<close>

fun step :: "deployment \<Rightarrow> action \<Rightarrow> world \<Rightarrow> world" where
  "step dep (AUser c uc) w = snd (with_auth (dep_server dep) c (user_handler dep uc) w)"
| "step dep (ARegister now ip ent b) w = snd (handleRegister (dep_server dep) now ip ent b w)"
| "step dep (ALogin now ip ent b) w = snd (handleLogin (dep_server dep) now ip ent b w)"
| "step dep (ARefresh now ip ent b c) w = snd (handleRefresh (dep_server dep) now ip ent b c w)"
| "step dep (AGetShare now t c i) w = snd (handleGetShare (dep_server dep) now t c i w)"
| "step dep (AVersion p) w = snd (handleVersionLatest p w)"
| "step dep (AConnect now a h c p k r) w = snd (handleRealtime_open (dep_server dep) now a h c p k r w)"
| "step dep (ADisconnect u k) w = handleRealtime_close u k w"
| "step dep (AHub op) w = w\<lparr>w_hub := hub_step op (w_hub w)\<rparr>"
| "step dep (ARetention now) w = snd (on_db (RunOnce (dep_worker dep) now) w)"
| "step dep (AFaults fs) w = w\<lparr>w_db := (w_db w)\<lparr>faults := fs\<rparr>\<rparr>"

definition initial :: world where
  "initial = \<lparr>w_db = empty_db, w_hub = NewHub\<rparr>"

section \<open>Invariants of the tables\<close>

lemma void_ok [pres_rules]: "pres J h \<Longrightarrow> pres J (void h)"
  by (auto simp: void_def pres_def bindm_def respond_def ret_def split: prod.splits sum.splits)

text \<open>
  What is left to show for an invariant of the tables: for the statements named in the two
  interfaces, and for the routes whose effect depends on who the caller is.
\<close>

locale circle_server = account_invariant I + circle_invariant I c for I c
begin

lemma circle_handler_inv:
  assumes "Member_CircleID m = c"
    and "\<And>t. pres (world_inv I) (handleRemoveMember (dep_server dep) rq t m)"
    and "pres (world_inv I) (handleLeaveCircle (dep_server dep) rq m)"
  shows "pres (world_inv I) (circle_handler dep rq cc m)"
  by (cases cc) (simp_all add: pres_rules assms circles_handlers_inv [OF assms(1)] feeds_handlers_inv [OF assms(1)])

end

context account_invariant
begin

lemma user_handler_inv:
  assumes "\<And>c cc. uc = UCircle c cc \<Longrightarrow> pres (world_inv I) (circle_route rq c (circle_handler dep rq cc))"
    and "\<And>i b. uc = UCreateCircle i b \<Longrightarrow> pres (world_inv I) (handleCreateCircle (dep_server dep) rq i b)"
    and "\<And>i. uc = UAcceptInvite i \<Longrightarrow> pres (world_inv I) (handleAcceptInvite (dep_server dep) rq i)"
    and "\<And>ids b. uc = UPings ids b \<Longrightarrow> pres (world_inv I) (handlePingBatch (dep_server dep) rq ids b)"
    and "\<And>ids b. uc = UPostEnvelopes ids b \<Longrightarrow> pres (world_inv I) (handlePostKeyEnvelopes (dep_server dep) rq ids b)"
    and "\<And>i. uc = UConsumeEnvelope i \<Longrightarrow> pres (world_inv I) (handleConsumeKeyEnvelope rq i)"
  shows "pres (world_inv I) (user_handler dep uc rq)"
  using assms by (cases uc) (simp_all add: pres_rules)

lemma with_auth_inv [pres_rules]:
  "(\<And>rq. pres (world_inv I) (k rq)) \<Longrightarrow> pres (world_inv I) (with_auth srv cr k)"
  unfolding with_auth_def by (intro pres_rules) simp

lemma step_inv:
  assumes w: "world_inv I w"
    and user: "\<And>cr uc. a = AUser cr uc \<Longrightarrow> world_inv I (snd (with_auth (dep_server dep) cr (user_handler dep uc) w))"
    and pass: "\<And>now. a = ARetention now \<Longrightarrow> pres I (RunOnce (dep_worker dep) now)"
  shows "world_inv I (step dep a w)"
proof (cases a)
  case (AHub op)
  then show ?thesis using w hub_step_inv [of "w_hub w" op] by (simp add: world_inv_def)
next
  case (ADisconnect u k)
  then show ?thesis using w by (simp add: handleRealtime_close_inv)
next
  case (AFaults fs)
  then show ?thesis using w tables_onlyD [OF tables] by (simp add: world_inv_def)
next
  case (AUser cr uc)
  then show ?thesis using user by simp
next
  case (ARetention now)
  then show ?thesis using presD [OF on_db_inv [OF pass] w] by simp
qed (use w in \<open>simp_all add: presD pres_rules\<close>)

end

section \<open>Every step keeps the schema and the hub's invariant\<close>

interpretation schema_server: circle_server db_ok c for c ..

lemma circle_handler_ok [pres_rules]: "pres world_ok (circle_handler dep rq cc m)"
  by (rule schema_server.circle_handler_inv [OF refl]) (intro pres_rules)+

lemma circle_route_ok [pres_rules]:
  "(\<And>m. pres world_ok (h m)) \<Longrightarrow> pres world_ok (circle_route rq c h)"
  unfolding circle_route_def by (intro pres_rules)

lemma user_handler_ok [pres_rules]: "pres world_ok (user_handler dep uc rq)"
  by (rule schema_account.user_handler_inv) (intro pres_rules)+

lemma step_ok:
  assumes "world_ok w"
  shows "world_ok (step dep a w)"
  using assms
proof (rule schema_account.step_inv)
  fix cr uc
  have "pres world_ok (with_auth (dep_server dep) cr (user_handler dep uc))" by (intro pres_rules)
  then show "world_ok (snd (with_auth (dep_server dep) cr (user_handler dep uc) w))" using assms by (rule presD)
qed (rule RunOnce_ok)

interpretation server: stepper world_ok "step dep" for dep
  by unfold_locales (rule step_ok)

end
