(* ===== verification/Aul_Isolation.thy ===== *)
theory Aul_Isolation
  imports Aul_Server
begin

text \<open>
  Isolation of circles. The rows that belong to a circle are \<open>circle_part\<close>. A request of a user
  who is not a member of the circle, a connection, or an unauthenticated request leaves
  them as they are, unless it accepts an invitation into that circle. Only one mark escapes: a former member
  may still consume a key envelope addressed to the device the request comes from; the set \<open>V\<close> of \<open>circle_part\<close>
  holds the devices whose marks are left out of the comparison.
\<close>

section \<open>Invariants of the circle tables\<close>

text \<open>
  The tables of circles and what belongs to them. The statements on accounts, sessions, push
  subscriptions, shares and the audit log do not write them.
\<close>

definition circle_tables :: "db \<Rightarrow> Circle list \<times> CircleMember list \<times> Invite list \<times> PlacesEnc list \<times>
    KeyEnvelope list \<times> SosEvent list \<times> Ping list \<times> NotificationMute list" where
  "circle_tables d = (circles d, circle_members d, invites d, places_enc d, key_envelopes d, sos_events d,
     pings d, notification_mutes d)"

definition circles_are where
  "circles_are T d \<longleftrightarrow> circle_tables d = T"

lemma circles_are_tables [simp]: "tables_only (circles_are T)"
  by (simp add: tables_only_def circles_are_def circle_tables_def)

lemma circles_are_frame [simp]:
  "circles_are T (d\<lparr>users := us\<rparr>) = circles_are T d" "circles_are T (d\<lparr>devices := ds\<rparr>) = circles_are T d"
  "circles_are T (d\<lparr>sessions := ss\<rparr>) = circles_are T d"
  "circles_are T (d\<lparr>login_attempts := la, sequence_login_attempts := n\<rparr>) = circles_are T d"
  "circles_are T (d\<lparr>audit_log := al, sequence_audit_log := n\<rparr>) = circles_are T d"
  "circles_are T (d\<lparr>push_subscriptions := ps\<rparr>) = circles_are T d"
  "circles_are T (d\<lparr>share_sessions := sh\<rparr>) = circles_are T d"
  "circles_are T (d\<lparr>share_positions := sp\<rparr>) = circles_are T d"
  by (simp_all add: circles_are_def circle_tables_def)

lemmas elsewhere_defs = CreateUser_def UpdateUserPassword_def CreateDevice_def SetDevicePubkey_def
  TouchDevice_def CreateSession_def RotateSession_def RevokeSession_def RevokeSessionsForDevice_def
  RecordLoginAttempt_def WriteAudit_def UpsertPushSubscription_def DeletePushSubscription_def
  DeletePushSubscriptionByID_def CreateShareSession_def RevokeShareSession_def BindShareViewer_def
  UpsertSharePosition_def update_share_def

interpretation elsewhere: account_invariant "circles_are T" for T
  by unfold_locales (simp_all add: elsewhere_defs pres_exec pres_stmt Let_def split: option.split)

locale circle_tables_invariant =
  fixes I :: "db \<Rightarrow> bool"
  assumes reads: "circle_tables d = circle_tables d' \<Longrightarrow> I d = I d'"
begin

lemma by_tables: "(\<And>T. pres (circles_are T) m) \<Longrightarrow> pres I m"
proof (rule presI)
  fix d assume m: "\<And>T. pres (circles_are T) m" and "I d"
  have "circle_tables (snd (m d)) = circle_tables d"
    using presD [OF m, of "circle_tables d" d] by (simp add: circles_are_def)
  then show "I (snd (m d))" using reads \<open>I d\<close> by blast
qed

end

sublocale circle_tables_invariant \<subseteq> account_invariant
proof unfold_locales
  have "I (d\<lparr>faults := fs\<rparr>) = I d" for d fs by (rule reads) (simp add: circle_tables_def)
  then show "tables_only I" by (simp add: tables_only_def)
qed (rule by_tables, intro pres_rules)+

section \<open>The rows of a circle\<close>

definition sealed :: "uuid set \<Rightarrow> KeyEnvelope \<Rightarrow> KeyEnvelope" where
  "sealed V e = (if Envelope_RecipientDeviceID e \<in> V then e\<lparr>Envelope_ConsumedAt := None\<rparr> else e)"

definition circle_part :: "uuid set \<Rightarrow> uuid \<Rightarrow> db \<Rightarrow> Circle list \<times> CircleMember list \<times> Invite list \<times> PlacesEnc list \<times>
    KeyEnvelope list \<times> SosEvent list \<times> Ping list \<times> NotificationMute list" where
  "circle_part V c d = (filter (circle_is c) (circles d), filter (\<lambda>m. Member_CircleID m = c) (circle_members d),
     filter (\<lambda>v. Invite_CircleID v = c) (invites d), filter (\<lambda>p. Place_CircleID p = c) (places_enc d),
     map (sealed V) (filter (\<lambda>e. Envelope_CircleID e = c) (key_envelopes d)),
     filter (\<lambda>s. Sos_CircleID s = c) (sos_events d), filter (\<lambda>p. Ping_CircleID p = c) (pings d),
     filter (\<lambda>m. Mute_CircleID m = c) (notification_mutes d))"

definition kept where
  "kept V c R d \<longleftrightarrow> circle_part V c d = R"

interpretation kept: circle_tables_invariant "kept V c R" for V c R
  by unfold_locales (simp add: kept_def circle_part_def circle_tables_def)

text \<open>Each statement on another circle, table by table.\<close>

lemmas kept_defs = kept_def circle_part_def circle_is_def member_is_def live_place_def active_sos_def envelope_key_def

lemmas circle_op_defs = UpdateCircleName_def UpdateCircleRetention_def BumpCircleKeyEpoch_def bump_epoch_def
  update_circle_def DeleteCircle_def SetMemberProfile_def SetPrecisionMode_def update_member_def CreateInvite_def
  RevokeInvite_def InsertPing_def CreatePlace_def UpdatePlace_def SoftDeletePlace_def update_place_def CreateSOS_def
  ResolveSOS_def CreateKeyEnvelope_def DeleteMutes_def InsertMute_def

lemma kept_ops:
  assumes "c' \<noteq> c"
  shows "pres (kept V c R) (UpdateCircleName c' nm)"
    "pres (kept V c R) (UpdateCircleRetention c' days)"
    "pres (kept V c R) (BumpCircleKeyEpoch c')"
    "pres (kept V c R) (DeleteCircle c')"
    "pres (kept V c R) (SetMemberProfile c' u pr)"
    "pres (kept V c R) (SetPrecisionMode c' u mode)"
    "pres (kept V c R) (CreateInvite now i c' u role uses ex)"
    "pres (kept V c R) (RevokeInvite i c')"
    "pres (kept V c R) (InsertPing now i c' v cl nn ct cap ttl)"
    "pres (kept V c R) (CreatePlace now i c' ct au)"
    "pres (kept V c R) (UpdatePlace now i c' ct au ver)"
    "pres (kept V c R) (SoftDeletePlace now i c' au)"
    "pres (kept V c R) (CreateSOS now i c' dv ct)"
    "pres (kept V c R) (ResolveSOS now i c' rb)"
    "pres (kept V c R) (CreateKeyEnvelope now i c' rv sv ct ep)"
    "pres (kept V c R) (DeleteMutes u c')"
    "pres (kept V c R) (InsertMute now u c' mu)"
  using assms unfolding circle_op_defs Let_def
  by (intro pres_stmt pres_exec;
      simp add: kept_defs filter_update_where filter_delete_where split: option.split)+

lemma kept_server: "c' \<noteq> c \<Longrightarrow> circle_server (kept V c R) c'"
  by unfold_locales (rule kept_ops kept.DeletePushSubscriptionByID_inv; assumption?)+

lemma kept_members:
  assumes "c' \<noteq> c"
  shows "pres (kept V c R) (AddMember now c' u role)" and "pres (kept V c R) (RemoveMember c' u)"
  using assms unfolding AddMember_def RemoveMember_def Let_def
  by (intro pres_stmt pres_exec;
      simp add: kept_defs filter_update_where filter_delete_where split: option.split)+

lemma kept_MarkEnvelopeConsumed: "v \<in> V \<Longrightarrow> pres (kept V c R) (MarkEnvelopeConsumed now i v)"
  unfolding MarkEnvelopeConsumed_def
  by (rule pres_exec) (simp_all add: kept_defs sealed_def map_filter_update_where)

section \<open>Requests of outsiders\<close>

text \<open>The circle exists, and the user is not among its members.\<close>

definition outside :: "uuid \<Rightarrow> uuid \<Rightarrow> _ \<Rightarrow> bool" where
  "outside u c R \<longleftrightarrow> fst R \<noteq> [] \<and> (\<forall>m\<in>set (fst (snd R)). Member_UserID m \<noteq> u)"

lemma membership_elsewhere:
  assumes "outside u c R"
  shows "gives (kept V c R) (GetMembership x u) (\<lambda>m d. x \<noteq> c \<and> Member_CircleID m = x)"
  unfolding GetMembership_def
proof (rule gives_query_row)
  fix d m assume d: "kept V c R d" and "List.find (member_is x u) (circle_members d) = Some m"
  then have m: "m \<in> set (circle_members d)" "Member_CircleID m = x" "Member_UserID m = u"
    by (auto dest!: find_Some_in simp: member_is_def)
  have "m \<in> set (fst (snd R))" if "x = c" using d m that by (auto simp: kept_def circle_part_def)
  then show "x \<noteq> c \<and> Member_CircleID m = x" using m assms by (auto simp: outside_def)
qed simp

lemma kept_call_member:
  assumes "outside u c R"
    and "\<And>m. x \<noteq> c \<Longrightarrow> Member_CircleID m = x \<Longrightarrow> pres (world_inv (kept V c R)) (k m)"
  shows "pres (world_inv (kept V c R)) (call_or (GetMembership x u) e k)"
  unfolding call_or_def
  by (rule pres_tryq_static [OF _ gives_on_db [OF membership_elsewhere [OF assms(1)]]])
    (intro pres_rules | simp add: assms(2))+

lemma kept_circle_handler:
  assumes "Member_CircleID m \<noteq> c"
  shows "pres (world_inv (kept V c R)) (circle_handler dep rq cc m)"
proof (rule circle_server.circle_handler_inv [OF kept_server [OF assms] refl])
  show "pres (world_inv (kept V c R)) (handleRemoveMember (dep_server dep) rq t m)" for t
    unfolding handleRemoveMember_def by (intro pres_rules kept_members assms)
  show "pres (world_inv (kept V c R)) (handleLeaveCircle (dep_server dep) rq m)"
    unfolding handleLeaveCircle_def Let_def by (intro pres_rules kept_members assms)
qed

lemma kept_circle_route:
  assumes "outside (rq_user rq) c R"
  shows "pres (world_inv (kept V c R)) (circle_route rq x (circle_handler dep rq cc))"
  unfolding circle_route_def requireCircleMember_def
  by (intro pres_rules kept_call_member [OF assms] kept_circle_handler) simp

lemma kept_create_circle:
  assumes "outside u c R"
  shows "pres (kept V c R) (create_circle_tx now i n r u)"
proof -
  have other: "i \<noteq> c" if "kept V c R d" "fresh_in Circle_ID i (circles d)" for d
    using that assms by (auto simp: outside_def kept_def circle_part_def circle_is_def fresh_in_def filter_empty_conv)
  have "pres (kept V c R) (CreateCircle now i n r u)"
    unfolding CreateCircle_def
  proof (rule pres_stmt)
    fix d assume d: "kept V c R d"
    show "kept V c R (snd (if fresh_in Circle_ID i (circles d) \<and> 1 \<le> r \<and> r \<le> 3650 \<and> u \<in> user_ids d
       then let x = \<lparr>Circle_ID = i, Circle_NameEnc = n, Circle_RetentionDays = r, Circle_KeyEpoch = 1,
              Circle_CreatedBy = u, Circle_CreatedAt = tv now\<rparr> in (Inr x, d\<lparr>circles := circles d @ [x]\<rparr>)
       else (Inl Constraint, d)))"
      using d other [OF d] by (simp add: Let_def kept_defs)
  qed simp
  moreover have "gives (kept V c R) (CreateCircle now i n r u) (\<lambda>x d. Circle_ID x \<noteq> c)"
    unfolding CreateCircle_def by (rule gives_stmt) (use other in \<open>fastforce simp: Let_def split: if_splits\<close>)+
  ultimately have "pres (kept V c R) (bindm (CreateCircle now i n r u) (\<lambda>x. bindm (AddMember now (Circle_ID x) u ''owner'') (\<lambda>_. ret x)))"
    unfolding bindm_tryq by (rule pres_tryq_static) (intro pres_rules kept_members | assumption)+
  then show ?thesis unfolding create_circle_tx_def by (rule pres_withSQLiteTx [OF kept.tables])
qed

text \<open>An invitation into another circle.\<close>

lemma kept_accept:
  assumes "\<forall>v\<in>set (fst (snd (snd R))). Invite_ID v \<noteq> i"
  shows "pres (kept V c R) (accept_tx now i u)"
proof -
  have other: "Invite_CircleID v \<noteq> c" if "kept V c R d" "v \<in> set (invites d)" "consumable now i v" for d v
    using that assms by (auto simp: kept_def circle_part_def consumable_def)
  have "pres (kept V c R) (ConsumeInvite now i)"
    unfolding ConsumeInvite_def
  proof (rule pres_stmt)
    fix d assume d: "kept V c R d"
    have "filter (\<lambda>v. Invite_CircleID v = c) (update_where (consumable now i) use_invite (invites d)) =
        filter (\<lambda>v. Invite_CircleID v = c) (invites d)"
      using other [OF d] by (intro filter_update_where) (auto simp: use_invite_def)
    then show "kept V c R (snd (case List.find (consumable now i) (invites d) of None \<Rightarrow> (Inl NoRows, d)
        | Some v \<Rightarrow> (Inr (use_invite v), d\<lparr>invites := update_where (consumable now i) use_invite (invites d)\<rparr>)))"
      using d by (simp add: kept_def circle_part_def split: option.split)
  qed simp
  moreover have "gives (kept V c R) (ConsumeInvite now i) (\<lambda>v d. Invite_CircleID v \<noteq> c)"
    unfolding ConsumeInvite_def
    by (rule gives_stmt) (use other in \<open>fastforce simp: use_invite_def dest!: find_Some_in split: option.splits\<close>)+
  ultimately have "pres (kept V c R) (bindm (ConsumeInvite now i) (\<lambda>v.
      bindm (AddMember now (Invite_CircleID v) u (Invite_Role v)) (\<lambda>_. ret (Invite_Role v))))"
    unfolding bindm_tryq by (rule pres_tryq_static) (intro pres_rules kept_members | assumption)+
  then show ?thesis unfolding accept_tx_def by (rule pres_withSQLiteTx [OF kept.tables])
qed

subsection \<open>Batches\<close>

lemma kept_insert_one: "ip_CircleID x \<noteq> c \<Longrightarrow> pres (kept V c R) (insert_one now i x)"
  unfolding insert_one_def by (rule kept_ops)

lemma checkMember_elsewhere:
  assumes "outside (rq_user rq) c R" and "map_of memo c \<noteq> Some True"
  shows "gives (world_inv (kept V c R)) (checkMember rq memo x)
    (\<lambda>p w. (fst p \<longrightarrow> x \<noteq> c) \<and> map_of (snd p) c \<noteq> Some True)"
proof (cases "map_of memo x")
  case (Some v)
  then show ?thesis using assms(2) by (auto simp: checkMember_def intro: gives_ret)
next
  case None
  show ?thesis
  proof (rule givesI)
    fix w p w' assume w: "world_inv (kept V c R) w" and r: "checkMember rq memo x w = (Inr p, w')"
    from r None consider "p = (False, (x, False) # memo)"
      | m w1 where "p = (True, (x, True) # memo)" and "on_db (GetMembership x (rq_user rq)) w = (Inr m, w1)"
      by (auto simp: checkMember_def tryq_def ret_def fail_def split: prod.splits sum.splits if_splits)
    then show "(fst p \<longrightarrow> x \<noteq> c) \<and> map_of (snd p) c \<noteq> Some True"
      using givesD [OF gives_on_db [OF membership_elsewhere [OF assms(1)]] w] assms(2) by cases auto
  qed
qed

lemma prepared_elsewhere:
  assumes "outside (rq_user rq) c R" and "map_of memo c \<noteq> Some True"
  shows "gives (world_inv (kept V c R)) (prepare_pings srv rq i memo ps) (\<lambda>xs w. \<forall>x\<in>set xs. ip_CircleID x \<noteq> c)"
  using assms(2)
proof (induction ps arbitrary: i memo)
  case Nil
  then show ?case by (simp add: gives_ret)
next
  case (Cons p ps)
  have valid: "ip_CircleID x = cid" if "validate_item srv rq i cid p = Inr x" for cid x
    using that by (auto simp: validate_item_def split: if_splits sum.splits option.splits)
  show ?case
  proof (cases "item_CircleID p")
    case None
    then show ?thesis by (simp add: gives_fail)
  next
    case (Some cid)
    have "gives (world_inv (kept V c R)) (case a of (ok, memo') \<Rightarrow>
        if \<not> ok then fail (Forbidden (itemErr i ''not a member of circle_id''))
        else case validate_item srv rq i cid p of Inl e \<Rightarrow> fail e
        | Inr x \<Rightarrow> bindm (prepare_pings srv rq (Suc i) memo' ps) (\<lambda>xs. ret (x # xs)))
      (\<lambda>xs w. \<forall>x\<in>set xs. ip_CircleID x \<noteq> c)"
      if "(fst a \<longrightarrow> cid \<noteq> c) \<and> map_of (snd a) c \<noteq> Some True" for a
      using that valid
      by (cases a; cases "validate_item srv rq i cid p")
        (auto intro!: gives_fail gives_bindm [OF kept.prepare_pings_inv Cons.IH] gives_ret)
    then show ?thesis unfolding prepare_pings.simps Some option.case
      by (rule gives_bindm [OF kept.checkMember_inv checkMember_elsewhere [OF assms(1) Cons.prems]])
  qed
qed

lemma kept_ping_batch:
  assumes "outside (rq_user rq) c R"
  shows "pres (world_inv (kept V c R)) (handlePingBatch srv rq ids b)"
proof -
  have batch: "pres (world_inv (kept V c R)) (bindm (prepare_pings srv rq 0 [] ps) (\<lambda>items. call (ping_tx rq ids items) (k items)))"
    if "\<And>items x. pres (world_inv (kept V c R)) (k items x)" for ps and k :: "_ \<Rightarrow> _ \<Rightarrow> batch_result handler"
    unfolding bindm_tryq
    by (rule pres_tryq_static [OF kept.prepare_pings_inv prepared_elsewhere [OF assms]])
      (intro pres_rules kept.ping_tx_inv kept_insert_one that | simp)+
  show ?thesis unfolding handlePingBatch_def
    by (intro kept.decoded_inv pres_if pres_fail batch) (intro pres_rules)
qed

lemma kept_post_envelopes:
  assumes "outside (rq_user rq) c R"
  shows "pres (world_inv (kept V c R)) (handlePostKeyEnvelopes srv rq ids b)"
proof -
  have "pres (kept V c R) (post_envelopes rq ids x ep valid i es)" if "x \<noteq> c" for x ep valid i es
    using kept_server [OF that] by (intro circle_invariant.post_envelopes_inv circle_server.axioms(2))
  then show ?thesis
    unfolding handlePostKeyEnvelopes_def by (intro pres_rules kept_call_member [OF assms])
qed

section \<open>Every action of an outsider\<close>

lemma kept_user_handler:
  assumes "outside (rq_user rq) c R"
    and "\<And>i. uc = UAcceptInvite (Some i) \<Longrightarrow> \<forall>v\<in>set (fst (snd (snd R))). Invite_ID v \<noteq> i"
    and "\<And>i. uc = UConsumeEnvelope i \<Longrightarrow> rq_device rq \<in> V"
  shows "pres (world_inv (kept V c R)) (user_handler dep uc rq)"
proof (rule kept.user_handler_inv)
  fix i assume uc: "uc = UAcceptInvite i"
  have "pres (kept V c R) (accept_tx (rq_now rq) j (rq_user rq))" if "i = Some j" for j
    by (rule kept_accept [OF assms(2)]) (simp add: uc that)
  then show "pres (world_inv (kept V c R)) (handleAcceptInvite (dep_server dep) rq i)"
    unfolding handleAcceptInvite_def path_id_def by (cases i) (simp_all add: pres_rules)
qed (intro kept_circle_route kept.handleCreateCircle_inv kept_create_circle kept_ping_batch kept_post_envelopes
    kept.handleConsumeKeyEnvelope_inv kept_MarkEnvelopeConsumed assms(1,3) | assumption)+

text \<open>The account a request is authenticated as.\<close>

definition actor :: "deployment \<Rightarrow> action \<Rightarrow> world \<Rightarrow> uuid option" where
  "actor dep a w = (case a of AUser cr uc \<Rightarrow>
     (case fst (RequireAuth (srv_auth (dep_server dep)) (cred_now cr) (cred_header cr) (cred_cookie cr) (w_db w)) of
        Inl _ \<Rightarrow> None | Inr (u, _) \<Rightarrow> Some u) | _ \<Rightarrow> None)"

text \<open>The device from which an envelope is consumed, none for any other action.\<close>

definition consuming :: "deployment \<Rightarrow> action \<Rightarrow> world \<Rightarrow> uuid set" where
  "consuming dep a w = (case a of AUser cr (UConsumeEnvelope _) \<Rightarrow>
     (case fst (RequireAuth (srv_auth (dep_server dep)) (cred_now cr) (cred_header cr) (cred_cookie cr) (w_db w)) of
        Inl _ \<Rightarrow> {} | Inr (_, v, _) \<Rightarrow> {v}) | _ \<Rightarrow> {})"

text \<open>Accepting one of the circle's invitations, and the maintenance pass.\<close>

definition invited :: "uuid \<Rightarrow> action \<Rightarrow> db \<Rightarrow> bool" where
  "invited c a d = (case a of
      AUser cr (UAcceptInvite (Some i)) \<Rightarrow> (\<exists>v\<in>set (invites d). Invite_ID v = i \<and> Invite_CircleID v = c)
    | _ \<Rightarrow> False)"

definition maintenance :: "action \<Rightarrow> bool" where
  "maintenance a = (case a of ARetention _ \<Rightarrow> True | _ \<Rightarrow> False)"

lemma RequireAuth_frame:
  "RequireAuth s now h ck d = (r, d') \<Longrightarrow> circle_tables d' = circle_tables d"
  using presD2 [OF RequireAuth_ok [OF circles_are_tables], of s now h ck d r d' "circle_tables d"]
  by (simp add: circles_are_def)

lemma outsider_step:
  assumes inv: "hub_inv (w_hub w)" and c: "c \<in> circle_ids (w_db w)"
    and u: "\<And>u m. actor dep a w = Some u \<Longrightarrow> m \<in> set (circle_members (w_db w)) \<Longrightarrow>
       Member_CircleID m = c \<Longrightarrow> Member_UserID m \<noteq> u"
    and "\<not> invited c a (w_db w)" and "\<not> maintenance a"
  shows "circle_part (consuming dep a w) c (w_db (step dep a w)) = circle_part (consuming dep a w) c (w_db w)"
proof -
  define V where "V = consuming dep a w"
  define R where "R = circle_part V c (w_db w)"
  have w: "world_inv (kept V c R) w" using inv by (simp add: world_inv_def kept_def R_def)
  have "world_inv (kept V c R) (step dep a w)"
  proof (rule kept.step_inv [OF w])
    fix cr uc assume a: "a = AUser cr uc"
    let ?auth = "RequireAuth (srv_auth (dep_server dep)) (cred_now cr) (cred_header cr) (cred_cookie cr)"
    obtain r d1 where r: "?auth (w_db w) = (r, d1)" by (cases "?auth (w_db w)")
    have w1: "world_inv (kept V c R) (w\<lparr>w_db := d1\<rparr>)"
      using w kept.reads [OF RequireAuth_frame [OF r]] by (simp add: world_inv_def)
    show "world_inv (kept V c R) (snd (with_auth (dep_server dep) cr (user_handler dep uc) w))"
    proof (cases r)
      case (Inl e)
      then show ?thesis using w1 r by (simp add: with_auth_def tryq_def on_db_def fail_def)
    next
      case (Inr x)
      obtain v y s where x: "x = (v, y, s)" by (cases x)
      let ?rq = "\<lparr>rq_now = cred_now cr, rq_auth = \<lparr>Auth_UserID = v, Auth_DeviceID = y, Auth_SessionID = s\<rparr>, rq_ip = cred_ip cr\<rparr>"
      have "outside (rq_user ?rq) c R" using u a r Inr x c
        by (auto simp: outside_def R_def circle_part_def actor_def rq_user_def filter_empty_conv circle_is_def circle_ids_def)
      moreover have "\<forall>z\<in>set (fst (snd (snd R))). Invite_ID z \<noteq> i" if "uc = UAcceptInvite (Some i)" for i
        using assms(4) a that by (auto simp: invited_def R_def circle_part_def)
      moreover have "rq_device ?rq \<in> V" if "uc = UConsumeEnvelope i" for i
        using a r Inr x that by (simp add: V_def consuming_def rq_device_def)
      ultimately have "pres (world_inv (kept V c R)) (user_handler dep uc ?rq)" by (rule kept_user_handler)
      from presD [OF this w1] show ?thesis using r Inr x by (simp add: with_auth_def tryq_def on_db_def)
    qed
  qed (use assms(5) in \<open>simp add: maintenance_def\<close>)
  then show ?thesis by (simp add: world_inv_def kept_def R_def V_def)
qed

end
