(* ===== verification/Aul_Owners.thy ===== *)
theory Aul_Owners
  imports Aul_Isolation
begin

text \<open>
  Every circle has exactly one owner, its creator. Ownership is given only when the circle is
  created: invitations carry other roles, an owner cannot remove itself, and leaving is
  refused to the only owner. The invariant \<open>crown_ok\<close> is stated on the columns that matter: who
  created which circle, who holds which role, and which roles invitations grant.
\<close>

definition crowns :: "db \<Rightarrow> (uuid \<times> uuid) list" where
  "crowns d = map (\<lambda>x. (Circle_ID x, Circle_CreatedBy x)) (circles d)"

definition ranks :: "db \<Rightarrow> ((uuid \<times> uuid) \<times> string) list" where
  "ranks d = map (\<lambda>m. (member_key m, Member_Role m)) (circle_members d)"

definition crown_ok :: "(uuid \<times> uuid) list \<Rightarrow> ((uuid \<times> uuid) \<times> string) list \<Rightarrow> string list \<Rightarrow> bool" where
  "crown_ok cs ms gs \<longleftrightarrow> distinct (map fst cs) \<and> distinct (map fst ms) \<and>
     (\<forall>c u r. ((c, u), r) \<in> set ms \<longrightarrow> (\<exists>v. (c, v) \<in> set cs \<and> (r = ''owner'') = (u = v))) \<and>
     (\<forall>c v. (c, v) \<in> set cs \<longrightarrow> ((c, v), ''owner'') \<in> set ms) \<and> ''owner'' \<notin> set gs"

text \<open>The invariant, with a fact about who created the circle \<open>c\<close>.\<close>

definition crowned :: "uuid \<Rightarrow> (uuid \<Rightarrow> bool) \<Rightarrow> db \<Rightarrow> bool" where
  "crowned c Q d \<longleftrightarrow> crown_ok (crowns d) (ranks d) (map Invite_Role (invites d)) \<and>
     (\<forall>v. (c, v) \<in> set (crowns d) \<longrightarrow> Q v)"

section \<open>Statements\<close>

interpretation crowned: circle_tables_invariant "crowned c Q" for c Q
  by unfold_locales (simp add: crowned_def crowns_def ranks_def circle_tables_def)

lemma crowned_frame:
  assumes "crowns d' = crowns d" and "ranks d' = ranks d" and "map Invite_Role (invites d') = map Invite_Role (invites d)"
  shows "crowned c Q d' = crowned c Q d"
  using assms by (simp add: crowned_def)

lemma crowned_other_tables [simp]:
  "crowned c Q (d\<lparr>pings := x1\<rparr>) = crowned c Q d" "crowned c Q (d\<lparr>places_enc := x2\<rparr>) = crowned c Q d"
  "crowned c Q (d\<lparr>sos_events := x3\<rparr>) = crowned c Q d" "crowned c Q (d\<lparr>key_envelopes := x4\<rparr>) = crowned c Q d"
  "crowned c Q (d\<lparr>notification_mutes := x5\<rparr>) = crowned c Q d"
  "crowned c Q (d\<lparr>login_attempts := x6\<rparr>) = crowned c Q d" "crowned c Q (d\<lparr>audit_log := x7\<rparr>) = crowned c Q d"
  "crowned c Q (d\<lparr>sessions := x8\<rparr>) = crowned c Q d"
  "crowned c Q (d\<lparr>share_sessions := x9, share_positions := x10\<rparr>) = crowned c Q d"
  by (simp_all add: crowned_def crowns_def ranks_def)

lemma crowned_update_circle:
  assumes "\<And>x. Circle_ID (f x) = Circle_ID x \<and> Circle_CreatedBy (f x) = Circle_CreatedBy x"
  shows "crowned c Q (d\<lparr>circles := update_where P f (circles d)\<rparr>) = crowned c Q d"
  by (rule crowned_frame) (simp_all add: crowns_def ranks_def assms)

lemma crowned_update_member:
  assumes "\<And>m. member_key (f m) = member_key m \<and> Member_Role (f m) = Member_Role m"
  shows "crowned c Q (d\<lparr>circle_members := update_where P f (circle_members d)\<rparr>) = crowned c Q d"
  by (rule crowned_frame) (simp_all add: crowns_def ranks_def assms)

lemma crowned_update_invite:
  assumes "\<And>v. Invite_Role (f v) = Invite_Role v"
  shows "crowned c Q (d\<lparr>invites := update_where P f (invites d)\<rparr>) = crowned c Q d"
  by (rule crowned_frame) (simp_all add: crowns_def ranks_def assms)

lemma crowned_add_invite:
  "crowned c Q d \<Longrightarrow> Invite_Role v \<noteq> ''owner'' \<Longrightarrow> crowned c Q (d\<lparr>invites := invites d @ [v]\<rparr>)"
  by (auto simp: crowned_def crown_ok_def crowns_def ranks_def)

lemma distinct_map_filter: "distinct (map f xs) \<Longrightarrow> distinct (map f (filter P xs))"
  by (induction xs) auto

lemma crown_ok_delete:
  assumes "crown_ok cs ms gs" and "set gs' \<subseteq> set gs"
  shows "crown_ok (filter (\<lambda>x. fst x \<noteq> i) cs) (filter (\<lambda>m. fst (fst m) \<noteq> i) ms) gs'"
  using assms by (auto simp: crown_ok_def intro: distinct_map_filter)

lemma crowned_DeleteCircle: "pres (crowned c Q) (DeleteCircle i)"
  unfolding DeleteCircle_def
proof (rule pres_exec)
  fix d assume d: "crowned c Q d"
  let ?d = "d\<lparr>circles := delete_where (circle_is i) (circles d),
     circle_members := delete_where (\<lambda>m. Member_CircleID m = i) (circle_members d),
     invites := delete_where (\<lambda>v. Invite_CircleID v = i) (invites d),
     places_enc := delete_where (\<lambda>p. Place_CircleID p = i) (places_enc d),
     key_envelopes := delete_where (\<lambda>e. Envelope_CircleID e = i) (key_envelopes d),
     sos_events := delete_where (\<lambda>s. Sos_CircleID s = i) (sos_events d),
     pings := delete_where (\<lambda>p. Ping_CircleID p = i) (pings d),
     notification_mutes := delete_where (\<lambda>m. Mute_CircleID m = i) (notification_mutes d)\<rparr>"
  have "crowns ?d = filter (\<lambda>x. fst x \<noteq> i) (crowns d)" "ranks ?d = filter (\<lambda>m. fst (fst m) \<noteq> i) (ranks d)"
    by (simp_all add: crowns_def ranks_def delete_where_def circle_is_def member_key_def filter_map comp_def)
  moreover have "set (map Invite_Role (invites ?d)) \<subseteq> set (map Invite_Role (invites d))"
    by (auto simp: delete_where_def)
  with d have "crown_ok (filter (\<lambda>x. fst x \<noteq> i) (crowns d)) (filter (\<lambda>m. fst (fst m) \<noteq> i) (ranks d))
      (map Invite_Role (invites ?d))"
    by (intro crown_ok_delete) (simp_all only: crowned_def)
  ultimately show "crowned c Q ?d" using d by (simp add: crowned_def)
qed simp

lemmas crown_updates = crowned_update_circle crowned_update_member crowned_update_invite crowned_add_invite

lemma crowned_ops:
  "pres (crowned c Q) (UpdateCircleName c' nm)" "pres (crowned c Q) (UpdateCircleRetention c' days)"
  "pres (crowned c Q) (BumpCircleKeyEpoch c')" "pres (crowned c Q) (SetMemberProfile c' u pr)"
  "pres (crowned c Q) (SetPrecisionMode c' u mode)" "pres (crowned c Q) (CreateInvite now i c' u role uses ex)"
  "pres (crowned c Q) (RevokeInvite i c')" "pres (crowned c Q) (InsertPing now i c' v cl nn ct cap ttl)"
  "pres (crowned c Q) (CreatePlace now i c' ct au)" "pres (crowned c Q) (UpdatePlace now i c' ct au ver)"
  "pres (crowned c Q) (SoftDeletePlace now i c' au)" "pres (crowned c Q) (CreateSOS now i c' dv ct)"
  "pres (crowned c Q) (ResolveSOS now i c' rb)" "pres (crowned c Q) (CreateKeyEnvelope now i c' rv sv ct ep)"
  "pres (crowned c Q) (DeleteMutes u c')" "pres (crowned c Q) (InsertMute now u c' mu)"
  "pres (crowned c Q) (MarkEnvelopeConsumed now i rv)"
  unfolding circle_op_defs MarkEnvelopeConsumed_def Let_def
  by (intro pres_stmt pres_exec; auto simp: crown_updates member_key_def split: option.split)+

interpretation crowned_circle: circle_server "crowned c Q" c' for c Q c'
  by unfold_locales (rule crowned_ops crowned_DeleteCircle crowned.DeletePushSubscriptionByID_inv)+

lemma crowned_maintenance [pres_rules]:
  "pres (crowned c Q) (PruneAllPingsBefore t)" "pres (crowned c Q) (PruneStalePings now h)"
  "pres (crowned c Q) (DeleteExpiredPingsForCircle now i k)"
  "pres (crowned c Q) (PruneLoginAttempts now k)" "pres (crowned c Q) (PruneAuditIPs now k)"
  "pres (crowned c Q) (DeleteExpiredSessions now)" "pres (crowned c Q) (PruneKeyEnvelopes now)"
  "pres (crowned c Q) (PruneResolvedSOS t)" "pres (crowned c Q) (PrunePlaceTombstones t)"
  "pres (crowned c Q) (PruneShareSessions now k)"
  unfolding PruneAllPingsBefore_def PruneStalePings_def DeleteExpiredPingsForCircle_def delete_pings_def
    PruneLoginAttempts_def PruneAuditIPs_def DeleteExpiredSessions_def PruneKeyEnvelopes_def PruneResolvedSOS_def
    PrunePlaceTombstones_def PruneShareSessions_def Let_def
  by (rule pres_exec_rows; simp)+

section \<open>Members come and go\<close>

lemma crown_ok_remove:
  assumes "crown_ok cs ms gs" and "\<forall>v. (c, v) \<in> set cs \<longrightarrow> v \<noteq> u"
  shows "crown_ok cs (filter (\<lambda>m. fst m \<noteq> (c, u)) ms) gs"
  using assms by (auto simp: crown_ok_def intro: distinct_map_filter)

lemma crowned_RemoveMember:
  assumes "\<And>v. Q v \<Longrightarrow> v \<noteq> u"
  shows "pres (crowned c Q) (RemoveMember c u)"
  unfolding RemoveMember_def
proof (rule pres_exec)
  fix d assume d: "crowned c Q d"
  have "ranks (d\<lparr>circle_members := delete_where (member_is c u) (circle_members d)\<rparr>) =
      filter (\<lambda>m. fst m \<noteq> (c, u)) (ranks d)"
    by (simp add: ranks_def delete_where_def member_is_def member_key_def filter_map comp_def)
  moreover have "crown_ok (crowns d) (filter (\<lambda>m. fst m \<noteq> (c, u)) (ranks d)) (map Invite_Role (invites d))"
    using d assms by (intro crown_ok_remove) (auto simp: crowned_def)
  ultimately show "crowned c Q (d\<lparr>circle_members := delete_where (member_is c u) (circle_members d)\<rparr>)"
    using d by (simp add: crowned_def) (simp add: crowns_def)
qed simp

lemma crown_ok_rank:
  assumes "crown_ok cs ms gs" and "((c, u), r) \<in> set ms" and "(c, v) \<in> set cs"
  shows "(r = ''owner'') = (u = v)"
proof -
  obtain v' where "(c, v') \<in> set cs" "(r = ''owner'') = (u = v')"
    using assms(1,2) unfolding crown_ok_def by blast
  moreover have "v' = v" using calculation(1) assms(1,3) eq_key_imp_eq_value [of cs c v v'] by (auto simp: crown_ok_def)
  ultimately show ?thesis by simp
qed

text \<open>What the membership loaded by the guard says about the circle's creator.\<close>

definition rank_of :: "CircleMember \<Rightarrow> uuid \<Rightarrow> bool" where
  "rank_of m v \<longleftrightarrow> (Member_Role m = ''owner'') = (Member_UserID m = v)"

lemma crowned_weaken: "crowned c Q d \<Longrightarrow> (\<And>v. Q v \<Longrightarrow> Q' v) \<Longrightarrow> crowned c Q' d"
  by (auto simp: crowned_def)

lemma crowned_any: "crowned c (\<lambda>_. True) d = crowned c' (\<lambda>_. True) d"
  by (simp add: crowned_def)

lemma crowned_GetMembership:
  "gives (crowned x (\<lambda>_. True)) (GetMembership x u)
     (\<lambda>m d. crowned x (rank_of m) d \<and> Member_CircleID m = x \<and> Member_UserID m = u)"
  unfolding GetMembership_def
proof (rule gives_query_row)
  fix d m assume d: "crowned x (\<lambda>_. True) d" and "List.find (member_is x u) (circle_members d) = Some m"
  then have m: "m \<in> set (circle_members d)" "Member_CircleID m = x" "Member_UserID m = u"
    by (auto dest!: find_Some_in simp: member_is_def)
  then have "((x, u), Member_Role m) \<in> set (ranks d)" by (force simp: ranks_def member_key_def)
  then show "crowned x (rank_of m) d \<and> Member_CircleID m = x \<and> Member_UserID m = u"
    using d m crown_ok_rank by (auto simp: crowned_def rank_of_def)
qed simp

lemma crowned_CountOwners:
  "gives (crowned c Q) (CountOwners c) (\<lambda>n d. n \<le> 1)"
  unfolding CountOwners_def query_def
proof (rule gives_stmt)
  fix d n d' assume d: "crowned c Q d"
    and n: "(Inr (count_where (\<lambda>m. Member_CircleID m = c \<and> Member_Role m = ''owner'') (circle_members d)), d) = (Inr n, d')"
  let ?os = "filter (\<lambda>m. Member_CircleID m = c \<and> Member_Role m = ''owner'') (circle_members d)"
  have "distinct (map member_key (circle_members d))"
    using d by (simp add: crowned_def crown_ok_def ranks_def comp_def)
  then have "distinct (map member_key ?os)" by (rule distinct_map_filter)
  moreover have "set (map member_key ?os) \<subseteq> {x}"
    if "x = (c, SOME v. (c, v) \<in> set (crowns d))" for x
  proof
    fix y assume "y \<in> set (map member_key ?os)"
    then obtain u where y: "y = (c, u)" and r: "((c, u), ''owner'') \<in> set (ranks d)"
      by (force simp: ranks_def member_key_def)
    then have "(c, u) \<in> set (crowns d)" using d by (auto simp: crowned_def crown_ok_def)
    then have "(c, SOME v. (c, v) \<in> set (crowns d)) \<in> set (crowns d)" by (rule someI)
    then show "y \<in> {x}" using crown_ok_rank [OF _ r] d y that by (auto simp: crowned_def)
  qed
  ultimately have "length (map member_key ?os) \<le> 1" using distinct_card [of "map member_key ?os"] card_mono
    by (metis (no_types, lifting) card.empty card_insert_if empty_iff finite.emptyI finite_insert One_nat_def)
  then show "n \<le> 1" using n by (auto simp: count_where_def)
qed simp

lemma crowned_circle_handler:
  "pres (world_inv (crowned (Member_CircleID m) (rank_of m))) (circle_handler dep rq cc m)"
proof (rule crowned_circle.circle_handler_inv [OF refl])
  let ?I = "crowned (Member_CircleID m) (rank_of m)"
  show "pres (world_inv ?I) (handleRemoveMember (dep_server dep) rq t m)" for t
  proof (cases "Member_Role m = ''owner''")
    case True
    then have "pres ?I (RemoveMember (Member_CircleID m) x)" if "x \<noteq> Member_UserID m" for x
      using that by (intro crowned_RemoveMember) (auto simp: rank_of_def)
    then have "pres (world_inv ?I) (if x = Member_UserID m then fail e else call (RemoveMember (Member_CircleID m) x) k)"
      if "pres (world_inv ?I) (k ())" for x e and k :: "unit \<Rightarrow> string handler"
      using that by (cases "x = Member_UserID m") (simp_all add: pres_rules)
    then show ?thesis unfolding handleRemoveMember_def requireOwner_def path_id_def
      by (cases t) (simp_all add: pres_rules)
  qed (simp add: handleRemoveMember_def requireOwner_def pres_rules)
  show "pres (world_inv ?I) (handleLeaveCircle (dep_server dep) rq m)"
  proof (cases "Member_Role m = ''owner''")
    case True
    have "pres (world_inv ?I) (call (CountOwners (Member_CircleID m)) (\<lambda>n. if n \<le> 1 then fail e else k))"
      for e and k :: "string handler"
      unfolding call_def
      by (rule pres_tryq_static [OF _ gives_on_db [OF crowned_CountOwners]]) (simp_all add: pres_rules)
    then show ?thesis using True by (simp add: handleLeaveCircle_def)
  next
    case False
    then have "pres ?I (RemoveMember (Member_CircleID m) (Member_UserID m))"
      by (intro crowned_RemoveMember) (auto simp: rank_of_def)
    then show ?thesis using False by (simp add: handleLeaveCircle_def pres_rules)
  qed
qed

lemma crowned_circle_route:
  "pres (world_inv (crowned c (\<lambda>_. True))) (circle_route rq x (circle_handler dep rq cc))"
proof (cases x)
  case None
  then show ?thesis by (simp add: circle_route_def requireCircleMember_def pres_rules)
next
  case (Some i)
  let ?I = "world_inv (crowned i (\<lambda>_. True))"
  have "gives ?I (on_db (GetMembership i (rq_user rq))) (\<lambda>m w. world_inv (crowned i (rank_of m)) w \<and> Member_CircleID m = i)"
    using givesD [OF gives_on_db [OF crowned_GetMembership]] presD2 [OF crowned.on_db_inv [OF circle_reads_ok(1)]]
    by (intro givesI) (auto simp: world_inv_def)
  then have "pres ?I (tryq (on_db (GetMembership i (rq_user rq))) h (circle_handler dep rq cc))"
    if "\<And>e. pres ?I (h e)" for h
  proof (rule pres_tryq_gives [rotated])
    show "pres (\<lambda>w. world_inv (crowned i (rank_of m)) w \<and> Member_CircleID m = i) (circle_handler dep rq cc m)" for m
      by (rule pres_static) (use crowned_circle_handler in blast)
    show "?I w" if "world_inv (crowned i (rank_of m)) w \<and> Member_CircleID m = i" for m w
      using that by (auto simp: world_inv_def crowned_def)
  qed (intro pres_rules that crowned.tables)+
  then have "pres ?I (circle_route rq x (circle_handler dep rq cc))"
    unfolding circle_route_def requireCircleMember_def call_or_def Some by (simp add: pres_rules)
  then show ?thesis using crowned_any [of i _ c] by (simp add: world_inv_def [abs_def])
qed

section \<open>New circles\<close>

lemma crown_ok_new:
  assumes ok: "crown_ok cs ms gs" and i: "i \<notin> fst ` set cs"
  shows "crown_ok (cs @ [(i, u)]) (ms @ [((i, u), ''owner'')]) gs"
proof -
  have members: "\<exists>v. (a, v) \<in> set cs \<and> (s = ''owner'') = (b = v)" if "((a, b), s) \<in> set ms" for a b s
    using ok that unfolding crown_ok_def by blast
  then have new: "((i, b), s) \<notin> set ms" for b s using i by force
  show ?thesis unfolding crown_ok_def
  proof (intro conjI allI impI)
    fix a b s assume "((a, b), s) \<in> set (ms @ [((i, u), ''owner'')])"
    then consider "((a, b), s) \<in> set ms" | "a = i" "b = u" "s = ''owner''" by auto
    then show "\<exists>v. (a, v) \<in> set (cs @ [(i, u)]) \<and> (s = ''owner'') = (b = v)"
    proof cases
      case 1
      then show ?thesis using members [OF 1] by auto
    qed auto
  qed (use ok i new in \<open>auto simp: crown_ok_def\<close>)
qed

lemma crowned_create_circle: "pres (crowned c (\<lambda>_. True)) (create_circle_tx now i n r u)"
  unfolding create_circle_tx_def
proof (rule pres_withSQLiteTx_gives [OF crowned.tables gives_seq])
  let ?J = "\<lambda>x d. Circle_ID x = i \<and> (\<exists>cs. crowns d = cs @ [(i, u)] \<and> i \<notin> fst ` set cs \<and>
      crown_ok cs (ranks d) (map Invite_Role (invites d)))"
  have tables: "tables_only (?J x)" for x by (simp add: tables_only_def crowns_def ranks_def)
  show "gives (crowned c (\<lambda>_. True)) (CreateCircle now i n r u) ?J"
    unfolding CreateCircle_def
    by (rule gives_stmt)
      (auto simp: Let_def crowned_def crowns_def ranks_def fresh_in_def image_image split: if_splits)
  have "gives (?J x) (AddMember now (Circle_ID x) u ''owner'') (\<lambda>_. crowned c (\<lambda>_. True))" for x
    unfolding AddMember_def
  proof (rule gives_stmt [OF tables])
    fix d m d' assume J: "?J x d"
    then obtain cs where cs: "crowns d = cs @ [(i, u)]" "i \<notin> fst ` set cs" "Circle_ID x = i"
      and ok: "crown_ok cs (ranks d) (map Invite_Role (invites d))" by blast
    have new: "((i, v), s) \<notin> set (ranks d)" for v s
      using ok cs(2) unfolding crown_ok_def by (force simp: image_iff)
    have "Member_CircleID y \<noteq> i" if "y \<in> set (circle_members d)" for y
      using new [of "Member_UserID y" "Member_Role y"] that by (force simp: ranks_def member_key_def)
    then have "List.find (member_is (Circle_ID x) u) (circle_members d) = None"
      by (auto simp: find_None_iff member_is_def cs(3))
    moreover assume "(if ''owner'' \<notin> roles then (Inl Constraint, d)
      else case List.find (member_is (Circle_ID x) u) (circle_members d) of
        Some m \<Rightarrow> (Inr (m\<lparr>Member_Role := ''owner''\<rparr>), d\<lparr>circle_members :=
          update_where (member_is (Circle_ID x) u) (\<lambda>m. m\<lparr>Member_Role := ''owner''\<rparr>) (circle_members d)\<rparr>)
      | None \<Rightarrow>
         if Circle_ID x \<in> circle_ids d \<and> u \<in> user_ids d
         then let m = \<lparr>Member_CircleID = Circle_ID x, Member_UserID = u, Member_Role = ''owner'',
                       Member_PrecisionMode = ''precise'', Member_JoinedAt = tv now, Member_ProfileEnc = None\<rparr>
              in (Inr m, d\<lparr>circle_members := circle_members d @ [m]\<rparr>)
         else (Inl Constraint, d)) = (Inr m, d')"
    ultimately have d': "crowns d' = cs @ [(i, u)]" "ranks d' = ranks d @ [((i, u), ''owner'')]"
      "map Invite_Role (invites d') = map Invite_Role (invites d)"
      using cs by (auto simp: Let_def crowns_def ranks_def member_key_def split: if_splits)
    have "crown_ok (cs @ [(i, u)]) (ranks d @ [((i, u), ''owner'')]) (map Invite_Role (invites d))"
      using ok cs(2) by (rule crown_ok_new)
    then show "crowned c (\<lambda>_. True) d'" by (simp add: crowned_def d')
  qed
  then show "gives (?J x) (bindm (AddMember now (Circle_ID x) u ''owner'') (\<lambda>_. ret x)) (\<lambda>_. crowned c (\<lambda>_. True))" for x
    by (rule gives_seq) (rule gives_ret)
qed

section \<open>Invitations\<close>

text \<open>
  While an invitation is accepted: the schema holds, all invitations with its id are into the
  same circle, and the circle was not created by the user.
\<close>

definition joining :: "uuid \<Rightarrow> (uuid \<Rightarrow> bool) \<Rightarrow> uuid \<Rightarrow> db \<Rightarrow> bool" where
  "joining c Q i d \<longleftrightarrow> db_ok d \<and> crowned c Q d \<and> (\<forall>v\<in>set (invites d). Invite_ID v = i \<longrightarrow> Invite_CircleID v = c)"

definition crowned_ok :: "db \<Rightarrow> bool" where
  "crowned_ok d \<longleftrightarrow> db_ok d \<and> crowned 0 (\<lambda>_. True) d"

lemma same_invite: "pres (\<lambda>d. \<forall>v\<in>set (invites d). Invite_ID v = i \<longrightarrow> Invite_CircleID v = c) (Log b now e)"
  unfolding Log_def WriteAudit_def by (rule pres_exec) (simp_all add: tables_only_def)

interpretation joining: db_invariant "joining c Q i" for c Q i
proof
  show "tables_only (joining c Q i)"
    using tables_onlyD [OF crowned.tables] by (simp add: tables_only_def joining_def)
  show "pres (joining c Q i) (Log b now e)" for b now e
    unfolding joining_def by (intro pres_conj schema.Log_inv crowned.Log_inv same_invite)
qed

interpretation crowned_ok: db_invariant crowned_ok
proof
  show "tables_only crowned_ok"
    using tables_onlyD [OF crowned.tables] by (simp add: tables_only_def crowned_ok_def)
  show "pres crowned_ok (Log b now e)" for b now e
    unfolding crowned_ok_def by (intro pres_conj schema.Log_inv crowned.Log_inv)
qed

lemma crown_ok_add:
  assumes "crown_ok cs ms gs" and "(c, v) \<in> set cs" and "u \<noteq> v" and "r \<noteq> ''owner''"
    and "(c, u) \<notin> fst ` set ms"
  shows "crown_ok cs (ms @ [((c, u), r)]) gs"
  using assms unfolding crown_ok_def by auto

lemma crown_ok_rerank:
  assumes ok: "crown_ok cs ms gs" and "r \<noteq> ''owner''" and "\<forall>v. (c, v) \<in> set cs \<longrightarrow> v \<noteq> u"
  shows "crown_ok cs (map (\<lambda>m. if fst m = (c, u) then (fst m, r) else m) ms) gs"
proof -
  let ?f = "\<lambda>m. if fst m = (c, u) then (fst m, r) else m"
  have fst: "map fst (map ?f ms) = map fst ms" by simp
  show ?thesis unfolding crown_ok_def fst
  proof (intro conjI allI impI)
    fix a b s assume "((a, b), s) \<in> set (map ?f ms)"
    then show "\<exists>v. (a, v) \<in> set cs \<and> (s = ''owner'') = (b = v)"
      using assms unfolding crown_ok_def by (fastforce split: if_splits)
  next
    fix a v assume v: "(a, v) \<in> set cs"
    then have "((a, v), ''owner'') \<in> set ms" using ok by (simp add: crown_ok_def)
    moreover have "(a, v) \<noteq> (c, u)" using v assms(3) by blast
    ultimately show "((a, v), ''owner'') \<in> set (map ?f ms)" by force
  qed (use ok in \<open>simp_all add: crown_ok_def\<close>)
qed

lemma joining_AddMember:
  assumes "r \<noteq> ''owner''"
  shows "pres (joining c (\<lambda>v. v \<noteq> u) i) (AddMember now c u r)"
proof -
  have "pres (crowned c (\<lambda>v. v \<noteq> u)) (AddMember now c u r)"
    unfolding AddMember_def
  proof (rule pres_stmt)
    fix d assume d: "crowned c (\<lambda>v. v \<noteq> u) d"
    let ?P = "member_is c u" and ?f = "\<lambda>m. m\<lparr>Member_Role := r\<rparr>"
    have up: "ranks (d\<lparr>circle_members := update_where ?P ?f (circle_members d)\<rparr>) =
        map (\<lambda>m. if fst m = (c, u) then (fst m, r) else m) (ranks d)"
      by (simp add: ranks_def update_where_def member_is_def member_key_def comp_def)
    have no: "(c, u) \<notin> fst ` set (ranks d)" if "List.find ?P (circle_members d) = None"
      using that by (auto simp: find_None_iff member_is_def ranks_def member_key_def)
    have circle: "\<exists>v. (c, v) \<in> set (crowns d)" if "c \<in> circle_ids d"
      using that by (auto simp: circle_ids_def crowns_def)
    show "crowned c (\<lambda>v. v \<noteq> u) (snd (if r \<notin> roles then (Inl Constraint, d)
       else case List.find ?P (circle_members d) of
         Some m \<Rightarrow> (Inr (?f m), d\<lparr>circle_members := update_where ?P ?f (circle_members d)\<rparr>)
       | None \<Rightarrow> if c \<in> circle_ids d \<and> u \<in> user_ids d
         then let m = \<lparr>Member_CircleID = c, Member_UserID = u, Member_Role = r, Member_PrecisionMode = ''precise'',
                       Member_JoinedAt = tv now, Member_ProfileEnc = None\<rparr>
              in (Inr m, d\<lparr>circle_members := circle_members d @ [m]\<rparr>)
         else (Inl Constraint, d)))"
    proof (cases "List.find ?P (circle_members d)")
      case (Some m)
      have "crown_ok (crowns d) (map (\<lambda>m. if fst m = (c, u) then (fst m, r) else m) (ranks d)) (map Invite_Role (invites d))"
        using d assms by (intro crown_ok_rerank) (auto simp: crowned_def)
      then show ?thesis using Some d up by (simp add: crowned_def) (simp add: crowns_def)
    next
      case None
      have "crown_ok (crowns d) (ranks d @ [((c, u), r)]) (map Invite_Role (invites d))" if "c \<in> circle_ids d"
        using circle [OF that] d assms no [OF None] by (auto simp: crowned_def intro: crown_ok_add)
      then show ?thesis using None d by (simp add: Let_def crowned_def) (simp add: crowns_def ranks_def member_key_def)
    qed
  qed simp
  moreover have "pres (\<lambda>d. \<forall>v\<in>set (invites d). Invite_ID v = i \<longrightarrow> Invite_CircleID v = c) (AddMember now c u r)"
    unfolding AddMember_def Let_def
    by (rule pres_stmt) (simp_all add: tables_only_def split: option.split)
  ultimately show ?thesis unfolding joining_def by (intro pres_conj) (intro pres_rules)
qed

lemma joining_ConsumeInvite:
  "pres (joining c Q i) (ConsumeInvite now i)"
  "gives (joining c Q i) (ConsumeInvite now i) (\<lambda>v d. Invite_CircleID v = c \<and> Invite_Role v \<noteq> ''owner'')"
proof -
  have "pres (crowned c Q) (ConsumeInvite now i)" for Q
    unfolding ConsumeInvite_def
    by (rule pres_stmt) (simp_all add: crowned_update_invite use_invite_def split: option.split)
  moreover have "pres (\<lambda>d. \<forall>v\<in>set (invites d). Invite_ID v = i \<longrightarrow> Invite_CircleID v = c) (ConsumeInvite now i)"
    unfolding ConsumeInvite_def
    by (rule pres_stmt) (simp_all add: tables_only_def ball_update_where use_invite_def split: option.split)
  ultimately show "pres (joining c Q i) (ConsumeInvite now i)"
    unfolding joining_def by (intro pres_conj) (intro pres_rules)
  show "gives (joining c Q i) (ConsumeInvite now i) (\<lambda>v d. Invite_CircleID v = c \<and> Invite_Role v \<noteq> ''owner'')"
    unfolding ConsumeInvite_def
    by (rule gives_stmt [OF joining.db_tables])
      (auto simp: joining_def crowned_def crown_ok_def consumable_def use_invite_def image_iff
        split: option.splits dest!: find_Some_in)
qed

lemma joining_accept: "pres (joining c (\<lambda>v. v \<noteq> u) i) (accept_tx now i u)"
proof -
  have "pres (joining c (\<lambda>v. v \<noteq> u) i) (bindm (ConsumeInvite now i) (\<lambda>v.
      bindm (AddMember now (Invite_CircleID v) u (Invite_Role v)) (\<lambda>_. ret (Invite_Role v))))"
    unfolding bindm_tryq
    by (rule pres_tryq_static [OF joining_ConsumeInvite]) (auto intro!: pres_rules joining_AddMember)
  then show ?thesis unfolding accept_tx_def by (rule pres_withSQLiteTx [OF joining.db_tables])
qed

lemma joining_member:
  "refuses (joining c (\<lambda>_. True) i) (GetMembership c u) (\<lambda>e. joining c (\<lambda>v. e = NoRows \<longrightarrow> v \<noteq> u) i)"
  unfolding refuses_def
proof (intro allI impI, elim conjE)
  fix d e d' assume d: "joining c (\<lambda>_. True) i d" and g: "GetMembership c u d = (Inl e, d')"
  from g [unfolded GetMembership_def query_row_def] show "joining c (\<lambda>v. e = NoRows \<longrightarrow> v \<noteq> u) i d'"
  proof (cases rule: stmt_cases)
    case (fault bs)
    then show ?thesis using d tables_onlyD [OF joining.db_tables]
      by (auto simp: joining_def crowned_def crowns_def ranks_def)
  next
    case (run bs)
    then have none: "List.find (member_is c u) (circle_members d) = None" and d': "d' = d\<lparr>faults := bs\<rparr>"
      by (auto split: option.splits)
    have "v \<noteq> u" if "(c, v) \<in> set (crowns d)" for v
    proof
      assume "v = u"
      then have "((c, u), ''owner'') \<in> set (ranks d)" using d that by (auto simp: joining_def crowned_def crown_ok_def)
      then show False using none by (auto simp: ranks_def member_key_def find_None_iff member_is_def)
    qed
    then have "joining c (\<lambda>v. e = NoRows \<longrightarrow> v \<noteq> u) i d" using d by (auto simp: joining_def crowned_def)
    then show ?thesis unfolding d' tables_onlyD [OF joining.db_tables] .
  qed
qed

lemma joining_starts: "gives crowned_ok (GetInvite i) (\<lambda>v. joining (Invite_CircleID v) (\<lambda>_. True) i)"
  unfolding GetInvite_def
proof (rule gives_query_row [OF crowned_ok.db_tables])
  fix d v assume d: "crowned_ok d" and v: "List.find (\<lambda>v. Invite_ID v = i) (invites d) = Some v"
  have "distinct (map Invite_ID (invites d))" using d unfolding crowned_ok_def by (blast intro: db_ok_unique(9))
  then have "w = v" if "w \<in> set (invites d)" "Invite_ID w = i" for w
    using find_Some_in [OF v] that by (simp add: distinct_map inj_on_def)
  then show "joining (Invite_CircleID v) (\<lambda>_. True) i d" using d by (auto simp: joining_def crowned_ok_def crowned_def)
qed

lemma on_db_state:
  "gives I m J \<Longrightarrow> gives (world_inv I) (on_db m) (\<lambda>x. world_inv (J x))"
  "refuses I m H \<Longrightarrow> refuses (world_inv I) (on_db m) (\<lambda>e. world_inv (H e))"
  unfolding gives_def refuses_def on_db_def world_inv_def by (auto split: prod.splits)

lemma world_inv_mono: "(\<And>d. I d \<Longrightarrow> J d) \<Longrightarrow> world_inv I w \<Longrightarrow> world_inv J w"
  by (simp add: world_inv_def)

lemma crowned_accept: "pres (world_inv crowned_ok) (handleAcceptInvite srv rq j)"
proof (cases j)
  case None
  then show ?thesis by (simp add: handleAcceptInvite_def path_id_def pres_rules)
next
  case (Some i)
  have weak: "joining c Q i d \<Longrightarrow> joining c (\<lambda>_. True) i d" for c Q d
    by (auto simp: joining_def intro: crowned_weaken)
  have join: "pres (world_inv (joining c (\<lambda>_. True) i)) (tryq (on_db (GetMembership c u)) h k)"
    if h: "\<And>e. pres (world_inv (joining c (\<lambda>v. e = NoRows \<longrightarrow> v \<noteq> u) i)) (h e)"
      and k: "\<And>m. pres (world_inv (joining c (\<lambda>_. True) i)) (k m)"
    for c u and h :: "_ \<Rightarrow> accept_result handler" and k
    using on_db_state(2) [OF joining_member] _ h k
  proof (rule pres_tryq_both)
    show "gives (world_inv (joining c (\<lambda>_. True) i)) (on_db (GetMembership c u)) (\<lambda>m. world_inv (joining c (\<lambda>_. True) i))"
      using presD2 [OF joining.on_db_inv [OF circle_reads_ok(1) [OF joining.db_tables]]] by (auto simp: gives_def)
  qed (use weak world_inv_mono in blast)+
  have step: "pres (world_inv (joining c (\<lambda>v. e = NoRows \<longrightarrow> v \<noteq> u) i))
      (if \<not> IsNotFound e then fail Internal else call_or (accept_tx now i u) err k)"
    if "\<And>x. pres (world_inv (joining c (\<lambda>v. v \<noteq> u) i)) (k x)" for e c now u err and k :: "_ \<Rightarrow> accept_result handler"
    using that joining_accept by (cases "e = NoRows") (simp_all add: IsNotFound_def pres_rules)
  show ?thesis
    unfolding handleAcceptInvite_def path_id_def Some option.case call_or_def [of "GetInvite i"]
  proof (rule pres_tryq_gives [OF _ on_db_state(1) [OF joining_starts]])
    show "world_inv crowned_ok w" if "world_inv (joining (Invite_CircleID v) (\<lambda>_. True) i) w" for v w
      by (rule world_inv_mono [OF _ that]) (auto simp: joining_def crowned_ok_def crowned_def)
  qed (intro pres_rules join step | simp)+
qed

section \<open>Every step\<close>

lemma crowned_pings: "pres (world_inv (crowned c Q)) (handlePingBatch srv rq ids b)"
  unfolding handlePingBatch_def
  by (intro pres_rules crowned.ping_tx_inv) (simp add: insert_one_def crowned_ops)

lemma crowned_envelopes: "pres (world_inv (crowned c Q)) (handlePostKeyEnvelopes srv rq ids b)"
  unfolding handlePostKeyEnvelopes_def by (intro pres_rules)

lemma crowned_RunOnce: "pres (crowned c Q) (RunOnce wk now)"
proof -
  have "pres (crowned c Q) (delete_expired_for now cs)" for cs
    by (induction now cs rule: delete_expired_for.induct) (simp_all add: pres_rules)
  then have "pres (crowned c Q) (deleteExpiredPings now)"
    unfolding deleteExpiredPings_def by (intro pres_rules crowned.tables)
  then show ?thesis unfolding RunOnce_def by (intro pres_rules)
qed

lemma crowned_user_handler:
  assumes "world_ok w" and "world_inv (crowned c (\<lambda>_. True)) w"
  shows "world_inv (crowned c (\<lambda>_. True)) (snd (user_handler dep uc rq w))"
proof (cases "\<exists>i. uc = UAcceptInvite i")
  case True
  have "world_inv crowned_ok w"
    using assms crowned_any [of c _ 0] by (simp add: world_inv_def crowned_ok_def)
  then have "world_inv crowned_ok (snd (user_handler dep uc rq w))"
    using True presD [OF void_ok [OF crowned_accept]] by auto
  then show ?thesis using crowned_any [of c _ 0] by (simp add: world_inv_def crowned_ok_def)
next
  case False
  have "pres (world_inv (crowned c (\<lambda>_. True))) (user_handler dep uc rq)"
    by (rule crowned.user_handler_inv)
      (use False in \<open>simp_all add: crowned_circle_route crowned.handleCreateCircle_inv crowned_create_circle
        crowned_pings crowned_envelopes crowned.handleConsumeKeyEnvelope_inv crowned_ops\<close>)
  then show ?thesis using assms(2) by (rule presD)
qed

lemma crowned_step:
  assumes "world_ok w" and c: "world_inv (crowned c (\<lambda>_. True)) w"
  shows "world_inv (crowned c (\<lambda>_. True)) (step dep a w)"
proof (rule crowned.step_inv [OF c _ crowned_RunOnce])
  fix cr :: credentials and uc
  let ?auth = "on_db (RequireAuth (srv_auth (dep_server dep)) (cred_now cr) (cred_header cr) (cred_cookie cr))"
  obtain r w1 where r: "?auth w = (r, w1)" by (cases "?auth w")
  have "world_ok w1" "world_inv (crowned c (\<lambda>_. True)) w1"
    using presD2 [OF schema.on_db_inv [OF RequireAuth_ok [OF schema.tables]] r assms(1)]
      presD2 [OF crowned.on_db_inv [OF RequireAuth_ok [OF crowned.tables]] r c] by simp_all
  then show "world_inv (crowned c (\<lambda>_. True)) (snd (with_auth (dep_server dep) cr (user_handler dep uc) w))"
    using r crowned_user_handler by (cases r) (auto simp: with_auth_def tryq_def fail_def split: prod.split)
qed

interpretation crowned_server: stepper "\<lambda>w. world_ok w \<and> world_inv (crowned 0 (\<lambda>_. True)) w" "step dep" for dep
  by unfold_locales (blast intro: step_ok crowned_step)

lemma crowned_empty: "crowned c Q empty_db"
  by (simp add: crowned_def crown_ok_def crowns_def ranks_def empty_db_def)

lemma only_element: "distinct ys \<Longrightarrow> m \<in> set ys \<Longrightarrow> \<forall>y\<in>set ys. y = m \<Longrightarrow> ys = [m]"
  by (cases ys rule: remdups_adj.cases) simp_all

text \<open>The rows behind the columns.\<close>

lemma sole_owner:
  assumes d: "crowned c Q d" and x: "x \<in> set (circles d)"
  shows "\<exists>m. filter (\<lambda>m. Member_CircleID m = Circle_ID x \<and> Member_Role m = ''owner'') (circle_members d) = [m] \<and>
    Member_UserID m = Circle_CreatedBy x"
proof -
  let ?P = "\<lambda>m. Member_CircleID m = Circle_ID x \<and> Member_Role m = ''owner''"
  have ok: "crown_ok (crowns d) (ranks d) (map Invite_Role (invites d))" using d by (simp add: crowned_def)
  have cx: "(Circle_ID x, Circle_CreatedBy x) \<in> set (crowns d)" using x by (auto simp: crowns_def)
  then have "((Circle_ID x, Circle_CreatedBy x), ''owner'') \<in> set (ranks d)" using ok by (simp add: crown_ok_def)
  then obtain m where m: "m \<in> set (filter ?P (circle_members d))" by (auto simp: ranks_def member_key_def)
  have user: "Member_UserID y = Circle_CreatedBy x" if "y \<in> set (filter ?P (circle_members d))" for y
  proof -
    have "((Circle_ID x, Member_UserID y), ''owner'') \<in> set (ranks d)" using that by (force simp: ranks_def member_key_def)
    from crown_ok_rank [OF ok this cx] show ?thesis by simp
  qed
  have "distinct (map member_key (circle_members d))" using ok by (simp add: crown_ok_def ranks_def comp_def)
  then have dist: "distinct (map member_key (filter ?P (circle_members d)))" by (rule distinct_map_filter)
  then have inj: "inj_on member_key (set (filter ?P (circle_members d)))" by (simp add: distinct_map)
  have same: "y = z" if "y \<in> set (filter ?P (circle_members d))" "z \<in> set (filter ?P (circle_members d))" for y z
    by (rule inj_onD [OF inj _ that]) (use that user [OF that(1)] user [OF that(2)] in \<open>simp add: member_key_def\<close>)
  have "distinct (filter ?P (circle_members d))" using dist by (simp add: distinct_map)
  moreover have "\<forall>y\<in>set (filter ?P (circle_members d)). y = m" using same [OF _ m] by blast
  ultimately have "filter ?P (circle_members d) = [m]" using m by (intro only_element)
  then show ?thesis using user [OF m] by blast
qed

end
