(* ===== verification/Aul_Atomic.thy ===== *)
theory Aul_Atomic
  imports Aul_Server
begin

text \<open>
  Refusals change nothing. Whatever error an authenticated request is answered with, and
  whichever statement the driver failed, the tables and the hub are as they were before. A
  computation that only reads may be followed by anything atomic; a write has to be
  followed by steps that cannot fail, or has to be inside a transaction.
\<close>

section \<open>Atomic computations\<close>

definition reads :: "('s \<Rightarrow> 's \<Rightarrow> bool) \<Rightarrow> ('s \<Rightarrow> 'x \<times> 's) \<Rightarrow> bool" where
  "reads R m \<longleftrightarrow> (\<forall>s. R s (snd (m s)))"

definition atomic :: "('s \<Rightarrow> 's \<Rightarrow> bool) \<Rightarrow> ('s \<Rightarrow> ('e + 'a) \<times> 's) \<Rightarrow> bool" where
  "atomic R m \<longleftrightarrow> (\<forall>s e s'. m s = (Inl e, s') \<longrightarrow> R s s')"

named_theorems atomic_rules

lemma atomicD: "atomic R m \<Longrightarrow> m s = (Inl e, s') \<Longrightarrow> R s s'"
  by (simp add: atomic_def)

text \<open>The relation of states that count as unchanged.\<close>

locale frame =
  fixes R :: "'s \<Rightarrow> 's \<Rightarrow> bool"
  assumes same: "R s s" and step: "R s t \<Longrightarrow> R t u \<Longrightarrow> R s u"
begin

lemma atomic_reads: "reads R m \<Longrightarrow> atomic R m"
  by (metis atomic_def reads_def snd_conv)

lemma atomic_ret [atomic_rules]: "atomic R (ret x)"
  by (simp add: atomic_def ret_def)

lemma atomic_fail [atomic_rules]: "atomic R (fail e)"
  by (simp add: atomic_def fail_def same)

lemma atomic_if [atomic_rules]: "atomic R m \<Longrightarrow> atomic R n \<Longrightarrow> atomic R (if b then m else n)"
  by simp

lemma atomic_case_option [atomic_rules]:
  "atomic R m \<Longrightarrow> (\<And>x. atomic R (k x)) \<Longrightarrow> atomic R (case z of None \<Rightarrow> m | Some x \<Rightarrow> k x)"
  by (cases z) simp_all

lemma atomic_case_sum [atomic_rules]:
  "(\<And>e. atomic R (m e)) \<Longrightarrow> (\<And>x. atomic R (k x)) \<Longrightarrow> atomic R (case z of Inl e \<Rightarrow> m e | Inr x \<Rightarrow> k x)"
  by (cases z) simp_all

lemma atomic_case_prod [atomic_rules]: "(\<And>a b. atomic R (k a b)) \<Longrightarrow> atomic R (case z of (a, b) \<Rightarrow> k a b)"
  by (cases z) simp_all

lemma atomic_read:
  assumes "reads R m" and "\<And>e. atomic R (h e)" and "\<And>x. atomic R (k x)"
  shows "atomic R (tryq m h k)"
  unfolding atomic_def
proof (intro allI impI)
  fix s e s' assume t: "tryq m h k s = (Inl e, s')"
  obtain r s1 where m: "m s = (r, s1)" by (cases "m s")
  then have "R s s1" using assms(1) by (metis reads_def snd_conv)
  moreover have "R s1 s'" using t m assms(2,3) by (cases r) (auto simp: tryq_def dest: atomicD)
  ultimately show "R s s'" by (rule step)
qed

lemma atomic_write:
  assumes "atomic R m" and "\<And>e. atomic R (h e)" and "\<And>x. errs {} (k x)"
  shows "atomic R (tryq m h k)"
  unfolding atomic_def
proof (intro allI impI)
  fix s e s' assume t: "tryq m h k s = (Inl e, s')"
  obtain r s1 where m: "m s = (r, s1)" by (cases "m s")
  show "R s s'"
  proof (cases r)
    case (Inl x)
    then have "R s s1" "R s1 s'" using t m assms(1,2) by (auto simp: tryq_def dest: atomicD)
    then show ?thesis by (rule step)
  next
    case (Inr x)
    then show ?thesis using t m errsD [OF assms(3)] by (auto simp: tryq_def)
  qed
qed

end

definition same_tables :: "db \<Rightarrow> db \<Rightarrow> bool" where
  "same_tables d d' \<longleftrightarrow> (\<exists>bs. d' = d\<lparr>faults := bs\<rparr>)"

definition same_world :: "world \<Rightarrow> world \<Rightarrow> bool" where
  "same_world w w' \<longleftrightarrow> same_tables (w_db w) (w_db w') \<and> w_hub w' = w_hub w"

lemma same_tables_refl: "same_tables d d"
  unfolding same_tables_def by (rule exI [of _ "faults d"]) simp

interpretation tables: frame same_tables
  by unfold_locales (rule same_tables_refl, auto simp: same_tables_def)

interpretation world: frame same_world
  by unfold_locales (auto simp: same_world_def intro: tables.same tables.step)

lemmas atomic_worlds = world.atomic_ret world.atomic_fail world.atomic_if world.atomic_case_option
  world.atomic_case_sum world.atomic_case_prod

section \<open>Statements\<close>

text \<open>A computation that keeps every invariant of the tables only reads.\<close>

lemma reads_if:
  assumes "\<And>I. tables_only I \<Longrightarrow> pres I m"
  shows "reads same_tables m"
  unfolding reads_def
proof
  fix d
  have "\<exists>bs. a = d\<lparr>faults := bs\<rparr>" if "a\<lparr>faults := fs\<rparr> = d\<lparr>faults := bs\<rparr>" for a :: db and fs bs
  proof -
    have "a = a\<lparr>faults := fs, faults := faults a\<rparr>" by simp
    also have "\<dots> = d\<lparr>faults := faults a\<rparr>" unfolding that by simp
    finally show ?thesis by (rule exI)
  qed
  then have "tables_only (same_tables d)" by (auto simp: tables_only_def same_tables_def)
  from presD [OF assms [OF this] same_tables_refl] show "same_tables d (snd (m d))" .
qed

lemma atomic_stmt: "(\<And>d e d'. f d = (Inl e, d') \<Longrightarrow> d' = d) \<Longrightarrow> atomic same_tables (stmt f)"
  unfolding atomic_def same_tables_def by (metis stmt_cases)

lemma atomic_exec: "atomic same_tables (exec f)"
  unfolding exec_def by (rule atomic_stmt) simp

lemma atomic_tx: "atomic same_tables (withSQLiteTx wrap fn)"
  unfolding atomic_def same_tables_def by (blast dest: withSQLiteTx_error)

lemma table_reads:
  "reads same_tables (GetMembership c u)" "reads same_tables (CountOwners c)" "reads same_tables (ListMembers c)"
  "reads same_tables (GetInvite i)" "reads same_tables (ListInvitesForCircle now c)"
  "reads same_tables (PendingEnvelopesForDevice v)" "reads same_tables (ListActiveSOS c)"
  "reads same_tables (ListMutes u c)" "reads same_tables (LatestPingsForCircle c)"
  "reads same_tables (GetShareSessionForOwner i u)" "reads same_tables (ListShareSessionsForUser now u)"
  "reads same_tables (ListCirclePushSubscriptions c u)" "reads same_tables (ListCircleDevices c)"
  "reads same_tables (ListActiveSessionsForUser now u)" "reads same_tables (ListAuditForUser u n)"
  by (rule reads_if, erule circle_reads_ok)+

lemma more_reads:
  "reads same_tables (GetCircle c)" "reads same_tables (ListCirclesForUser u)" "reads same_tables (ListPlaces c)"
  "reads same_tables (CountMembersIn c us)" "reads same_tables (RequireAuth s now h ck)"
  by (rule reads_if, erule GetCircle_ok ListCirclesForUser_ok ListPlaces_ok CountMembersIn_ok RequireAuth_ok)+

lemma account_reads:
  "reads same_tables (GetUserByID i)" "reads same_tables (GetDeviceForUser i u)" "reads same_tables (ListDevicesForUser u)"
  by (rule reads_if, erule reads_ok)+

lemmas statement_reads = table_reads more_reads account_reads

lemma statement_writes:
  "atomic same_tables (DeleteCircle c)" "atomic same_tables (SetMemberProfile c u p)"
  "atomic same_tables (RemoveMember c u)" "atomic same_tables (SetPrecisionMode c u md)"
  "atomic same_tables (CreateInvite now i c u r mx ex)" "atomic same_tables (RevokeInvite i c)"
  "atomic same_tables (CreatePlace now i c ct au)" "atomic same_tables (CreateSOS now i c dv ct)"
  "atomic same_tables (ResolveSOS now i c rb)" "atomic same_tables (MarkEnvelopeConsumed now i v)"
  "atomic same_tables (UpsertPushSubscription now i u dv ep pk ak kd)" "atomic same_tables (DeletePushSubscription ep u)"
  "atomic same_tables (CreateShareSession now i u ex)" "atomic same_tables (RevokeShareSession now i u)"
  "atomic same_tables (UpsertSharePosition now i nn ct cap)"
  "atomic same_tables (create_circle_tx now i nm rt u)" "atomic same_tables (accept_tx now i u)"
  "atomic same_tables (ping_tx rq ids items)" "atomic same_tables (mutes_tx now u c b us)"
  unfolding DeleteCircle_def SetMemberProfile_def RemoveMember_def SetPrecisionMode_def update_member_def
    CreateInvite_def RevokeInvite_def CreatePlace_def CreateSOS_def ResolveSOS_def MarkEnvelopeConsumed_def
    UpsertPushSubscription_def DeletePushSubscription_def CreateShareSession_def RevokeShareSession_def
    update_share_def UpsertSharePosition_def create_circle_tx_def accept_tx_def ping_tx_def mutes_tx_def Let_def
  by (rule atomic_exec atomic_tx | (rule atomic_stmt, auto split: if_splits option.splits))+

section \<open>Handlers\<close>

lemma reads_on_db: "reads same_tables m \<Longrightarrow> reads same_world (on_db m)"
  unfolding reads_def same_world_def on_db_def by (auto split: prod.splits) (metis snd_conv)

lemma atomic_on_db: "atomic same_tables m \<Longrightarrow> atomic same_world (on_db m)"
  unfolding atomic_def same_world_def on_db_def by (auto split: prod.splits)

lemma call_read:
  "reads same_tables m \<Longrightarrow> (\<And>x. atomic same_world (k x)) \<Longrightarrow> atomic same_world (call m k)"
  "reads same_tables m \<Longrightarrow> (\<And>x. atomic same_world (k x)) \<Longrightarrow> atomic same_world (call_or m e k)"
  unfolding call_def call_or_def by (intro world.atomic_read reads_on_db atomic_worlds; assumption?)+

lemma call_write:
  "atomic same_tables m \<Longrightarrow> (\<And>x. errs {} (k x)) \<Longrightarrow> atomic same_world (call m k)"
  "atomic same_tables m \<Longrightarrow> (\<And>x. errs {} (k x)) \<Longrightarrow> atomic same_world (call_or m e k)"
  unfolding call_def call_or_def by (intro world.atomic_write atomic_on_db atomic_worlds; assumption?)+

lemma never_fails:
  "errs {} (respond st b)" "errs {} k \<Longrightarrow> errs {} (audit srv rq ev k)"
  "errs {} k \<Longrightarrow> errs {} (hub_do f k)" "errs {} k \<Longrightarrow> errs {} (publish ty c p k)"
  unfolding respond_def audit_def hub_do_def publish_def by (intro err_rules; assumption?)+

lemma guards:
  "(\<And>r. atomic same_world (k r)) \<Longrightarrow> atomic same_world (decoded b k)"
  "(\<And>r. atomic same_world (ki r)) \<Longrightarrow> atomic same_world (path_id nm i ki)"
  "(\<And>r. atomic same_world (kb r)) \<Longrightarrow> atomic same_world (blob f s n kb)"
  "atomic same_world h \<Longrightarrow> atomic same_world (requireOwner m h)"
  "atomic same_world (respond st x)"
  unfolding decoded_def path_id_def blob_def requireOwner_def respond_def by (intro atomic_worlds; assumption?)+

lemmas handler_rules = atomic_worlds guards never_fails

lemma optional_blob_atomic: "(\<And>b. atomic same_world (k b)) \<Longrightarrow> atomic same_world (optional_blob f s n k)"
  unfolding optional_blob_def by (intro handler_rules)

lemma reading_handlers:
  "atomic same_world (handleGetCircle m)" "atomic same_world (handleListMembers m)"
  "atomic same_world (handleListCircles rq)" "atomic same_world (handleListInvites rq m)"
  "atomic same_world (handleGetInvite rq i)" "atomic same_world (handleCircleDevices m)"
  "atomic same_world (handleGetMutes m)" "atomic same_world (handleLatestPings m)"
  "atomic same_world (handleListPlaces m)" "atomic same_world (handleListSOS m)"
  "atomic same_world (handlePendingKeyEnvelopes rq)" "atomic same_world (handleMe rq)"
  "atomic same_world (handleListDevices rq)" "atomic same_world (handleListSessions rq)"
  "atomic same_world (handleListAudit rq)" "atomic same_world (handleListShares rq)"
  unfolding handleGetCircle_def handleListMembers_def handleListCircles_def handleListInvites_def handleGetInvite_def
    handleCircleDevices_def handleGetMutes_def handleLatestPings_def handleListPlaces_def handleListSOS_def
    handlePendingKeyEnvelopes_def handleMe_def handleListDevices_def handleListSessions_def handleListAudit_def
    handleListShares_def
  by (intro handler_rules call_read statement_reads)+

lemma writing_handlers:
  "atomic same_world (handleCreateCircle srv rq i b)" "atomic same_world (handleDeleteCircle m)"
  "atomic same_world (handleSetProfile sb m)" "atomic same_world (handleRemoveMember srv rq t m)"
  "atomic same_world (handleSetPrecision pb m)" "atomic same_world (handleCreateInvite srv rq i ib m)"
  "atomic same_world (handleRevokeInvite t m)" "atomic same_world (handleCreatePlace rq i plb m)"
  "atomic same_world (handleCreateSOS srv rq i pb m)" "atomic same_world (handleResolveSOS srv rq t m)"
  "atomic same_world (handleConsumeKeyEnvelope rq t)" "atomic same_world (handlePushSubscribe rq i ps)"
  "atomic same_world (handlePushUnsubscribe rq ps)" "atomic same_world (handleCreateShare rq i sh)"
  "atomic same_world (handleRevokeShare rq t)"
  unfolding handleCreateCircle_def handleDeleteCircle_def handleSetProfile_def handleRemoveMember_def
    handleSetPrecision_def handleCreateInvite_def handleRevokeInvite_def handleCreatePlace_def handleCreateSOS_def
    handleResolveSOS_def handleConsumeKeyEnvelope_def handlePushSubscribe_def handlePushUnsubscribe_def
    handleCreateShare_def handleRevokeShare_def Let_def share_not_found_def
  by (intro optional_blob_atomic handler_rules call_write statement_writes)+

text \<open>Requests that read before they write.\<close>

lemma handleLeaveCircle_atomic: "atomic same_world (handleLeaveCircle srv rq m)"
  unfolding handleLeaveCircle_def Let_def
  by (intro handler_rules call_read(1) [OF statement_reads(2)] call_write statement_writes)

lemma handleSetMutes_atomic: "atomic same_world (handleSetMutes rq b m)"
  unfolding handleSetMutes_def Let_def
  by (intro handler_rules call_read(1) [OF more_reads(4)] call_write statement_writes)

lemma handleAcceptInvite_atomic: "atomic same_world (handleAcceptInvite srv rq i)"
  unfolding handleAcceptInvite_def
  by (intro handler_rules call_read(2) [OF table_reads(4)] call_write statement_writes
      world.atomic_read [OF reads_on_db [OF table_reads(1)]])

lemma handleSharePing_atomic: "atomic same_world (handleSharePing rq i b)"
  unfolding handleSharePing_def loadOwnedShare_def share_not_found_def
  by (intro handler_rules call_read(2) [OF table_reads(10)] call_write statement_writes)

lemma fanOutPush_total: "errs {} (fanOutPush out ps)"
proof (induction ps)
  case (Cons p ps)
  have "errs {} (sendPush out p)" unfolding sendPush_def by (cases "out p") (auto intro: err_rules)
  then show ?case unfolding fanOutPush.simps by (auto intro!: err_rules Cons.IH split: prod.split)
qed (simp add: err_rules)

lemma handleNotify_atomic: "atomic same_world (handleNotify cfg out b m)"
proof -
  have "atomic same_tables (fanOutPush out ps)" for ps
    using fanOutPush_total [of out ps] by (metis atomic_def empty_iff errsD)
  then show ?thesis unfolding handleNotify_def
    by (intro handler_rules call_read(1) [OF table_reads(12)] call_write)
qed

lemma prepare_pings_reads: "reads same_world (prepare_pings srv rq i memo ps)"
proof (induction ps arbitrary: i memo)
  case Nil
  show ?case by (simp add: reads_def ret_def world.same)
next
  case (Cons p ps)
  have m: "reads same_world (checkMember rq memo c)" for c
    using reads_on_db [OF table_reads(1) [of c "rq_user rq"]]
    by (auto simp: reads_def checkMember_def tryq_def ret_def fail_def world.same split: option.split prod.split sum.split)
      (metis snd_conv)+
  show ?case unfolding reads_def
  proof
    fix w
    show "same_world w (snd (prepare_pings srv rq i memo (p # ps) w))"
    proof (cases "item_CircleID p")
      case (Some c)
      obtain r w1 where c: "checkMember rq memo c w = (r, w1)" by (cases "checkMember rq memo c w")
      then have w1: "same_world w w1" using m [of c] by (metis reads_def snd_conv)
      have "same_world w1 (snd (prepare_pings srv rq (Suc i) memo' ps w1))" for memo'
        using Cons.IH by (simp add: reads_def)
      then have "same_world w (snd (prepare_pings srv rq (Suc i) memo' ps w1))" for memo' using w1 world.step by blast
      then show ?thesis using Some c w1
        by (auto simp: bindm_def ret_def fail_def split: sum.split prod.split) (metis snd_conv)+
    qed (simp add: fail_def world.same)
  qed
qed

lemma handlePingBatch_atomic: "atomic same_world (handlePingBatch srv rq ids b)"
proof -
  have "errs {} (foldr publishPing rows (respond st x))" for rows st x
    by (induction rows) (auto simp: publishPing_def intro: never_fails)
  then show ?thesis unfolding handlePingBatch_def bindm_tryq
    by (intro handler_rules world.atomic_read [OF prepare_pings_reads] call_write statement_writes)
qed

lemma handlePostKeyEnvelopes_atomic: "atomic same_world (handlePostKeyEnvelopes srv rq ids b)"
  unfolding handlePostKeyEnvelopes_def bindm_tryq
  by (intro handler_rules call_read(2) [OF table_reads(1)] call_read(1) [OF more_reads(1)] call_read(1) [OF table_reads(13)]
      world.atomic_write atomic_on_db atomic_tx)

lemma session_handlers_atomic:
  "atomic same_world (handleLogout srv rq)" "atomic same_world (handleRevokeDevice srv rq i)"
proof -
  have "atomic same_tables (Logout s now i u ip)" for s now i u ip
    unfolding Logout_def store_def RevokeSession_def
    by (intro tables.atomic_write atomic_exec tables.atomic_fail err_rules)
  then show "atomic same_world (handleLogout srv rq)"
    unfolding handleLogout_def by (intro handler_rules world.atomic_write atomic_on_db)
  have "atomic same_tables (RevokeDevice s now u v ip)" for s now u v ip
    unfolding RevokeDevice_def store_def RevokeSessionsForDevice_def
    by (intro tables.atomic_read tables.atomic_write tables.atomic_if atomic_exec tables.atomic_fail err_rules account_reads)
  then show "atomic same_world (handleRevokeDevice srv rq i)"
    unfolding handleRevokeDevice_def by (intro handler_rules world.atomic_write atomic_on_db)
qed

section \<open>Routes\<close>

lemma void_atomic: "atomic same_world h \<Longrightarrow> atomic same_world (void h)"
  by (auto simp: atomic_def void_def bindm_def respond_def ret_def split: prod.splits sum.splits)

text \<open>
  Four routes are exempt. Changing a circle's settings writes the name and the retention in two
  statements without a transaction (the retention is not even validated first), and the counters that a key rotation and a change
  or removal of a place increment fail to be read back once they pass 32 bits.
\<close>

fun exempt :: "user_call \<Rightarrow> bool" where
  "exempt (UCircle _ (CPatch _)) = True"
| "exempt (UCircle _ CRotateKey) = True"
| "exempt (UCircle _ (CUpdatePlace _ _)) = True"
| "exempt (UCircle _ (CDeletePlace _)) = True"
| "exempt _ = False"

lemma user_handler_atomic:
  assumes "\<not> exempt uc"
  shows "atomic same_world (user_handler dep uc rq)"
proof (cases uc)
  case (UCircle c cc)
  have "atomic same_world (circle_handler dep rq cc m)" for m
    using assms UCircle
    by (cases cc) (simp_all add: void_atomic reading_handlers writing_handlers handleLeaveCircle_atomic
        handleSetMutes_atomic handleNotify_atomic)
  then show ?thesis unfolding UCircle user_handler.simps circle_route_def requireCircleMember_def
    by (intro handler_rules call_read(2) [OF table_reads(1)])
qed (simp_all add: void_atomic reading_handlers writing_handlers handleAcceptInvite_atomic handleSharePing_atomic
    handlePingBatch_atomic handlePostKeyEnvelopes_atomic session_handlers_atomic)

lemma refusal_changes_nothing:
  assumes "\<not> exempt uc" and "with_auth srv cr (user_handler dep uc) w = (Inl e, w')"
  shows "same_world w w'"
proof -
  have "atomic same_world (with_auth srv cr (user_handler dep uc))" unfolding with_auth_def
    by (intro handler_rules world.atomic_read reads_on_db more_reads user_handler_atomic assms(1))
  then show ?thesis using assms(2) by (rule atomicD)
qed

end
