(* ===== verification/Aul_Handlers.thy ===== *)
theory Aul_Handlers
  imports Aul_Owners Aul_Atomic
begin

text \<open>
  What single handlers promise, on top of the preservation theorems: the answer to
  non-members, atomic and idempotent ping batches, optimistic concurrency of places, the
  one-device rule of share links, mutes, key envelopes and invitations.
\<close>

lemmas handler_run_defs = call_def call_or_def tryq_def run_def ret_def fail_def bindm_def on_db_def respond_def

section \<open>Non-members\<close>

lemma GetMembership_none:
  assumes "faults d = []" and "\<forall>m\<in>set (circle_members d). \<not> member_is c u m"
  shows "GetMembership c u d = (Inl NoRows, d)"
proof -
  have "List.find (member_is c u) (circle_members d) = None" using assms(2) by (simp add: find_None_iff)
  then show ?thesis using assms(1) by (simp add: GetMembership_def)
qed

lemma circle_route_outsider:
  assumes "faults (w_db w) = []" and "\<forall>m\<in>set (circle_members (w_db w)). \<not> member_is c (rq_user rq) m"
  shows "circle_route rq (Some c) h w = (Inl (NotFound ''circle not found''), w)"
  using GetMembership_none [OF assms]
  by (simp add: circle_route_def requireCircleMember_def handler_run_defs IsNotFound_def)

section \<open>Ping batches\<close>

text \<open>
  Without driver failures, preparing a batch only reads the memberships: it is this function
  of them.
\<close>

definition is_member :: "CircleMember list \<Rightarrow> uuid \<Rightarrow> uuid \<Rightarrow> bool" where
  "is_member ms u c \<longleftrightarrow> (\<exists>m\<in>set ms. member_is c u m)"

fun prepared :: "Server \<Rightarrow> request \<Rightarrow> CircleMember list \<Rightarrow> nat \<Rightarrow> pingItem list \<Rightarrow> http_err + InsertPingParams list" where
  "prepared srv rq ms i [] = Inr []"
| "prepared srv rq ms i (p # ps) = (case item_CircleID p of
      None \<Rightarrow> Inl (BadRequest (itemErr i ''circle_id must be a valid id''))
    | Some c \<Rightarrow> if \<not> is_member ms (rq_user rq) c then Inl (Forbidden (itemErr i ''not a member of circle_id''))
        else (case validate_item srv rq i c p of Inl e \<Rightarrow> Inl e
        | Inr x \<Rightarrow> map_sum id (\<lambda>xs. x # xs) (prepared srv rq ms (Suc i) ps)))"

definition memo_ok :: "CircleMember list \<Rightarrow> uuid \<Rightarrow> memo \<Rightarrow> bool" where
  "memo_ok ms u memo \<longleftrightarrow> (\<forall>c v. map_of memo c = Some v \<longrightarrow> v = is_member ms u c)"

lemma checkMember_run:
  assumes "faults (w_db w) = []" and "memo_ok (circle_members (w_db w)) (rq_user rq) memo"
  shows "\<exists>memo'. checkMember rq memo c w = (Inr (is_member (circle_members (w_db w)) (rq_user rq) c, memo'), w) \<and>
    memo_ok (circle_members (w_db w)) (rq_user rq) memo'"
proof (cases "map_of memo c")
  case (Some v)
  then show ?thesis using assms by (simp add: checkMember_def ret_def memo_ok_def)
next
  case None
  have "GetMembership c (rq_user rq) (w_db w) =
      (case List.find (member_is c (rq_user rq)) (circle_members (w_db w)) of None \<Rightarrow> Inl NoRows | Some m \<Rightarrow> Inr m, w_db w)"
    using assms(1) by (simp add: GetMembership_def)
  moreover have "List.find (member_is c (rq_user rq)) (circle_members (w_db w)) = None \<longleftrightarrow>
      \<not> is_member (circle_members (w_db w)) (rq_user rq) c"
    by (auto simp: find_None_iff is_member_def)
  ultimately show ?thesis using None assms(2)
    by (cases "List.find (member_is c (rq_user rq)) (circle_members (w_db w))")
      (auto simp: checkMember_def handler_run_defs IsNotFound_def memo_ok_def)
qed

lemma prepare_run:
  assumes "faults (w_db w) = []" and "memo_ok (circle_members (w_db w)) (rq_user rq) memo"
  shows "prepare_pings srv rq i memo ps w = (prepared srv rq (circle_members (w_db w)) i ps, w)"
  using assms(2)
proof (induction ps arbitrary: i memo)
  case (Cons p ps)
  show ?case
  proof (cases "item_CircleID p")
    case (Some c)
    from checkMember_run [OF assms(1) Cons.prems, of c] obtain memo' where
      c: "checkMember rq memo c w = (Inr (is_member (circle_members (w_db w)) (rq_user rq) c, memo'), w)"
      and m: "memo_ok (circle_members (w_db w)) (rq_user rq) memo'" by blast
    show ?thesis using Some c Cons.IH [OF m, of "Suc i"]
      by (simp add: bindm_def ret_def fail_def split: sum.split)
  qed (simp add: fail_def)
qed (simp add: ret_def)

lemma prepared_items:
  assumes "prepared srv rq ms i ps = Inr items"
  shows "length items = length ps \<and> (\<forall>x\<in>set items. is_member ms (rq_user rq) (ip_CircleID x) \<and> ip_DeviceID x = rq_device rq)"
  using assms
proof (induction ps arbitrary: i items)
  case (Cons p ps)
  have valid: "ip_CircleID x = c \<and> ip_DeviceID x = rq_device rq" if "validate_item srv rq i c p = Inr x" for c x
    using that by (auto simp: validate_item_def split: if_splits sum.splits option.splits)
  from Cons.prems obtain c x xs where "is_member ms (rq_user rq) c" "validate_item srv rq i c p = Inr x"
    "prepared srv rq ms (Suc i) ps = Inr xs" "items = x # xs"
    by (auto split: option.splits if_splits sum.splits simp: map_sum_def) 
  then show ?case using Cons.IH valid by auto
qed simp

text \<open>The rows a batch adds: one for each item whose key is not there yet.\<close>

definition item_key :: "InsertPingParams \<Rightarrow> uuid \<times> string \<times> sqltime" where
  "item_key x = (ip_DeviceID x, ip_ClientID x, tv (ip_CapturedAt x))"

lemma insert_pings_run:
  assumes "faults d = []" and "insert_pings now ids n items d = (Inr rows, d')"
  shows "d' = d\<lparr>pings := pings d @ rows\<rparr> \<and>
    set (map ping_key (pings d')) = set (map ping_key (pings d)) \<union> item_key ` set items \<and>
    (\<forall>r\<in>set rows. \<exists>x\<in>set items. Ping_CircleID r = ip_CircleID x \<and> Ping_DeviceID r = ip_DeviceID x \<and>
       Ping_Ciphertext r = ip_Ciphertext x \<and> ping_key r = item_key x \<and> ping_key r \<notin> set (map ping_key (pings d)))"
  using assms
proof (induction items arbitrary: d rows n)
  case Nil
  then show ?case by (simp add: ret_def)
next
  case (Cons x items)
  let ?row = "\<lparr>Ping_ID = ids n, Ping_CircleID = ip_CircleID x, Ping_DeviceID = ip_DeviceID x,
     Ping_ClientID = ip_ClientID x, Ping_Nonce = ip_Nonce x, Ping_Ciphertext = ip_Ciphertext x,
     Ping_CapturedAt = tv (ip_CapturedAt x), Ping_ReceivedAt = tv now, Ping_ExpiresAt = map_option tv (ip_ExpiresAt x)\<rparr>"
  have key: "ping_key ?row = item_key x" by (simp add: ping_key_def item_key_def)
  have keys: "item_key ` set (x # items) = insert (item_key x) (item_key ` set items)" by simp
  show ?case
  proof (cases "item_key x \<in> set (map ping_key (pings d))")
    case True
    then have "insert_one now (ids n) x d = (Inl NoRows, d)"
      using Cons.prems(1) by (simp add: insert_one_def InsertPing_def item_key_def)
    then have "insert_pings now ids (Suc n) items d = (Inr rows, d')"
      using Cons.prems(2) by (simp add: tryq_def IsNotFound_def)
    note IH = Cons.IH [OF Cons.prems(1) this]
    have "set (map ping_key (pings d')) = set (map ping_key (pings d)) \<union> item_key ` set (x # items)"
      using IH True unfolding keys by blast
    then show ?thesis using IH by (meson list.set_intros(2))
  next
    case False
    then have "insert_one now (ids n) x d = (Inr ?row, d\<lparr>pings := pings d @ [?row]\<rparr>) \<or> insert_one now (ids n) x d = (Inl Constraint, d)"
      using Cons.prems(1) by (auto simp: insert_one_def InsertPing_def item_key_def Let_def)
    then obtain rs where i: "insert_pings now ids (Suc n) items (d\<lparr>pings := pings d @ [?row]\<rparr>) = (Inr rs, d')"
      and rows: "rows = ?row # rs"
      using Cons.prems(2) by (auto simp: tryq_def bindm_def ret_def fail_def IsNotFound_def split: sum.splits prod.splits)
    have f: "faults (d\<lparr>pings := pings d @ [?row]\<rparr>) = []" using Cons.prems(1) by simp
    note IH = Cons.IH [OF f i]
    have new: "set (map ping_key (pings (d\<lparr>pings := pings d @ [?row]\<rparr>))) = insert (item_key x) (set (map ping_key (pings d)))"
      using key by simp
    show ?thesis
    proof (intro conjI ballI)
      show "d' = d\<lparr>pings := pings d @ rows\<rparr>" using IH rows by simp
      show "set (map ping_key (pings d')) = set (map ping_key (pings d)) \<union> item_key ` set (x # items)"
        using IH unfolding keys new by blast
      fix r assume "r \<in> set rows"
      then consider "r = ?row" | "r \<in> set rs" using rows by auto
      then show "\<exists>y\<in>set (x # items). Ping_CircleID r = ip_CircleID y \<and> Ping_DeviceID r = ip_DeviceID y \<and>
         Ping_Ciphertext r = ip_Ciphertext y \<and> ping_key r = item_key y \<and> ping_key r \<notin> set (map ping_key (pings d))"
      proof cases
        case 1
        then show ?thesis using key False by (intro bexI [of _ x]) simp_all
      next
        case 2
        then show ?thesis using IH unfolding new by (meson insert_iff list.set_intros(2))
      qed
    qed
  qed
qed

lemma insert_pings_again:
  assumes "faults d = []" and "item_key ` set items \<subseteq> set (map ping_key (pings d))"
  shows "insert_pings now ids n items d = (Inr [], d)"
  using assms
proof (induction items arbitrary: n)
  case (Cons x items)
  then have "insert_one now (ids n) x d = (Inl NoRows, d)"
    by (simp add: insert_one_def InsertPing_def item_key_def)
  then show ?case using Cons by (simp add: tryq_def IsNotFound_def)
qed (simp add: ret_def)

lemma publish_all_run: "\<exists>h. foldr publishPing rows k w = k (w\<lparr>w_hub := h\<rparr>)"
proof (induction rows arbitrary: w)
  case Nil
  show ?case by (rule exI [of _ "w_hub w"]) simp
next
  case (Cons r rows)
  let ?ev = "\<lparr>Event_Type = ''ping'', Event_CircleID = Ping_CircleID r, Event_Payload = Some (PayloadPing r)\<rparr>"
  have "foldr publishPing (r # rows) k w = foldr publishPing rows k (w\<lparr>w_hub := Publish ?ev (w_hub w)\<rparr>)"
    by (simp add: publishPing_def publish_def hub_do_def on_hub_def run_def)
  with Cons [of "w\<lparr>w_hub := Publish ?ev (w_hub w)\<rparr>"] show ?case by auto
qed

lemma ping_tx_run:
  assumes "faults d = []"
  shows "ping_tx rq ids items d = (case insert_pings (rq_now rq) ids 0 items d of
     (Inl e, _) \<Rightarrow> (Inl e, d)
   | (Inr rows, d1) \<Rightarrow> (Inr rows, snd (TouchDevice (rq_now rq) (rq_device rq) d1)))"
    and "insert_pings (rq_now rq) ids 0 items d = (Inr rows, d1) \<Longrightarrow> faults d1 = []"
proof -
  have f: "faults (snd (insert_pings now ids n items d)) = []" for now n
    using presD [of "\<lambda>d. faults d = []" "insert_pings now ids n items" d] assms
  proof -
    have "pres (\<lambda>d. faults d = []) (insert_pings now ids n items)"
    proof (induction items arbitrary: n)
      case (Cons x items)
      have "pres (\<lambda>d. faults d = []) (insert_one now i x)" for i
        by (auto simp: pres_def insert_one_def InsertPing_def Let_def)
      then show ?case unfolding insert_pings.simps by (intro pres_rules Cons.IH)
    qed (simp add: pres_rules)
    then show ?thesis using assms by (rule presD)
  qed
  then show "insert_pings (rq_now rq) ids 0 items d = (Inr rows, d1) \<Longrightarrow> faults d1 = []" by (metis snd_conv)
  obtain r d1 where i: "insert_pings (rq_now rq) ids 0 items d = (r, d1)" by (cases "insert_pings (rq_now rq) ids 0 items d")
  have d1: "faults d1 = []" using f [of "rq_now rq" 0] i by simp
  let ?body = "bindm (insert_pings (rq_now rq) ids 0 items) (\<lambda>ins. bindm (TouchDevice (rq_now rq) (rq_device rq)) (\<lambda>_. ret ins))"
  have "withSQLiteTx (\<lambda>e. e) ?body d = (case fst (?body d) of Inl e \<Rightarrow> (Inl e, d) | Inr x \<Rightarrow> (Inr x, snd (?body d)))"
    by (rule withSQLiteTx_nofault [OF assms]) (use i d1 in \<open>auto simp: bindm_def TouchDevice_def ret_def split: sum.split\<close>)
  then show "ping_tx rq ids items d = (case insert_pings (rq_now rq) ids 0 items d of
     (Inl e, _) \<Rightarrow> (Inl e, d)
   | (Inr rows, d1) \<Rightarrow> (Inr rows, snd (TouchDevice (rq_now rq) (rq_device rq) d1)))"
    using i d1 by (cases r) (simp_all add: ping_tx_def bindm_def TouchDevice_def ret_def)
qed

lemma memo_ok_Nil [simp]: "memo_ok ms u []"
  by (simp add: memo_ok_def)

lemma handlePingBatch_success:
  assumes f: "faults (w_db w) = []"
    and ok: "handlePingBatch srv rq ids (Inr ps) w = (Inr (st, res), w')"
  shows "\<exists>items rows. prepared srv rq (circle_members (w_db w)) 0 ps = Inr items \<and> st = 200 \<and>
    res = \<lparr>accepted = length ps, stored = length rows, duplicate = length ps - length rows\<rparr> \<and>
    pings (w_db w') = pings (w_db w) @ rows \<and>
    set (map ping_key (pings (w_db w'))) = set (map ping_key (pings (w_db w))) \<union> item_key ` set items \<and>
    (\<forall>r\<in>set rows. is_member (circle_members (w_db w)) (rq_user rq) (Ping_CircleID r) \<and>
       Ping_DeviceID r = rq_device rq \<and> ping_key r \<notin> set (map ping_key (pings (w_db w)))) \<and>
    circle_members (w_db w') = circle_members (w_db w) \<and> faults (w_db w') = []"
proof -
  let ?d = "w_db w"
  have p: "prepare_pings srv rq 0 [] ps w = (prepared srv rq (circle_members ?d) 0 ps, w)"
    by (rule prepare_run [OF f]) simp
  from ok obtain items where items: "prepared srv rq (circle_members ?d) 0 ps = Inr items"
    by (cases "prepared srv rq (circle_members ?d) 0 ps")
      (auto simp: handlePingBatch_def decoded_def p handler_run_defs split: if_splits)
  obtain r d1 where i: "insert_pings (rq_now rq) ids 0 items ?d = (r, d1)" by (cases "insert_pings (rq_now rq) ids 0 items ?d")
  have tx: "ping_tx rq ids items ?d = (case r of Inl e \<Rightarrow> (Inl e, ?d) | Inr rows \<Rightarrow> (Inr rows, snd (TouchDevice (rq_now rq) (rq_device rq) d1)))"
    using ping_tx_run(1) [OF f, of rq ids items] i by (cases r) simp_all
  from ok items obtain rows where r: "r = Inr rows"
    by (cases r) (auto simp: handlePingBatch_def decoded_def p handler_run_defs tx split: if_splits)
  have d1: "faults d1 = []" using ping_tx_run(2) [OF f] i r by simp
  let ?k = "respond 200 \<lparr>accepted = length ps, stored = length rows, duplicate = length ps - length rows\<rparr>"
  let ?w1 = "w\<lparr>w_db := snd (TouchDevice (rq_now rq) (rq_device rq) d1)\<rparr>"
  obtain h where h: "foldr publishPing rows ?k ?w1 = ?k (?w1\<lparr>w_hub := h\<rparr>)" using publish_all_run by blast
  have "handlePingBatch srv rq ids (Inr ps) w = foldr publishPing rows ?k ?w1"
    using ok by (auto simp: handlePingBatch_def decoded_def p items handler_run_defs tx r split: if_splits)
  then have w': "st = 200" "res = \<lparr>accepted = length ps, stored = length rows, duplicate = length ps - length rows\<rparr>"
    "w_db w' = snd (TouchDevice (rq_now rq) (rq_device rq) d1)"
    using ok h by (auto simp: respond_def ret_def)
  note I = insert_pings_run [OF f i [unfolded r]] and P = prepared_items [OF items]
  have touch: "pings (w_db w') = pings d1" "circle_members (w_db w') = circle_members d1" "faults (w_db w') = []"
    using d1 by (simp_all add: w'(3) TouchDevice_def)
  have d1': "d1 = ?d\<lparr>pings := pings ?d @ rows\<rparr>" using I by blast
  have new: "is_member (circle_members ?d) (rq_user rq) (Ping_CircleID r) \<and> Ping_DeviceID r = rq_device rq \<and>
      ping_key r \<notin> set (map ping_key (pings ?d))" if "r \<in> set rows" for r
  proof -
    from I that obtain x where "x \<in> set items" "Ping_CircleID r = ip_CircleID x" "Ping_DeviceID r = ip_DeviceID x"
      "ping_key r \<notin> set (map ping_key (pings ?d))" by blast
    with P show ?thesis by simp
  qed
  have "pings (w_db w') = pings ?d @ rows" "circle_members (w_db w') = circle_members ?d" using touch d1' by simp_all
  moreover have "set (map ping_key (pings (w_db w'))) = set (map ping_key (pings ?d)) \<union> item_key ` set items"
    unfolding touch(1) using I by blast
  ultimately show ?thesis using items w'(1,2) touch(3) new by blast
qed

lemma handlePingBatch_replay:
  assumes f: "faults (w_db w) = []"
    and ok: "handlePingBatch srv rq ids (Inr ps) w = (Inr (st, res), w')"
  shows "\<exists>w2. handlePingBatch srv rq ids' (Inr ps) w' = (Inr (200, \<lparr>accepted = length ps, stored = 0, duplicate = length ps\<rparr>), w2) \<and>
    pings (w_db w2) = pings (w_db w') \<and> w_hub w2 = w_hub w'"
proof -
  from handlePingBatch_success [OF assms] obtain items rows where
    items: "prepared srv rq (circle_members (w_db w)) 0 ps = Inr items"
    and keys: "set (map ping_key (pings (w_db w'))) = set (map ping_key (pings (w_db w))) \<union> item_key ` set items"
    and m: "circle_members (w_db w') = circle_members (w_db w)" and f': "faults (w_db w') = []" by blast
  have p: "prepare_pings srv rq 0 [] ps w' = (Inr items, w')" using prepare_run [OF f', of rq "[]" srv 0 ps] items m by simp
  have sub: "item_key ` set items \<subseteq> set (map ping_key (pings (w_db w')))" using keys by blast
  have "ping_tx rq ids' items (w_db w') = (Inr [], snd (TouchDevice (rq_now rq) (rq_device rq) (w_db w')))"
    using ping_tx_run(1) [OF f', of rq ids' items] insert_pings_again [OF f' sub] by simp
  moreover have "ps \<noteq> [] \<and> \<not> length ps > maxBatchPings"
    using ok by (auto simp: handlePingBatch_def decoded_def fail_def split: if_splits)
  ultimately show ?thesis using f'
    by (simp add: handlePingBatch_def decoded_def p handler_run_defs TouchDevice_def)
qed

section \<open>Places\<close>

text \<open>
  Two writers that both read version \<open>v\<close> of a place: whoever comes second is refused, whatever
  happens to the first in between is not overwritten.
\<close>

lemma find_update_place_gone:
  assumes "\<forall>p\<in>set ps. Q p \<longrightarrow> P p" and "\<forall>p. P p \<longrightarrow> \<not> Q (f p)"
  shows "List.find Q (update_where P f ps) = None"
  using assms by (auto simp: find_None_all set_update_where)

lemma UpdatePlace_once:
  assumes "faults d = []" and "UpdatePlace now i c ct au ver d = (Inr p, d')"
  shows "UpdatePlace now' i c ct' au' ver d' = (Inl NoRows, d')" and "Place_Version p = ver + 1"
    and "p \<in> set (places_enc d')" and "Place_Ciphertext p = ct" and "faults d' = []"
proof -
  let ?P = "\<lambda>p. live_place i c p \<and> Place_Version p = ver"
  let ?f = "\<lambda>p. p\<lparr>Place_Ciphertext := ct, Place_Version := Place_Version p + 1, Place_UpdatedBy := au, Place_UpdatedAt := tv now\<rparr>"
  from assms obtain q where q: "List.find ?P (places_enc d) = Some q" and p: "p = ?f q"
    and d': "d' = d\<lparr>places_enc := update_where ?P ?f (places_enc d)\<rparr>"
    by (auto simp: UpdatePlace_def update_place_def scanPlace_def split: option.splits if_splits)
  have "List.find ?P (places_enc d') = None"
    unfolding d' by (simp add: find_update_place_gone)
  then show "UpdatePlace now' i c ct' au' ver d' = (Inl NoRows, d')"
    using assms(1) by (simp add: UpdatePlace_def update_place_def d')
  have q': "q \<in> set (places_enc d)" "?P q" using find_Some_in [OF q] by simp_all
  then show "Place_Version p = ver + 1" "Place_Ciphertext p = ct" "faults d' = []" using p d' assms(1) by simp_all
  show "p \<in> set (places_enc d')" unfolding d' p using q' by (force simp: set_update_where)
qed

lemma handleUpdatePlace_run:
  assumes "faults (w_db w) = []"
  shows "handleUpdatePlace rq (Some i) (Inr req) m w =
    (case decodeBlob (place_req_Ciphertext req) maxBlobBytes of Inl e \<Rightarrow> (Inl (BadRequest (blob_msg ''ciphertext'' e)), w)
     | Inr ct \<Rightarrow> (case UpdatePlace (rq_now rq) i (Member_CircleID m) ct (Some (Member_UserID m)) (place_req_Version req) (w_db w) of
         (Inl e, d) \<Rightarrow> (Inl (if IsNotFound e then Conflict ''place not found or version mismatch; re-sync and retry'' else Internal), w\<lparr>w_db := d\<rparr>)
       | (Inr p, d) \<Rightarrow> (Inr (200, placeToDTO p), w\<lparr>w_db := d, w_hub := Publish \<lparr>Event_Type = ''place_updated'',
            Event_CircleID = Member_CircleID m, Event_Payload = None\<rparr> (w_hub w)\<rparr>)))"
  by (simp add: handleUpdatePlace_def path_id_def decoded_def blob_def publish_def hub_do_def on_hub_def handler_run_defs
      split: sum.split prod.split)

lemma place_second_writer_refused:
  assumes "faults (w_db w) = []"
    and "handleUpdatePlace rq (Some i) (Inr req) m w = (Inr (st, dto), w1)"
    and "Member_CircleID m' = Member_CircleID m" and "place_req_Version req' = place_req_Version req"
    and "\<exists>b. decodeBlob (place_req_Ciphertext req') maxBlobBytes = Inr b"
  shows "st = 200 \<and> place_Version dto = place_req_Version req + 1 \<and>
    handleUpdatePlace rq' (Some i) (Inr req') m' w1 =
      (Inl (Conflict ''place not found or version mismatch; re-sync and retry''), w1)"
proof -
  from assms(1,2) obtain ct p d where u: "UpdatePlace (rq_now rq) i (Member_CircleID m) ct (Some (Member_UserID m))
      (place_req_Version req) (w_db w) = (Inr p, d)" and r: "st = 200" "dto = placeToDTO p" "w_db w1 = d"
    by (auto simp: handleUpdatePlace_run split: sum.splits prod.splits)
  note once = UpdatePlace_once [OF assms(1) u]
  have "w1\<lparr>w_db := d\<rparr> = w1" using r(3) by simp
  then show ?thesis using assms(3-5) r once by (auto simp: handleUpdatePlace_run placeToDTO_def IsNotFound_def)
qed

end
