(* ===== verification/Aul_Sharing.thy ===== *)
theory Aul_Sharing
  imports Aul_Handlers
begin

text \<open>
  Share links (one viewing device, and only while live), notification mutes, and the
  distribution of key envelopes.
\<close>

section \<open>Share links\<close>

lemma clampShareTTL_bounds: "minShareTTL \<le> clampShareTTL n \<and> clampShareTTL n \<le> maxShareTTL"
proof -
  have "i64 (n * Second) = n * Second" if "0 < n" "n \<le> maxShareTTL div Second"
    using that by (intro i64_id) (simp add: in_i64_def duration_defs maxShareTTL_def)
  then show ?thesis
    by (auto simp: clampShareTTL_def minShareTTL_def maxShareTTL_def defaultShareTTL_def duration_defs)
qed

lemma find_share:
  assumes "db_ok d" and "s \<in> set (share_sessions d)"
  shows "List.find (share_is (Share_ID s)) (share_sessions d) = Some s"
    and "Share_ViewerTokenHash s = None \<Longrightarrow> List.find (unbound_share (Share_ID s)) (share_sessions d) = Some s"
  by (rule find_Some_unique [of Share_ID], use assms in \<open>simp_all add: share_is_def unbound_share_def\<close>)+

text \<open>The answer to a viewer, without driver failures, once the link is known.\<close>

definition other_device :: "Server \<Rightarrow> string option \<Rightarrow> bytes \<Rightarrow> bool" where
  "other_device srv cookie h \<longleftrightarrow> (\<forall>c. cookie = Some c \<longrightarrow> HashTokenBytes (srv_auth srv) c \<noteq> h)"

lemma GetShareSession_run:
  assumes "faults d = []"
  shows "GetShareSession i d = (case List.find (share_is i) (share_sessions d) of None \<Rightarrow> Inl NoRows | Some s \<Rightarrow> Inr s, d)"
    and "GetSharePosition i d = (case List.find (position_is i) (share_positions d) of None \<Rightarrow> Inl NoRows | Some p \<Rightarrow> Inr p, d)"
  using assms by (simp_all add: GetShareSession_def GetSharePosition_def)

lemma share_refused_elsewhere:
  assumes "faults (w_db w) = []" and "List.find (share_is i) (share_sessions (w_db w)) = Some s"
    and "Share_ViewerTokenHash s = Some h" and "other_device srv cookie h"
  shows "handleGetShare srv now tok cookie (Some i) w =
    (Inl (if shareLive s now then Forbidden ''this link is already open on another device'' else Gone shareGoneMsg), w)"
  using assms by (cases cookie)
    (auto simp: handleGetShare_def handler_run_defs GetShareSession_run bindShareViewer_def viewer_check_def other_device_def)

lemma share_open_again:
  assumes "faults (w_db w) = []" and "List.find (share_is i) (share_sessions (w_db w)) = Some s"
    and "Share_ViewerTokenHash s = Some (HashTokenBytes (srv_auth srv) c)" and "shareLive s now"
  shows "\<exists>v. handleGetShare srv now tok (Some c) (Some i) w = (Inr (200, v), w) \<and> view_SetCookie v = None"
  using assms by (cases "List.find (position_is (Share_ID s)) (share_positions (w_db w))")
    (auto simp: handleGetShare_def handler_run_defs GetShareSession_run bindShareViewer_def viewer_check_def IsNotFound_def)

lemma share_first_viewer:
  assumes ok: "db_ok (w_db w)" and f: "faults (w_db w) = []"
    and g: "handleGetShare srv now tok cookie (Some i) w = (Inr (st, v), w1)"
  shows "\<exists>s c. List.find (share_is i) (share_sessions (w_db w1)) = Some s \<and> shareLive s now \<and>
    Share_ViewerTokenHash s = Some (HashTokenBytes (srv_auth srv) c) \<and> faults (w_db w1) = [] \<and>
    (view_SetCookie v = Some c \<or> view_SetCookie v = None \<and> cookie = Some c \<and> w1 = w)"
proof -
  from g f obtain s where s: "List.find (share_is i) (share_sessions (w_db w)) = Some s" and live: "shareLive s now"
    by (cases "List.find (share_is i) (share_sessions (w_db w))")
      (auto simp: handleGetShare_def handler_run_defs GetShareSession_run IsNotFound_def split: if_splits)
  have in_s: "s \<in> set (share_sessions (w_db w))" "Share_ID s = i" using find_Some_in [OF s] by (auto simp: share_is_def)
  show ?thesis
  proof (cases "Share_ViewerTokenHash s")
    case (Some h)
    have "\<not> other_device srv cookie h" using share_refused_elsewhere [OF f s Some] g by auto
    then obtain c where c: "cookie = Some c" "HashTokenBytes (srv_auth srv) c = h" by (auto simp: other_device_def)
    then show ?thesis using share_open_again [OF f s _ live, of srv c tok] g Some s live f by auto
  next
    case None
    let ?h = "HashTokenBytes (srv_auth srv)"
    have u: "List.find (unbound_share i) (share_sessions (w_db w)) = Some s"
      using find_share(2) [OF ok in_s(1) None] in_s(2) by simp
    let ?d = "\<lambda>t. (w_db w)\<lparr>share_sessions := update_where (unbound_share i) (bind_viewer now (?h t)) (share_sessions (w_db w))\<rparr>"
    have b: "BindShareViewer now i (?h t) (w_db w) = (Inr (bind_viewer now (?h t) s), ?d t)" for t
      using f u by (simp add: BindShareViewer_def update_share_def)
    have p: "GetSharePosition j (?d t) = (case List.find (position_is j) (share_positions (w_db w)) of
        None \<Rightarrow> Inl NoRows | Some p \<Rightarrow> Inr p, ?d t)" for j t
      using f by (simp add: GetShareSession_run)
    from g obtain t where t: "tok = Some t" and v: "view_SetCookie v = Some t" and w1: "w1 = w\<lparr>w_db := ?d t\<rparr>"
      using s live None in_s(2)
      by (cases tok; cases "List.find (position_is i) (share_positions (w_db w))")
        (auto simp: handleGetShare_def handler_run_defs GetShareSession_run f bindShareViewer_def b p bind_viewer_def IsNotFound_def)
    have "db_ok (?d t)" using presD2 [OF BindShareViewer_ok b ok] .
    moreover have "bind_viewer now (?h t) s \<in> set (share_sessions (?d t))"
      using in_s None by (force simp: set_update_where unbound_share_def)
    ultimately have "List.find (share_is i) (share_sessions (?d t)) = Some (bind_viewer now (?h t) s)"
      using find_share(1) in_s(2) by (fastforce simp: bind_viewer_def)
    then show ?thesis using v w1 live f by (auto simp: bind_viewer_def shareLive_def)
  qed
qed

lemma share_dead:
  assumes "faults (w_db w) = []" and "List.find (share_is i) (share_sessions (w_db w)) = Some s" and "\<not> shareLive s now"
  shows "handleGetShare srv now tok cookie (Some i) w = (Inl (Gone shareGoneMsg), w)"
  using assms by (simp add: handleGetShare_def handler_run_defs GetShareSession_run)

lemma share_revoked_is_gone:
  assumes ok: "db_ok (w_db w)" and f: "faults (w_db w) = []"
    and r: "handleRevokeShare rq (Some i) w = (Inr x, w1)"
  shows "handleGetShare srv now tok cookie (Some i) w1 = (Inl (Gone shareGoneMsg), w1)"
    and "\<exists>e. handleSharePing rq' (Some i) body w1 = (Inl e, w1) \<and> status_of e \<in> {404, 410}"
proof -
  let ?P = "owned_share i (rq_user rq)"
  let ?d = "(w_db w)\<lparr>share_sessions := update_where ?P (revoke_share (rq_now rq)) (share_sessions (w_db w))\<rparr>"
  from r obtain s where s: "List.find ?P (share_sessions (w_db w)) = Some s" and w1: "w1 = w\<lparr>w_db := ?d\<rparr>"
    using f by (auto simp: handleRevokeShare_def handler_run_defs RevokeShareSession_def update_share_def IsNotFound_def share_not_found_def
        split: option.splits)
  have "RevokeShareSession (rq_now rq) i (rq_user rq) (w_db w) = (Inr (revoke_share (rq_now rq) s), ?d)"
    using f s by (simp add: RevokeShareSession_def update_share_def)
  then have ok1: "db_ok ?d" using presD2 [OF RevokeShareSession_ok] ok by blast
  have in_s: "s \<in> set (share_sessions (w_db w))" "Share_ID s = i" "?P s" using find_Some_in [OF s] by (auto simp: owned_share_def)
  then have "revoke_share (rq_now rq) s \<in> set (share_sessions ?d)" by (force simp: set_update_where)
  from find_share(1) [OF ok1 this] have s1: "List.find (share_is i) (share_sessions (w_db w1)) = Some (revoke_share (rq_now rq) s)"
    using in_s(2) w1 by (simp add: revoke_share_def)
  have dead: "\<not> shareLive (revoke_share (rq_now rq) s) t" for t
    by (simp add: shareLive_def revoke_share_def split: option.split)
  have f1: "faults (w_db w1) = []" using f w1 by simp
  show "handleGetShare srv now tok cookie (Some i) w1 = (Inl (Gone shareGoneMsg), w1)"
    by (rule share_dead [OF f1 s1 dead])
  have only: "t = revoke_share (rq_now rq) s" if "t \<in> set (share_sessions (w_db w1))" "Share_ID t = i" for t
    using find_share(1) [of "w_db w1" t] ok1 that s1 w1 by simp
  have "GetShareSessionForOwner i (rq_user rq') (w_db w1) = (Inl NoRows, w_db w1) \<or>
      GetShareSessionForOwner i (rq_user rq') (w_db w1) = (Inr (revoke_share (rq_now rq) s), w_db w1)"
    using f1 by (cases "List.find (owned_share i (rq_user rq')) (share_sessions (w_db w1))")
      (auto simp: GetShareSessionForOwner_def owned_share_def dest!: find_Some_in only)
  then show "\<exists>e. handleSharePing rq' (Some i) body w1 = (Inl e, w1) \<and> status_of e \<in> {404, 410}"
    using dead by (auto simp: handleSharePing_def loadOwnedShare_def handler_run_defs IsNotFound_def share_not_found_def)
qed

section \<open>Notification mutes\<close>

definition mute_row :: "gotime \<Rightarrow> uuid \<Rightarrow> uuid \<Rightarrow> uuid option \<Rightarrow> NotificationMute" where
  "mute_row now u c x = \<lparr>Mute_UserID = u, Mute_CircleID = c, Mute_MutedUserID = x, Mute_CreatedAt = tv now\<rparr>"

lemma insert_mutes_run:
  assumes "faults d = []" and "distinct xs" and "\<forall>x\<in>set xs. (u, c, x) \<notin> set (map mute_key (notification_mutes d))"
    and "insert_mutes now u c xs d = (Inr (), d')"
  shows "d' = d\<lparr>notification_mutes := notification_mutes d @ map (mute_row now u c) xs\<rparr>"
  using assms
proof (induction xs arbitrary: d)
  case (Cons x xs)
  let ?d = "d\<lparr>notification_mutes := notification_mutes d @ [mute_row now u c x]\<rparr>"
  have i: "InsertMute now u c x d = (Inr (), ?d) \<or> InsertMute now u c x d = (Inl Constraint, d)"
    using Cons.prems(1,3) by (auto simp: InsertMute_def mute_row_def)
  then have "insert_mutes now u c xs ?d = (Inr (), d')"
    using Cons.prems(4) by (auto simp: bindm_def)
  with Cons.prems have "d' = ?d\<lparr>notification_mutes := notification_mutes ?d @ map (mute_row now u c) xs\<rparr>"
    by (intro Cons.IH) (auto simp: mute_row_def mute_key_def)
  then show ?case by simp
qed (simp add: ret_def)

lemma dedupe_mutes_distinct:
  assumes "dedupe_mutes me seen is = Some ids" and "distinct seen" and "me \<notin> set seen"
  shows "distinct ids \<and> me \<notin> set ids \<and> set ids = set seen \<union> set is"
  using assms by (induction me seen "is" rule: dedupe_mutes.induct) (auto split: if_splits)

lemma handleSetMutes_run:
  assumes f: "faults (w_db w) = []"
    and s: "handleSetMutes rq (Inr req) m w = (Inr (st, dto), w1)"
  shows "\<exists>ids. st = 200 \<and> dto = \<lparr>CircleMuted = CircleMuted req, MutedUserIDs = ids\<rparr> \<and> distinct ids \<and>
    set ids = set (MutedUserIDs req) \<and> w_hub w1 = w_hub w \<and>
    w_db w1 = (w_db w)\<lparr>notification_mutes :=
      delete_where (\<lambda>x. Mute_UserID x = Member_UserID m \<and> Mute_CircleID x = Member_CircleID m) (notification_mutes (w_db w)) @
      map (mute_row (rq_now rq) (Member_UserID m) (Member_CircleID m)) ((if CircleMuted req then [None] else []) @ map Some ids)\<rparr>"
proof -
  let ?u = "Member_UserID m" and ?c = "Member_CircleID m" and ?d = "w_db w"
  from s obtain ids where ids: "dedupe_mutes ?u [] (MutedUserIDs req) = Some ids"
    by (cases "dedupe_mutes ?u [] (MutedUserIDs req)") (auto simp: handleSetMutes_def decoded_def fail_def split: if_splits)
  note distinct = dedupe_mutes_distinct [OF ids]
  let ?xs = "(if CircleMuted req then [None] else []) @ map Some ids"
  let ?d1 = "?d\<lparr>notification_mutes := delete_where (\<lambda>x. Mute_UserID x = ?u \<and> Mute_CircleID x = ?c) (notification_mutes ?d)\<rparr>"
  have cnt: "CountMembersIn ?c ids ?d = (Inr n, ?d)" if "n = (if ids = [] then 0 else count_where
      (\<lambda>x. Member_CircleID x = ?c \<and> Member_UserID x \<in> set ids) (circle_members ?d))" for n
    using f that by (simp add: CountMembersIn_def ret_def)
  let ?body = "bindm (DeleteMutes ?u ?c) (\<lambda>_. insert_mutes (rq_now rq) ?u ?c ?xs)"
  have body: "?body ?d = insert_mutes (rq_now rq) ?u ?c ?xs ?d1" using f by (simp add: bindm_def DeleteMutes_def)
  have ff: "faults (snd (insert_mutes (rq_now rq) ?u ?c ys ?d1)) = []" for ys
  proof -
    have "pres (\<lambda>d. faults d = []) (insert_mutes now u c ys)" for now u c
    proof (induction ys)
      case (Cons y ys)
      have "pres (\<lambda>d. faults d = []) (InsertMute now u c y)" by (auto simp: pres_def InsertMute_def)
      then show ?case unfolding insert_mutes.simps by (intro pres_rules Cons.IH)
    qed (simp add: pres_rules)
    then show ?thesis by (rule presD) (use f in simp)
  qed
  obtain r d2 where i: "insert_mutes (rq_now rq) ?u ?c ?xs ?d1 = (r, d2)" by (cases "insert_mutes (rq_now rq) ?u ?c ?xs ?d1")
  have tx: "mutes_tx (rq_now rq) ?u ?c (CircleMuted req) ids ?d = (case r of Inl e \<Rightarrow> (Inl e, ?d) | Inr x \<Rightarrow> (Inr x, d2))"
    unfolding mutes_tx_def
    by (rule withSQLiteTx_nofault [where fn = ?body and d = ?d and r = r and ?d2.0 = d2])
      (use f body i ff [of ?xs] in simp_all)
  from s have rr: "r = Inr ()" and w1: "st = 200" "dto = \<lparr>CircleMuted = CircleMuted req, MutedUserIDs = ids\<rparr>" "w1 = w\<lparr>w_db := d2\<rparr>"
    using tx by (cases r; auto simp: handleSetMutes_def decoded_def ids handler_run_defs cnt Let_def split: if_splits)+
  have "d2 = ?d1\<lparr>notification_mutes := notification_mutes ?d1 @ map (mute_row (rq_now rq) ?u ?c) ?xs\<rparr>"
  proof (rule insert_mutes_run)
    show "insert_mutes (rq_now rq) ?u ?c ?xs ?d1 = (Inr (), d2)" using i rr by simp
    show "distinct ?xs" using distinct by (auto simp: distinct_map)
    show "\<forall>x\<in>set ?xs. (?u, ?c, x) \<notin> set (map mute_key (notification_mutes ?d1))" by (auto simp: mute_key_def)
  qed (use f in simp)
  then show ?thesis using w1 distinct by auto
qed

lemma map_filter_Some [simp]: "List.map_filter (\<lambda>x. x) (map Some xs) = xs"
  by (induction xs) simp_all

lemma mutes_roundtrip_run:
  assumes "faults (w_db w) = []" and "handleSetMutes rq (Inr req) m w = (Inr (st, dto), w1)"
  shows "handleGetMutes m w1 = (Inr (200, dto), w1)"
proof -
  from handleSetMutes_run [OF assms] obtain ids where dto: "dto = \<lparr>CircleMuted = CircleMuted req, MutedUserIDs = ids\<rparr>"
    and w1: "w_db w1 = (w_db w)\<lparr>notification_mutes :=
      delete_where (\<lambda>x. Mute_UserID x = Member_UserID m \<and> Mute_CircleID x = Member_CircleID m) (notification_mutes (w_db w)) @
      map (mute_row (rq_now rq) (Member_UserID m) (Member_CircleID m)) ((if CircleMuted req then [None] else []) @ map Some ids)\<rparr>"
    by blast
  let ?xs = "(if CircleMuted req then [None] else []) @ map Some ids"
  let ?rows = "map (mute_row (rq_now rq) (Member_UserID m) (Member_CircleID m)) ?xs"
  have "filter (\<lambda>x. Mute_UserID x = Member_UserID m \<and> Mute_CircleID x = Member_CircleID m) (notification_mutes (w_db w1)) = ?rows"
    unfolding w1 by (auto simp: delete_where_def mute_row_def filter_empty_conv)
  moreover have "sort_key Mute_CreatedAt ?rows = ?rows"
    by (rule sort_key_id_if_sorted) (simp add: sorted_wrt_map mute_row_def sorted_map comp_def)
  moreover have "map Mute_MutedUserID ?rows = ?xs" by (simp add: mute_row_def comp_def)
  ultimately have "fst (ListMutes (Member_UserID m) (Member_CircleID m) (w_db w1)) = Inr ?xs"
    and "snd (ListMutes (Member_UserID m) (Member_CircleID m) (w_db w1)) = w_db w1"
    using assms(1) w1 by (simp_all add: ListMutes_def)
  then have "ListMutes (Member_UserID m) (Member_CircleID m) (w_db w1) = (Inr ?xs, w_db w1)" by (metis prod.collapse)
  then show ?thesis using dto
    by (simp add: handleGetMutes_def handler_run_defs mutesFromRows_def map_filter_simps)
qed

lemma muted_gets_no_push:
  assumes "faults (w_db w) = []" and "handleSetMutes rq (Inr req) m w = (Inr (st, dto), w1)"
    and "CircleMuted req \<or> sender \<in> set (MutedUserIDs req)"
    and "ListCirclePushSubscriptions (Member_CircleID m) sender (w_db w1) = (Inr subs, d)" and "p \<in> set subs"
  shows "Push_UserID p \<noteq> Member_UserID m"
proof -
  from handleSetMutes_run [OF assms(1,2)] obtain ids where ids: "set ids = set (MutedUserIDs req)"
    and w1: "w_db w1 = (w_db w)\<lparr>notification_mutes :=
      delete_where (\<lambda>x. Mute_UserID x = Member_UserID m \<and> Mute_CircleID x = Member_CircleID m) (notification_mutes (w_db w)) @
      map (mute_row (rq_now rq) (Member_UserID m) (Member_CircleID m)) ((if CircleMuted req then [None] else []) @ map Some ids)\<rparr>"
    by blast
  let ?x = "if CircleMuted req then None else Some sender"
  have "mute_row (rq_now rq) (Member_UserID m) (Member_CircleID m) ?x \<in> set (notification_mutes (w_db w1))"
    unfolding w1 using assms(3) ids by auto
  then have "muted_by (w_db w1) (Member_UserID m) (Member_CircleID m) sender"
    unfolding muted_by_def by (rule bexI [rotated]) (simp add: mute_row_def)
  moreover have "\<not> muted_by (w_db w1) (Push_UserID p) (Member_CircleID m) sender"
    using assms(1,4,5) w1 by (auto simp: ListCirclePushSubscriptions_def)
  ultimately show ?thesis by auto
qed

end
