(* ===== verification/Aul_Membership.thy ===== *)
theory Aul_Membership
  imports Aul_Sharing
begin

text \<open>
  Who belongs to a circle and what follows from it: key envelopes go to devices of members only,
  invitations admit as many people as they allow, a removed member is out at once, a deleted
  circle leaves nothing behind.
\<close>

section \<open>Key envelopes\<close>

definition waiting :: "uuid \<Rightarrow> db \<Rightarrow> uuid set" where
  "waiting c d = {Envelope_RecipientDeviceID e | e. e \<in> set (key_envelopes d) \<and> Envelope_CircleID e = c \<and>
     Envelope_ConsumedAt e = None}"

definition sent_by :: "uuid \<Rightarrow> uuid \<Rightarrow> uuid set \<Rightarrow> KeyEnvelope \<Rightarrow> bool" where
  "sent_by sender c valid e \<longleftrightarrow> Envelope_CircleID e = c \<and> Envelope_RecipientDeviceID e \<in> valid \<and>
     Envelope_SenderDeviceID e = Some sender \<and> Envelope_ConsumedAt e = None"

lemma waitingI:
  "e \<in> set (key_envelopes d) \<Longrightarrow> Envelope_CircleID e = c \<Longrightarrow> Envelope_ConsumedAt e = None \<Longrightarrow>
    Envelope_RecipientDeviceID e = q \<Longrightarrow> q \<in> waiting c d"
  by (auto simp: waiting_def)

lemma CreateKeyEnvelope_run:
  assumes f: "faults d = []" and c: "CreateKeyEnvelope now i c r (Some v) ct ep d = (Inr e, d')" and "r \<in> valid"
  shows "d' = d\<lparr>key_envelopes := key_envelopes d'\<rparr>" and "insert r (waiting c d) \<subseteq> waiting c d'"
    and "\<forall>e\<in>set (key_envelopes d'). e \<in> set (key_envelopes d) \<or> sent_by v c valid e"
proof -
  let ?P = "\<lambda>e. envelope_key e = (c, r, ep)"
  let ?f = "\<lambda>e. e\<lparr>Envelope_Ciphertext := ct, Envelope_SenderDeviceID := Some v, Envelope_CreatedAt := tv now, Envelope_ConsumedAt := None\<rparr>"
  let ?new = "\<lparr>Envelope_ID = i, Envelope_CircleID = c, Envelope_RecipientDeviceID = r, Envelope_SenderDeviceID = Some v,
     Envelope_Ciphertext = ct, Envelope_KeyEpoch = ep, Envelope_CreatedAt = tv now, Envelope_ConsumedAt = None\<rparr>"
  from f c consider (upd) x where "List.find ?P (key_envelopes d) = Some x"
      "d' = d\<lparr>key_envelopes := update_where ?P ?f (key_envelopes d)\<rparr>"
    | (new) "d' = d\<lparr>key_envelopes := key_envelopes d @ [?new]\<rparr>"
    by (auto simp: CreateKeyEnvelope_def Let_def split: if_splits option.splits)
  then have *: "d' = d\<lparr>key_envelopes := key_envelopes d'\<rparr> \<and> insert r (waiting c d) \<subseteq> waiting c d' \<and>
    (\<forall>e\<in>set (key_envelopes d'). e \<in> set (key_envelopes d) \<or> sent_by v c valid e)"
  proof cases
    case upd
    have x: "x \<in> set (key_envelopes d)" "?P x" using find_Some_in [OF upd(1)] by simp_all
    have rows: "?f e \<in> set (key_envelopes d')" if "e \<in> set (key_envelopes d)" "?P e" for e
      using that unfolding upd(2) by (force simp: set_update_where)
    have kept: "e \<in> set (key_envelopes d')" if "e \<in> set (key_envelopes d)" "\<not> ?P e" for e
      using that unfolding upd(2) by (force simp: set_update_where)
    have "q \<in> waiting c d'" if "q \<in> waiting c d" for q
    proof -
      from that obtain e where e: "e \<in> set (key_envelopes d)" "Envelope_RecipientDeviceID e = q" "Envelope_CircleID e = c"
        "Envelope_ConsumedAt e = None" by (auto simp: waiting_def)
      show ?thesis
      proof (cases "?P e")
        case True
        show ?thesis by (rule waitingI [OF rows [OF e(1) True]]) (simp_all add: e)
      next
        case False
        show ?thesis by (rule waitingI [OF kept [OF e(1) False]]) (simp_all add: e)
      qed
    qed
    moreover have "r \<in> waiting c d'" by (rule waitingI [OF rows [OF x]]) (use x(2) in \<open>simp_all add: envelope_key_def\<close>)
    ultimately show ?thesis using upd(2) assms(3)
      by (auto simp: set_update_where sent_by_def envelope_key_def)
  next
    case new
    have "?new \<in> set (key_envelopes d')" using new by simp
    from waitingI [OF this] have "r \<in> waiting c d'" by simp
    then show ?thesis using new assms(3) by (auto simp: waiting_def sent_by_def)
  qed
  then show "d' = d\<lparr>key_envelopes := key_envelopes d'\<rparr>" and "insert r (waiting c d) \<subseteq> waiting c d'"
    and "\<forall>e\<in>set (key_envelopes d'). e \<in> set (key_envelopes d) \<or> sent_by v c valid e" by blast+
qed

lemma post_envelopes_run:
  assumes "faults d = []" and "post_envelopes rq ids c ep valid i es d = (Inr n, d')"
  shows "n = i + length es \<and> d' = d\<lparr>key_envelopes := key_envelopes d'\<rparr> \<and>
    (\<forall>x\<in>set es. \<exists>r\<in>valid. kei_Recipient x = Some r \<and> r \<in> waiting c d') \<and> waiting c d \<subseteq> waiting c d' \<and>
    (\<forall>e\<in>set (key_envelopes d'). e \<in> set (key_envelopes d) \<or> sent_by (rq_device rq) c valid e)"
  using assms
proof (induction es arbitrary: d i)
  case Nil
  then show ?case by (simp add: ret_def)
next
  case (Cons x es)
  from Cons.prems(2) obtain r where r: "kei_Recipient x = Some r" "r \<in> valid"
    by (auto simp: fail_def split: option.splits if_splits)
  with Cons.prems(2) obtain ct k e d1 where c: "CreateKeyEnvelope (rq_now rq) (ids i) c r (Some (rq_device rq)) ct k d = (Inr e, d1)"
    and p: "post_envelopes rq ids c ep valid (Suc i) es d1 = (Inr n, d')"
    by (fastforce simp: fail_def tryq_def split: sum.splits prod.splits)
  note one = CreateKeyEnvelope_run [OF Cons.prems(1) c r(2)]
  have f1: "faults d1 = []" using Cons.prems(1) one(1) by (metis db.ext_inject db.surjective db.update_convs(9))
  note IH = Cons.IH [OF f1 p]
  have "d' = d\<lparr>key_envelopes := key_envelopes d'\<rparr>" using IH one(1) by (metis db.update_convs(9) db.surjective)
  moreover have "r \<in> waiting c d'" "waiting c d \<subseteq> waiting c d'" using IH one(2) by blast+
  ultimately show ?case using IH one(3) r by auto
qed

lemma withSQLiteTx_success:
  assumes "faults d = []" and "withSQLiteTx wrap fn d = (Inr x, d')"
  shows "\<exists>d2 bs. fn d = (Inr x, d2) \<and> d' = d2\<lparr>faults := bs\<rparr>"
proof -
  from assms obtain d2 r d3 where f: "fn d = (Inr x, d2)" and c: "stmt (ret ()) d2 = (Inr r, d3)" and d': "d' = d3"
    by (auto simp: withSQLiteTx_def ret_def split: prod.splits sum.splits)
  from c have "\<exists>bs. d3 = d2\<lparr>faults := bs\<rparr>" by (cases rule: stmt_cases) (auto simp: ret_def)
  with f d' show ?thesis by blast
qed

lemma Log_keeps_tables:
  assumes "Log b now e d = (r, d')"
  shows "key_envelopes d' = key_envelopes d \<and> circle_members d' = circle_members d \<and> invites d' = invites d \<and>
    (faults d = [] \<longrightarrow> faults d' = [])"
  using assms by (auto simp: Log_def WriteAudit_def exec_def stmt_def split: list.splits if_splits)

lemma in_circle_devices:
  "v \<in> set (sort_key Device_CreatedAt [v. v \<leftarrow> devices d, m \<leftarrow> circle_members d,
      Member_UserID m = Device_UserID v \<and> Member_CircleID m = c]) \<longleftrightarrow>
    v \<in> set (devices d) \<and> is_member (circle_members d) (Device_UserID v) c"
  by (auto simp: is_member_def member_is_def)

lemma handlePostKeyEnvelopes_success:
  assumes f: "faults (w_db w) = []"
    and p: "handlePostKeyEnvelopes srv rq ids (Inr (Some c, es)) w = (Inr (st, n), w')"
  shows "st = 201 \<and> n = length es \<and>
    (\<exists>m\<in>set (circle_members (w_db w)). member_is c (rq_user rq) m \<and> Member_Role m = ''owner'') \<and>
    (\<forall>x\<in>set es. \<exists>r. kei_Recipient x = Some r \<and> r \<in> waiting c (w_db w')) \<and>
    (\<forall>e\<in>set (key_envelopes (w_db w')). e \<in> set (key_envelopes (w_db w)) \<or>
      Envelope_CircleID e = c \<and> Envelope_SenderDeviceID e = Some (rq_device rq) \<and>
      (\<exists>v\<in>set (devices (w_db w)). Device_ID v = Envelope_RecipientDeviceID e \<and>
        is_member (circle_members (w_db w)) (Device_UserID v) c))"
proof -
  let ?d = "w_db w"
  let ?devs = "sort_key Device_CreatedAt [v. v \<leftarrow> devices ?d, m \<leftarrow> circle_members ?d,
      Member_UserID m = Device_UserID v \<and> Member_CircleID m = c]"
  let ?valid = "Device_ID ` set ?devs"
  have mem: "GetMembership c (rq_user rq) ?d = (case List.find (member_is c (rq_user rq)) (circle_members ?d) of
      None \<Rightarrow> Inl NoRows | Some m \<Rightarrow> Inr m, ?d)" using f by (simp add: GetMembership_def)
  have devs: "ListCircleDevices c ?d = (Inr ?devs, ?d)" using f by (simp add: ListCircleDevices_def)
  obtain rc where circ: "GetCircle c ?d = (rc, ?d)" using f by (auto simp: GetCircle_def)
  from p obtain m where m: "List.find (member_is c (rq_user rq)) (circle_members ?d) = Some m" and own: "Member_Role m = ''owner''"
    by (cases "List.find (member_is c (rq_user rq)) (circle_members ?d)")
      (auto simp: handlePostKeyEnvelopes_def decoded_def handler_run_defs mem IsNotFound_def split: if_splits)
  from p obtain ci where ci: "rc = Inr ci" using m own
    by (cases rc) (auto simp: handlePostKeyEnvelopes_def decoded_def handler_run_defs mem circ split: if_splits)
  let ?post = "post_envelopes rq ids c (Circle_KeyEpoch ci) ?valid 0 es"
  let ?tx = "withSQLiteTx (\<lambda>_. Internal) ?post"
  obtain r d1 where t: "?tx ?d = (r, d1)" by (cases "?tx ?d")
  have es: "es \<noteq> []" "\<not> length es > maxKeyEnvelopes"
    using p m own by (auto simp: handlePostKeyEnvelopes_def decoded_def handler_run_defs mem split: if_splits)
  have "\<exists>w2. handlePostKeyEnvelopes srv rq ids (Inr (Some c, es)) w =
      (case r of Inl e \<Rightarrow> (Inl e, w2) | Inr k \<Rightarrow> (Inr (201, k), w2)) \<and>
      (\<forall>k. r = Inr k \<longrightarrow> key_envelopes (w_db w2) = key_envelopes d1)"
    using m own ci t es
    by (cases r) (simp_all add: handlePostKeyEnvelopes_def decoded_def handler_run_defs mem circ devs audit_def publish_def
        hub_do_def on_hub_def split: prod.split,
      blast dest: Log_keeps_tables)
  then have r: "r = Inr n" and st: "st = 201" and kenv: "key_envelopes (w_db w') = key_envelopes d1"
    using p by (cases r; auto)+
  from withSQLiteTx_success [OF f t [unfolded r]] obtain d2 bs where b: "?post ?d = (Inr n, d2)" "d1 = d2\<lparr>faults := bs\<rparr>"
    by blast
  note run = post_envelopes_run [OF f b(1)]
  have k: "key_envelopes (w_db w') = key_envelopes d2" using kenv b(2) by simp
  then have wait: "waiting c (w_db w') = waiting c d2" by (simp add: waiting_def)
  have "Envelope_CircleID e = c \<and> Envelope_SenderDeviceID e = Some (rq_device rq) \<and>
      (\<exists>v\<in>set (devices ?d). Device_ID v = Envelope_RecipientDeviceID e \<and> is_member (circle_members ?d) (Device_UserID v) c)"
    if "sent_by (rq_device rq) c ?valid e" for e
    using that unfolding sent_by_def image_iff Bex_def in_circle_devices by metis
  then show ?thesis using run k wait st m own find_Some_in [OF m] by fastforce
qed

section \<open>Invitations\<close>

text \<open>No invitation is used more often than it allows, on any run of the server.\<close>

definition budget :: "db \<Rightarrow> bool" where
  "budget d \<longleftrightarrow> (\<forall>v\<in>set (invites d). 0 \<le> Invite_Uses v \<and> Invite_Uses v \<le> Invite_MaxUses v)"

lemma budget_tables [simp]: "tables_only budget"
  by (simp add: tables_only_def budget_def)

lemma budget_stmt:
  assumes "\<And>d. invites (snd (f d)) = invites d"
  shows "pres budget (stmt f)"
  by (rule pres_stmt) (simp_all add: budget_def assms)

lemma budget_exec:
  assumes "\<And>d. invites (f d) = invites d"
  shows "pres budget (exec f)" and "pres budget (exec_rows n f)"
  unfolding exec_def exec_rows_def by (rule budget_stmt, simp add: assms)+

lemma budget_statements [pres_rules]:
  "pres budget (CreateUser now i em h)" "pres budget (UpdateUserPassword now i h)"
  "pres budget (CreateDevice now i u pf nm pk)" "pres budget (SetDevicePubkey i pk)" "pres budget (TouchDevice now i)"
  "pres budget (CreateSession now i u v ah rh ae re)" "pres budget (RotateSession now i ah rh ae re old)"
  "pres budget (RevokeSession now i)" "pres budget (RevokeSessionsForDevice now i)"
  "pres budget (RecordLoginAttempt now eo ip b)" "pres budget (WriteAudit now e uo vo co ipo det)"
  unfolding CreateUser_def UpdateUserPassword_def CreateDevice_def SetDevicePubkey_def TouchDevice_def CreateSession_def
    RotateSession_def RevokeSession_def RevokeSessionsForDevice_def RecordLoginAttempt_def WriteAudit_def
  by (rule budget_exec budget_stmt; simp add: Let_def split: option.split)+

lemma budget_account [pres_rules]:
  "pres budget (UpsertPushSubscription now i u dv ep pk au kd)" "pres budget (DeletePushSubscription ep u)"
  "pres budget (DeletePushSubscriptionByID i)" "pres budget (CreateShareSession now i u ex)"
  "pres budget (RevokeShareSession now i u)" "pres budget (BindShareViewer now i h)"
  "pres budget (UpsertSharePosition now i nn ct cap)"
  unfolding UpsertPushSubscription_def DeletePushSubscription_def DeletePushSubscriptionByID_def CreateShareSession_def
    RevokeShareSession_def BindShareViewer_def UpsertSharePosition_def update_share_def
  by (rule budget_exec budget_stmt; simp add: Let_def split: option.split)+

lemma budget_invites [pres_rules]:
  "pres budget (CreateInvite now i c u role uses ex)" "pres budget (RevokeInvite i c)" "pres budget (ConsumeInvite now i)"
  "pres budget (DeleteCircle c)"
  unfolding CreateInvite_def RevokeInvite_def ConsumeInvite_def DeleteCircle_def
  by (rule pres_exec pres_stmt; auto simp: budget_def Let_def ball_update_where use_invite_def consumable_def split: option.split)+

lemma budget_circle [pres_rules]:
  "pres budget (UpdateCircleName c nm)" "pres budget (UpdateCircleRetention c days)" "pres budget (BumpCircleKeyEpoch c)"
  "pres budget (SetMemberProfile c u pr)" "pres budget (SetPrecisionMode c u md)" "pres budget (RemoveMember c u)"
  "pres budget (AddMember now c u role)" "pres budget (CreateCircle now c nm days u)"
  "pres budget (InsertPing now i c v cl nn ct cap ex)" "pres budget (CreatePlace now i c ct au)"
  "pres budget (UpdatePlace now i c ct au ver)" "pres budget (SoftDeletePlace now i c au)"
  "pres budget (CreateSOS now i c dv ct)" "pres budget (ResolveSOS now i c rb)"
  "pres budget (CreateKeyEnvelope now i c rv sv ct ep)" "pres budget (MarkEnvelopeConsumed now i v)"
  "pres budget (DeleteMutes u c)" "pres budget (InsertMute now u c mu)"
  unfolding UpdateCircleName_def UpdateCircleRetention_def BumpCircleKeyEpoch_def update_circle_def SetMemberProfile_def
    SetPrecisionMode_def update_member_def RemoveMember_def AddMember_def CreateCircle_def InsertPing_def CreatePlace_def
    UpdatePlace_def SoftDeletePlace_def update_place_def CreateSOS_def ResolveSOS_def CreateKeyEnvelope_def
    MarkEnvelopeConsumed_def DeleteMutes_def InsertMute_def
  by (rule budget_exec budget_stmt; simp add: Let_def split: option.split)+

interpretation budget: account_invariant budget
  by unfold_locales (intro pres_rules budget_tables)+

interpretation budget_circle: circle_invariant budget c for c
  by unfold_locales (intro pres_rules)+

interpretation budget_server: circle_server budget c for c ..

lemma budget_circle_route: "pres (world_inv budget) (circle_route rq x (circle_handler dep rq cc))"
proof -
  have "pres (world_inv budget) (circle_handler dep rq cc m)" for m
  proof (rule budget_server.circle_handler_inv [OF refl])
    show "pres (world_inv budget) (handleRemoveMember (dep_server dep) rq t m)" for t
      unfolding handleRemoveMember_def by (intro pres_rules)
    show "pres (world_inv budget) (handleLeaveCircle (dep_server dep) rq m)"
      unfolding handleLeaveCircle_def Let_def by (intro pres_rules budget_tables)
  qed
  then show ?thesis unfolding circle_route_def requireCircleMember_def by (intro pres_rules budget_tables)
qed

lemma budget_handlers:
  "pres (world_inv budget) (handleCreateCircle srv rq i cb)" "pres (world_inv budget) (handleAcceptInvite srv rq t)"
  "pres (world_inv budget) (handlePingBatch srv rq ids pb)" "pres (world_inv budget) (handlePostKeyEnvelopes srv rq ids eb)"
  "pres (world_inv budget) (handleConsumeKeyEnvelope rq t)"
proof -
  have tx: "pres budget (create_circle_tx now i nm days u)" "pres budget (accept_tx now i u)" for now i nm days u
    unfolding create_circle_tx_def accept_tx_def by (intro pres_rules budget_tables)+
  show "pres (world_inv budget) (handleCreateCircle srv rq i cb)" "pres (world_inv budget) (handleAcceptInvite srv rq t)"
    unfolding handleCreateCircle_def handleAcceptInvite_def Let_def by (intro pres_rules tx budget_tables)+
  have "pres budget (ping_tx rq ids items)" for items
    by (rule budget.ping_tx_inv) (simp add: insert_one_def pres_rules)
  then show "pres (world_inv budget) (handlePingBatch srv rq ids pb)"
    unfolding handlePingBatch_def by (intro pres_rules)
  show "pres (world_inv budget) (handlePostKeyEnvelopes srv rq ids eb)"
    unfolding handlePostKeyEnvelopes_def by (intro pres_rules budget_tables)
  show "pres (world_inv budget) (handleConsumeKeyEnvelope rq t)"
    unfolding handleConsumeKeyEnvelope_def by (intro pres_rules)
qed

lemma budget_maintenance: "pres budget (RunOnce wk now)"
proof -
  have del: "pres budget (delete_pings P)" for P unfolding delete_pings_def by (rule budget_exec) simp
  have "pres budget (delete_expired_for now cs)" for cs
    by (induction now cs rule: delete_expired_for.induct) (simp_all add: pres_rules del DeleteExpiredPingsForCircle_def)
  then have "pres budget (deleteExpiredPings now)"
    unfolding deleteExpiredPings_def by (intro pres_rules budget_tables)
  moreover have "pres budget (PruneLoginAttempts now k)" "pres budget (PruneAuditIPs now k)"
    "pres budget (DeleteExpiredSessions now)" "pres budget (PruneKeyEnvelopes now)" "pres budget (PruneResolvedSOS t)"
    "pres budget (PrunePlaceTombstones t)" "pres budget (PruneShareSessions now k)" for k t
    unfolding PruneLoginAttempts_def PruneAuditIPs_def DeleteExpiredSessions_def PruneKeyEnvelopes_def PruneResolvedSOS_def
      PrunePlaceTombstones_def PruneShareSessions_def Let_def by (rule budget_exec; simp)+
  moreover have "pres budget (PruneStalePings now k)" "pres budget (PruneAllPingsBefore t)" for k t
    unfolding PruneStalePings_def PruneAllPingsBefore_def by (rule del)+
  ultimately show ?thesis unfolding RunOnce_def by (intro pres_rules)
qed

lemma budget_step:
  assumes w: "world_inv budget w"
  shows "world_inv budget (step dep a w)"
proof (rule budget.step_inv [OF w _ budget_maintenance])
  fix cr :: credentials and uc
  have "pres (world_inv budget) (user_handler dep uc rq)" for rq
    by (rule budget.user_handler_inv) (rule budget_circle_route budget_handlers)+
  then have "pres (world_inv budget) (with_auth (dep_server dep) cr (user_handler dep uc))" by (rule budget.with_auth_inv)
  then show "world_inv budget (snd (with_auth (dep_server dep) cr (user_handler dep uc) w))" using w by (rule presD)
qed

interpretation budget_run: stepper "world_inv budget" "step dep" for dep
  by unfold_locales (rule budget_step)

text \<open>Accepting an invitation.\<close>

lemma AddMember_run:
  assumes "faults d = []" and "AddMember now c u role d = (Inr m, d')"
  shows "m \<in> set (circle_members d') \<and> member_is c u m \<and> Member_Role m = role \<and> invites d' = invites d \<and> faults d' = []"
proof (cases "List.find (member_is c u) (circle_members d)")
  case None
  then show ?thesis using assms by (auto simp: AddMember_def Let_def member_is_def split: if_splits)
next
  case (Some x)
  have x: "x \<in> set (circle_members d)" "member_is c u x" using find_Some_in [OF Some] by simp_all
  have m: "m = x\<lparr>Member_Role := role\<rparr>" and d': "d' = d\<lparr>circle_members :=
      update_where (member_is c u) (\<lambda>m. m\<lparr>Member_Role := role\<rparr>) (circle_members d)\<rparr>"
    using assms Some by (auto simp: AddMember_def split: if_splits)
  have "m \<in> set (circle_members d')" unfolding m d' using x by (force simp: set_update_where)
  then show ?thesis using x m d' assms(1) by (simp add: member_is_def)
qed

lemma accept_tx_run:
  assumes f: "faults d = []" and a: "accept_tx now i u d = (Inr role, d')"
  shows "\<exists>v. List.find (consumable now i) (invites d) = Some v \<and> role = Invite_Role v \<and>
    invites d' = update_where (consumable now i) use_invite (invites d) \<and>
    is_member (circle_members d') u (Invite_CircleID v) \<and> faults d' = []"
proof -
  let ?body = "bindm (ConsumeInvite now i) (\<lambda>consumed. bindm (AddMember now (Invite_CircleID consumed) u (Invite_Role consumed)) (\<lambda>_.
      ret (Invite_Role consumed)))"
  have "faults (snd (?body d)) = []" using f
    by (auto simp: bindm_def ConsumeInvite_def AddMember_def ret_def Let_def split: option.split)
  then have "accept_tx now i u d = (case fst (?body d) of Inl e \<Rightarrow> (Inl e, d) | Inr x \<Rightarrow> (Inr x, snd (?body d)))"
    unfolding accept_tx_def by (intro withSQLiteTx_nofault f) simp_all
  with a have b: "?body d = (Inr role, d')" by (cases "?body d") (auto split: sum.splits)
  then obtain v where v: "List.find (consumable now i) (invites d) = Some v"
    using f by (auto simp: bindm_def ConsumeInvite_def split: option.splits)
  let ?d = "d\<lparr>invites := update_where (consumable now i) use_invite (invites d)\<rparr>"
  from b v f obtain m where m: "AddMember now (Invite_CircleID v) u (Invite_Role v) ?d = (Inr m, d')" "role = Invite_Role v"
    by (auto simp: bindm_def ConsumeInvite_def use_invite_def ret_def split: sum.splits prod.splits)
  have "is_member (circle_members d') u (Invite_CircleID v) \<and> invites d' = invites ?d \<and> faults d' = []"
    using AddMember_run [OF _ m(1)] f by (auto simp: is_member_def)
  then show ?thesis using v m(2) by auto
qed

lemma handleAcceptInvite_joined:
  assumes ok: "db_ok (w_db w)" and f: "faults (w_db w) = []"
    and j: "handleAcceptInvite srv rq (Some i) w = (Inr (st, Joined c role), w')"
  shows "\<exists>v\<in>set (invites (w_db w)). Invite_ID v = i \<and> Invite_CircleID v = c \<and> Invite_Role v = role \<and>
    Invite_Status v = ''active'' \<and> Invite_ExpiresAt v > tv (rq_now rq) \<and> Invite_Uses v < Invite_MaxUses v \<and>
    v\<lparr>Invite_Uses := Invite_Uses v + 1\<rparr> \<in> set (invites (w_db w')) \<and>
    \<not> is_member (circle_members (w_db w)) (rq_user rq) c \<and> is_member (circle_members (w_db w')) (rq_user rq) c"
proof -
  let ?d = "w_db w" and ?u = "rq_user rq" and ?now = "rq_now rq"
  have inv: "GetInvite i ?d = (case List.find (\<lambda>v. Invite_ID v = i) (invites ?d) of None \<Rightarrow> Inl NoRows | Some v \<Rightarrow> Inr v, ?d)"
    using f by (simp add: GetInvite_def)
  from j obtain v where v: "List.find (\<lambda>v. Invite_ID v = i) (invites ?d) = Some v"
    by (cases "List.find (\<lambda>v. Invite_ID v = i) (invites ?d)")
      (auto simp: handleAcceptInvite_def path_id_def handler_run_defs inv IsNotFound_def)
  have in_v: "v \<in> set (invites ?d)" "Invite_ID v = i" using find_Some_in [OF v] by simp_all
  have mem: "GetMembership x ?u ?d = (case List.find (member_is x ?u) (circle_members ?d) of None \<Rightarrow> Inl NoRows | Some m \<Rightarrow> Inr m, ?d)" for x
    using f by (simp add: GetMembership_def)
  from j have out: "List.find (member_is (Invite_CircleID v) ?u) (circle_members ?d) = None"
    by (cases "List.find (member_is (Invite_CircleID v) ?u) (circle_members ?d)")
      (auto simp: handleAcceptInvite_def path_id_def handler_run_defs inv v mem)
  obtain r d1 where t: "accept_tx ?now i ?u ?d = (r, d1)" by (cases "accept_tx ?now i ?u ?d")
  obtain r2 d2 where log: "Log (srv_storeIP srv) ?now (Event_of ''invite_accepted'' (Some ?u) None (Some (Invite_CircleID v)) (rq_ip rq)) d1 = (r2, d2)"
    by fastforce
  have "handleAcceptInvite srv rq (Some i) w = (case r of
      Inl e \<Rightarrow> (Inl (if IsNotFound e then GoneConflict ''invite expired, revoked, or fully used'' else Internal), w\<lparr>w_db := d1\<rparr>)
    | Inr x \<Rightarrow> (Inr (200, Joined (Invite_CircleID v) x), w\<lparr>w_db := d2, w_hub := Publish \<lparr>Event_Type = ''member_changed'',
         Event_CircleID = Invite_CircleID v, Event_Payload = None\<rparr> (w_hub w)\<rparr>))"
    by (cases r) (simp_all add: handleAcceptInvite_def path_id_def handler_run_defs inv v mem out IsNotFound_def t log audit_def
        publish_def hub_do_def on_hub_def)
  with j have r: "r = Inr role" and c: "c = Invite_CircleID v" and w': "w_db w' = d2" by (cases r; auto)+
  from accept_tx_run [OF f t [unfolded r]] obtain x where x: "List.find (consumable ?now i) (invites ?d) = Some x" "role = Invite_Role x"
    "invites d1 = update_where (consumable ?now i) use_invite (invites ?d)" "is_member (circle_members d1) ?u (Invite_CircleID x)"
    by blast
  have in_x: "x \<in> set (invites ?d)" "consumable ?now i x" using find_Some_in [OF x(1)] by simp_all
  have "x = v" using in_x in_v db_ok_unique(9) [OF ok] by (metis consumable_def distinct_map inj_onD)
  moreover have "use_invite x \<in> set (invites d1)" unfolding x(3) using in_x by (force simp: set_update_where)
  ultimately show ?thesis using in_x x Log_keeps_tables [OF log] w' c out
    by (intro bexI [of _ v]) (auto simp: consumable_def use_invite_def is_member_def find_None_all)
qed

section \<open>Leaving and deleting\<close>

lemma RemoveMember_run:
  assumes "faults d = []"
  shows "RemoveMember c u d = (Inr (), d\<lparr>circle_members := delete_where (member_is c u) (circle_members d)\<rparr>)"
  using assms by (simp add: RemoveMember_def)

lemma handleRemoveMember_out:
  assumes f: "faults (w_db w) = []" and r: "handleRemoveMember srv rq (Some t) m w = (Inr x, w')"
  shows "\<forall>y\<in>set (circle_members (w_db w')). \<not> member_is (Member_CircleID m) t y" and "faults (w_db w') = []"
    and "w_hub w' = Publish \<lparr>Event_Type = ''member_changed'', Event_CircleID = Member_CircleID m, Event_Payload = None\<rparr>
      (EvictUser (Member_CircleID m) t (w_hub w))"
    and "Member_Role m = ''owner''" and "t \<noteq> Member_UserID m"
proof -
  let ?c = "Member_CircleID m"
  let ?d = "(w_db w)\<lparr>circle_members := delete_where (member_is ?c t) (circle_members (w_db w))\<rparr>"
  let ?e = "(Event_of ''member_removed'' (Some (Member_UserID m)) None (Some ?c) (rq_ip rq))\<lparr>Ev_Detail := Some (DetailRemoved t)\<rparr>"
  obtain r2 d2 where log: "Log (srv_storeIP srv) (rq_now rq) ?e ?d = (r2, d2)" by fastforce
  from r show g: "Member_Role m = ''owner''" "t \<noteq> Member_UserID m"
    by (auto simp: handleRemoveMember_def requireOwner_def path_id_def fail_def split: if_splits)
  have w': "w' = w\<lparr>w_db := d2, w_hub := Publish \<lparr>Event_Type = ''member_changed'', Event_CircleID = ?c, Event_Payload = None\<rparr>
      (EvictUser ?c t (w_hub w))\<rparr>"
    using r g by (simp add: handleRemoveMember_def requireOwner_def path_id_def handler_run_defs RemoveMember_run [OF f] log
        audit_def publish_def hub_do_def on_hub_def)
  then show "w_hub w' = Publish \<lparr>Event_Type = ''member_changed'', Event_CircleID = ?c, Event_Payload = None\<rparr>
      (EvictUser ?c t (w_hub w))" by simp
  show "\<forall>y\<in>set (circle_members (w_db w')). \<not> member_is ?c t y" "faults (w_db w') = []"
    using Log_keeps_tables [OF log] f w' by auto
qed

text \<open>After a circle was deleted nothing of it is left in any table.\<close>

lemma handleDeleteCircle_empty:
  assumes f: "faults (w_db w) = []" and r: "handleDeleteCircle m w = (Inr x, w')"
  shows "Member_Role m = ''owner''" and "circle_part {} (Member_CircleID m) (w_db w') = ([], [], [], [], [], [], [], [])"
    and "c \<noteq> Member_CircleID m \<Longrightarrow> circle_part {} c (w_db w') = circle_part {} c (w_db w)"
    and "w_hub w' = EvictCircle (Member_CircleID m) (w_hub w)"
proof -
  show own: "Member_Role m = ''owner''"
    using r by (auto simp: handleDeleteCircle_def requireOwner_def fail_def split: if_splits)
  have "w' = w\<lparr>w_db := snd (DeleteCircle (Member_CircleID m) (w_db w)), w_hub := EvictCircle (Member_CircleID m) (w_hub w)\<rparr>"
    using r own f by (simp add: handleDeleteCircle_def requireOwner_def handler_run_defs hub_do_def on_hub_def DeleteCircle_def)
  moreover have "circle_part {} (Member_CircleID m) (snd (DeleteCircle (Member_CircleID m) (w_db w))) = ([], [], [], [], [], [], [], [])"
    using f by (simp add: DeleteCircle_def circle_part_def delete_where_def circle_is_def filter_empty_conv)
  moreover have "circle_part {} c (snd (DeleteCircle (Member_CircleID m) (w_db w))) = circle_part {} c (w_db w)" if "c \<noteq> Member_CircleID m"
    using f that by (simp add: DeleteCircle_def circle_part_def filter_delete_where circle_is_def)
  ultimately show "circle_part {} (Member_CircleID m) (w_db w') = ([], [], [], [], [], [], [], [])"
    and "c \<noteq> Member_CircleID m \<Longrightarrow> circle_part {} c (w_db w') = circle_part {} c (w_db w)"
    and "w_hub w' = EvictCircle (Member_CircleID m) (w_hub w)" by simp_all
qed

end
