(* ===== verification/Aul_Samples.thy ===== *)
theory Aul_Samples
  imports Aul_Membership
begin

text \<open>
  A small concrete deployment on which the theorems of the root theory are exercised: two
  accounts with one device each, a circle of both with some pings and a place, a circle of one
  with an open invitation, a live session, a share link, a push subscription. The library
  functions are instantiated by simple ones: the token hash keeps the bytes of the token, the
  key derivation pads the password.
\<close>

definition demo_idkey :: idkey where
  "demo_idkey pw salt t m p k = map (\<lambda>i. if i < length pw then pw ! i else 0) [0..<unat k]"

definition demo_params :: Argon2Params where
  "demo_params = \<lparr>Memory = 8, Iterations = 1, Parallelism = 1, SaltLength = 2, KeyLength = 9\<rparr>"

definition demo_service :: Service where
  "demo_service = \<lparr>svc_hmac = string_bytes, svc_IDKey = demo_idkey, svc_ToLower = nocase,
     svc_TrimSpace = (\<lambda>s. s), svc_ParseAddress = Some, svc_accessTTL = 15 * Minute,
     svc_refreshTTL = 30 * Day, svc_lockout = DefaultLockout, svc_argonParams = demo_params,
     svc_storeIP = True\<rparr>"

definition demo_entropy :: entropy where
  "demo_entropy = \<lparr>ent_user = 101, ent_device = 102, ent_session = 103, ent_access = Some ''a2'',
     ent_refresh = Some ''r2'', ent_salt = Some [1, 2]\<rparr>"

definition demo_hash :: string where
  "demo_hash = encodeHash demo_params [1, 2] (derive demo_idkey ''password1'' [1, 2] demo_params)"

definition alice :: User where
  "alice = \<lparr>User_ID = 1, User_Email = ''alice@x'', User_PassHash = demo_hash, User_CreatedAt = 0, User_UpdatedAt = 0\<rparr>"

definition bob :: User where
  "bob = \<lparr>User_ID = 2, User_Email = ''bob@x'', User_PassHash = demo_hash, User_CreatedAt = 0, User_UpdatedAt = 0\<rparr>"

definition demo_device :: "uuid \<Rightarrow> uuid \<Rightarrow> Device" where
  "demo_device i u = \<lparr>Device_ID = i, Device_UserID = u, Device_Platform = ''android'', Device_DisplayName = None,
     Device_Pubkey = None, Device_PushToken = None, Device_CreatedAt = 0, Device_LastSeen = None\<rparr>"

definition demo_session :: Session where
  "demo_session = \<lparr>Session_ID = 21, Session_UserID = 1, Session_DeviceID = 11,
     Session_AccessTokenHash = HashToken demo_service ''a1'', Session_RefreshTokenHash = HashToken demo_service ''r1'',
     Session_PrevRefreshHash = None, Session_AccessExpiresAt = 900000, Session_RefreshExpiresAt = 2592000000,
     Session_RevokedAt = None, Session_CreatedAt = 0, Session_RotatedAt = 0\<rparr>"

definition demo_circle :: Circle where
  "demo_circle = \<lparr>Circle_ID = 31, Circle_NameEnc = None, Circle_RetentionDays = 7, Circle_KeyEpoch = 1,
     Circle_CreatedBy = 1, Circle_CreatedAt = 0\<rparr>"

definition demo_member :: "uuid \<Rightarrow> string \<Rightarrow> CircleMember" where
  "demo_member u r = \<lparr>Member_CircleID = 31, Member_UserID = u, Member_Role = r, Member_PrecisionMode = ''precise'',
     Member_JoinedAt = 0, Member_ProfileEnc = None\<rparr>"

definition demo_ping :: "uuid \<Rightarrow> uuid \<Rightarrow> string \<Rightarrow> sqltime \<Rightarrow> Ping" where
  "demo_ping i v cl t = \<lparr>Ping_ID = i, Ping_CircleID = 31, Ping_DeviceID = v, Ping_ClientID = cl, Ping_Nonce = [1],
     Ping_Ciphertext = [2], Ping_CapturedAt = t, Ping_ReceivedAt = t, Ping_ExpiresAt = None\<rparr>"

definition demo_place :: PlacesEnc where
  "demo_place = \<lparr>Place_ID = 51, Place_CircleID = 31, Place_Ciphertext = [7], Place_Version = 1, Place_Deleted = False,
     Place_UpdatedBy = Some 1, Place_UpdatedAt = 0, Place_CreatedAt = 0, Place_CreatedBy = Some 1\<rparr>"

definition demo_invite :: Invite where
  "demo_invite = \<lparr>Invite_ID = 61, Invite_CircleID = 32, Invite_CreatedBy = 2, Invite_Role = ''member'', Invite_MaxUses = 1,
     Invite_Uses = 0, Invite_ExpiresAt = 3600000, Invite_Status = ''active'', Invite_CreatedAt = 0\<rparr>"

definition demo_share :: ShareSession where
  "demo_share = \<lparr>Share_ID = 71, Share_UserID = 1, Share_CreatedAt = 0, Share_ExpiresAt = 900000, Share_RevokedAt = None,
     Share_ViewerTokenHash = None, Share_ViewerBoundAt = None\<rparr>"

definition demo_push :: PushSubscription where
  "demo_push = \<lparr>Push_ID = 81, Push_UserID = 2, Push_DeviceID = Some 12, Push_Endpoint = ''token'', Push_P256dh = None,
     Push_Auth = None, Push_CreatedAt = 0, Push_Kind = ''fcm''\<rparr>"

definition demo_db :: db where
  "demo_db = empty_db\<lparr>users := [alice, bob], devices := [demo_device 11 1, demo_device 12 2],
     sessions := [demo_session], circles := [demo_circle, demo_circle\<lparr>Circle_ID := 32, Circle_CreatedBy := 2\<rparr>],
     circle_members := [demo_member 1 ''owner'', demo_member 2 ''member'', (demo_member 2 ''owner'')\<lparr>Member_CircleID := 32\<rparr>],
     invites := [demo_invite], places_enc := [demo_place], share_sessions := [demo_share], push_subscriptions := [demo_push],
     pings := [demo_ping 41 11 ''x'' 1000, demo_ping 42 11 ''y'' 2000, demo_ping 43 12 ''z'' 1500]\<rparr>"

definition demo_login :: "string \<Rightarrow> LoginInput" where
  "demo_login pw = \<lparr>In_Email = ''alice@x'', In_Password = pw, In_Platform = ''web'', In_DisplayName = [],
     In_DeviceID = None, In_Pubkey = None, In_IP = ''1.2.3.4''\<rparr>"

definition demo_worker :: Worker where
  "demo_worker = New 365 6 30"

definition demo_server :: Server where
  "demo_server = \<lparr>srv_auth = demo_service, srv_storeIP = True, srv_DefaultRetentionDays = 7, srv_MaxRetentionDays = 365\<rparr>"

definition demo_request :: "uuid \<Rightarrow> uuid \<Rightarrow> request" where
  "demo_request u v = \<lparr>rq_now = 5 * Second, rq_auth = \<lparr>Auth_UserID = u, Auth_DeviceID = v, Auth_SessionID = 21\<rparr>, rq_ip = ''1.2.3.4''\<rparr>"

definition demo_world :: world where
  "demo_world = \<lparr>w_db = demo_db, w_hub = NewHub\<rparr>"

lemma demo_db_ok: "db_ok demo_db"
  by code_simp

lemma demo_db_faults [simp]: "faults demo_db = []"
  by (simp add: demo_db_def empty_db_def)

lemma demo_world_ok: "world_ok demo_world"
  by (simp add: demo_world_def world_inv_def demo_db_ok hub_inv_NewHub)

end
