(* ===== verification/Aul_Strings.thy ===== *)
theory Aul_Strings
  imports Aul_Crypto Aul_Rows
begin

text \<open>
  The functions of Go's \<^verbatim>\<open>strings\<close>, \<^verbatim>\<open>strconv\<close> and \<^verbatim>\<open>net\<close> packages that the configuration loader, the
  HTTP middleware and the launcher use, on byte strings (a Go string is a sequence of bytes, here
  one \<open>char\<close> each). \<open>TrimSpace\<close> removes every encoding of a Unicode white space character,
  as the library does. \<open>Atoi\<close> and \<open>SplitHostPort\<close> return \<open>None\<close> for the library's error.
\<close>

section \<open>White space\<close>

text \<open>The UTF-8 encodings of the characters for which \<^verbatim>\<open>unicode.IsSpace\<close> holds.\<close>

definition space_runes :: "string list" where
  "space_runes = [[CHR 0x09], [CHR 0x0A], [CHR 0x0B], [CHR 0x0C], [CHR 0x0D], [CHR 0x20],
     [CHR 0xC2, CHR 0x85], [CHR 0xC2, CHR 0xA0], [CHR 0xE1, CHR 0x9A, CHR 0x80],
     [CHR 0xE2, CHR 0x80, CHR 0x80], [CHR 0xE2, CHR 0x80, CHR 0x81], [CHR 0xE2, CHR 0x80, CHR 0x82],
     [CHR 0xE2, CHR 0x80, CHR 0x83], [CHR 0xE2, CHR 0x80, CHR 0x84], [CHR 0xE2, CHR 0x80, CHR 0x85],
     [CHR 0xE2, CHR 0x80, CHR 0x86], [CHR 0xE2, CHR 0x80, CHR 0x87], [CHR 0xE2, CHR 0x80, CHR 0x88],
     [CHR 0xE2, CHR 0x80, CHR 0x89], [CHR 0xE2, CHR 0x80, CHR 0x8A], [CHR 0xE2, CHR 0x80, CHR 0xA8],
     [CHR 0xE2, CHR 0x80, CHR 0xA9], [CHR 0xE2, CHR 0x80, CHR 0xAF], [CHR 0xE2, CHR 0x81, CHR 0x9F],
     [CHR 0xE3, CHR 0x80, CHR 0x80]]"

definition HasPrefix :: "string \<Rightarrow> string \<Rightarrow> bool" where
  "HasPrefix s p \<longleftrightarrow> take (length p) s = p"

definition HasSuffix :: "string \<Rightarrow> string \<Rightarrow> bool" where
  "HasSuffix s p \<longleftrightarrow> HasPrefix (rev s) (rev p)"

definition TrimSuffix :: "string \<Rightarrow> string \<Rightarrow> string" where
  "TrimSuffix s p = (if HasSuffix s p then take (length s - length p) s else s)"

text \<open>Strip one of the given encodings from the front as long as there is one.\<close>

function strip :: "string list \<Rightarrow> string \<Rightarrow> string" where
  "strip rs s = (case List.find (\<lambda>r. r \<noteq> [] \<and> HasPrefix s r) rs of
     None \<Rightarrow> s | Some r \<Rightarrow> strip rs (drop (length r) s))"
  by pat_completeness auto

termination
proof (relation "measure (\<lambda>(rs, s). length s)", simp)
  fix rs :: "string list" and s r
  assume "List.find (\<lambda>r. r \<noteq> [] \<and> HasPrefix s r) rs = Some r"
  then have "r \<noteq> []" and "take (length r) s = r" by (auto simp: find_Some_iff HasPrefix_def)
  then have "s \<noteq> []" by auto
  then show "((rs, drop (length r) s), rs, s) \<in> measure (\<lambda>(rs, s). length s)"
    using \<open>r \<noteq> []\<close> by simp
qed

declare strip.simps [simp del]

definition TrimSpace :: "string \<Rightarrow> string" where
  "TrimSpace s = rev (strip (map rev space_runes) (rev (strip space_runes s)))"

text \<open>\<^verbatim>\<open>strings.Contains\<close> and \<^verbatim>\<open>strings.Cut\<close>; \<^verbatim>\<open>strings.EqualFold\<close> against an ASCII string of the same length.\<close>

fun Contains :: "string \<Rightarrow> string \<Rightarrow> bool" where
  "Contains [] p = (p = [])"
| "Contains (c # s) p = (HasPrefix (c # s) p \<or> Contains s p)"

definition Cut :: "string \<Rightarrow> char \<Rightarrow> string \<times> string \<times> bool" where
  "Cut s sep = (if sep \<in> set s then (takeWhile (\<lambda>c. c \<noteq> sep) s, tl (dropWhile (\<lambda>c. c \<noteq> sep) s), True)
     else (s, [], False))"

definition EqualFold_ascii :: "string \<Rightarrow> string \<Rightarrow> bool" where
  "EqualFold_ascii s t \<longleftrightarrow> map ascii_lower s = map ascii_lower t"

fun Join :: "string list \<Rightarrow> string \<Rightarrow> string" where
  "Join [] sep = []"
| "Join [x] sep = x"
| "Join (x # y # xs) sep = x @ sep @ Join (y # xs) sep"

section \<open>Numbers\<close>

definition Itoa :: "int \<Rightarrow> string" where
  "Itoa n = (if n < 0 then CHR ''-'' # show_nat (nat (- n)) else show_nat (nat n))"

text \<open>\<^verbatim>\<open>strconv.Atoi\<close> on a 64-bit platform: a sign, then one or more decimal digits, in range.\<close>

definition Atoi :: "string \<Rightarrow> int option" where
  "Atoi s = (let (neg, ds) = (case s of [] \<Rightarrow> (False, s)
        | c # cs \<Rightarrow> if c = CHR ''+'' then (False, cs) else if c = CHR ''-'' then (True, cs) else (False, s));
      v = (if neg then - int (digits_value ds) else int (digits_value ds)) in
    if ds = [] \<or> \<not> list_all is_digit ds \<or> \<not> in_i64 v then None else Some v)"

definition ParseBool :: "string \<Rightarrow> bool option" where
  "ParseBool s = (if s \<in> {''1'', ''t'', ''T'', ''true'', ''TRUE'', ''True''} then Some True
     else if s \<in> {''0'', ''f'', ''F'', ''false'', ''FALSE'', ''False''} then Some False else None)"

definition FormatBool :: "bool \<Rightarrow> string" where
  "FormatBool b = (if b then ''true'' else ''false'')"

section \<open>Host and port\<close>

text \<open>\<^verbatim>\<open>net.SplitHostPort\<close>: the port starts after the last colon; brackets enclose a host with colons.\<close>

definition SplitHostPort :: "string \<Rightarrow> (string \<times> string) option" where
  "SplitHostPort s =
     (if CHR '':'' \<notin> set s then None
      else let port = rev (takeWhile (\<lambda>c. c \<noteq> CHR '':'') (rev s));
               i = length s - length port - 1 in
        if hd s = CHR ''['' then
          (let e = length (takeWhile (\<lambda>c. c \<noteq> CHR '']'') s) in
           if CHR '']'' \<notin> set s \<or> e + 1 \<noteq> i \<or> CHR ''['' \<in> set (drop 1 s) \<or> CHR '']'' \<in> set (drop (e + 1) s)
           then None else Some (drop 1 (take e s), port))
        else if CHR '':'' \<in> set (take i s) \<or> CHR ''['' \<in> set s \<or> CHR '']'' \<in> set s then None
        else Some (take i s, port))"

text \<open>\<^verbatim>\<open>net.JoinHostPort\<close>, the form in which the HTTP server reports the address of the peer.\<close>

definition JoinHostPort :: "string \<Rightarrow> string \<Rightarrow> string" where
  "JoinHostPort host port =
     (if CHR '':'' \<in> set host then CHR ''['' # host @ CHR '']'' # CHR '':'' # port else host @ CHR '':'' # port)"

section \<open>Lemmas\<close>

text \<open>Printable ASCII characters other than the space are in no white space encoding.\<close>

definition graphic :: "char \<Rightarrow> bool" where
  "graphic c \<longleftrightarrow> (33::nat) \<le> of_char c \<and> of_char c \<le> (126::nat)"

lemma space_runes_shape: "\<forall>r\<in>set space_runes. r \<noteq> [] \<and> \<not> graphic (hd r) \<and> \<not> graphic (last r)"
  by (simp add: space_runes_def graphic_def)

lemma strip_id:
  assumes "s = [] \<or> (\<forall>r\<in>set rs. r \<noteq> [] \<longrightarrow> hd r \<noteq> hd s)"
  shows "strip rs s = s"
proof -
  have "\<not> (r \<noteq> [] \<and> HasPrefix s r)" if "r \<in> set rs" for r
    using assms that by (cases r; cases s) (auto simp: HasPrefix_def)
  then have "List.find (\<lambda>r. r \<noteq> [] \<and> HasPrefix s r) rs = None" by (simp add: find_None_iff)
  then show ?thesis by (subst strip.simps) simp
qed

lemma TrimSpace_Nil [simp]: "TrimSpace [] = []"
  by (simp add: TrimSpace_def strip_id)

lemma TrimSpace_graphic:
  assumes "s \<noteq> [] \<Longrightarrow> graphic (hd s) \<and> graphic (last s)"
  shows "TrimSpace s = s"
proof (cases "s = []")
  case False
  then have ends: "graphic (hd s)" "graphic (last s)" using assms by simp_all
  have "strip space_runes s = s" using ends(1) space_runes_shape by (intro strip_id) auto
  moreover have "strip (map rev space_runes) (rev s) = rev s"
    using ends(2) space_runes_shape False by (intro strip_id) (auto simp: hd_rev)
  ultimately show ?thesis by (simp add: TrimSpace_def)
qed simp

lemma HasPrefix_append [simp]: "HasPrefix (p @ s) p"
  by (simp add: HasPrefix_def)

lemma HasPrefix_iff: "HasPrefix s p \<longleftrightarrow> (\<exists>t. s = p @ t)"
  by (metis HasPrefix_append HasPrefix_def append_take_drop_id)

lemma show_nat_graphic: "c \<in> set (show_nat n) \<Longrightarrow> graphic c"
  using show_nat_digits [of c n] by (auto simp: is_digit_def graphic_def)

lemma show_nat_plain:
  assumes "\<not> is_digit x"
  shows "x \<notin> set (show_nat n)"
  using assms show_nat_digits by blast

lemma show_nat_hd: "hd (show_nat n) \<noteq> CHR ''+''" "hd (show_nat n) \<noteq> CHR ''-''"
  using show_nat_digits [of "hd (show_nat n)" n] by (auto simp: is_digit_def)

text \<open>Reading back a printed number.\<close>

lemma Atoi_Itoa:
  assumes "in_i64 n"
  shows "Atoi (Itoa n) = Some n"
proof -
  obtain c cs where cs: "show_nat (nat \<bar>n\<bar>) = c # cs" by (cases "show_nat (nat \<bar>n\<bar>)") auto
  have "c \<noteq> CHR ''+''" "c \<noteq> CHR ''-''" using show_nat_hd [of "nat \<bar>n\<bar>"] cs by simp_all
  moreover have "list_all is_digit (c # cs)" using show_nat_digits [of _ "nat \<bar>n\<bar>"] cs by (auto simp: list_all_iff)
  moreover have "digits_value (c # cs) = nat \<bar>n\<bar>" using digits_value_show [of "nat \<bar>n\<bar>"] cs by simp
  ultimately show ?thesis using assms cs by (cases "n < 0") (simp_all add: Atoi_def Itoa_def)
qed

lemma Atoi_range: "Atoi s = Some n \<Longrightarrow> in_i64 n"
  by (auto simp: Atoi_def Let_def split: prod.splits if_splits)

lemma ParseBool_FormatBool [simp]: "ParseBool (FormatBool b) = Some b"
  by (simp add: ParseBool_def FormatBool_def)

lemma takeWhile_upto: "c \<notin> set t \<Longrightarrow> takeWhile (\<lambda>x. x \<noteq> c) (t @ c # u) = t"
  by (induction t) auto

lemma dropWhile_upto: "c \<notin> set t \<Longrightarrow> dropWhile (\<lambda>x. x \<noteq> c) (t @ c # u) = c # u"
  by (induction t) auto

lemma Cut_append: "c \<notin> set k \<Longrightarrow> Cut (k @ c # v) c = (k, v, True)"
  by (simp add: Cut_def takeWhile_upto dropWhile_upto)

lemma SplitHostPort_Join:
  assumes host: "CHR ''['' \<notin> set host" "CHR '']'' \<notin> set host"
    and port: "CHR '':'' \<notin> set port" "CHR ''['' \<notin> set port" "CHR '']'' \<notin> set port"
  shows "SplitHostPort (JoinHostPort host port) = Some (host, port)"
proof -
  have tw: "takeWhile (\<lambda>c. c \<noteq> CHR '':'') (rev port @ CHR '':'' # x) = rev port" for x
    using port(1) by (intro takeWhile_upto) simp
  have tb: "takeWhile (\<lambda>c. c \<noteq> CHR '']'') (host @ CHR '']'' # x) = host" for x
    using host(2) by (intro takeWhile_upto) simp
  show ?thesis
  proof (cases "CHR '':'' \<in> set host")
    case True
    then show ?thesis using host port tw tb
      by (simp add: SplitHostPort_def JoinHostPort_def Let_def)
  next
    case False
    then have "hd (host @ CHR '':'' # port) \<noteq> CHR ''[''" using host(1) by (cases host) auto
    then show ?thesis using False host port tw
      by (simp add: SplitHostPort_def JoinHostPort_def Let_def)
  qed
qed

text \<open>The last part of a comma separated list is what follows the last comma.\<close>

lemma split_on_ne [simp]: "split_on c s \<noteq> []"
  by (induction s) (auto split: list.splits)

lemma last_split_on_append: "c \<notin> set t \<Longrightarrow> last (split_on c (s @ c # t)) = t"
proof (induction s)
  case Nil
  then have "split_on c t = [t]" by (induction t) auto
  then show ?case by simp
next
  case (Cons x s)
  have "last (split_on c (x # (s @ c # t))) = last (split_on c (s @ c # t))"
  proof (cases "x = c")
    case False
    have "\<exists>p q ps. split_on c (s @ c # t) = p # q # ps"
      by (induction s) (auto split: list.splits simp: neq_Nil_conv, metis list.exhaust split_on_ne)
    then show ?thesis using False by auto
  qed simp
  then show ?case using Cons by simp
qed

end
