(* ===== verification/Aul_Config.thy ===== *)
theory Aul_Config
  imports Aul_Strings
begin

text \<open>
  \<^verbatim>\<open>server/internal/config/config.go\<close>: loading and validating the configuration from the environment.
  \<open>LoadFrom\<close> runs every check and collects the failures in the order of the code; the texts of the
  messages are the constructors of \<open>cfg_err\<close>. The parts of the standard library that stay abstract
  are the fields of \<open>golib\<close>: lower-casing of Unicode text, URL parsing and printing, duration
  parsing, reading a file and decoding the service-account JSON. The zero values the code leaves
  behind after a failure (\<^verbatim>\<open>Env("")\<close>, \<^verbatim>\<open>DBBackend("")\<close>) are constructors too.
  \<open>config_ok\<close> is what the rest of the server may rely on; every loaded configuration has it.
\<close>

section \<open>Data\<close>

datatype Env = EnvNone | EnvDevelopment | EnvProduction
datatype DBBackend = BackendNone | BackendPostgres | BackendSQLite

record URL =
  Scheme :: string
  Host :: string

record serviceAccount =
  sa_Type :: string
  sa_ProjectID :: string
  sa_ClientEmail :: string
  sa_PrivateKey :: string

record golib =
  lib_ToLower :: "string \<Rightarrow> string"
  lib_Parse :: "string \<Rightarrow> URL option"
  lib_String :: "URL \<Rightarrow> string"
  lib_ParseDuration :: "string \<Rightarrow> duration option"
  lib_ReadFile :: "string \<Rightarrow> bytes option"
  lib_Unmarshal :: "bytes \<Rightarrow> serviceAccount option"

datatype cfg_err =
    BadEnv | OriginRequired | OriginNotAbsolute | OriginNotHttps | DatabaseRequired | BadBackend
  | PepperRequired | PepperTooShort | DefaultExceedsMax int int
  | VapidPrivateRequired | VapidPublicRequired | VapidPublicMalformed | VapidPrivateMalformed
  | VapidSubjectRequired | VapidSubjectScheme
  | FcmUnreadable | FcmNotJson string | FcmNotServiceAccount string | FcmNoProject string
  | FcmNoEmail string | FcmNoKey string
  | NotInteger string | OutOfRange string int int | NotDuration string | NotPositive string
  | CookiesNeedHttps

record Config =
  Config_Env :: Env
  HTTPAddr :: string
  PublicOrigin :: "URL option"
  DatabaseURL :: string
  Config_DBBackend :: DBBackend
  SessionPepper :: string
  SecureCookies :: bool
  TrustedServerMode :: bool
  MetricsEnabled :: bool
  RetentionFeaturesEnabled :: bool
  RunMigrations :: bool
  TrustProxyHeaders :: bool
  DevStaticDir :: string
  TilesOrigin :: string
  IPLogRetentionDays :: int
  DefaultRetentionDays :: int
  MaxRetentionDays :: int
  PingRetentionHours :: int
  VAPIDPublicKey :: string
  VAPIDPrivateKey :: string
  VAPIDSubject :: string
  FCMServiceAccountFile :: string
  FCMProjectID :: string
  FCMCredentialsJSON :: bytes
  AccessTTL :: duration
  RefreshTTL :: duration
  BodyLimitBytes :: int
  RequestTimeout :: duration
  ShutdownTimeout :: duration
  AuthRatePerMin :: int
  InvitesRatePerHr :: int
  PingRatePerMin :: int

section \<open>Typed getters\<close>

definition getenvDefault :: "(string \<Rightarrow> string) \<Rightarrow> string \<Rightarrow> string \<Rightarrow> string" where
  "getenvDefault getenv key def = (let v = TrimSpace (getenv key) in if v \<noteq> [] then v else def)"

definition getBool :: "(string \<Rightarrow> string) \<Rightarrow> string \<Rightarrow> bool \<Rightarrow> bool" where
  "getBool getenv key def = (let v = TrimSpace (getenv key) in
     if v = [] then def else case ParseBool v of None \<Rightarrow> def | Some b \<Rightarrow> b)"

definition getInt :: "(string \<Rightarrow> string) \<Rightarrow> string \<Rightarrow> int \<Rightarrow> int \<Rightarrow> int \<Rightarrow> cfg_err list \<times> int" where
  "getInt getenv key def mn mx = (let v = TrimSpace (getenv key) in
     if v = [] then ([], def)
     else case Atoi v of
         None \<Rightarrow> ([NotInteger key], def)
       | Some n \<Rightarrow> if n < mn \<or> n > mx then ([OutOfRange key mn mx], def) else ([], n))"

definition getDuration :: "golib \<Rightarrow> (string \<Rightarrow> string) \<Rightarrow> string \<Rightarrow> duration \<Rightarrow> cfg_err list \<times> duration" where
  "getDuration lib getenv key def = (let v = TrimSpace (getenv key) in
     if v = [] then ([], def)
     else case lib_ParseDuration lib v of
         None \<Rightarrow> ([NotDuration key], def)
       | Some d \<Rightarrow> if d \<le> 0 then ([NotPositive key], def) else ([], d))"

section \<open>Database backend\<close>

definition detectDBBackend :: "golib \<Rightarrow> string \<Rightarrow> string \<Rightarrow> cfg_err + DBBackend" where
  "detectDBBackend lib explicit databaseURL =
     (let e = lib_ToLower lib (TrimSpace explicit) in
      if e \<in> {''postgres'', ''postgresql'', ''pg''} then Inr BackendPostgres
      else if e \<in> {''sqlite'', ''sqlite3''} then Inr BackendSQLite
      else if e \<noteq> [] then Inl BadBackend
      else let lower = lib_ToLower lib (TrimSpace databaseURL) in
        if HasPrefix lower ''postgres://'' \<or> HasPrefix lower ''postgresql://'' then Inr BackendPostgres
        else if HasPrefix lower ''sqlite:'' \<or> HasPrefix lower ''sqlite3:'' \<or> HasPrefix lower ''file:''
        then Inr BackendSQLite
        else if lower = [] then Inr BackendPostgres
        else if Contains lower ''://'' then Inr BackendPostgres
        else Inr BackendSQLite)"

fun strip_scheme :: "string list \<Rightarrow> string \<Rightarrow> string" where
  "strip_scheme [] url = url"
| "strip_scheme (p # ps) url =
     (if length url \<ge> length p \<and> EqualFold_ascii (take (length p) url) p then drop (length p) url
      else strip_scheme ps url)"

definition SQLitePathOf :: "string \<Rightarrow> string" where
  "SQLitePathOf databaseURL = strip_scheme [''sqlite://'', ''sqlite:'', ''sqlite3://'', ''sqlite3:''] databaseURL"

definition SQLitePath :: "Config \<Rightarrow> string" where
  "SQLitePath c = SQLitePathOf (DatabaseURL c)"

definition DetectBackend :: "golib \<Rightarrow> string \<Rightarrow> string \<Rightarrow> cfg_err + DBBackend" where
  "DetectBackend lib explicit databaseURL = detectDBBackend lib explicit databaseURL"

section \<open>Sections of LoadFrom\<close>

definition load_env :: "golib \<Rightarrow> (string \<Rightarrow> string) \<Rightarrow> cfg_err list \<times> Env" where
  "load_env lib getenv = (let e = lib_ToLower lib (TrimSpace (getenv ''AUL_ENV'')) in
     if e \<in> {[], ''production'', ''prod''} then ([], EnvProduction)
     else if e \<in> {''development'', ''dev''} then ([], EnvDevelopment)
     else ([BadEnv], EnvNone))"

definition load_origin :: "golib \<Rightarrow> (string \<Rightarrow> string) \<Rightarrow> bool \<Rightarrow> cfg_err list \<times> URL option" where
  "load_origin lib getenv dev =
     (let given = TrimSpace (getenv ''PUBLIC_ORIGIN'');
          rawOrigin = (if given = [] \<and> dev then ''http://localhost:8080'' else given);
          missing = (if given = [] \<and> \<not> dev then [OriginRequired] else []) in
      if rawOrigin = [] then (missing, None)
      else case lib_Parse lib rawOrigin of
          None \<Rightarrow> (missing @ [OriginNotAbsolute], None)
        | Some u \<Rightarrow> if Scheme u = [] \<or> Host u = [] then (missing @ [OriginNotAbsolute], None)
            else (missing @ (if \<not> dev \<and> Scheme u \<noteq> ''https'' then [OriginNotHttps] else []), Some u))"

definition load_pepper :: "(string \<Rightarrow> string) \<Rightarrow> bool \<Rightarrow> cfg_err list \<times> string" where
  "load_pepper getenv dev =
     (let pepper = getenv ''SESSION_HASH_PEPPER'' in
      if pepper = [] \<and> dev then ([], ''dev-insecure-pepper-do-not-use-in-production'')
      else if pepper = [] then ([PepperRequired], pepper)
      else if length pepper < 16 then ([PepperTooShort], pepper)
      else ([], pepper))"

definition vapidKeyLen :: "string \<Rightarrow> nat option" where
  "vapidKeyLen key = (case DecodeString encodeURL pad_char key of
     Some b \<Rightarrow> Some (length b)
   | None \<Rightarrow> map_option length (DecodeString encodeURL None key))"

text \<open>\<^verbatim>\<open>loadVAPID\<close>: the two keys and the contact URI; with neither key everything else is skipped.\<close>

definition loadVAPID :: "golib \<Rightarrow> (string \<Rightarrow> string) \<Rightarrow> URL option \<Rightarrow> cfg_err list \<times> string \<times> string \<times> string" where
  "loadVAPID lib getenv origin =
     (let pub = TrimSpace (getenv ''VAPID_PUBLIC_KEY'');
          priv = TrimSpace (getenv ''VAPID_PRIVATE_KEY'') in
      if pub = [] \<and> priv = [] then ([], pub, priv, [])
      else let
          both = (if priv = [] then [VapidPrivateRequired] else if pub = [] then [VapidPublicRequired] else []);
          e1 = (if pub \<noteq> [] \<and> vapidKeyLen pub \<noteq> Some 65 then [VapidPublicMalformed] else []);
          e2 = (if priv \<noteq> [] \<and> vapidKeyLen priv \<noteq> Some 32 then [VapidPrivateMalformed] else []);
          given = TrimSpace (getenv ''VAPID_SUBJECT'');
          subject = (case origin of Some u \<Rightarrow> if given = [] \<and> Scheme u = ''https'' then lib_String lib u else given
                       | None \<Rightarrow> given);
          e3 = (if subject = [] then [VapidSubjectRequired]
                else if \<not> HasPrefix subject ''mailto:'' \<and> \<not> HasPrefix subject ''https:'' then [VapidSubjectScheme]
                else []) in
        (both @ e1 @ e2 @ e3, pub, priv, subject))"

definition loadFCM :: "golib \<Rightarrow> (string \<Rightarrow> string) \<Rightarrow> cfg_err list \<times> string \<times> string \<times> bytes" where
  "loadFCM lib getenv =
     (let path = TrimSpace (getenv ''FCM_SERVICE_ACCOUNT_FILE'') in
      if path = [] then ([], [], [], [])
      else case lib_ReadFile lib path of
          None \<Rightarrow> ([FcmUnreadable], [], [], [])
        | Some raw \<Rightarrow> (case lib_Unmarshal lib raw of
              None \<Rightarrow> ([FcmNotJson path], [], [], [])
            | Some sa \<Rightarrow>
                if sa_Type sa \<noteq> ''service_account'' then ([FcmNotServiceAccount path], [], [], [])
                else if sa_ProjectID sa = [] then ([FcmNoProject path], [], [], [])
                else if sa_ClientEmail sa = [] then ([FcmNoEmail path], [], [], [])
                else if sa_PrivateKey sa = [] then ([FcmNoKey path], [], [], [])
                else ([], path, sa_ProjectID sa, raw)))"

definition cookieSecureButInsecureOrigin :: "Config \<Rightarrow> bool" where
  "cookieSecureButInsecureOrigin c \<longleftrightarrow>
     SecureCookies c \<and> (case PublicOrigin c of None \<Rightarrow> False | Some u \<Rightarrow> Scheme u \<noteq> ''https'')"

section \<open>LoadFrom\<close>

definition LoadFrom :: "golib \<Rightarrow> (string \<Rightarrow> string) \<Rightarrow> cfg_err list + Config" where
  "LoadFrom lib getenv =
     (let env = load_env lib getenv;
          dev = (snd env = EnvDevelopment);
          origin = load_origin lib getenv dev;
          url = TrimSpace (getenv ''DATABASE_URL'');
          noURL = (if url = [] then [DatabaseRequired] else []);
          backend = (case detectDBBackend lib (getenv ''AUL_DB_BACKEND'') url of
                       Inl e \<Rightarrow> ([e], BackendNone) | Inr b \<Rightarrow> ([], b));
          pepper = load_pepper getenv dev;
          tiles = TrimSpace (getenv ''TILES_ORIGIN'');
          ipDays = getInt getenv ''IP_LOG_RETENTION_DAYS'' 7 0 3650;
          defDays = getInt getenv ''DEFAULT_RETENTION_DAYS'' 7 1 3650;
          maxDays = getInt getenv ''MAX_RETENTION_DAYS'' 90 1 3650;
          tooLong = (if snd defDays > snd maxDays then [DefaultExceedsMax (snd defDays) (snd maxDays)] else []);
          pingHours = getInt getenv ''PING_RETENTION_HOURS'' 6 1 168;
          vapid = loadVAPID lib getenv (snd origin);
          fcm = loadFCM lib getenv;
          access = getDuration lib getenv ''ACCESS_TTL'' (15 * Minute);
          refresh = getDuration lib getenv ''REFRESH_TTL'' (30 * 24 * Hour);
          request = getDuration lib getenv ''REQUEST_TIMEOUT'' (30 * Second);
          shutdown = getDuration lib getenv ''SHUTDOWN_TIMEOUT'' (20 * Second);
          body = getInt getenv ''BODY_LIMIT_BYTES'' 1048576 1024 67108864;
          authRate = getInt getenv ''RATE_AUTH_PER_MIN'' 10 1 100000;
          inviteRate = getInt getenv ''RATE_INVITES_PER_HOUR'' 20 1 100000;
          pingRate = getInt getenv ''RATE_PINGS_PER_MIN'' 120 1 100000;
          c = \<lparr>Config_Env = snd env,
               HTTPAddr = getenvDefault getenv ''HTTP_ADDR'' '':8080'',
               PublicOrigin = snd origin,
               DatabaseURL = url,
               Config_DBBackend = snd backend,
               SessionPepper = snd pepper,
               SecureCookies = getBool getenv ''SECURE_COOKIES'' (\<not> dev),
               TrustedServerMode = getBool getenv ''TRUSTED_SERVER_MODE'' False,
               MetricsEnabled = getBool getenv ''METRICS_ENABLED'' False,
               RetentionFeaturesEnabled = getBool getenv ''RETENTION_FEATURES_ENABLED'' True,
               RunMigrations = getBool getenv ''RUN_MIGRATIONS'' True,
               TrustProxyHeaders = getBool getenv ''TRUST_PROXY_HEADERS'' (\<not> dev),
               DevStaticDir = TrimSpace (getenv ''DEV_STATIC_DIR''),
               TilesOrigin = (if tiles = [] then ''https://tiles.openfreemap.org'' else tiles),
               IPLogRetentionDays = snd ipDays,
               DefaultRetentionDays = snd defDays,
               MaxRetentionDays = snd maxDays,
               PingRetentionHours = snd pingHours,
               VAPIDPublicKey = fst (snd vapid),
               VAPIDPrivateKey = fst (snd (snd vapid)),
               VAPIDSubject = snd (snd (snd vapid)),
               FCMServiceAccountFile = fst (snd fcm),
               FCMProjectID = fst (snd (snd fcm)),
               FCMCredentialsJSON = snd (snd (snd fcm)),
               AccessTTL = snd access,
               RefreshTTL = snd refresh,
               BodyLimitBytes = snd body,
               RequestTimeout = snd request,
               ShutdownTimeout = snd shutdown,
               AuthRatePerMin = snd authRate,
               InvitesRatePerHr = snd inviteRate,
               PingRatePerMin = snd pingRate\<rparr>;
          cookies = (if cookieSecureButInsecureOrigin c then [CookiesNeedHttps] else []);
          errs = fst env @ fst origin @ noURL @ fst backend @ fst pepper @ fst ipDays @ fst defDays
            @ fst maxDays @ tooLong @ fst pingHours @ fst vapid @ fst fcm @ fst access @ fst refresh
            @ fst request @ fst shutdown @ fst body @ fst authRate @ fst inviteRate @ fst pingRate @ cookies
      in if errs \<noteq> [] then Inl errs else Inr c)"

definition IsDev :: "Config \<Rightarrow> bool" where
  "IsDev c \<longleftrightarrow> Config_Env c = EnvDevelopment"

definition PushEnabled :: "Config \<Rightarrow> bool" where
  "PushEnabled c \<longleftrightarrow> VAPIDPublicKey c \<noteq> [] \<and> VAPIDPrivateKey c \<noteq> []"

definition FCMEnabled :: "Config \<Rightarrow> bool" where
  "FCMEnabled c \<longleftrightarrow> length (FCMCredentialsJSON c) > 0"

section \<open>What a loaded configuration guarantees\<close>

definition origin_ok :: "Config \<Rightarrow> bool" where
  "origin_ok c \<longleftrightarrow> (case PublicOrigin c of None \<Rightarrow> False | Some u \<Rightarrow>
     Scheme u \<noteq> [] \<and> Host u \<noteq> [] \<and>
     (Config_Env c \<noteq> EnvDevelopment \<or> SecureCookies c \<longrightarrow> Scheme u = ''https''))"

definition limits_ok :: "Config \<Rightarrow> bool" where
  "limits_ok c \<longleftrightarrow>
     0 \<le> IPLogRetentionDays c \<and> IPLogRetentionDays c \<le> 3650 \<and>
     1 \<le> DefaultRetentionDays c \<and> DefaultRetentionDays c \<le> MaxRetentionDays c \<and> MaxRetentionDays c \<le> 3650 \<and>
     1 \<le> PingRetentionHours c \<and> PingRetentionHours c \<le> 168 \<and>
     1024 \<le> BodyLimitBytes c \<and> BodyLimitBytes c \<le> 67108864 \<and>
     1 \<le> AuthRatePerMin c \<and> AuthRatePerMin c \<le> 100000 \<and>
     1 \<le> InvitesRatePerHr c \<and> InvitesRatePerHr c \<le> 100000 \<and>
     1 \<le> PingRatePerMin c \<and> PingRatePerMin c \<le> 100000 \<and>
     0 < AccessTTL c \<and> 0 < RefreshTTL c \<and> 0 < RequestTimeout c \<and> 0 < ShutdownTimeout c"

definition channels_ok :: "Config \<Rightarrow> bool" where
  "channels_ok c \<longleftrightarrow>
     (VAPIDPublicKey c = [] \<and> VAPIDPrivateKey c = [] \<or>
      vapidKeyLen (VAPIDPublicKey c) = Some 65 \<and> vapidKeyLen (VAPIDPrivateKey c) = Some 32 \<and>
      (HasPrefix (VAPIDSubject c) ''mailto:'' \<or> HasPrefix (VAPIDSubject c) ''https:'')) \<and>
     (FCMEnabled c \<longrightarrow> FCMProjectID c \<noteq> [] \<and> FCMServiceAccountFile c \<noteq> [])"

definition config_ok :: "Config \<Rightarrow> bool" where
  "config_ok c \<longleftrightarrow> Config_Env c \<noteq> EnvNone \<and> Config_DBBackend c \<noteq> BackendNone \<and> DatabaseURL c \<noteq> [] \<and>
     HTTPAddr c \<noteq> [] \<and> 16 \<le> length (SessionPepper c) \<and> origin_ok c \<and> limits_ok c \<and> channels_ok c"

lemma getInt_ok:
  assumes "fst (getInt getenv key def mn mx) = []" and "mn \<le> def" and "def \<le> mx"
  shows "mn \<le> snd (getInt getenv key def mn mx) \<and> snd (getInt getenv key def mn mx) \<le> mx"
  using assms by (auto simp: getInt_def Let_def split: if_splits option.splits)

lemma getDuration_ok:
  assumes "fst (getDuration lib getenv key def) = []" and "0 < def"
  shows "0 < snd (getDuration lib getenv key def)"
  using assms by (auto simp: getDuration_def Let_def split: if_splits option.splits)

lemma load_env_ok: "fst (load_env lib getenv) = [] \<Longrightarrow> snd (load_env lib getenv) \<noteq> EnvNone"
  by (auto simp: load_env_def Let_def split: if_splits)

lemma load_origin_ok:
  assumes "fst (load_origin lib getenv dev) = []"
  shows "\<exists>u. snd (load_origin lib getenv dev) = Some u \<and> Scheme u \<noteq> [] \<and> Host u \<noteq> [] \<and>
    (\<not> dev \<longrightarrow> Scheme u = ''https'')"
  using assms by (auto simp: load_origin_def Let_def split: if_splits option.splits)

lemma load_pepper_ok:
  "fst (load_pepper getenv dev) = [] \<Longrightarrow> 16 \<le> length (snd (load_pepper getenv dev))"
  by (auto simp: load_pepper_def Let_def split: if_splits)

lemma loadVAPID_ok:
  assumes "fst (loadVAPID lib getenv origin) = []"
  shows "case snd (loadVAPID lib getenv origin) of (pub, priv, subject) \<Rightarrow>
    pub = [] \<and> priv = [] \<or> vapidKeyLen pub = Some 65 \<and> vapidKeyLen priv = Some 32 \<and>
      (HasPrefix subject ''mailto:'' \<or> HasPrefix subject ''https:'')"
  using assms by (auto simp: loadVAPID_def Let_def split: if_splits)

lemma loadFCM_ok:
  "case snd (loadFCM lib getenv) of (path, project, raw) \<Rightarrow> raw \<noteq> [] \<longrightarrow> path \<noteq> [] \<and> project \<noteq> []"
  by (auto simp: loadFCM_def Let_def split: if_splits option.splits)

lemma if_Inr_iff: "(if es \<noteq> [] then Inl es else Inr y) = Inr z \<longleftrightarrow> es = [] \<and> y = z"
  by simp

lemma if_Nil_iff [simp]: "((if b then [x] else []) = []) = (\<not> b)"
  by simp

lemma LoadFrom_ok:
  assumes "LoadFrom lib getenv = Inr c"
  shows "config_ok c"
proof -
  let ?e = "load_env lib getenv"
  let ?dev = "snd ?e = EnvDevelopment"
  let ?o = "load_origin lib getenv ?dev"
  let ?v = "loadVAPID lib getenv (snd ?o)"
  let ?int = "getInt getenv"
  let ?dur = "getDuration lib getenv"
  note def = assms [unfolded LoadFrom_def Let_def, unfolded if_Inr_iff, unfolded append_is_Nil_conv if_Nil_iff]
  note rec = def [THEN conjunct2, symmetric]
  have none: "fst ?e = []" "fst ?o = []" "fst (load_pepper getenv ?dev) = []" "fst ?v = []"
    using def by blast+
  have ints: "fst (?int ''IP_LOG_RETENTION_DAYS'' 7 0 3650) = []"
    "fst (?int ''DEFAULT_RETENTION_DAYS'' 7 1 3650) = []" "fst (?int ''MAX_RETENTION_DAYS'' 90 1 3650) = []"
    "fst (?int ''PING_RETENTION_HOURS'' 6 1 168) = []" "fst (?int ''BODY_LIMIT_BYTES'' 1048576 1024 67108864) = []"
    "fst (?int ''RATE_AUTH_PER_MIN'' 10 1 100000) = []" "fst (?int ''RATE_INVITES_PER_HOUR'' 20 1 100000) = []"
    "fst (?int ''RATE_PINGS_PER_MIN'' 120 1 100000) = []"
    using def by blast+
  have durs: "fst (?dur ''ACCESS_TTL'' (15 * Minute)) = []" "fst (?dur ''REFRESH_TTL'' (30 * 24 * Hour)) = []"
    "fst (?dur ''REQUEST_TIMEOUT'' (30 * Second)) = []" "fst (?dur ''SHUTDOWN_TIMEOUT'' (20 * Second)) = []"
    using def by blast+
  have ids: "Config_Env c = snd ?e" "PublicOrigin c = snd ?o" "SessionPepper c = snd (load_pepper getenv ?dev)"
    "(VAPIDPublicKey c, VAPIDPrivateKey c, VAPIDSubject c) = snd ?v"
    "(FCMServiceAccountFile c, FCMProjectID c, FCMCredentialsJSON c) = snd (loadFCM lib getenv)"
    "HTTPAddr c = getenvDefault getenv ''HTTP_ADDR'' '':8080''"
    unfolding rec by simp_all
  have checks: "\<not> cookieSecureButInsecureOrigin c" "DatabaseURL c \<noteq> []" "DefaultRetentionDays c \<le> MaxRetentionDays c"
    using def unfolding rec by simp_all
  have limits: "IPLogRetentionDays c = snd (?int ''IP_LOG_RETENTION_DAYS'' 7 0 3650)"
    "DefaultRetentionDays c = snd (?int ''DEFAULT_RETENTION_DAYS'' 7 1 3650)"
    "MaxRetentionDays c = snd (?int ''MAX_RETENTION_DAYS'' 90 1 3650)"
    "PingRetentionHours c = snd (?int ''PING_RETENTION_HOURS'' 6 1 168)"
    "BodyLimitBytes c = snd (?int ''BODY_LIMIT_BYTES'' 1048576 1024 67108864)"
    "AuthRatePerMin c = snd (?int ''RATE_AUTH_PER_MIN'' 10 1 100000)"
    "InvitesRatePerHr c = snd (?int ''RATE_INVITES_PER_HOUR'' 20 1 100000)"
    "PingRatePerMin c = snd (?int ''RATE_PINGS_PER_MIN'' 120 1 100000)"
    "AccessTTL c = snd (?dur ''ACCESS_TTL'' (15 * Minute))" "RefreshTTL c = snd (?dur ''REFRESH_TTL'' (30 * 24 * Hour))"
    "RequestTimeout c = snd (?dur ''REQUEST_TIMEOUT'' (30 * Second))"
    "ShutdownTimeout c = snd (?dur ''SHUTDOWN_TIMEOUT'' (20 * Second))"
    unfolding rec by simp_all
  have "origin_ok c"
    using load_origin_ok [OF none(2)] ids(1,2) checks(1) by (auto simp: origin_ok_def cookieSecureButInsecureOrigin_def)
  moreover have "limits_ok c"
    using checks(3) ints [THEN getInt_ok] durs [THEN getDuration_ok]
    unfolding limits_ok_def limits by (simp add: duration_defs)
  moreover have "channels_ok c"
    using loadVAPID_ok [OF none(4)] loadFCM_ok [of lib getenv]
    unfolding ids(4,5) [symmetric] by (simp add: channels_ok_def FCMEnabled_def)
  moreover have "Config_Env c \<noteq> EnvNone" and "16 \<le> length (SessionPepper c)"
    using load_env_ok [OF none(1)] load_pepper_ok [OF none(3)] ids(1,3) by simp_all
  moreover have "Config_DBBackend c \<noteq> BackendNone"
    using def unfolding rec by (auto simp: Let_def detectDBBackend_def split: if_splits sum.splits)
  moreover have "HTTPAddr c \<noteq> []" using ids(6) by (simp add: getenvDefault_def Let_def)
  moreover note checks(2)
  ultimately show ?thesis by (simp add: config_ok_def)
qed

lemma LoadFrom_no_fcm:
  assumes "LoadFrom lib getenv = Inr c" and "TrimSpace (getenv ''FCM_SERVICE_ACCOUNT_FILE'') = []"
  shows "\<not> FCMEnabled c"
proof -
  note rec = assms(1) [unfolded LoadFrom_def Let_def, unfolded if_Inr_iff, THEN conjunct2, symmetric]
  have "FCMCredentialsJSON c = snd (snd (snd (loadFCM lib getenv)))" unfolding rec by simp
  then show ?thesis using assms(2) by (simp add: FCMEnabled_def loadFCM_def)
qed

text \<open>
  A boolean that does not parse is not an error: the default stands. In production an operator who
  sets \<^verbatim>\<open>TRUST_PROXY_HEADERS=off\<close> still gets a server that trusts them.
\<close>

lemma malformed_bool_ignored:
  assumes "LoadFrom lib getenv = Inr c" and "getenv ''TRUST_PROXY_HEADERS'' = ''off''" and "\<not> IsDev c"
  shows "TrustProxyHeaders c"
proof -
  note def = assms(1) [unfolded LoadFrom_def Let_def, unfolded if_Inr_iff]
  note rec = def [THEN conjunct2, symmetric]
  have "TrimSpace ''off'' = ''off''" by (rule TrimSpace_graphic) (auto simp: graphic_def)
  moreover have "ParseBool ''off'' = None" by (simp add: ParseBool_def)
  moreover have "TrustProxyHeaders c = getBool getenv ''TRUST_PROXY_HEADERS'' (\<not> (snd (load_env lib getenv) = EnvDevelopment))"
    and "Config_Env c = snd (load_env lib getenv)" unfolding rec by simp_all
  ultimately show ?thesis using assms(2,3) by (simp add: getBool_def IsDev_def)
qed

end
