(* ===== verification/Aul_Push.thy ===== *)
theory Aul_Push
  imports Aul_Config Aul_Api_Account
begin

text \<open>
  The push channels: \<^verbatim>\<open>server/internal/fcm/fcm.go\<close> and the senders of \<^verbatim>\<open>httpapi/push.go\<close>. The network, the
  OAuth token source, the JSON decoder and the webpush library are the fields of \<open>push_net\<close>. A send
  returns its result together with the requests it handed to the network. \<open>channel_outcome\<close> is what
  the fan-out of \<open>Aul_Api_Account\<close> sees of a send; \<open>reported_dead\<close> says when a channel calls a
  subscription dead, and only such a subscription is pruned.
\<close>

section \<open>fcm.go\<close>

record androidConfig =
  Priority :: string
  TTL :: string

record fcm_message =
  Message_Token :: string
  Message_Data :: "(string \<times> string) list"
  Message_Android :: "androidConfig option"

record apiError =
  Error_Code :: int
  Error_Status :: string
  Error_Details :: "(string \<times> string) list"

record fcm_request =
  fr_url :: string
  fr_headers :: "(string \<times> string) list"
  fr_message :: fcm_message

datatype fcm_err = ErrUnregistered | FcmBuild | FcmMint | FcmSend | FcmRejected int

record fcm_client =
  projectID :: string
  baseURL :: string

definition DefaultBaseURL :: string where "DefaultBaseURL = ''https://fcm.googleapis.com''"

definition maxErrorBodyBytes :: nat where "maxErrorBodyBytes = 65536"

definition WithBaseURL :: "string \<Rightarrow> fcm_client \<Rightarrow> fcm_client" where
  "WithBaseURL u c = c\<lparr>baseURL := TrimSuffix u ''/''\<rparr>"

definition NewWithTokenSource :: "string \<Rightarrow> (fcm_client \<Rightarrow> fcm_client) list \<Rightarrow> fcm_client" where
  "NewWithTokenSource project opts =
     fold (\<lambda>opt c. opt c) opts \<lparr>projectID = project, baseURL = DefaultBaseURL\<rparr>"

text \<open>\<open>creds\<close> is the project id of the parsed credentials, if they parse.\<close>

datatype fcm_new_err = CredentialsUnusable | NoProjectID

definition New_fcm :: "string option \<Rightarrow> (fcm_client \<Rightarrow> fcm_client) list \<Rightarrow> fcm_new_err + fcm_client" where
  "New_fcm creds opts =
     (let c = fold (\<lambda>opt c. opt c) opts \<lparr>projectID = [], baseURL = DefaultBaseURL\<rparr> in
      case creds of
        None \<Rightarrow> Inl CredentialsUnusable
      | Some project \<Rightarrow> if project = [] then Inl NoProjectID else Inr (c\<lparr>projectID := project\<rparr>))"

definition isUnregistered :: "(bytes \<Rightarrow> apiError option) \<Rightarrow> int \<Rightarrow> bytes \<Rightarrow> bool" where
  "isUnregistered unmarshal status body =
     (if status = 404 then True
      else case unmarshal body of
          None \<Rightarrow> False
        | Some e \<Rightarrow>
            if Error_Status e = ''NOT_FOUND'' then True
            else list_ex (\<lambda>d. snd d = ''UNREGISTERED'') (Error_Details e))"

text \<open>What the webpush library is called with, and its answers; it may panic on bad key material.\<close>

record webpush_call =
  wp_payload :: string
  wp_endpoint :: string
  wp_keys :: "string \<times> string"
  wp_Subscriber :: string
  wp_VAPIDPublicKey :: string
  wp_VAPIDPrivateKey :: string
  wp_TTL :: int
  wp_Urgency :: string

datatype webpush_answer = WpStatus int | WpError | WpPanic

record push_net =
  net_valid_url :: "string \<Rightarrow> bool"
  net_token :: "string option"
  net_do :: "fcm_request \<Rightarrow> (int \<times> bytes) option"
  net_unmarshal :: "bytes \<Rightarrow> apiError option"
  net_webpush :: "webpush_call \<Rightarrow> webpush_answer"

definition fcm_url :: "fcm_client \<Rightarrow> string" where
  "fcm_url c = baseURL c @ ''/v1/projects/'' @ projectID c @ ''/messages:send''"

text \<open>\<open>Send\<close> returns its error, if any, and the requests that reached the network.\<close>

definition Send :: "push_net \<Rightarrow> fcm_client \<Rightarrow> string \<Rightarrow> (string \<times> string) list \<Rightarrow> int
    \<Rightarrow> fcm_err option \<times> fcm_request list" where
  "Send net c token data ttlSeconds =
     (let body = \<lparr>Message_Token = token, Message_Data = data,
            Message_Android = Some \<lparr>Priority = ''high'', TTL = Itoa ttlSeconds @ ''s''\<rparr>\<rparr>;
          url = fcm_url c in
      if \<not> net_valid_url net url then (Some FcmBuild, [])
      else case net_token net of
          None \<Rightarrow> (Some FcmMint, [])
        | Some tok \<Rightarrow>
            let req = \<lparr>fr_url = url, fr_headers = [(''Content-Type'', ''application/json''), (''Authorization'', tok)],
                       fr_message = body\<rparr> in
            (case net_do net req of
               None \<Rightarrow> (Some FcmSend, [req])
             | Some (status, respBody) \<Rightarrow>
                 if 200 \<le> status \<and> status < 300 then (None, [req])
                 else if isUnregistered (net_unmarshal net) status (take maxErrorBodyBytes respBody)
                 then (Some ErrUnregistered, [req])
                 else (Some (FcmRejected status), [req])))"

section \<open>The senders of push.go\<close>

definition fcmDataKey :: string where "fcmDataKey = ''payload_enc''"

definition pushTTLSeconds :: int where "pushTTLSeconds = 600"

definition vapidSubscriber :: "string \<Rightarrow> string" where
  "vapidSubscriber subject =
     (if HasPrefix subject ''https:'' then subject
      else if HasPrefix subject ''mailto:'' then drop (length ''mailto:'') subject else subject)"

definition sendFCM :: "push_net \<Rightarrow> fcm_client \<Rightarrow> PushSubscription \<Rightarrow> string \<Rightarrow> push_outcome" where
  "sendFCM net c sub payload =
     (case fst (Send net c (Push_Endpoint sub) [(fcmDataKey, payload)] pushTTLSeconds) of
        None \<Rightarrow> PushSent
      | Some ErrUnregistered \<Rightarrow> PushGone
      | Some _ \<Rightarrow> PushFailed)"

definition webpush_request :: "Config \<Rightarrow> PushSubscription \<Rightarrow> string \<Rightarrow> webpush_call option" where
  "webpush_request cfg sub payload =
     (case (Push_P256dh sub, Push_Auth sub) of
        (Some p256dh, Some auth) \<Rightarrow> Some \<lparr>wp_payload = payload, wp_endpoint = Push_Endpoint sub,
          wp_keys = (p256dh, auth), wp_Subscriber = vapidSubscriber (VAPIDSubject cfg),
          wp_VAPIDPublicKey = VAPIDPublicKey cfg, wp_VAPIDPrivateKey = VAPIDPrivateKey cfg,
          wp_TTL = pushTTLSeconds, wp_Urgency = ''normal''\<rparr>
      | _ \<Rightarrow> None)"

text \<open>\<^verbatim>\<open>sendWebPush\<close> under \<^verbatim>\<open>sendPushSafe\<close>: a panic of the library fails that one delivery.\<close>

definition sendWebPush :: "push_net \<Rightarrow> Config \<Rightarrow> PushSubscription \<Rightarrow> string \<Rightarrow> push_outcome" where
  "sendWebPush net cfg sub payload =
     (case webpush_request cfg sub payload of
        None \<Rightarrow> PushFailed
      | Some wp \<Rightarrow> (case net_webpush net wp of
            WpError \<Rightarrow> PushFailed
          | WpPanic \<Rightarrow> PushFailed
          | WpStatus s \<Rightarrow>
              if s = 404 \<or> s = 410 then PushGone
              else if 200 \<le> s \<and> s < 300 then PushSent
              else PushFailed))"

text \<open>
  \<^verbatim>\<open>sendPushSafe\<close> on the channel of the subscription. A missing client makes \<^verbatim>\<open>sendFCM\<close> dereference
  nil; the panic is recovered and the delivery failed.
\<close>

definition channel_outcome :: "push_net \<Rightarrow> Config \<Rightarrow> fcm_client option \<Rightarrow> string \<Rightarrow> PushSubscription \<Rightarrow> push_outcome" where
  "channel_outcome net cfg client payload sub =
     (if Push_Kind sub = ''fcm''
      then (case client of None \<Rightarrow> PushFailed | Some c \<Rightarrow> sendFCM net c sub payload)
      else sendWebPush net cfg sub payload)"

definition push_config_of :: "Config \<Rightarrow> fcm_client option \<Rightarrow> push_config" where
  "push_config_of cfg client = \<lparr>push_web = PushEnabled cfg, push_fcm = (client \<noteq> None)\<rparr>"

text \<open>The handler on its real channels; without a decodable body nothing is sent.\<close>

definition handleNotify_channels :: "push_net \<Rightarrow> Config \<Rightarrow> fcm_client option \<Rightarrow> string + string
    \<Rightarrow> CircleMember \<Rightarrow> (nat \<times> nat) handler" where
  "handleNotify_channels net cfg client body m =
     handleNotify (push_config_of cfg client)
       (\<lambda>sub. case body of Inl _ \<Rightarrow> PushFailed | Inr payload \<Rightarrow> channel_outcome net cfg client payload sub) body m"

section \<open>Which answers prune a subscription\<close>

text \<open>The answers that mean the registration is gone.\<close>

definition reported_dead :: "push_net \<Rightarrow> Config \<Rightarrow> fcm_client option \<Rightarrow> string \<Rightarrow> PushSubscription \<Rightarrow> bool" where
  "reported_dead net cfg client payload sub \<longleftrightarrow>
     (if Push_Kind sub = ''fcm'' then
        \<exists>c req status body. client = Some c \<and> net_do net req = Some (status, body) \<and>
          fr_url req = fcm_url c \<and> Message_Token (fr_message req) = Push_Endpoint sub \<and> \<not> (200 \<le> status \<and> status < 300) \<and>
          (status = 404 \<or> (\<exists>e. net_unmarshal net (take maxErrorBodyBytes body) = Some e \<and>
             (Error_Status e = ''NOT_FOUND'' \<or> (\<exists>d\<in>set (Error_Details e). snd d = ''UNREGISTERED''))))
      else \<exists>wp s. webpush_request cfg sub payload = Some wp \<and> net_webpush net wp = WpStatus s \<and> (s = 404 \<or> s = 410))"

lemma isUnregistered_iff:
  "isUnregistered unmarshal status body \<longleftrightarrow> status = 404 \<or> (\<exists>e. unmarshal body = Some e \<and>
     (Error_Status e = ''NOT_FOUND'' \<or> (\<exists>d\<in>set (Error_Details e). snd d = ''UNREGISTERED'')))"
  by (auto simp: isUnregistered_def list_ex_iff split: option.split)

lemma invalid_argument_kept:
  assumes "status \<noteq> 404" and "unmarshal body = Some e" and "Error_Status e = ''INVALID_ARGUMENT''"
    and "\<forall>d\<in>set (Error_Details e). snd d = ''INVALID_ARGUMENT''"
  shows "\<not> isUnregistered unmarshal status body"
  using assms by (auto simp: isUnregistered_iff)

lemma Send_sends:
  assumes "req \<in> set (snd (Send net c token data ttl))"
  shows "fr_url req = fcm_url c \<and> Message_Token (fr_message req) = token \<and> Message_Data (fr_message req) = data"
  using assms by (auto simp: Send_def Let_def split: option.splits if_splits prod.splits)

lemma Send_unregistered:
  assumes "fst (Send net c token data ttl) = Some ErrUnregistered"
  shows "\<exists>req status body. net_do net req = Some (status, body) \<and> req \<in> set (snd (Send net c token data ttl)) \<and>
     \<not> (200 \<le> status \<and> status < 300) \<and> isUnregistered (net_unmarshal net) status (take maxErrorBodyBytes body)"
proof -
  let ?req = "\<lparr>fr_url = fcm_url c, fr_headers = [(''Content-Type'', ''application/json''), (''Authorization'', the (net_token net))],
    fr_message = \<lparr>Message_Token = token, Message_Data = data,
      Message_Android = Some \<lparr>Priority = ''high'', TTL = Itoa ttl @ ''s''\<rparr>\<rparr>\<rparr>"
  show ?thesis using assms
    by (intro exI [of _ ?req]) (auto simp: Send_def Let_def split: option.splits if_splits prod.splits)
qed

lemma sendFCM_gone:
  assumes "sendFCM net c sub payload = PushGone" and "Push_Kind sub = ''fcm''"
  shows "reported_dead net cfg (Some c) payload sub"
proof -
  let ?s = "Send net c (Push_Endpoint sub) [(fcmDataKey, payload)] pushTTLSeconds"
  have "fst ?s = Some ErrUnregistered" using assms(1) by (auto simp: sendFCM_def split: option.splits fcm_err.splits)
  from Send_unregistered [OF this] obtain req status body where r: "net_do net req = Some (status, body)"
    "req \<in> set (snd ?s)" "\<not> (200 \<le> status \<and> status < 300)"
    "isUnregistered (net_unmarshal net) status (take maxErrorBodyBytes body)" by blast
  with Send_sends [OF r(2)] show ?thesis unfolding reported_dead_def if_P [OF assms(2)] isUnregistered_iff by blast
qed

lemma channel_outcome_gone:
  assumes "channel_outcome net cfg client payload sub = PushGone"
  shows "reported_dead net cfg client payload sub"
proof (cases "Push_Kind sub = ''fcm''")
  case True
  with assms obtain c where "client = Some c" and "sendFCM net c sub payload = PushGone"
    by (auto simp: channel_outcome_def split: option.splits)
  with sendFCM_gone [OF _ True] show ?thesis by simp
next
  case False
  with assms show ?thesis
    by (auto simp: channel_outcome_def sendWebPush_def reported_dead_def split: option.splits webpush_answer.splits if_splits)
qed

section \<open>The fan-out\<close>

definition gone_ids :: "(PushSubscription \<Rightarrow> push_outcome) \<Rightarrow> PushSubscription list \<Rightarrow> uuid set" where
  "gone_ids outcome ps = Push_ID ` {p \<in> set ps. outcome p = PushGone}"

lemma sendPush_run:
  assumes "faults d = []"
  shows "sendPush outcome p d = (Inr (outcome p = PushSent),
    d\<lparr>push_subscriptions := filter (\<lambda>x. Push_ID x \<notin> gone_ids outcome [p]) (push_subscriptions d)\<rparr>)"
proof -
  have "gone_ids outcome [p] = (if outcome p = PushGone then {Push_ID p} else {})" by (auto simp: gone_ids_def)
  then show ?thesis using assms
    by (cases "outcome p") (simp_all add: sendPush_def ret_def run_def DeletePushSubscriptionByID_def delete_where_def)
qed

lemma fanOutPush_run:
  assumes "faults d = []"
  shows "fanOutPush outcome ps d =
    (Inr (length (filter (\<lambda>p. outcome p = PushSent) ps), length (filter (\<lambda>p. outcome p \<noteq> PushSent) ps)),
     d\<lparr>push_subscriptions := filter (\<lambda>x. Push_ID x \<notin> gone_ids outcome ps) (push_subscriptions d)\<rparr>)"
  using assms
proof (induction ps arbitrary: d)
  case Nil
  then show ?case by (simp add: ret_def gone_ids_def)
next
  case (Cons p ps)
  have split: "gone_ids outcome (p # ps) = gone_ids outcome [p] \<union> gone_ids outcome ps" by (auto simp: gone_ids_def)
  show ?case unfolding fanOutPush.simps bindm_def sendPush_run [OF Cons.prems] split
    using Cons.prems by (simp add: Cons.IH ret_def conj_commute)
qed

lemma deliverable_subset: "set (deliverable cfg subs) \<subseteq> set subs"
  by (auto simp: deliverable_def)

text \<open>
  A request for notifications that is answered with 200: every recipient is counted once, and a
  subscription that is not there any more was reported dead by its channel.
\<close>

lemma handleNotify_channels_run:
  assumes "faults (w_db w) = []" and "handleNotify_channels net cfg client body m w = (Inr (st, sent, failed), w')"
  shows "\<exists>payload subs. body = Inr payload \<and> st = 200 \<and> w_hub w' = w_hub w \<and> length payload \<le> maxPushPlaintextBytes \<and>
    ListCirclePushSubscriptions (Member_CircleID m) (Member_UserID m) (w_db w) = (Inr subs, w_db w) \<and>
    sent + failed = length (deliverable (push_config_of cfg client) subs) \<and>
    sent = length (filter (\<lambda>p. channel_outcome net cfg client payload p = PushSent) (deliverable (push_config_of cfg client) subs)) \<and>
    w_db w' = (w_db w)\<lparr>push_subscriptions := filter (\<lambda>x. Push_ID x \<notin> gone_ids (channel_outcome net cfg client payload)
      (deliverable (push_config_of cfg client) subs)) (push_subscriptions (w_db w))\<rparr>"
proof -
  let ?c = "push_config_of cfg client"
  from assms(2) obtain payload where b: "body = Inr payload"
    by (cases body) (auto simp: handleNotify_channels_def handleNotify_def decoded_def fail_def split: if_splits)
  let ?subs = "fst (ListCirclePushSubscriptions (Member_CircleID m) (Member_UserID m) (w_db w))"
  obtain subs where l: "ListCirclePushSubscriptions (Member_CircleID m) (Member_UserID m) (w_db w) = (Inr subs, w_db w)"
    using assms(1) by (auto simp: ListCirclePushSubscriptions_def)
  show ?thesis using assms(2) l fanOutPush_run [OF assms(1), of "channel_outcome net cfg client payload" "deliverable ?c subs"]
      sum_length_filter_compl [of "\<lambda>p. channel_outcome net cfg client payload p = PushSent" "deliverable ?c subs"]
    unfolding b handleNotify_channels_def
    by (auto simp: handleNotify_def decoded_def blob_def call_def tryq_def on_db_def respond_def ret_def fail_def
        split: if_splits sum.splits)
qed

lemma pruned_was_dead:
  assumes "faults (w_db w) = []" and "handleNotify_channels net cfg client (Inr payload) m w = (Inr r, w')"
    and "p \<in> set (push_subscriptions (w_db w))" and "p \<notin> set (push_subscriptions (w_db w'))"
    and "distinct (map Push_ID (push_subscriptions (w_db w)))"
  shows "reported_dead net cfg client payload p"
proof -
  obtain st sent failed where r: "r = (st, sent, failed)" by (cases r)
  from handleNotify_channels_run [OF assms(1) assms(2) [unfolded r]] obtain subs
    where l: "ListCirclePushSubscriptions (Member_CircleID m) (Member_UserID m) (w_db w) = (Inr subs, w_db w)"
    and w': "w_db w' = (w_db w)\<lparr>push_subscriptions := filter (\<lambda>x. Push_ID x \<notin> gone_ids (channel_outcome net cfg client payload)
      (deliverable (push_config_of cfg client) subs)) (push_subscriptions (w_db w))\<rparr>" by auto
  from assms(3,4) obtain q where q: "q \<in> set subs" "channel_outcome net cfg client payload q = PushGone" "Push_ID q = Push_ID p"
    using deliverable_subset unfolding w' gone_ids_def by fastforce
  from q(1) l assms(1) have "q \<in> set (push_subscriptions (w_db w))" by (auto simp: ListCirclePushSubscriptions_def)
  with q(3) assms(3,5) have "q = p" by (metis distinct_map inj_on_def)
  with channel_outcome_gone [OF q(2)] show ?thesis by simp
qed

section \<open>The VAPID subject\<close>

text \<open>The contact URI webpush-go signs: it prepends the scheme to anything that is not an https URI.\<close>

definition library_subject :: "string \<Rightarrow> string" where
  "library_subject subscriber = (if HasPrefix subscriber ''https:'' then subscriber else ''mailto:'' @ subscriber)"

lemma vapid_subject_signed:
  assumes "config_ok cfg" and "PushEnabled cfg"
    and "\<not> HasPrefix (VAPIDSubject cfg) ''mailto:https:''"
  shows "library_subject (vapidSubscriber (VAPIDSubject cfg)) = VAPIDSubject cfg"
proof -
  have "HasPrefix (VAPIDSubject cfg) ''mailto:'' \<or> HasPrefix (VAPIDSubject cfg) ''https:''"
    using assms(1,2) by (auto simp: config_ok_def channels_ok_def PushEnabled_def)
  then show ?thesis using assms(3)
    by (auto simp: library_subject_def vapidSubscriber_def HasPrefix_iff)
qed

end
