(* ===== verification/Aul_Edge.thy ===== *)
theory Aul_Edge
  imports Aul_Config Aul_Http
begin

text \<open>
  The outermost layers of the HTTP server: \<^verbatim>\<open>server/internal/middleware\<close> (request id, client address,
  security headers, CORS, panic recovery), the request context and the client address of
  \<^verbatim>\<open>server/internal/httpx\<close>, and the order in which \<^verbatim>\<open>Router\<close> stacks them. A handler transforms
  the response under construction and the rest of the server's state \<open>'w\<close>. \<open>resp_panic\<close>
  marks a handler that panicked. Request headers are the list of header lines; \<^verbatim>\<open>Header.Get\<close>
  returns the first one. The reverse proxies in front of the server transform the request headers;
  the client address is stated for a request as it arrives through one of them.
\<close>

section \<open>Requests, responses, context\<close>

record http_req =
  req_method :: string
  req_headers :: "(string \<times> string) list"
  RemoteAddr :: string
  ctx_auth :: "Auth option"
  ctx_reqid :: string
  ctx_realip :: string

record response =
  resp_headers :: "(string \<times> string) list"
  resp_status :: "nat option"
  resp_error :: "(string \<times> string) option"
  resp_panic :: bool

type_synonym 'w http = "http_req \<Rightarrow> response \<times> 'w \<Rightarrow> response \<times> 'w"

definition Get :: "http_req \<Rightarrow> string \<Rightarrow> string" where
  "Get r k = (case map_of (req_headers r) k of None \<Rightarrow> [] | Some v \<Rightarrow> v)"

definition Set :: "string \<Rightarrow> string \<Rightarrow> response \<Rightarrow> response" where
  "Set k v rs = rs\<lparr>resp_headers := (k, v) # filter (\<lambda>p. fst p \<noteq> k) (resp_headers rs)\<rparr>"

definition WriteHeader :: "nat \<Rightarrow> response \<Rightarrow> response" where
  "WriteHeader code rs = (case resp_status rs of None \<Rightarrow> rs\<lparr>resp_status := Some code\<rparr> | Some _ \<Rightarrow> rs)"

definition WriteError :: "nat \<Rightarrow> string \<Rightarrow> string \<Rightarrow> response \<Rightarrow> response" where
  "WriteError status code message rs =
     (WriteHeader status (Set ''Content-Type'' ''application/json; charset=utf-8'' rs))\<lparr>resp_error := Some (code, message)\<rparr>"

definition WithAuth :: "Auth \<Rightarrow> http_req \<Rightarrow> http_req" where
  "WithAuth a r = r\<lparr>ctx_auth := Some a\<rparr>"

definition AuthFrom :: "http_req \<Rightarrow> Auth option" where
  "AuthFrom r = ctx_auth r"

definition WithRequestID :: "string \<Rightarrow> http_req \<Rightarrow> http_req" where
  "WithRequestID i r = r\<lparr>ctx_reqid := i\<rparr>"

definition RequestIDFrom :: "http_req \<Rightarrow> string" where
  "RequestIDFrom r = ctx_reqid r"

definition WithRealIP :: "string \<Rightarrow> http_req \<Rightarrow> http_req" where
  "WithRealIP ip r = r\<lparr>ctx_realip := ip\<rparr>"

definition RealIPFrom :: "http_req \<Rightarrow> string" where
  "RealIPFrom r = ctx_realip r"

text \<open>\<^verbatim>\<open>MustAuth\<close>: panics without an identity.\<close>

definition MustAuth :: "(Auth \<Rightarrow> 'w http) \<Rightarrow> 'w http" where
  "MustAuth k r s = (case AuthFrom r of Some a \<Rightarrow> k a r s | None \<Rightarrow> ((fst s)\<lparr>resp_panic := True\<rparr>, snd s))"

section \<open>Client address\<close>

definition ClientIP :: "http_req \<Rightarrow> bool \<Rightarrow> string" where
  "ClientIP r trustProxy =
     (let peer = (case SplitHostPort (RemoteAddr r) of None \<Rightarrow> RemoteAddr r | Some (host, _) \<Rightarrow> host) in
      if trustProxy then
        (let xr = TrimSpace (Get r ''X-Real-Ip'') in
         if xr \<noteq> [] then xr
         else let xff = Get r ''X-Forwarded-For'' in
           if xff \<noteq> [] then
             (let lst = TrimSpace (last (split_on (CHR '','') xff)) in if lst \<noteq> [] then lst else peer)
           else peer)
      else peer)"

text \<open>
  The reverse proxies in front of the server. \<open>reverse_proxy\<close> is the one that is deployed
  (\<^verbatim>\<open>deploy/caddy/Caddyfile\<close>): whatever the client sent, \<^verbatim>\<open>X-Real-IP\<close> is replaced by the address of the peer.
  \<open>appending_proxy\<close> is the other kind the comment above \<^verbatim>\<open>ClientIP\<close> allows for: it passes on no \<^verbatim>\<open>X-Real-IP\<close> and appends
  the peer to whatever \<^verbatim>\<open>X-Forwarded-For\<close> the client sent.
\<close>

definition reverse_proxy :: "string \<Rightarrow> string \<Rightarrow> http_req \<Rightarrow> http_req" where
  "reverse_proxy peer own sent = sent\<lparr>RemoteAddr := own,
     req_headers := (''X-Real-Ip'', peer) # filter (\<lambda>h. fst h \<noteq> ''X-Real-Ip'') (req_headers sent)\<rparr>"

definition appending_proxy :: "string \<Rightarrow> string \<Rightarrow> http_req \<Rightarrow> http_req" where
  "appending_proxy peer own sent = (let xff = Get sent ''X-Forwarded-For'' in sent\<lparr>RemoteAddr := own,
     req_headers := (''X-Forwarded-For'', if xff = [] then peer else xff @ '', '' @ peer) #
       filter (\<lambda>h. fst h \<noteq> ''X-Real-Ip'' \<and> fst h \<noteq> ''X-Forwarded-For'') (req_headers sent)\<rparr>)"

text \<open>
  How a request of a peer reaches the server: without proxy and trust in its headers, or behind one of the two
  proxies. \<open>sent\<close> is what the client sent.
\<close>

definition arrives :: "bool \<Rightarrow> string \<Rightarrow> http_req \<Rightarrow> http_req \<Rightarrow> bool" where
  "arrives trustProxy peer sent r \<longleftrightarrow>
     (if trustProxy then r = reverse_proxy peer (RemoteAddr r) sent \<or> r = appending_proxy peer (RemoteAddr r) sent
      else r = sent \<and> (case SplitHostPort (RemoteAddr r) of None \<Rightarrow> False | Some (host, _) \<Rightarrow> host = peer))"

section \<open>Middleware\<close>

definition RequestID :: "string \<Rightarrow> 'w http \<Rightarrow> 'w http" where
  "RequestID newID next r s =
     (let given = Get r ''X-Request-Id'';
          i = (if given = [] \<or> length given > 64 then newID else given) in
      next (WithRequestID i r) (Set ''X-Request-Id'' i (fst s), snd s))"

definition RealIP :: "bool \<Rightarrow> 'w http \<Rightarrow> 'w http" where
  "RealIP trustProxy next r s = next (WithRealIP (ClientIP r trustProxy) r) s"

definition Recoverer :: "'w http \<Rightarrow> 'w http" where
  "Recoverer next r s = (let (rs, w) = next r s in
     if resp_panic rs
     then (WriteError 500 ''internal_error'' ''internal server error'' (rs\<lparr>resp_panic := False\<rparr>), w)
     else (rs, w))"

definition buildCSP :: "Config \<Rightarrow> string" where
  "buildCSP cfg =
     (let tiles = TrimSpace (TilesOrigin cfg);
          self = CHR 0x27 # ''self'' @ [CHR 0x27];
          none = CHR 0x27 # ''none'' @ [CHR 0x27];
          connect = (if tiles \<noteq> [] then self @ '' '' @ tiles else self);
          img = (if tiles \<noteq> [] then self @ '' data: blob:'' @ '' '' @ tiles else self @ '' data: blob:'') in
      Join [''default-src '' @ self, ''base-uri '' @ none, ''object-src '' @ none, ''frame-ancestors '' @ none,
        ''form-action '' @ self, ''script-src '' @ self @ '' '' @ CHR 0x27 # ''wasm-unsafe-eval'' @ [CHR 0x27],
        ''style-src '' @ self @ '' '' @ CHR 0x27 # ''unsafe-inline'' @ [CHR 0x27], ''img-src '' @ img,
        ''font-src '' @ self, ''worker-src '' @ self @ '' blob:'', ''connect-src '' @ connect,
        ''manifest-src '' @ self] ''; '')"

definition SecurityHeaders :: "Config \<Rightarrow> 'w http \<Rightarrow> 'w http" where
  "SecurityHeaders cfg next r s =
     (let hsts = (SecureCookies cfg \<or> (case PublicOrigin cfg of None \<Rightarrow> False | Some u \<Rightarrow> Scheme u = ''https''));
          h = Set ''Permissions-Policy'' ''geolocation=(self), camera=(), microphone=(), interest-cohort=()''
             (Set ''Cross-Origin-Opener-Policy'' ''same-origin''
             (Set ''X-Frame-Options'' ''DENY''
             (Set ''Referrer-Policy'' ''no-referrer''
             (Set ''X-Content-Type-Options'' ''nosniff''
             (Set ''Content-Security-Policy'' (buildCSP cfg) (fst s))))));
          h2 = (if hsts then Set ''Strict-Transport-Security'' ''max-age=63072000; includeSubDomains'' h else h) in
      next r (h2, snd s))"

definition CORS :: "Config \<Rightarrow> 'w http \<Rightarrow> 'w http" where
  "CORS cfg next r s =
     (let allowed = (case PublicOrigin cfg of None \<Rightarrow> [] | Some u \<Rightarrow> Scheme u @ ''://'' @ Host u);
          origin = Get r ''Origin'' in
      if origin \<noteq> [] \<and> origin = allowed then
        (let h = Set ''Vary'' ''Origin'' (Set ''Access-Control-Allow-Credentials'' ''true''
               (Set ''Access-Control-Allow-Origin'' allowed (fst s))) in
         if req_method r = ''OPTIONS'' then
           (WriteHeader 204 (Set ''Access-Control-Max-Age'' ''600''
              (Set ''Access-Control-Allow-Headers'' ''Authorization, Content-Type''
              (Set ''Access-Control-Allow-Methods'' ''GET, POST, PATCH, PUT, DELETE, OPTIONS'' h))), snd s)
         else next r (h, snd s))
      else if req_method r = ''OPTIONS'' \<and> origin \<noteq> [] then (WriteHeader 403 (fst s), snd s)
      else next r s)"

text \<open>
  The stack of \<^verbatim>\<open>Router\<close>, outermost first. \<^verbatim>\<open>BodyLimit\<close> only bounds what a handler can read and
  \<^verbatim>\<open>AccessLog\<close> only observes; both hand on the request and the response unchanged.
\<close>

definition global_middleware :: "Config \<Rightarrow> string \<Rightarrow> 'w http \<Rightarrow> 'w http" where
  "global_middleware cfg newID routes =
     Recoverer (RequestID newID (RealIP (TrustProxyHeaders cfg) (SecurityHeaders cfg (CORS cfg routes))))"

definition no_response :: response where
  "no_response = \<lparr>resp_headers = [], resp_status = None, resp_error = None, resp_panic = False\<rparr>"

section \<open>The client address\<close>

definition plain_addr :: "string \<Rightarrow> bool" where
  "plain_addr a \<longleftrightarrow> a \<noteq> [] \<and> list_all (\<lambda>c. graphic c \<and> c \<noteq> CHR '','' \<and> c \<noteq> CHR ''['' \<and> c \<noteq> CHR '']'') a"

lemma TrimSpace_plain [simp]:
  assumes "plain_addr a"
  shows "TrimSpace a = a"
  using assms by (intro TrimSpace_graphic) (auto simp: plain_addr_def list_all_iff)

lemma TrimSpace_blank_plain [simp]:
  assumes "plain_addr a"
  shows "TrimSpace (CHR '' '' # a) = a"
proof -
  have "hd a \<in> set a" using assms by (simp add: plain_addr_def)
  then have "graphic (hd a)" using assms by (auto simp: plain_addr_def list_all_iff)
  then have id: "strip space_runes a = a" using space_runes_shape by (intro strip_id) auto
  have "List.find (\<lambda>r. r \<noteq> [] \<and> HasPrefix (CHR '' '' # a) r) space_runes = Some ('' '')"
    by (simp add: space_runes_def HasPrefix_def)
  then have "strip space_runes (CHR '' '' # a) = a"
    by (subst strip.simps) (simp add: id)
  then show ?thesis using TrimSpace_plain [OF assms] by (simp add: TrimSpace_def id)
qed

lemma plain_addr_ne [simp]: "plain_addr a \<Longrightarrow> a \<noteq> []"
  by (simp add: plain_addr_def)

lemma ClientIP_arrives:
  assumes "plain_addr peer" and "arrives trust peer sent r"
  shows "ClientIP r trust = peer"
proof (cases trust)
  case True
  have nocomma: "CHR '','' \<notin> set peer" using assms(1) by (auto simp: plain_addr_def list_all_iff)
  have last: "last (split_on (CHR '','') (xff @ CHR '','' # CHR '' '' # peer)) = CHR '' '' # peer" for xff
    using nocomma by (intro last_split_on_append) simp
  have gone: "map_of (filter (\<lambda>h. fst h \<noteq> ''X-Real-Ip'' \<and> P h) hs) ''X-Real-Ip'' = None" for P and hs :: "(string \<times> string) list"
    by (induction hs) auto
  from assms(2) True consider "r = reverse_proxy peer (RemoteAddr r) sent" | "r = appending_proxy peer (RemoteAddr r) sent"
    by (auto simp: arrives_def)
  then show ?thesis
  proof cases
    case 1
    have "Get (reverse_proxy peer own sent) ''X-Real-Ip'' = peer" for own by (simp add: Get_def reverse_proxy_def)
    with 1 have "Get r ''X-Real-Ip'' = peer" by metis
    then show ?thesis using True assms(1) by (simp add: ClientIP_def)
  next
    case 2
    let ?xff = "Get sent ''X-Forwarded-For''"
    have "Get (appending_proxy peer own sent) ''X-Real-Ip'' = []" for own
      by (simp add: Get_def [of _ "''X-Real-Ip''"] appending_proxy_def Let_def gone)
    moreover have "Get (appending_proxy peer own sent) ''X-Forwarded-For'' = (if ?xff = [] then peer else ?xff @ '', '' @ peer)" for own
      by (simp add: Get_def [of "appending_proxy _ _ _"] appending_proxy_def Let_def) (simp add: Get_def)
    ultimately have "Get r ''X-Real-Ip'' = []" "Get r ''X-Forwarded-For'' = (if ?xff = [] then peer else ?xff @ '', '' @ peer)"
      using 2 by metis+
    then show ?thesis using True assms(1) plain_addr_ne [OF assms(1)] nocomma last [of ?xff]
      by (auto simp: ClientIP_def Let_def split_on_none simp del: plain_addr_ne)
  qed
next
  case False
  then show ?thesis using assms(2) by (auto simp: arrives_def ClientIP_def split: option.splits)
qed

text \<open>Without such a proxy trusted headers are the client's to choose.\<close>

lemma forged_real_ip_believed:
  "plain_addr fake \<Longrightarrow> Get r ''X-Real-Ip'' = fake \<Longrightarrow> ClientIP r True = fake"
  by (simp add: ClientIP_def)

section \<open>Headers of every response\<close>

definition header :: "response \<Rightarrow> string \<Rightarrow> string option" where
  "header rs k = map_of (resp_headers rs) k"

lemma header_Set [simp]: "header (Set k v rs) j = (if j = k then Some v else header rs j)"
proof -
  have "map_of (filter (\<lambda>p. fst p \<noteq> k) xs) j = map_of xs j" if "j \<noteq> k" for xs :: "(string \<times> string) list"
    using that by (induction xs) auto
  then show ?thesis by (simp add: header_def Set_def)
qed

lemma header_update [simp]: "header (rs\<lparr>resp_error := e\<rparr>) = header rs" "header (rs\<lparr>resp_panic := p\<rparr>) = header rs"
  by (simp_all add: header_def fun_eq_iff)

lemma header_WriteHeader [simp]: "header (WriteHeader c rs) = header rs"
  by (simp add: header_def WriteHeader_def fun_eq_iff split: option.split)

lemma header_WriteError [simp]:
  "header (WriteError st c m rs) k =
    (if k = ''Content-Type'' then Some ''application/json; charset=utf-8'' else header rs k)"
  by (simp add: WriteError_def)

text \<open>A handler that leaves alone the headers the middleware is responsible for.\<close>

definition middleware_names :: "string list" where
  "middleware_names = [''Content-Security-Policy'', ''X-Content-Type-Options'', ''Referrer-Policy'', ''X-Frame-Options'',
     ''Cross-Origin-Opener-Policy'', ''Permissions-Policy'', ''Strict-Transport-Security'', ''X-Request-Id'',
     ''Access-Control-Allow-Origin'', ''Access-Control-Allow-Credentials'']"

definition leaves_headers :: "'w http \<Rightarrow> bool" where
  "leaves_headers h \<longleftrightarrow> (\<forall>r s. \<forall>k \<in> set middleware_names. header (fst (h r s)) k = header (fst s) k)"

definition secured :: "Config \<Rightarrow> response \<Rightarrow> bool" where
  "secured cfg rs \<longleftrightarrow>
     header rs ''Content-Security-Policy'' = Some (buildCSP cfg) \<and>
     header rs ''X-Content-Type-Options'' = Some ''nosniff'' \<and>
     header rs ''Referrer-Policy'' = Some ''no-referrer'' \<and>
     header rs ''X-Frame-Options'' = Some ''DENY'' \<and>
     header rs ''Cross-Origin-Opener-Policy'' = Some ''same-origin'' \<and>
     (SecureCookies cfg \<longrightarrow> header rs ''Strict-Transport-Security'' = Some ''max-age=63072000; includeSubDomains'')"

text \<open>The origin that may read responses, as \<^verbatim>\<open>CORS\<close> computes it.\<close>

definition allowed_origin :: "Config \<Rightarrow> string" where
  "allowed_origin cfg = (case PublicOrigin cfg of None \<Rightarrow> [] | Some u \<Rightarrow> Scheme u @ ''://'' @ Host u)"

lemma Get_context [simp]:
  "Get (WithRequestID i r) k = Get r k" "Get (WithRealIP ip r) k = Get r k"
  "req_method (WithRequestID i r) = req_method r" "req_method (WithRealIP ip r) = req_method r"
  "RemoteAddr (WithRequestID i r) = RemoteAddr r"
  by (simp_all add: Get_def WithRequestID_def WithRealIP_def)

lemma ClientIP_context [simp]: "ClientIP (WithRequestID i r) t = ClientIP r t"
  by (simp add: ClientIP_def Let_def cong: option.case_cong)

lemma leaves_headersD: "leaves_headers h \<Longrightarrow> k \<in> set middleware_names \<Longrightarrow> header (fst (h r s)) k = header (fst s) k"
  unfolding leaves_headers_def by blast

lemma Recoverer_header:
  assumes "k \<noteq> ''Content-Type''"
  shows "header (fst (Recoverer h r s)) k = header (fst (h r s)) k"
  using assms by (auto simp: Recoverer_def Let_def split: prod.split)

lemma CORS_headers:
  assumes h: "leaves_headers h" and k: "k \<in> set middleware_names"
    and "k \<noteq> ''Access-Control-Allow-Origin''" "k \<noteq> ''Access-Control-Allow-Credentials''"
  shows "header (fst (CORS cfg h r s)) k = header (fst s) k"
proof -
  have h: "header (fst (h r s)) k = header (fst s) k" for r s
    using h k by (rule leaves_headersD)
  have "k \<noteq> ''Vary''" "k \<noteq> ''Access-Control-Max-Age''" "k \<noteq> ''Access-Control-Allow-Headers''"
    "k \<noteq> ''Access-Control-Allow-Methods''" using k by (auto simp: middleware_names_def)
  then show ?thesis using assms(3,4) by (simp add: CORS_def Let_def h)
qed

lemma CORS_origin:
  assumes h: "leaves_headers h" and "header (fst s) ''Access-Control-Allow-Origin'' = None"
  shows "header (fst (CORS cfg h r s)) ''Access-Control-Allow-Origin'' =
    (if Get r ''Origin'' \<noteq> [] \<and> Get r ''Origin'' = allowed_origin cfg then Some (Get r ''Origin'') else None)"
proof -
  have "header (fst (h r s)) ''Access-Control-Allow-Origin'' = header (fst s) ''Access-Control-Allow-Origin''" for r s
    using h by (rule leaves_headersD) (simp add: middleware_names_def)
  then show ?thesis using assms(2) by (auto simp: CORS_def Let_def allowed_origin_def)
qed

lemma global_secured:
  assumes "leaves_headers h"
  shows "secured cfg (fst (global_middleware cfg newID h r (no_response, w)))"
proof -
  have name: "k \<in> set middleware_names \<Longrightarrow> k \<noteq> ''Content-Type''" for k by (auto simp: middleware_names_def)
  note cors = CORS_headers [OF assms]
  show ?thesis
    by (simp add: secured_def global_middleware_def Recoverer_header RequestID_def RealIP_def SecurityHeaders_def
        Let_def cors middleware_names_def)
qed

lemma global_cors:
  assumes "leaves_headers h"
  shows "header (fst (global_middleware cfg newID h r (no_response, w))) ''Access-Control-Allow-Origin'' =
    (if Get r ''Origin'' \<noteq> [] \<and> Get r ''Origin'' = allowed_origin cfg then Some (Get r ''Origin'') else None)"
  using CORS_origin [OF assms]
  by (simp add: global_middleware_def Recoverer_header RequestID_def RealIP_def SecurityHeaders_def Let_def
      no_response_def header_def [of "\<lparr>resp_headers = [], resp_status = None, resp_error = None, resp_panic = False\<rparr>"])

end
