(* ===== verification/Aul_Ratelimit.thy ===== *)
theory Aul_Ratelimit
  imports Aul_Edge "HOL-Library.AList"
begin

text \<open>
  \<^verbatim>\<open>server/internal/ratelimit/ratelimit.go\<close> and \<^verbatim>\<open>server/internal/middleware/ratelimit.go\<close>: one token bucket per
  key behind a mutex, buckets idle for longer than a time-to-live dropped by the janitor, and the
  middleware that answers 429. The single bucket is \<^verbatim>\<open>golang.org/x/time/rate\<close>: its state is the type
  \<open>'b\<close>, \<^verbatim>\<open>NewLimiter\<close> and \<^verbatim>\<open>AllowN\<close> are parameters (\<open>bucket_ops\<close>), and the quotient of two \<^verbatim>\<open>float64\<close> is
  the parameter \<open>fdiv\<close>. What the keyed limiter relies on is \<open>refills\<close>: a bucket that was idle
  for the time-to-live answers like a new one.

  The abstract limiter keeps one bucket per key for ever. The locale \<open>simulation\<close> states when one
  machine answers like another; it is interpreted on the keyed limiter with its janitor and the
  abstract limiter. The locale \<open>keyed\<close> is the contract of the \<^verbatim>\<open>Limiter\<close> interface the middleware
  relies on, that calls under one key do not disturb another; it is interpreted on the abstract
  limiter and on \<open>Noop\<close>.
\<close>

section \<open>The limiter\<close>

record ('r, 'b) bucket_ops =
  NewLimiter :: "'r \<Rightarrow> int \<Rightarrow> 'b"
  AllowN :: "gotime \<Rightarrow> int \<Rightarrow> 'b \<Rightarrow> bool \<times> 'b"

record 'b bucket =
  lim :: 'b
  lastSeen :: gotime

record ('r, 'b) KeyedLimiter =
  buckets :: "(string \<times> 'b bucket) list"
  rate :: 'r
  burst :: int
  ttl :: duration

definition New_limiter :: "'r \<Rightarrow> int \<Rightarrow> duration \<Rightarrow> ('r, 'b) KeyedLimiter" where
  "New_limiter r b t = \<lparr>buckets = [], rate = r, burst = b, ttl = t\<rparr>"

definition NewPerMinute :: "(int \<Rightarrow> int \<Rightarrow> 'r) \<Rightarrow> int \<Rightarrow> duration \<Rightarrow> ('r, 'b) KeyedLimiter" where
  "NewPerMinute fdiv n t = New_limiter (fdiv n 60) n t"

definition NewPerHour :: "(int \<Rightarrow> int \<Rightarrow> 'r) \<Rightarrow> int \<Rightarrow> duration \<Rightarrow> ('r, 'b) KeyedLimiter" where
  "NewPerHour fdiv n t = New_limiter (fdiv n 3600) n t"

definition Allow :: "('r, 'b) bucket_ops \<Rightarrow> gotime \<Rightarrow> string \<Rightarrow> ('r, 'b) KeyedLimiter \<Rightarrow> bool \<times> ('r, 'b) KeyedLimiter" where
  "Allow ops now key k =
     (let b = (case map_of (buckets k) key of Some b \<Rightarrow> lim b | None \<Rightarrow> NewLimiter ops (rate k) (burst k));
          (ok, b') = AllowN ops now 1 b in
      (ok, k\<lparr>buckets := AList.update key \<lparr>lim = b', lastSeen = now\<rparr> (buckets k)\<rparr>))"

definition cleanup :: "gotime \<Rightarrow> ('r, 'b) KeyedLimiter \<Rightarrow> ('r, 'b) KeyedLimiter" where
  "cleanup now k = (let cutoff = now - ttl k in
     k\<lparr>buckets := filter (\<lambda>(key, b). \<not> lastSeen b < cutoff) (buckets k)\<rparr>)"

definition Len :: "('r, 'b) KeyedLimiter \<Rightarrow> nat" where
  "Len k = length (buckets k)"

definition Noop_Allow :: "string \<Rightarrow> 'l \<Rightarrow> bool \<times> 'l" where
  "Noop_Allow key l = (True, l)"

text \<open>The mutex makes the calls a sequence, with the clock read inside: either a request or a tick of the janitor.\<close>

datatype limiter_op = OAllow string | OCleanup

fun limiter_step :: "('r, 'b) bucket_ops \<Rightarrow> gotime \<times> limiter_op \<Rightarrow> ('r, 'b) KeyedLimiter \<Rightarrow> bool option \<times> ('r, 'b) KeyedLimiter" where
  "limiter_step ops (now, OAllow key) k = (let (ok, k') = Allow ops now key k in (Some ok, k'))"
| "limiter_step ops (now, OCleanup) k = (None, cleanup now k)"

section \<open>The middleware\<close>

definition ByIP :: "http_req \<Rightarrow> string" where
  "ByIP r = ''ip:'' @ RealIPFrom r"

text \<open>\<open>uid\<close> is \<^verbatim>\<open>UUID.String\<close>.\<close>

definition ByAuthUser :: "(uuid \<Rightarrow> string) \<Rightarrow> http_req \<Rightarrow> string" where
  "ByAuthUser uid r = (case AuthFrom r of Some a \<Rightarrow> ''user:'' @ uid (Auth_UserID a) | None \<Rightarrow> [])"

definition ByDevice :: "(uuid \<Rightarrow> string) \<Rightarrow> http_req \<Rightarrow> string" where
  "ByDevice uid r = (case AuthFrom r of Some a \<Rightarrow> ''dev:'' @ uid (Auth_DeviceID a) | None \<Rightarrow> [])"

definition RateLimit :: "(string \<Rightarrow> 'l \<Rightarrow> bool \<times> 'l) \<Rightarrow> (http_req \<Rightarrow> string) \<Rightarrow> int \<Rightarrow> ('l \<times> 'w) http \<Rightarrow> ('l \<times> 'w) http" where
  "RateLimit allow key retryAfterSecs next r s =
     (let (rs, l, w) = s; k = key r in
      if k = [] then next r s
      else let (ok, l') = allow k l in
        if \<not> ok then (WriteError 429 ''rate_limited'' ''rate limit exceeded, slow down''
          (Set ''Retry-After'' (Itoa retryAfterSecs) rs), l', w)
        else next r (rs, l', w))"

definition rateLimitByIP :: "(string \<Rightarrow> 'l \<Rightarrow> bool \<times> 'l) \<Rightarrow> int \<Rightarrow> ('l \<times> 'w) http \<Rightarrow> ('l \<times> 'w) http" where
  "rateLimitByIP allow retrySecs = RateLimit allow ByIP retrySecs"

definition rateLimitByUser :: "(uuid \<Rightarrow> string) \<Rightarrow> (string \<Rightarrow> 'l \<Rightarrow> bool \<times> 'l) \<Rightarrow> int \<Rightarrow> ('l \<times> 'w) http \<Rightarrow> ('l \<times> 'w) http" where
  "rateLimitByUser uid allow retrySecs = RateLimit allow (ByAuthUser uid) retrySecs"

definition rateLimitByDevice :: "(uuid \<Rightarrow> string) \<Rightarrow> (string \<Rightarrow> 'l \<Rightarrow> bool \<times> 'l) \<Rightarrow> int \<Rightarrow> ('l \<times> 'w) http \<Rightarrow> ('l \<times> 'w) http" where
  "rateLimitByDevice uid allow retrySecs = RateLimit allow (ByDevice uid) retrySecs"

section \<open>Simulation\<close>

text \<open>
  Two machines with an output at every step; \<open>R\<close> relates their states. \<open>enabled\<close> restricts the
  inputs that can come next (here: time does not run backwards).
\<close>

fun outputs :: "('i \<Rightarrow> 's \<Rightarrow> 'o \<times> 's) \<Rightarrow> 'i list \<Rightarrow> 's \<Rightarrow> 'o list" where
  "outputs f [] s = []"
| "outputs f (i # is) s = (let (x, s') = f i s in x # outputs f is s')"

fun final :: "('i \<Rightarrow> 's \<Rightarrow> 'o \<times> 's) \<Rightarrow> 'i list \<Rightarrow> 's \<Rightarrow> 's" where
  "final f [] s = s"
| "final f (i # is) s = final f is (snd (f i s))"

fun trace :: "('t \<Rightarrow> 'i \<Rightarrow> bool) \<Rightarrow> ('i \<Rightarrow> 't) \<Rightarrow> 't \<Rightarrow> 'i list \<Rightarrow> bool" where
  "trace enabled at t [] = True"
| "trace enabled at t (i # is) = (enabled t i \<and> trace enabled at (at i) is)"

locale simulation =
  fixes cstep :: "'i \<Rightarrow> 's \<Rightarrow> 'o \<times> 's" and astep :: "'i \<Rightarrow> 'a \<Rightarrow> 'o \<times> 'a"
    and R :: "'t \<Rightarrow> 's \<Rightarrow> 'a \<Rightarrow> bool" and enabled :: "'t \<Rightarrow> 'i \<Rightarrow> bool" and at :: "'i \<Rightarrow> 't"
  assumes sim: "R t s a \<Longrightarrow> enabled t i \<Longrightarrow>
    fst (cstep i s) = fst (astep i a) \<and> R (at i) (snd (cstep i s)) (snd (astep i a))"
begin

lemma outputs_agree:
  "R t s a \<Longrightarrow> trace enabled at t is \<Longrightarrow> outputs cstep is s = outputs astep is a"
proof (induction "is" arbitrary: t s a)
  case (Cons i "is")
  then have "fst (cstep i s) = fst (astep i a)" and "R (at i) (snd (cstep i s)) (snd (astep i a))"
    using sim by auto
  then show ?case using Cons.IH Cons.prems(2) by (auto simp: case_prod_beta Let_def)
qed simp

end

section \<open>The abstract limiter\<close>

definition spec_allow :: "('r, 'b) bucket_ops \<Rightarrow> gotime \<Rightarrow> string \<Rightarrow> (string \<Rightarrow> 'b) \<Rightarrow> bool \<times> (string \<Rightarrow> 'b)" where
  "spec_allow ops now key s = (let (ok, b) = AllowN ops now 1 (s key) in (ok, s(key := b)))"

fun spec_step :: "('r, 'b) bucket_ops \<Rightarrow> gotime \<times> limiter_op \<Rightarrow> (string \<Rightarrow> 'b) \<Rightarrow> bool option \<times> (string \<Rightarrow> 'b)" where
  "spec_step ops (now, OAllow key) s = (let (ok, s') = spec_allow ops now key s in (Some ok, s'))"
| "spec_step ops (now, OCleanup) s = (None, s)"

text \<open>The states of a bucket after requests at non-decreasing times, the last of them at \<open>t\<close>.\<close>

inductive used :: "('r, 'b) bucket_ops \<Rightarrow> 'r \<Rightarrow> int \<Rightarrow> 'b \<Rightarrow> gotime \<Rightarrow> bool" for ops r n where
  fresh: "used ops r n (snd (AllowN ops t 1 (NewLimiter ops r n))) t"
| again: "used ops r n b s \<Longrightarrow> s \<le> t \<Longrightarrow> used ops r n (snd (AllowN ops t 1 b)) t"

definition refills :: "('r, 'b) bucket_ops \<Rightarrow> 'r \<Rightarrow> int \<Rightarrow> duration \<Rightarrow> bool" where
  "refills ops r n idle \<longleftrightarrow>
     (\<forall>b s t. used ops r n b s \<and> s + idle \<le> t \<longrightarrow> AllowN ops t 1 b = AllowN ops t 1 (NewLimiter ops r n))"

text \<open>
  The buckets the janitor has not dropped agree with those of the abstract limiter; a key without a
  bucket was never used or has been idle for the time-to-live.
\<close>

definition entry_rel :: "('r, 'b) bucket_ops \<Rightarrow> 'r \<Rightarrow> int \<Rightarrow> duration \<Rightarrow> gotime \<Rightarrow> 'b bucket option \<Rightarrow> 'b \<Rightarrow> bool" where
  "entry_rel ops r n idle now e b \<longleftrightarrow> (case e of
     Some v \<Rightarrow> b = lim v \<and> used ops r n b (lastSeen v) \<and> lastSeen v \<le> now
   | None \<Rightarrow> b = NewLimiter ops r n \<or> (\<exists>s. used ops r n b s \<and> s + idle \<le> now))"

definition limiter_rel :: "('r, 'b) bucket_ops \<Rightarrow> gotime \<Rightarrow> ('r, 'b) KeyedLimiter \<Rightarrow> (string \<Rightarrow> 'b) \<Rightarrow> bool" where
  "limiter_rel ops now k s \<longleftrightarrow> refills ops (rate k) (burst k) (ttl k) \<and> distinct (map fst (buckets k)) \<and>
     (\<forall>key. entry_rel ops (rate k) (burst k) (ttl k) now (map_of (buckets k) key) (s key))"

lemma entry_mono: "entry_rel ops r n idle t e b \<Longrightarrow> t \<le> now \<Longrightarrow> entry_rel ops r n idle now e b"
  by (force simp: entry_rel_def split: option.splits)

lemma entry_answers:
  assumes "entry_rel ops r n idle now e b" and "refills ops r n idle"
  shows "AllowN ops now 1 (case e of Some v \<Rightarrow> lim v | None \<Rightarrow> NewLimiter ops r n) = AllowN ops now 1 b"
  using assms unfolding entry_rel_def refills_def by (cases e) auto

lemma entry_after:
  assumes "entry_rel ops r n idle now e b" and "refills ops r n idle"
  shows "entry_rel ops r n idle now (Some \<lparr>lim = snd (AllowN ops now 1 b), lastSeen = now\<rparr>) (snd (AllowN ops now 1 b))"
proof (cases e)
  case None
  then have "AllowN ops now 1 (NewLimiter ops r n) = AllowN ops now 1 b" using entry_answers [OF assms] by simp
  then show ?thesis using used.fresh [of ops r n now] by (simp add: entry_rel_def)
next
  case (Some v)
  then have "used ops r n b (lastSeen v)" "lastSeen v \<le> now" using assms(1) by (auto simp: entry_rel_def)
  then show ?thesis by (simp add: entry_rel_def used.again)
qed

lemma entry_cleanup:
  assumes "entry_rel ops r n idle now e b"
  shows "entry_rel ops r n idle now (case e of None \<Rightarrow> None | Some v \<Rightarrow> if \<not> lastSeen v < now - idle then Some v else None) b"
proof (cases e)
  case (Some v)
  then have "used ops r n b (lastSeen v)" using assms by (auto simp: entry_rel_def)
  moreover have "lastSeen v + idle \<le> now" if "lastSeen v < now - idle" using that by linarith
  ultimately show ?thesis using assms Some by (auto simp: entry_rel_def)
qed (use assms in simp)

lemma map_of_filter_distinct:
  assumes "distinct (map fst xs)"
  shows "map_of (filter (\<lambda>(k, v). P v) xs) k =
    (case map_of xs k of None \<Rightarrow> None | Some v \<Rightarrow> if P v then Some v else None)"
  using assms
proof (induction xs)
  case (Cons x xs)
  have "k \<notin> fst ` set xs \<Longrightarrow> map_of (filter (\<lambda>(k, v). P v) xs) k = None"
    by (auto simp: map_of_eq_None_iff)
  with Cons show ?case by (cases x) (auto split: option.split)
qed simp

lemma limiter_relD:
  assumes "limiter_rel ops t k s" and "t \<le> now"
  shows "refills ops (rate k) (burst k) (ttl k)" and "distinct (map fst (buckets k))"
    and "entry_rel ops (rate k) (burst k) (ttl k) now (map_of (buckets k) key) (s key)"
  using assms unfolding limiter_rel_def by (blast intro: entry_mono)+

lemma Allow_sim:
  assumes "limiter_rel ops t k s" and "t \<le> now"
  shows "fst (Allow ops now key k) = fst (spec_allow ops now key s) \<and>
    limiter_rel ops now (snd (Allow ops now key k)) (snd (spec_allow ops now key s))"
proof -
  note R = limiter_relD [OF assms]
  note same = entry_answers [OF R(3) R(1), of key] and after = entry_after [OF R(3) R(1), of key]
  show ?thesis using R after
    by (simp add: Allow_def spec_allow_def Let_def same limiter_rel_def update_conv' distinct_update case_prod_beta)
qed

lemma cleanup_sim:
  assumes "limiter_rel ops t k s" and "t \<le> now"
  shows "limiter_rel ops now (cleanup now k) s"
proof -
  note R = limiter_relD [OF assms]
  show ?thesis using R(1,2) entry_cleanup [OF R(3)]
    by (simp add: limiter_rel_def cleanup_def Let_def map_of_filter_distinct [OF R(2)] distinct_map_filter)
qed

interpretation limiter: simulation "limiter_step ops" "spec_step ops" "limiter_rel ops" "\<lambda>t i. t \<le> fst i" fst for ops
proof unfold_locales
  fix t k s and i :: "gotime \<times> limiter_op"
  assume R: "limiter_rel ops t k s" and t: "t \<le> fst i"
  show "fst (limiter_step ops i k) = fst (spec_step ops i s) \<and>
    limiter_rel ops (fst i) (snd (limiter_step ops i k)) (snd (spec_step ops i s))"
  proof (cases i)
    case (Pair now op)
    then show ?thesis using Allow_sim [OF R, of now] cleanup_sim [OF R, of now] t
      by (cases op) (auto simp: Let_def case_prod_beta)
  qed
qed

lemma trace_sorted:
  fixes f :: "'i \<Rightarrow> 't :: linorder"
  shows "trace (\<lambda>t i. t \<le> f i) f t is \<longleftrightarrow> sorted (t # map f is)"
  by (induction "is" arbitrary: t) (auto dest: order_trans)

lemma limiter_rel_init: "refills ops r n idle \<Longrightarrow> limiter_rel ops t (New_limiter r n idle) (\<lambda>_. NewLimiter ops r n)"
  by (simp add: limiter_rel_def New_limiter_def entry_rel_def)

lemma limiter_outputs:
  assumes "refills ops r n idle" and "sorted (map fst is)"
  shows "outputs (limiter_step ops) is (New_limiter r n idle) = outputs (spec_step ops) is (\<lambda>_. NewLimiter ops r n)"
proof (cases "is")
  case (Cons i js)
  have "trace (\<lambda>t i. t \<le> fst i) fst (fst i) is" using assms(2) Cons by (simp add: trace_sorted)
  with limiter_rel_init [OF assms(1)] show ?thesis by (rule limiter.outputs_agree)
qed simp

text \<open>The janitor bounds the table: what it leaves has been used within the time-to-live.\<close>

lemma cleanup_recent: "(key, b) \<in> set (buckets (cleanup now k)) \<Longrightarrow> now - ttl k \<le> lastSeen b"
  by (auto simp: cleanup_def Let_def)

section \<open>Keys do not disturb each other\<close>

locale keyed =
  fixes allow :: "'c \<Rightarrow> 'l \<Rightarrow> bool \<times> 'l" and key :: "'c \<Rightarrow> string" and view :: "'l \<Rightarrow> string \<Rightarrow> 'v"
  assumes own: "view l (key c) = view m (key c) \<Longrightarrow>
      fst (allow c l) = fst (allow c m) \<and> view (snd (allow c l)) (key c) = view (snd (allow c m)) (key c)"
    and other: "j \<noteq> key c \<Longrightarrow> view (snd (allow c l)) j = view l j"
begin

text \<open>The answers a key gets are those it would get if nobody else used the limiter.\<close>

lemma answers_own:
  "view l j = view m j \<Longrightarrow>
    map snd (filter (\<lambda>(c, ok). key c = j) (zip cs (outputs allow cs l))) = outputs allow (filter (\<lambda>c. key c = j) cs) m"
proof (induction cs arbitrary: l m)
  case (Cons c cs)
  show ?case
  proof (cases "key c = j")
    case True
    then show ?thesis using own [of l c m] Cons by (simp add: Let_def case_prod_beta)
  next
    case False
    then show ?thesis using other [of j c l] Cons by (simp add: Let_def case_prod_beta)
  qed
qed simp

end

interpretation allow_keys: keyed "\<lambda>(now, key). Allow ops now key" snd "\<lambda>l key. (rate l, burst l, map_of (buckets l) key)" for ops
  by unfold_locales (auto simp: Allow_def Let_def update_conv' case_prod_beta cong: option.case_cong)

interpretation spec_keys: keyed "\<lambda>(now, key). spec_allow ops now key" snd "\<lambda>s key. s key" for ops
  by unfold_locales (auto simp: spec_allow_def Let_def case_prod_beta)

interpretation noop_keys: keyed "\<lambda>(now, key). Noop_Allow key" snd "\<lambda>l key. ()"
  by unfold_locales (auto simp: Noop_Allow_def)

text \<open>The key spaces of the three limits and of the realtime endpoint are disjoint.\<close>

lemma keys_disjoint:
  "ByIP r \<noteq> ''user:'' @ x" "ByIP r \<noteq> ''dev:'' @ x" "''user:'' @ x \<noteq> ''dev:'' @ y" "ByIP r \<noteq> ''ws:'' @ x"
  by (simp_all add: ByIP_def)

section \<open>The middleware\<close>

lemma RateLimit_refused:
  assumes "key r \<noteq> []" and "fst (allow (key r) l) = False"
  shows "RateLimit allow key secs h r (rs, l, w) =
    (WriteError 429 ''rate_limited'' ''rate limit exceeded, slow down'' (Set ''Retry-After'' (Itoa secs) rs),
     snd (allow (key r) l), w)"
  using assms by (simp add: RateLimit_def Let_def case_prod_beta)

lemma RateLimit_passed:
  assumes "key r \<noteq> []" and "fst (allow (key r) l)"
  shows "RateLimit allow key secs h r (rs, l, w) = h r (rs, snd (allow (key r) l), w)"
  using assms by (simp add: RateLimit_def Let_def case_prod_beta)

lemma RateLimit_skipped: "key r = [] \<Longrightarrow> RateLimit allow key secs h r s = h r s"
  by (simp add: RateLimit_def Let_def case_prod_beta)

section \<open>The limiters of the server\<close>

record ('r, 'b) limiters =
  authLimiter :: "('r, 'b) KeyedLimiter"
  inviteLimiter :: "('r, 'b) KeyedLimiter"
  pingLimiter :: "('r, 'b) KeyedLimiter"
  keyEnvLimiter :: "('r, 'b) KeyedLimiter"
  wsLimiter :: "('r, 'b) KeyedLimiter"
  notifyLimiter :: "('r, 'b) KeyedLimiter"
  shareLimiter :: "('r, 'b) KeyedLimiter"

text \<open>As \<^verbatim>\<open>cmd/aul/main.go\<close> sets them up.\<close>

definition server_limiters :: "(int \<Rightarrow> int \<Rightarrow> 'r) \<Rightarrow> Config \<Rightarrow> ('r, 'b) limiters" where
  "server_limiters fdiv cfg = \<lparr>
     authLimiter = NewPerMinute fdiv (AuthRatePerMin cfg) (10 * Minute),
     inviteLimiter = NewPerHour fdiv (InvitesRatePerHr cfg) (2 * Hour),
     pingLimiter = NewPerMinute fdiv (PingRatePerMin cfg) (10 * Minute),
     keyEnvLimiter = NewPerMinute fdiv 30 (10 * Minute),
     wsLimiter = NewPerMinute fdiv 30 (10 * Minute),
     notifyLimiter = NewPerMinute fdiv 60 (10 * Minute),
     shareLimiter = NewPerHour fdiv 30 (2 * Hour)\<rparr>"

definition all_limiters :: "('r, 'b) limiters \<Rightarrow> ('r, 'b) KeyedLimiter list" where
  "all_limiters ls = [authLimiter ls, inviteLimiter ls, pingLimiter ls, keyEnvLimiter ls, wsLimiter ls,
     notifyLimiter ls, shareLimiter ls]"

text \<open>
  The documented behaviour of the bucket: \<open>n\<close> events per minute (per hour) with burst \<open>n\<close> is
  full again after a minute (an hour) without requests; twice that leaves room for rounding.
\<close>

definition documented :: "('r, 'b) bucket_ops \<Rightarrow> (int \<Rightarrow> int \<Rightarrow> 'r) \<Rightarrow> bool" where
  "documented ops fdiv \<longleftrightarrow> (\<forall>n idle. 1 \<le> n \<longrightarrow>
     (2 * Minute \<le> idle \<longrightarrow> refills ops (fdiv n 60) n idle) \<and>
     (2 * Hour \<le> idle \<longrightarrow> refills ops (fdiv n 3600) n idle))"

lemma NewPer_refills:
  assumes "documented ops fdiv" and "1 \<le> n"
  shows "2 * Minute \<le> idle \<Longrightarrow> refills ops (fdiv n 60) n idle"
    and "2 * Hour \<le> idle \<Longrightarrow> refills ops (fdiv n 3600) n idle"
  using assms by (simp_all add: documented_def)

lemma server_limiter_shape:
  assumes "limits_ok cfg" and "documented ops fdiv" and "k \<in> set (all_limiters (server_limiters fdiv cfg))"
  shows "k = New_limiter (rate k) (burst k) (ttl k) \<and> refills ops (rate k) (burst k) (ttl k)"
proof -
  have per: "refills ops (fdiv n 60) n (10 * Minute)" "refills ops (fdiv n 3600) n (2 * Hour)" if "1 \<le> n" for n
    using NewPer_refills [OF assms(2) that] by (simp_all add: duration_defs)
  have "1 \<le> AuthRatePerMin cfg" "1 \<le> InvitesRatePerHr cfg" "1 \<le> PingRatePerMin cfg"
    using assms(1) by (simp_all add: limits_ok_def)
  then show ?thesis using assms(3) per
    by (auto simp: all_limiters_def server_limiters_def NewPerMinute_def NewPerHour_def New_limiter_def)
qed

section \<open>An exact bucket\<close>

text \<open>
  A bucket in integer arithmetic that does what the documentation of \<^verbatim>\<open>x/time/rate\<close> says: it holds at
  most \<open>burst\<close> tokens, refills at a steady rate and starts full. A rate is a fraction of events
  per second; one token weighs \<open>ex_cost\<close>.
\<close>

record exact =
  ex_rate :: int
  ex_cost :: int
  ex_cap :: int
  ex_level :: int
  ex_last :: gotime

definition exact_new :: "int \<times> int \<Rightarrow> int \<Rightarrow> exact" where
  "exact_new r n = (case r of (p, q) \<Rightarrow>
     \<lparr>ex_rate = p, ex_cost = q * Second, ex_cap = n * (q * Second), ex_level = n * (q * Second), ex_last = 0\<rparr>)"

definition exact_allow :: "gotime \<Rightarrow> int \<Rightarrow> exact \<Rightarrow> bool \<times> exact" where
  "exact_allow t m b = (let level = min (ex_cap b) (ex_level b + ex_rate b * max 0 (t - ex_last b)) in
     if level \<ge> m * ex_cost b then (True, b\<lparr>ex_level := level - m * ex_cost b, ex_last := t\<rparr>) else (False, b))"

definition exact_bucket :: "(int \<times> int, exact) bucket_ops" where
  "exact_bucket = \<lparr>NewLimiter = exact_new, AllowN = exact_allow\<rparr>"

lemmas exact_defs = exact_bucket_def exact_allow_def exact_new_def Let_def

lemma exact_used:
  assumes "used exact_bucket (p, q) n b s" and "1 \<le> n" and "0 \<le> p" and "0 \<le> q"
  shows "ex_rate b = p \<and> ex_cost b = q * Second \<and> ex_cap b = n * (q * Second) \<and> 0 \<le> ex_level b \<and> ex_last b \<le> s"
  using assms(1)
proof induction
  case (fresh t)
  have "min (n * (q * Second)) (n * (q * Second) + p * max 0 t) = n * (q * Second)" using assms(3) by simp
  moreover have "q * Second \<le> n * (q * Second)"
    using assms(2,4) mult_right_mono [of 1 n "q * Second"] by (simp add: duration_defs)
  ultimately show ?case by (simp add: exact_defs)
next
  case (again b s t)
  then show ?case by (auto simp: exact_defs)
qed

lemma exact_refills:
  assumes "1 \<le> n" and "0 \<le> p" and "0 \<le> q" and "n * (q * Second) \<le> p * idle"
  shows "refills exact_bucket (p, q) n idle"
  unfolding refills_def
proof (intro allI impI)
  fix b s t assume "used exact_bucket (p, q) n b s \<and> s + idle \<le> t"
  then have b: "ex_rate b = p" "ex_cost b = q * Second" "ex_cap b = n * (q * Second)" "0 \<le> ex_level b" "ex_last b + idle \<le> t"
    using exact_used [OF _ assms(1-3), of b s] by auto
  have "p * idle \<le> p * max 0 (t - ex_last b)" using b(5) assms(2) by (intro mult_left_mono) auto
  then have full: "min (n * (q * Second)) (ex_level b + p * max 0 (t - ex_last b)) = n * (q * Second)"
    using assms(4) b(4) by linarith
  have new: "min (n * (q * Second)) (n * (q * Second) + p * max 0 t) = n * (q * Second)" using assms(2) by simp
  have "q * Second \<le> n * (q * Second)"
    using assms(1,3) mult_right_mono [of 1 n "q * Second"] by (simp add: duration_defs)
  then show "AllowN exact_bucket t 1 b = AllowN exact_bucket t 1 (NewLimiter exact_bucket (p, q) n)"
    using b full new by (simp add: exact_defs)
qed

lemma exact_documented: "documented exact_bucket Pair"
  unfolding documented_def
proof (intro allI impI conjI)
  fix n idle :: int assume n: "1 \<le> n"
  have "n * (60 * Second) \<le> n * idle" if "2 * Minute \<le> idle"
    using that n by (intro mult_left_mono) (simp_all add: duration_defs)
  then show "refills exact_bucket (n, 60) n idle" if "2 * Minute \<le> idle"
    using that n by (intro exact_refills) simp_all
  have "n * (3600 * Second) \<le> n * idle" if "2 * Hour \<le> idle"
    using that n by (intro mult_left_mono) (simp_all add: duration_defs)
  then show "refills exact_bucket (n, 3600) n idle" if "2 * Hour \<le> idle"
    using that n by (intro exact_refills) simp_all
qed

end
