(* ===== verification/Aul_Commands.thy ===== *)
theory Aul_Commands
  imports Aul_Push Aul_Ratelimit Aul_Server
begin

text \<open>
  The commands of \<^verbatim>\<open>server/cmd/aul\<close>: \<^verbatim>\<open>publish.go\<close> (the flags of \<^verbatim>\<open>publish-version\<close>, parsed by the
  standard flag package, and the row they publish) and the start of the server in \<^verbatim>\<open>main.go\<close>, which
  builds the service, the worker, the push client and the limiters from one configuration.
\<close>

section \<open>Integer flags\<close>

text \<open>\<^verbatim>\<open>strconv.ParseInt(s, 0, 64)\<close>: a base prefix and underscores between digits are accepted.\<close>

definition digit_of :: "char \<Rightarrow> nat option" where
  "digit_of c = (let l = ascii_lower c; n = of_char l in
     if 48 \<le> n \<and> n \<le> 57 then Some (n - 48) else if 97 \<le> n \<and> n \<le> 122 then Some (n - 97 + 10) else None)"

fun base_value :: "nat \<Rightarrow> nat \<Rightarrow> string \<Rightarrow> nat option" where
  "base_value b acc [] = Some acc"
| "base_value b acc (c # cs) =
     (if c = CHR ''_'' then base_value b acc cs
      else case digit_of c of None \<Rightarrow> None
        | Some n \<Rightarrow> if b \<le> n then None else base_value b (acc * b + n) cs)"

text \<open>\<^verbatim>\<open>underscoreOK\<close>: \<open>saw\<close> is the kind of the last character, \<^verbatim>\<open>0\<close> for a digit.\<close>

fun underscores :: "bool \<Rightarrow> char \<Rightarrow> string \<Rightarrow> bool" where
  "underscores hex saw [] = (saw \<noteq> CHR ''_'')"
| "underscores hex saw (c # cs) =
     (if is_digit c \<or> hex \<and> ascii_lower c \<in> set ''abcdef'' then underscores hex CHR ''0'' cs
      else if c = CHR ''_'' then saw = CHR ''0'' \<and> underscores hex CHR ''_'' cs
      else saw \<noteq> CHR ''_'' \<and> underscores hex CHR ''!'' cs)"

definition base_prefix :: "string \<Rightarrow> nat option" where
  "base_prefix s = (case s of c0 # c1 # _ \<Rightarrow>
     if c0 \<noteq> CHR ''0'' then None
     else if ascii_lower c1 = CHR ''b'' then Some 2 else if ascii_lower c1 = CHR ''o'' then Some 8
     else if ascii_lower c1 = CHR ''x'' then Some 16 else None
   | _ \<Rightarrow> None)"

definition underscoreOK :: "string \<Rightarrow> bool" where
  "underscoreOK s = (case base_prefix s of
     Some b \<Rightarrow> underscores (b = 16) CHR ''0'' (drop 2 s) | None \<Rightarrow> underscores False CHR ''^'' s)"

definition ParseUint :: "string \<Rightarrow> nat option" where
  "ParseUint s =
     (if s = [] then None
      else let v = (if hd s = CHR ''0''
             then (case (if length s \<ge> 3 then base_prefix s else None) of
                 Some b \<Rightarrow> base_value b 0 (drop 2 s) | None \<Rightarrow> base_value 8 0 (tl s))
             else base_value 10 0 s) in
       if CHR ''_'' \<in> set s \<and> \<not> underscoreOK s then None else v)"

definition ParseInt :: "string \<Rightarrow> int option" where
  "ParseInt s =
     (let (neg, rest) = (case s of [] \<Rightarrow> (False, s)
        | c # cs \<Rightarrow> if c = CHR ''+'' then (False, cs) else if c = CHR ''-'' then (True, cs) else (False, s)) in
      case ParseUint rest of
          None \<Rightarrow> None
        | Some n \<Rightarrow> (let v = (if neg then - int n else int n) in if in_i64 v then Some v else None))"

section \<open>publish.go\<close>

record publish_flags =
  fl_platform :: string
  fl_versionCode :: int
  fl_versionName :: string
  fl_apkURL :: string
  fl_sha256 :: string
  fl_changelog :: string
  fl_minSupported :: int

definition no_flags :: publish_flags where
  "no_flags = \<lparr>fl_platform = [], fl_versionCode = 0, fl_versionName = [], fl_apkURL = [], fl_sha256 = [],
     fl_changelog = [], fl_minSupported = 0\<rparr>"

datatype publish_err =
    FlagSyntax | FlagHelp | FlagUndefined string | FlagNeedsArgument string | FlagInvalid string
  | PlatformRequired | PlatformUnknown string | VersionCodeRange int | VersionNameRequired
  | MinSupportedRange int | Sha256Malformed | Sha256Required
  | DatabaseURLRequired | BackendUnknown | StoreUnavailable | UpsertFailed dberr

definition set_flag :: "string \<Rightarrow> string \<Rightarrow> publish_flags \<Rightarrow> publish_err + publish_flags" where
  "set_flag name value f =
     (if name = ''platform'' then Inr (f\<lparr>fl_platform := value\<rparr>)
      else if name = ''version-code'' then
        (case ParseInt value of None \<Rightarrow> Inl (FlagInvalid name) | Some n \<Rightarrow> Inr (f\<lparr>fl_versionCode := n\<rparr>))
      else if name = ''version-name'' then Inr (f\<lparr>fl_versionName := value\<rparr>)
      else if name = ''apk-url'' then Inr (f\<lparr>fl_apkURL := value\<rparr>)
      else if name = ''sha256'' then Inr (f\<lparr>fl_sha256 := value\<rparr>)
      else if name = ''changelog'' then Inr (f\<lparr>fl_changelog := value\<rparr>)
      else if name = ''min-supported'' then
        (case ParseInt value of None \<Rightarrow> Inl (FlagInvalid name) | Some n \<Rightarrow> Inr (f\<lparr>fl_minSupported := n\<rparr>))
      else Inl (FlagUndefined name))"

definition flag_names :: "string list" where
  "flag_names = [''platform'', ''version-code'', ''version-name'', ''apk-url'', ''sha256'', ''changelog'', ''min-supported'']"

text \<open>
  \<^verbatim>\<open>FlagSet.Parse\<close>: one or two dashes, the value after \<^verbatim>\<open>=\<close> or in the next argument; parsing stops at
  the first argument that is not a flag and after \<^verbatim>\<open>--\<close>.
\<close>

fun Parse_flags :: "string list \<Rightarrow> publish_flags \<Rightarrow> publish_err + publish_flags" where
  "Parse_flags [] f = Inr f"
| "Parse_flags (s # args) f =
     (if length s < 2 \<or> hd s \<noteq> CHR ''-'' then Inr f
      else if s = ''--'' then Inr f
      else let name = (if s ! 1 = CHR ''-'' then drop 2 s else drop 1 s) in
        if name = [] \<or> hd name = CHR ''-'' \<or> hd name = CHR ''='' then Inl FlagSyntax
        else let (key, value, hasValue) = Cut name CHR ''='' in
          if key \<notin> set flag_names then
            Inl (if key \<in> {''help'', ''h''} then FlagHelp else FlagUndefined key)
          else if hasValue then
            (case set_flag key value f of Inl e \<Rightarrow> Inl e | Inr f' \<Rightarrow> Parse_flags args f')
          else (case args of
              [] \<Rightarrow> Inl (FlagNeedsArgument key)
            | v # rest \<Rightarrow> (case set_flag key v f of Inl e \<Rightarrow> Inl e | Inr f' \<Rightarrow> Parse_flags rest f')))"

record UpsertAppVersionParams =
  up_Platform :: string
  up_VersionCode :: int
  up_VersionName :: string
  up_ApkUrl :: "string option"
  up_Sha256 :: "string option"
  up_Changelog :: "string option"
  up_MinSupported :: int

definition optStr :: "string \<Rightarrow> string option" where
  "optStr s = (if s = [] then None else Some s)"

definition sha256HexRe :: "string \<Rightarrow> bool" where
  "sha256HexRe s \<longleftrightarrow> length s = 64 \<and> list_all (\<lambda>c. is_digit c \<or> c \<in> set ''abcdef'') s"

definition MaxInt32 :: int where "MaxInt32 = 2147483647"

text \<open>The conversion \<^verbatim>\<open>int32(x)\<close>.\<close>

definition int32 :: "int \<Rightarrow> int" where
  "int32 x = sint (word_of_int x :: 32 word)"

definition parsePublishFlags :: "golib \<Rightarrow> string list \<Rightarrow> publish_err + UpsertAppVersionParams" where
  "parsePublishFlags lib args =
     (case Parse_flags args no_flags of Inl e \<Rightarrow> Inl e | Inr f \<Rightarrow>
      if fl_platform f = [] then Inl PlatformRequired
      else if fl_platform f \<notin> {''android'', ''ios''} then Inl (PlatformUnknown (fl_platform f))
      else if fl_versionCode f \<le> 0 \<or> fl_versionCode f > MaxInt32 then Inl (VersionCodeRange (fl_versionCode f))
      else let name = TrimSpace (fl_versionName f) in
        if name = [] then Inl VersionNameRequired
        else if fl_minSupported f < 0 \<or> fl_minSupported f > MaxInt32 then Inl (MinSupportedRange (fl_minSupported f))
        else let sha = lib_ToLower lib (TrimSpace (fl_sha256 f)) in
          if sha \<noteq> [] \<and> \<not> sha256HexRe sha then Inl Sha256Malformed
          else let url = TrimSpace (fl_apkURL f) in
            if url \<noteq> [] \<and> sha = [] then Inl Sha256Required
            else Inr \<lparr>up_Platform = fl_platform f, up_VersionCode = int32 (fl_versionCode f), up_VersionName = name,
              up_ApkUrl = optStr url, up_Sha256 = optStr sha,
              up_Changelog = optStr (TrimSpace (fl_changelog f)), up_MinSupported = int32 (fl_minSupported f)\<rparr>)"

text \<open>
  \<open>opens\<close> says whether the store of a backend at an address can be opened; the command then runs on
  its tables.
\<close>

definition runPublishVersion :: "golib \<Rightarrow> (DBBackend \<Rightarrow> string \<Rightarrow> bool) \<Rightarrow> (string \<Rightarrow> string) \<Rightarrow> gotime \<Rightarrow> uuid
    \<Rightarrow> string list \<Rightarrow> db \<Rightarrow> (publish_err + AppVersion) \<times> db" where
  "runPublishVersion lib opens getenv now i args d =
     (case parsePublishFlags lib args of Inl e \<Rightarrow> (Inl e, d) | Inr p \<Rightarrow>
      let databaseURL = TrimSpace (getenv ''DATABASE_URL'') in
      if databaseURL = [] then (Inl DatabaseURLRequired, d)
      else (case DetectBackend lib (getenv ''AUL_DB_BACKEND'') databaseURL of
          Inl _ \<Rightarrow> (Inl BackendUnknown, d)
        | Inr backend \<Rightarrow>
            if \<not> opens backend (if backend = BackendSQLite then SQLitePathOf databaseURL else databaseURL)
            then (Inl StoreUnavailable, d)
            else (case UpsertAppVersion now i (up_Platform p) (up_VersionCode p) (up_VersionName p) (up_ApkUrl p)
                     (up_Sha256 p) (up_Changelog p) (up_MinSupported p) d of
                (Inl e, d') \<Rightarrow> (Inl (UpsertFailed e), d')
              | (Inr v, d') \<Rightarrow> (Inr v, d'))))"

section \<open>What is published\<close>

definition publishable :: "UpsertAppVersionParams \<Rightarrow> bool" where
  "publishable p \<longleftrightarrow> up_Platform p \<in> {''android'', ''ios''} \<and>
     0 < up_VersionCode p \<and> up_VersionCode p \<le> MaxInt32 \<and> 0 \<le> up_MinSupported p \<and> up_MinSupported p \<le> MaxInt32 \<and>
     up_VersionName p \<noteq> [] \<and> (\<forall>s. up_Sha256 p = Some s \<longrightarrow> sha256HexRe s) \<and>
     (up_ApkUrl p \<noteq> None \<longrightarrow> up_Sha256 p \<noteq> None)"

lemma int32_id: "0 \<le> x \<Longrightarrow> x \<le> MaxInt32 \<Longrightarrow> int32 x = x"
  by (simp add: int32_def MaxInt32_def signed_of_int signed_take_bit_int_eq_self)

lemma parsePublishFlags_ok:
  assumes "parsePublishFlags lib args = Inr p"
  shows "publishable p"
proof -
  from assms obtain f where f: "Parse_flags args no_flags = Inr f"
    by (auto simp: parsePublishFlags_def split: sum.splits)
  note p = assms [unfolded parsePublishFlags_def f sum.case Let_def, symmetric]
  from p have "0 < fl_versionCode f" "fl_versionCode f \<le> MaxInt32" "0 \<le> fl_minSupported f" "fl_minSupported f \<le> MaxInt32"
    by (simp_all split: if_splits)
  then show ?thesis using p
    by (auto simp: publishable_def int32_id optStr_def split: if_splits)
qed

lemma find_latest:
  assumes "x \<in> set xs" and "\<And>y. y \<in> set xs \<Longrightarrow> y \<noteq> x \<Longrightarrow> (k y :: int) < k x"
  shows "\<exists>zs. sort_key (\<lambda>v. - k v) xs = x # zs"
proof -
  obtain y zs where s: "sort_key (\<lambda>v. - k v) xs = y # zs"
    using assms(1) by (metis length_pos_if_in_set length_sort list.exhaust list.size(3) less_irrefl)
  then have "y \<in> set xs" by (metis list.set_intros(1) set_sort)
  moreover have "k x \<le> k y"
  proof -
    have "sorted (map (\<lambda>v. - k v) (y # zs))" using sorted_sort_key [of "\<lambda>v. - k v" xs] s by simp
    moreover have "x \<in> set (y # zs)" using assms(1) s by (metis set_sort)
    ultimately show ?thesis by auto
  qed
  ultimately have "y = x" using assms(2) by force
  with s show ?thesis by blast
qed

lemma update_where_key:
  assumes "distinct (map key xs)" and "List.find (\<lambda>x. key x = k) xs = Some v"
  shows "set (update_where (\<lambda>x. key x = k) f xs) = insert (f v) {x \<in> set xs. key x \<noteq> k}"
proof -
  from assms(2) have v: "v \<in> set xs" "key v = k" by (auto simp: find_Some_iff)
  have "x = v" if "x \<in> set xs" "key x = k" for x
    using assms(1) v that by (metis distinct_map inj_on_def)
  with v have "{x \<in> set xs. key x = k} = {v}" by blast
  moreover have "set (update_where (\<lambda>x. key x = k) f xs) = f ` {x \<in> set xs. key x = k} \<union> {x \<in> set xs. key x \<noteq> k}"
    by (auto simp: set_update_where)
  ultimately show ?thesis by simp
qed

lemma UpsertAppVersion_effect:
  assumes "versions_ok (app_versions d)" and "faults d = []"
    and "UpsertAppVersion now i platform code name apk sha cl mn d = (Inr v, d')"
  shows "platform \<in> {''android'', ''ios''} \<and> faults d' = [] \<and> version_key v = (platform, code) \<and> Version_IsActive v \<and>
    Version_Sha256 v = sha \<and> Version_ApkUrl v = apk \<and> Version_MinSupported v = mn \<and>
    set (app_versions d') = insert v {x \<in> set (app_versions d). version_key x \<noteq> (platform, code)}"
proof (cases "List.find (\<lambda>x. version_key x = (platform, code)) (app_versions d)")
  case None
  then have none: "\<forall>x\<in>set (app_versions d). version_key x \<noteq> (platform, code)" by (auto simp: find_None_iff)
  have "platform \<in> {''android'', ''ios''} \<and> app_versions d' = app_versions d @ [v] \<and> faults d' = [] \<and> Version_IsActive v \<and>
    Version_Platform v = platform \<and> Version_VersionCode v = code \<and>
    Version_Sha256 v = sha \<and> Version_ApkUrl v = apk \<and> Version_MinSupported v = mn"
    using assms(2,3) None by (auto simp: UpsertAppVersion_def Let_def split: if_splits)
  then show ?thesis using none by (auto simp: version_key_def)
next
  case (Some x)
  then have x: "version_key x = (platform, code)" by (auto simp: find_Some_iff)
  have "distinct (map version_key (app_versions d))" using assms(1) by (simp add: versions_ok_def)
  note upd = update_where_key [OF this Some]
  let ?f = "\<lambda>v. v\<lparr>Version_VersionName := name, Version_ApkUrl := apk, Version_Sha256 := sha,
     Version_Changelog := cl, Version_MinSupported := mn, Version_IsActive := True\<rparr>"
  have r: "platform \<in> {''android'', ''ios''}" "faults d' = []" "v = ?f x"
    "app_versions d' = update_where (\<lambda>x. version_key x = (platform, code)) ?f (app_versions d)"
    using assms(2,3) Some by (auto simp: UpsertAppVersion_def Let_def split: if_splits)
  have "version_key v = version_key x" by (simp add: r(3) version_key_def)
  then show ?thesis using x r(1,2) unfolding r(4) upd by (simp add: r(3))
qed

text \<open>
  A release published under a code that no other release of its platform exceeds is the one clients
  of that platform are offered from then on.
\<close>

lemma published_is_offered:
  assumes ok: "db_ok d" and f: "faults d = []"
    and r: "runPublishVersion lib opens getenv now i args d = (Inr v, d')"
    and newest: "\<forall>x\<in>set (app_versions d). Version_Platform x = Version_Platform v \<longrightarrow>
      Version_VersionCode x \<le> Version_VersionCode v"
  shows "\<exists>p. parsePublishFlags lib args = Inr p \<and> publishable p \<and> version_key v = (up_Platform p, up_VersionCode p) \<and>
      Version_Sha256 v = up_Sha256 p \<and> Version_ApkUrl v = up_ApkUrl p \<and> Version_MinSupported v = up_MinSupported p \<and>
      handleVersionLatest (Version_Platform v) \<lparr>w_db = d', w_hub = h\<rparr> = (Inr (200, v), \<lparr>w_db = d', w_hub = h\<rparr>)"
proof -
  obtain p where p: "parsePublishFlags lib args = Inr p"
    using r by (auto simp: runPublishVersion_def split: sum.splits)
  have "UpsertAppVersion now i (up_Platform p) (up_VersionCode p) (up_VersionName p) (up_ApkUrl p)
      (up_Sha256 p) (up_Changelog p) (up_MinSupported p) d = (Inr v, d')"
    using r p by (auto simp: runPublishVersion_def Let_def split: sum.splits if_splits prod.splits)
  note e = UpsertAppVersion_effect [OF db_okD(11) [OF ok] f this]
  let ?xs = "filter (\<lambda>x. Version_Platform x = Version_Platform v \<and> Version_IsActive x) (app_versions d')"
  have "v \<in> set ?xs" using e by simp
  moreover have "Version_VersionCode y < Version_VersionCode v" if "y \<in> set ?xs" "y \<noteq> v" for y
  proof -
    from that e have "y \<in> set (app_versions d)" "version_key y \<noteq> version_key v" by auto
    with that newest show ?thesis by (force simp: version_key_def)
  qed
  ultimately obtain zs where "sort_key (\<lambda>x. - Version_VersionCode x) ?xs = v # zs"
    using find_latest [of v ?xs Version_VersionCode] by blast
  moreover have "Version_Platform v \<in> {''android'', ''ios''}" using e by (simp add: version_key_def)
  ultimately have "handleVersionLatest (Version_Platform v) \<lparr>w_db = d', w_hub = h\<rparr> = (Inr (200, v), \<lparr>w_db = d', w_hub = h\<rparr>)"
    using e by (auto simp: handleVersionLatest_def call_or_def tryq_def on_db_def LatestActiveVersion_def respond_def ret_def)
  with p e parsePublishFlags_ok [OF p] show ?thesis by blast
qed

section \<open>main.go\<close>

text \<open>
  The database drivers: which calls succeed. \<open>openStore\<close> returns whether there is a store and the
  calls it made.
\<close>

datatype store_call = COpenSQLite string | CMigrateSQLite | CClose | CMigrate string | COpen string

definition openStore :: "(store_call \<Rightarrow> bool) \<Rightarrow> Config \<Rightarrow> bool \<times> store_call list" where
  "openStore works cfg =
     (if Config_DBBackend cfg = BackendSQLite then
        let opening = COpenSQLite (SQLitePath cfg) in
        if \<not> works opening then (False, [opening])
        else if RunMigrations cfg then
          if \<not> works CMigrateSQLite then (False, [opening, CMigrateSQLite, CClose]) else (True, [opening, CMigrateSQLite])
        else (True, [opening])
      else
        let opening = COpen (DatabaseURL cfg); migrate = CMigrate (DatabaseURL cfg) in
        if RunMigrations cfg then
          if \<not> works migrate then (False, [migrate]) else (works opening, [migrate, opening])
        else (works opening, [opening]))"

text \<open>
  What the service takes from libraries: the keyed hash as a function of the pepper, Argon2, text
  functions and address parsing; \<open>plat_rand\<close> is the salt of the dummy hash computed at start-up.
\<close>

record platform =
  plat_hmac :: "string \<Rightarrow> string \<Rightarrow> bytes"
  plat_IDKey :: idkey
  plat_ParseAddress :: "string \<Rightarrow> string option"
  plat_rand :: "bytes option"
  plat_credentials :: "bytes \<Rightarrow> string option"
  plat_net :: push_net

definition NewService :: "golib \<Rightarrow> platform \<Rightarrow> Config \<Rightarrow> Service option" where
  "NewService lib plat cfg =
     (let s = \<lparr>svc_hmac = plat_hmac plat (SessionPepper cfg), svc_IDKey = plat_IDKey plat,
        svc_ToLower = lib_ToLower lib, svc_TrimSpace = TrimSpace, svc_ParseAddress = plat_ParseAddress plat,
        svc_accessTTL = AccessTTL cfg, svc_refreshTTL = RefreshTTL cfg, svc_lockout = DefaultLockout,
        svc_argonParams = DefaultArgon2Params, svc_storeIP = (IPLogRetentionDays cfg > 0)\<rparr> in
      case HashPasswordWithParams (svc_IDKey s) (plat_rand plat) ''aul-timing-equalizer-password'' (svc_argonParams s) of
        Inl _ \<Rightarrow> None
      | Inr _ \<Rightarrow> Some s)"

definition NewServer :: "Service \<Rightarrow> Config \<Rightarrow> Server" where
  "NewServer svc cfg = \<lparr>srv_auth = svc, srv_storeIP = (IPLogRetentionDays cfg > 0),
     srv_DefaultRetentionDays = DefaultRetentionDays cfg, srv_MaxRetentionDays = MaxRetentionDays cfg\<rparr>"

datatype boot_err = BootConfig "cfg_err list" | BootStore | BootAuth | BootFCM fcm_new_err

record 'l booted =
  boot_cfg :: Config
  boot_server :: Server
  boot_fcm :: "fcm_client option"
  boot_push :: push_config
  boot_worker :: Worker
  boot_limiters :: 'l

definition start :: "golib \<Rightarrow> platform \<Rightarrow> (store_call \<Rightarrow> bool) \<Rightarrow> (int \<Rightarrow> int \<Rightarrow> 'r) \<Rightarrow> (string \<Rightarrow> string)
    \<Rightarrow> (boot_err + ('r, 'b) limiters booted) \<times> store_call list" where
  "start lib plat works fdiv getenv =
     (case LoadFrom lib getenv of Inl es \<Rightarrow> (Inl (BootConfig es), []) | Inr cfg \<Rightarrow>
     (case openStore works cfg of (False, calls) \<Rightarrow> (Inl BootStore, calls) | (True, calls) \<Rightarrow>
     (case NewService lib plat cfg of None \<Rightarrow> (Inl BootAuth, calls @ [CClose]) | Some svc \<Rightarrow>
     (case (if FCMEnabled cfg then map_sum id Some (New_fcm (plat_credentials plat (FCMCredentialsJSON cfg)) [])
            else Inr None) of
        Inl e \<Rightarrow> (Inl (BootFCM e), calls @ [CClose])
      | Inr client \<Rightarrow> (Inr \<lparr>boot_cfg = cfg, boot_server = NewServer svc cfg, boot_fcm = client,
          boot_push = push_config_of cfg client,
          boot_worker = New (MaxRetentionDays cfg) (PingRetentionHours cfg) (IPLogRetentionDays cfg),
          boot_limiters = server_limiters fdiv cfg\<rparr>, calls)))))"

text \<open>
  Whatever was opened and is not handed to the server is closed again, and no store is handed out
  unmigrated when migrations are on.
\<close>

definition opens_store :: "store_call \<Rightarrow> bool" where
  "opens_store c \<longleftrightarrow> (\<exists>x. c = COpenSQLite x \<or> c = COpen x)"

definition migrates :: "store_call \<Rightarrow> bool" where
  "migrates c \<longleftrightarrow> c = CMigrateSQLite \<or> (\<exists>x. c = CMigrate x)"

lemma openStore_ok:
  assumes "openStore works cfg = (b, calls)"
  shows "b \<Longrightarrow> (\<exists>c\<in>set calls. opens_store c \<and> works c) \<and> CClose \<notin> set calls \<and>
      (RunMigrations cfg \<longrightarrow> (\<exists>c\<in>set calls. migrates c \<and> works c))"
    and "\<not> b \<Longrightarrow> \<exists>c\<in>set calls. opens_store c \<and> works c \<Longrightarrow> last calls = CClose"
  using assms by (auto simp: openStore_def Let_def opens_store_def migrates_def split: if_splits)

lemma start_succeeds:
  assumes "LoadFrom lib getenv = Inr c" and "\<not> FCMEnabled c" and "plat_rand plat = Some salt" and "\<And>k. works k"
  shows "\<exists>s. fst (start lib plat works fdiv getenv) = Inr s"
proof -
  have "fst (openStore works c)" using assms(4) by (simp add: openStore_def Let_def)
  then obtain calls where "openStore works c = (True, calls)" by (metis (full_types) prod.collapse)
  moreover obtain svc where "NewService lib plat c = Some svc"
    using assms(3) by (simp add: NewService_def Let_def HashPasswordWithParams_def)
  ultimately show ?thesis using assms(1,2) by (simp add: start_def)
qed

text \<open>A started server is wired from one well-formed configuration.\<close>

lemma start_wired:
  assumes "start lib plat works fdiv getenv = (Inr s, calls)"
  shows "LoadFrom lib getenv = Inr (boot_cfg s) \<and> config_ok (boot_cfg s) \<and>
    push_fcm (boot_push s) = FCMEnabled (boot_cfg s) \<and> push_web (boot_push s) = PushEnabled (boot_cfg s) \<and>
    (\<forall>c. boot_fcm s = Some c \<longrightarrow> projectID c \<noteq> [] \<and> baseURL c = DefaultBaseURL) \<and>
    svc_storeIP (srv_auth (boot_server s)) = srv_storeIP (boot_server s) \<and>
    svc_hmac (srv_auth (boot_server s)) = plat_hmac plat (SessionPepper (boot_cfg s)) \<and>
    0 < wk_pingRetentionHours (boot_worker s) \<and> wk_pingRetentionHours (boot_worker s) \<le> 168 \<and>
    srv_DefaultRetentionDays (boot_server s) \<le> srv_MaxRetentionDays (boot_server s) \<and>
    srv_MaxRetentionDays (boot_server s) = wk_maxRetentionDays (boot_worker s) \<and>
    boot_limiters s = server_limiters fdiv (boot_cfg s) \<and>
    (\<exists>c\<in>set calls. opens_store c \<and> works c) \<and> CClose \<notin> set calls"
proof -
  from assms obtain cfg svc client where l: "LoadFrom lib getenv = Inr cfg" and o: "openStore works cfg = (True, calls)"
    and n: "NewService lib plat cfg = Some svc"
    and c: "(if FCMEnabled cfg then map_sum id Some (New_fcm (plat_credentials plat (FCMCredentialsJSON cfg)) []) else Inr None)
      = (Inr client :: fcm_new_err + fcm_client option)"
    and s: "s = \<lparr>boot_cfg = cfg, boot_server = NewServer svc cfg, boot_fcm = client,
          boot_push = push_config_of cfg client,
          boot_worker = New (MaxRetentionDays cfg) (PingRetentionHours cfg) (IPLogRetentionDays cfg),
          boot_limiters = server_limiters fdiv cfg\<rparr>"
    unfolding start_def by (auto split: sum.splits prod.splits bool.splits option.splits if_splits)
  have svc: "svc_storeIP svc = (IPLogRetentionDays cfg > 0)" "svc_hmac svc = plat_hmac plat (SessionPepper cfg)"
    using n by (auto simp: NewService_def Let_def split: sum.splits)
  have client: "(client \<noteq> None) = FCMEnabled cfg" "\<And>k. client = Some k \<Longrightarrow> projectID k \<noteq> [] \<and> baseURL k = DefaultBaseURL"
    using c by (auto simp: New_fcm_def Let_def split: if_splits option.splits sum.splits)
  note ok = LoadFrom_ok [OF l]
  then have lim: "limits_ok cfg" by (simp add: config_ok_def)
  show ?thesis using l ok openStore_ok(1) [OF o] svc client lim
    by (simp add: s NewServer_def push_config_of_def New_def limits_ok_def)
qed

end
