(* ===== verification/Aul_Static.thy ===== *)
theory Aul_Static
  imports Aul_Edge
begin

text \<open>
  \<^verbatim>\<open>server/internal/httpapi/static.go\<close>: the web app with its history fallback and the APK downloads. A file
  system maps a path to what is there; \<open>mime\<close> is the table of the operating system. The answer of
  \<open>ServeHTTP\<close> is a value: the theorems say which files it can name.
\<close>

datatype fs_node = FsDir | FsFile string

type_synonym fs = "string \<Rightarrow> fs_node option"

record staticHandler =
  web :: "fs option"
  apkDir :: string
  apks :: fs

datatype answer =
    NotAllowed
  | Missing
  | Asset (asset_name: string) (asset_type: string) (asset_cache: string) (asset_content: string)
  | Apk (apk_name: string) (apk_type: "string option") (apk_disposition: "string option") (apk_content: string)

section \<open>Paths\<close>

text \<open>
  \<^verbatim>\<open>path.Clean\<close> of a rooted path: empty and \<^verbatim>\<open>.\<close> elements vanish, \<^verbatim>\<open>..\<close> removes the element before it.
\<close>

definition clean_step :: "string list \<Rightarrow> string \<Rightarrow> string list" where
  "clean_step acc seg = (if seg = [] \<or> seg = ''.'' then acc
     else if seg = ''..'' then (if acc = [] then [] else butlast acc) else acc @ [seg])"

definition clean_segments :: "string \<Rightarrow> string list" where
  "clean_segments p = foldl clean_step [] (split_on CHR ''/'' p)"

definition Clean :: "string \<Rightarrow> string" where
  "Clean p = CHR ''/'' # Join (clean_segments p) ''/''"

definition TrimSlash :: "string \<Rightarrow> string" where
  "TrimSlash p = (case p of [] \<Rightarrow> [] | c # cs \<Rightarrow> if c = CHR ''/'' then cs else p)"

text \<open>\<^verbatim>\<open>path.Ext\<close>: from the last dot of the last element.\<close>

definition Ext :: "string \<Rightarrow> string" where
  "Ext p = (let l = last (split_on CHR ''/'' p) in
     if CHR ''.'' \<in> set l then CHR ''.'' # last (split_on CHR ''.'' l) else [])"

section \<open>Handlers\<close>

definition NewStaticHandler :: "fs option \<Rightarrow> string \<Rightarrow> (string \<Rightarrow> fs) \<Rightarrow> string \<Rightarrow> staticHandler" where
  "NewStaticHandler webFS devDir osDir apk =
     \<lparr>web = (if devDir \<noteq> [] then Some (\<lambda>name. osDir devDir (if name = [] then ''index.html'' else name)) else webFS),
      apkDir = apk, apks = osDir apk\<rparr>"

definition serveAPK :: "staticHandler \<Rightarrow> string \<Rightarrow> answer" where
  "serveAPK h name =
     (if name = [] \<or> CHR ''/'' \<in> set name \<or> CHR 0x5C \<in> set name \<or> Contains name ''..'' then Missing
      else case apks h name of
          None \<Rightarrow> Missing
        | Some FsDir \<Rightarrow> Missing
        | Some (FsFile c) \<Rightarrow>
            if HasSuffix name ''.apk''
            then Apk name (Some ''application/vnd.android.package-archive'')
              (Some (''attachment; filename='' @ [CHR 0x22] @ name @ [CHR 0x22])) c
            else Apk name None None c)"

definition serveFSFile :: "(string \<Rightarrow> string) \<Rightarrow> fs \<Rightarrow> string \<Rightarrow> bool \<Rightarrow> answer option" where
  "serveFSFile mime fsys given isFallback =
     (let name = (if given = [] then ''index.html'' else given) in
      case fsys name of
          None \<Rightarrow> None
        | Some FsDir \<Rightarrow> None
        | Some (FsFile c) \<Rightarrow>
            let t = mime (Ext name); ctype = (if t = [] then ''application/octet-stream'' else t);
                cache = (if isFallback \<or> name = ''index.html'' \<or> HasSuffix name ''.html'' then ''no-cache''
                         else ''public, max-age=31536000, immutable'')
            in Some (Asset name ctype cache c))"

definition ServeHTTP :: "(string \<Rightarrow> string) \<Rightarrow> staticHandler \<Rightarrow> string \<Rightarrow> string \<Rightarrow> answer" where
  "ServeHTTP mime h method path =
     (if method \<noteq> ''GET'' \<and> method \<noteq> ''HEAD'' then NotAllowed
      else let upath = Clean (CHR ''/'' # TrimSlash path) in
        if apkDir h \<noteq> [] \<and> HasPrefix upath ''/download/'' then serveAPK h (drop (length ''/download/'') upath)
        else case web h of
            None \<Rightarrow> Missing
          | Some fsys \<Rightarrow> (case serveFSFile mime fsys (TrimSlash upath) False of
                Some a \<Rightarrow> a
              | None \<Rightarrow>
                  if Ext upath \<noteq> [] \<and> upath \<noteq> ''/'' then Missing
                  else (case serveFSFile mime fsys ''index.html'' True of Some a \<Rightarrow> a | None \<Rightarrow> Missing)))"

section \<open>Only files below the root are served\<close>

text \<open>A relative path that cannot leave its directory: no element is empty, \<^verbatim>\<open>.\<close> or \<^verbatim>\<open>..\<close>.\<close>

definition confined :: "string \<Rightarrow> bool" where
  "confined p \<longleftrightarrow> (\<forall>seg\<in>set (split_on CHR ''/'' p). seg \<notin> {[], ''.'', ''..''})"

definition plain_segment :: "string \<Rightarrow> bool" where
  "plain_segment s \<longleftrightarrow> s \<notin> {[], ''.'', ''..''} \<and> CHR ''/'' \<notin> set s"

lemma clean_step_ok:
  assumes "list_all plain_segment acc" and "CHR ''/'' \<notin> set seg"
  shows "list_all plain_segment (clean_step acc seg)"
  using assms by (auto simp: clean_step_def plain_segment_def list_all_iff dest: in_set_butlastD)

lemma split_on_parts: "s \<in> set (split_on c xs) \<Longrightarrow> c \<notin> set s"
  by (induction c xs arbitrary: s rule: split_on.induct) (auto split: if_splits list.splits)

lemma clean_segments_ok: "list_all plain_segment (clean_segments p)"
proof -
  have "list_all plain_segment (foldl clean_step acc segs)"
    if "list_all plain_segment acc" "\<forall>s\<in>set segs. CHR ''/'' \<notin> set s" for acc segs
    using that by (induction segs arbitrary: acc) (simp_all add: clean_step_ok)
  then show ?thesis unfolding clean_segments_def by (simp add: split_on_parts)
qed

lemma split_on_Join:
  assumes "\<forall>s\<in>set ss. c \<notin> set s" and "ss \<noteq> []"
  shows "split_on c (Join ss [c]) = ss"
  using assms by (induction ss "[c]" rule: Join.induct) (simp_all add: split_on_append split_on_none)

lemma confined_Clean: "TrimSlash (Clean p) = [] \<or> confined (TrimSlash (Clean p))"
proof (cases "clean_segments p = []")
  case False
  have "\<forall>s\<in>set (clean_segments p). CHR ''/'' \<notin> set s" "\<forall>s\<in>set (clean_segments p). s \<notin> {[], ''.'', ''..''}"
    using clean_segments_ok [of p] by (auto simp: list_all_iff plain_segment_def)
  with split_on_Join [OF this(1) False] show ?thesis by (simp add: confined_def TrimSlash_def Clean_def)
qed (simp add: TrimSlash_def Clean_def)

lemma serveFSFile_asset:
  assumes "serveFSFile mime fsys given fb = Some a" and "given = [] \<or> confined given"
  shows "\<exists>name t cache c. a = Asset name t cache c \<and> fsys name = Some (FsFile c) \<and> confined name \<and>
    (HasSuffix name ''.html'' \<longrightarrow> cache = ''no-cache'') \<and> (fb \<longrightarrow> cache = ''no-cache'')"
proof -
  have "confined (if given = [] then ''index.html'' else given)" using assms(2) by (auto simp: confined_def)
  then show ?thesis using assms(1)
    by (auto simp: serveFSFile_def Let_def split: option.splits fs_node.splits if_splits)
qed

text \<open>Whatever the request, a served file is in the web tree or directly in the APK directory.\<close>

definition stays_below :: "staticHandler \<Rightarrow> answer \<Rightarrow> bool" where
  "stays_below h a = (case a of
      NotAllowed \<Rightarrow> True
    | Missing \<Rightarrow> True
    | Asset name t cache c \<Rightarrow> (\<exists>fsys. web h = Some fsys \<and> fsys name = Some (FsFile c)) \<and> confined name \<and>
        (HasSuffix name ''.html'' \<longrightarrow> cache = ''no-cache'')
    | Apk name t disposition c \<Rightarrow> apkDir h \<noteq> [] \<and> apks h name = Some (FsFile c) \<and> name \<noteq> [] \<and>
        CHR ''/'' \<notin> set name \<and> CHR 0x5C \<notin> set name \<and> \<not> Contains name ''..'')"

lemma serveAPK_below: "apkDir h \<noteq> [] \<Longrightarrow> stays_below h (serveAPK h name)"
  by (auto simp: serveAPK_def stays_below_def split: option.split fs_node.split)

lemma serveFSFile_below:
  "web h = Some fsys \<Longrightarrow> serveFSFile mime fsys given fb = Some a \<Longrightarrow> given = [] \<or> confined given \<Longrightarrow> stays_below h a"
  by (drule (1) serveFSFile_asset) (auto simp: stays_below_def)

lemma ServeHTTP_below: "stays_below h (ServeHTTP mime h method path)"
proof -
  define up where "up = Clean (CHR ''/'' # TrimSlash path)"
  have up: "TrimSlash up = [] \<or> confined (TrimSlash up)" unfolding up_def by (rule confined_Clean)
  have none: "stays_below h NotAllowed" "stays_below h Missing" by (simp_all add: stays_below_def)
  have index: "confined ''index.html''" by (simp add: confined_def)
  have "stays_below h (case web h of None \<Rightarrow> Missing
          | Some fsys \<Rightarrow> (case serveFSFile mime fsys (TrimSlash up) False of Some a \<Rightarrow> a
              | None \<Rightarrow> if Ext up \<noteq> [] \<and> up \<noteq> ''/'' then Missing
                  else (case serveFSFile mime fsys ''index.html'' True of Some a \<Rightarrow> a | None \<Rightarrow> Missing)))"
    using none serveFSFile_below [OF _ _ up] serveFSFile_below [OF _ _ disjI2 [OF index]]
    by (cases "web h") (auto split: option.split)
  then show ?thesis using none serveAPK_below [of h] unfolding ServeHTTP_def Let_def up_def [symmetric] by simp
qed

text \<open>The routes of the single-page app.\<close>

lemma spa_fallback:
  assumes "method \<in> {''GET'', ''HEAD''}" and "web h = Some fsys" and "fsys ''index.html'' = Some (FsFile page)"
    and "\<not> HasPrefix (Clean (CHR ''/'' # TrimSlash path)) ''/download/''"
    and "fsys (TrimSlash (Clean (CHR ''/'' # TrimSlash path))) = None" and "Ext (Clean (CHR ''/'' # TrimSlash path)) = []"
  shows "\<exists>t. ServeHTTP mime h method path = Asset ''index.html'' t ''no-cache'' page"
  using assms by (auto simp: ServeHTTP_def Let_def serveFSFile_def)

end
