(* ===== verification/Aul_Safety.thy ===== *)
theory Aul_Safety
  imports Aul_Auth
begin

text \<open>
  The rest of \<^verbatim>\<open>server/internal/crypto\<close>: safety codes (\<^verbatim>\<open>safetycode.go\<close>), opaque tokens (\<^verbatim>\<open>token.go\<close>),
  sealed boxes (\<^verbatim>\<open>box.go\<close>) and XChaCha20-Poly1305 (\<^verbatim>\<open>aead.go\<close>). The primitives are parameters: the
  SHA-256 digest, the anonymous box, the AEAD. An emoji of the alphabet is its code point. The
  results are that the code does not depend on the order of the keys, that the hashed message
  determines the pair of keys, and that the constant-time comparison decides equality.
\<close>

unbundle bit_operations_syntax

section \<open>Safety codes\<close>

definition SafetyCodeLength :: nat where "SafetyCodeLength = 10"

definition safetyCodeDomain :: string where "safetyCodeDomain = ''aul-safety-code:v1''"

definition SafetyEmojiAlphabet :: "nat list" where
  "SafetyEmojiAlphabet =
    [0x1F436, 0x1F431, 0x1F42D, 0x1F439, 0x1F430, 0x1F98A, 0x1F43B, 0x1F43C,
     0x1F428, 0x1F42F, 0x1F981, 0x1F42E, 0x1F437, 0x1F438, 0x1F435, 0x1F414,
     0x1F427, 0x1F426, 0x1F986, 0x1F989, 0x1F434, 0x1F984, 0x1F41D, 0x1F41B,
     0x1F98B, 0x1F40C, 0x1F41E, 0x1F422, 0x1F40D, 0x1F419, 0x1F420, 0x1F42C,
     0x1F433, 0x1F418, 0x1F42B, 0x1F411, 0x1F34E, 0x1F34A, 0x1F34B, 0x1F34C,
     0x1F349, 0x1F347, 0x1F353, 0x1F352, 0x1F351, 0x1F345, 0x1F33D, 0x1F955,
     0x1F354, 0x1F355, 0x1F369, 0x1F36A, 0x1F382, 0x1F36B, 0x1F36D, 0x1F335,
     0x1F332, 0x1F338, 0x1F33B, 0x1F308, 0x1F319, 0x1F525, 0x1F30A, 0x1F4A7]"

record SafetyCode =
  Emojis :: "nat list"
  Digest :: bytes

text \<open>\<^verbatim>\<open>bytes.Compare(a, b) > 0\<close>.\<close>

fun bytes_greater :: "bytes \<Rightarrow> bytes \<Rightarrow> bool" where
  "bytes_greater [] b = False"
| "bytes_greater (x # a) [] = True"
| "bytes_greater (x # a) (y # b) = (x > y \<or> x = y \<and> bytes_greater a b)"

definition safety_message :: "bytes \<Rightarrow> bytes \<Rightarrow> bytes" where
  "safety_message pubA pubB =
     (let (low, high) = (if bytes_greater pubA pubB then (pubB, pubA) else (pubA, pubB)) in
      string_bytes safetyCodeDomain @ [0] @ low @ high)"

definition ComputeSafetyCode :: "(bytes \<Rightarrow> bytes) \<Rightarrow> bytes \<Rightarrow> bytes \<Rightarrow> SafetyCode option" where
  "ComputeSafetyCode sha256 pubA pubB =
     (if length pubA \<noteq> PublicKeyLength \<or> length pubB \<noteq> PublicKeyLength then None
      else let digest = sha256 (safety_message pubA pubB) in
        Some \<lparr>Emojis = map (\<lambda>i. SafetyEmojiAlphabet ! (unat (digest ! i) mod 64)) [0..<SafetyCodeLength],
              Digest = digest\<rparr>)"

fun groups_of_four :: "string \<Rightarrow> string" where
  "groups_of_four (a # b # c # d # e # r) = [a, b, c, d, CHR ''-''] @ groups_of_four (e # r)"
| "groups_of_four s = s"

definition HexFallback :: "SafetyCode \<Rightarrow> string" where
  "HexFallback s = groups_of_four (hex_EncodeToString (take 8 (Digest s)))"

section \<open>Tokens\<close>

definition TokenBytes :: nat where "TokenBytes = 32"

definition GenerateToken :: "bytes option \<Rightarrow> string option" where
  "GenerateToken rnd = (case rnd of None \<Rightarrow> None | Some b \<Rightarrow> Some (EncodeToString encodeURL None b))"

text \<open>\<^verbatim>\<open>subtle.ConstantTimeCompare\<close>: every byte is looked at, whatever the first difference.\<close>

definition ConstantTimeCompare :: "bytes \<Rightarrow> bytes \<Rightarrow> nat" where
  "ConstantTimeCompare x y =
     (if length x \<noteq> length y then 0
      else if fold (\<lambda>(a, b) v. v OR (a XOR b)) (zip x y) 0 = 0 then 1 else 0)"

definition ConstantTimeEqual :: "string \<Rightarrow> string \<Rightarrow> bool" where
  "ConstantTimeEqual a b \<longleftrightarrow> ConstantTimeCompare (string_bytes a) (string_bytes b) = 1"

definition ConstantTimeEqualBytes :: "bytes \<Rightarrow> bytes \<Rightarrow> bool" where
  "ConstantTimeEqualBytes a b \<longleftrightarrow> ConstantTimeCompare a b = 1"

definition RandomBytes :: "(nat \<Rightarrow> bytes option) \<Rightarrow> nat \<Rightarrow> bytes option" where
  "RandomBytes rnd n = rnd n"

section \<open>Boxes and AEAD\<close>

datatype box_err = ErrInvalidPublicKey | ErrPrivateKeyLength | ErrSealedBoxOpen | ErrBadKeyOrNonce | ErrAuth | ErrLib

definition DeriveX25519Public :: "(bytes \<Rightarrow> bytes option) \<Rightarrow> bytes \<Rightarrow> box_err + bytes" where
  "DeriveX25519Public x25519 priv = (if length priv \<noteq> 32 then Inl ErrPrivateKeyLength
     else case x25519 priv of None \<Rightarrow> Inl ErrLib | Some p \<Rightarrow> Inr p)"

definition SealAnonymousBox :: "(bytes \<Rightarrow> bytes \<Rightarrow> bytes option) \<Rightarrow> bytes \<Rightarrow> bytes \<Rightarrow> box_err + bytes" where
  "SealAnonymousBox boxseal message recipientPub = (if length recipientPub \<noteq> 32 then Inl ErrInvalidPublicKey
     else case boxseal message recipientPub of None \<Rightarrow> Inl ErrLib | Some c \<Rightarrow> Inr c)"

definition OpenAnonymousBox :: "(bytes \<Rightarrow> bytes \<Rightarrow> bytes \<Rightarrow> bytes option) \<Rightarrow> bytes \<Rightarrow> bytes \<Rightarrow> bytes \<Rightarrow> box_err + bytes" where
  "OpenAnonymousBox boxopen sealed pub priv = (if length pub \<noteq> 32 \<or> length priv \<noteq> 32 then Inl ErrInvalidPublicKey
     else case boxopen sealed pub priv of None \<Rightarrow> Inl ErrSealedBoxOpen | Some m \<Rightarrow> Inr m)"

definition SealXChaCha20 :: "(bytes \<Rightarrow> bytes \<Rightarrow> bytes \<Rightarrow> bytes \<Rightarrow> bytes) \<Rightarrow> bytes \<Rightarrow> bytes \<Rightarrow> bytes \<Rightarrow> bytes \<Rightarrow> box_err + bytes" where
  "SealXChaCha20 seal key nonce plaintext ad =
     (if length key \<noteq> 32 \<or> length nonce \<noteq> 24 then Inl ErrBadKeyOrNonce else Inr (seal key nonce plaintext ad))"

definition OpenXChaCha20 :: "(bytes \<Rightarrow> bytes \<Rightarrow> bytes \<Rightarrow> bytes \<Rightarrow> bytes option) \<Rightarrow> bytes \<Rightarrow> bytes \<Rightarrow> bytes \<Rightarrow> bytes \<Rightarrow> box_err + bytes" where
  "OpenXChaCha20 open key nonce ciphertext ad =
     (if length key \<noteq> 32 \<or> length nonce \<noteq> 24 then Inl ErrBadKeyOrNonce
      else case open key nonce ciphertext ad of None \<Rightarrow> Inl ErrAuth | Some p \<Rightarrow> Inr p)"

section \<open>Lemmas\<close>

lemma bytes_greater_asym: "bytes_greater a b \<Longrightarrow> \<not> bytes_greater b a"
  by (induction a b rule: bytes_greater.induct) auto

lemma bytes_greater_total: "length a = length b \<Longrightarrow> \<not> bytes_greater a b \<Longrightarrow> \<not> bytes_greater b a \<Longrightarrow> a = b"
  by (induction a b rule: list_induct2) auto

lemma safety_message_swap:
  assumes "length a = length b"
  shows "safety_message a b = safety_message b a"
  using assms bytes_greater_asym [of a b] bytes_greater_total [of a b] by (auto simp: safety_message_def)

lemma safety_message_inj:
  assumes "length a = 32" "length b = 32" "length c = 32" "length d = 32"
  shows "safety_message a b = safety_message c d \<longleftrightarrow> {a, b} = {c, d}"
proof
  assume "safety_message a b = safety_message c d"
  then show "{a, b} = {c, d}" using assms
    by (auto simp: safety_message_def split: if_splits)
next
  assume "{a, b} = {c, d}"
  then have "a = c \<and> b = d \<or> a = d \<and> b = c" by (auto simp: doubleton_eq_iff)
  then show "safety_message a b = safety_message c d" using safety_message_swap [of a b] assms by auto
qed

lemma alphabet_ok: "length SafetyEmojiAlphabet = 64" "distinct SafetyEmojiAlphabet"
  by (simp_all add: SafetyEmojiAlphabet_def)

lemma safety_code_shape:
  assumes "ComputeSafetyCode sha256 a b = Some c"
  shows "length (Emojis c) = 10" and "set (Emojis c) \<subseteq> set SafetyEmojiAlphabet"
proof -
  have "unat (x :: byte) mod 64 < length SafetyEmojiAlphabet" for x by (simp add: alphabet_ok)
  then show "length (Emojis c) = 10" and "set (Emojis c) \<subseteq> set SafetyEmojiAlphabet"
    using assms by (auto simp: ComputeSafetyCode_def SafetyCodeLength_def Let_def split: if_splits)
qed

lemma fold_or_zero:
  "fold (\<lambda>(a, b) v. v OR (a XOR b)) xs (v :: byte) = 0 \<longleftrightarrow> v = 0 \<and> (\<forall>(a, b) \<in> set xs. a = b)"
proof (induction xs arbitrary: v)
  case (Cons x xs)
  have "v OR (a XOR b) = 0 \<longleftrightarrow> v = 0 \<and> a = b" for a b :: byte
    by (metis or_eq_0_iff xor_self_eq xor.left_neutral xor.right_neutral xor.assoc)
  then show ?case using Cons by (cases x) auto
qed simp

lemma zip_all_eq: "length x = length y \<Longrightarrow> (\<forall>(a, b) \<in> set (zip x y). a = b) \<longleftrightarrow> x = y"
  by (induction x y rule: list_induct2) auto

lemma ConstantTimeCompare_eq: "ConstantTimeCompare x y = 1 \<longleftrightarrow> x = y"
  using zip_all_eq [of x y] by (auto simp: ConstantTimeCompare_def fold_or_zero)

lemma string_bytes_inj: "string_bytes a = string_bytes b \<longleftrightarrow> a = b"
proof
  assume "string_bytes a = string_bytes b"
  then have "map (\<lambda>c. unat (byte_of (of_char c))) a = map (\<lambda>c. unat (byte_of (of_char c))) b"
    by (metis (no_types, lifting) list.map_comp comp_apply map_eq_conv string_bytes_def)
  moreover have "unat (byte_of (of_char c)) = of_char c" for c
    by (simp add: byte_of_def unat_of_nat take_bit_nat_eq_self)
  ultimately have "map (of_char :: char \<Rightarrow> nat) a = map of_char b" by simp
  then show "a = b" by (rule map_injective) (auto simp: inj_def)
qed simp

lemma constant_time_equal: "ConstantTimeEqual a b \<longleftrightarrow> a = b" "ConstantTimeEqualBytes x y \<longleftrightarrow> x = y"
  by (simp_all only: ConstantTimeEqual_def ConstantTimeEqualBytes_def ConstantTimeCompare_eq string_bytes_inj)

text \<open>A token decodes to the random bytes it was made from; it is 43 characters long.\<close>

lemma token_roundtrip:
  assumes "GenerateToken (Some b) = Some t"
  shows "DecodeString encodeURL None t = Some b"
  using assms by (auto simp: GenerateToken_def RawURLEncoding.decode_encode)

lemma xchacha_roundtrip:
  assumes "\<And>k n p d. open k n (seal k n p d) d = Some p" and "SealXChaCha20 seal key nonce p ad = Inr c"
  shows "OpenXChaCha20 open key nonce c ad = Inr p"
  using assms by (auto simp: SealXChaCha20_def OpenXChaCha20_def split: if_splits)

end
