(* ===== verification/Aul_Time.thy ===== *)
theory Aul_Time
  imports Aul_Strings Aul_Store_Identity
begin

text \<open>
  The text form of instants in the SQLite database (\<^verbatim>\<open>fmtTime\<close> and \<^verbatim>\<open>parseTime\<close> of
  \<^verbatim>\<open>server/internal/store/sqlite.go\<close>), with the calendar arithmetic of Go's \<^verbatim>\<open>time\<close> package it rests on
  and the bind and scan helpers. SQLite compares the texts byte by byte; the statements of the
  store theories compare the integers \<open>tv t\<close>. The two lemmas at the end justify that: for the
  years 0 to 9999 the order of the texts is the order of the integers, and a text reads back as
  the instant truncated to milliseconds. \<^verbatim>\<open>time.Parse\<close> is modelled as far as its fast path for
  RFC 3339; texts outside of it go to the parameter \<open>slow\<close>.
\<close>

section \<open>Calendar\<close>

definition leap :: "int \<Rightarrow> bool" where
  "leap y \<longleftrightarrow> 4 dvd y \<and> \<not> 100 dvd y \<or> 400 dvd y"

text \<open>Days from 1 January of the year 0 to 1 January of the year \<open>y\<close>, and to the Unix epoch.\<close>

definition year_start :: "int \<Rightarrow> int" where
  "year_start y = 365 * y + (y + 3) div 4 - (y + 99) div 100 + (y + 399) div 400"

definition epoch_day :: int where "epoch_day = 719528"

lemma ceil_step: "0 < n \<Longrightarrow> (y + 1 + (n - 1)) div n = (y + (n - 1)) div n + of_bool (n dvd (y :: int))"
proof -
  assume n: "0 < n"
  define q r where "q = y div n" and "r = y mod n"
  have y: "y = n * q + r" "0 \<le> r" "r < n" using n by (simp_all add: q_def r_def)
  have "(n * q + r + (n - 1)) div n = q + (r + (n - 1)) div n" "(n * q + r + n) div n = q + (r + n) div n"
    using n by (simp_all add: add.assoc)
  moreover have "(r + n) div n = 1" using y div_add_self2 [of n r] n by auto
  moreover have "(r + (n - 1)) div n = (if r = 0 then 0 else 1)"
  proof (cases "r = 0")
    case False
    then have e: "r + (n - 1) = (r - 1) + n" and b: "0 \<le> r - 1" "r - 1 < n" using y by auto
    show ?thesis unfolding e using False b div_add_self2 [of n "r - 1"] n by auto
  qed (use n in simp)
  moreover have "n dvd y \<longleftrightarrow> r = 0" by (simp add: r_def dvd_eq_mod_eq_0)
  ultimately show ?thesis using y by (auto simp: algebra_simps)
qed

lemma year_start_Suc: "year_start (y + 1) = year_start y + 365 + of_bool (leap y)"
  using ceil_step [of 4 y] ceil_step [of 100 y] ceil_step [of 400 y]
  by (auto simp: year_start_def leap_def algebra_simps)

lemma year_start_less: "y < z \<Longrightarrow> year_start y < year_start z"
proof (induction z rule: int_gr_induct)
  case base
  show ?case by (simp add: year_start_Suc)
next
  case (step i)
  then show ?case by (simp add: year_start_Suc)
qed

function year_up :: "int \<Rightarrow> int \<Rightarrow> int" where
  "year_up d y = (if year_start (y + 1) \<le> d then year_up d (y + 1) else y)"
  by pat_completeness auto

termination
proof (relation "measure (\<lambda>(d, y). nat (d - year_start y))", simp)
  fix d y :: int assume "year_start (y + 1) \<le> d"
  then show "((d, y + 1), d, y) \<in> measure (\<lambda>(d, y). nat (d - year_start y))"
    using year_start_less [of y "y + 1"] by simp
qed

declare year_up.simps [simp del]

definition year_of :: "int \<Rightarrow> int" where
  "year_of d = year_up d (if d \<ge> 0 then d div 366 else d div 365)"

definition month_lengths :: "int \<Rightarrow> int list" where
  "month_lengths y = [31, (if leap y then 29 else 28), 31, 30, 31, 30, 31, 31, 30, 31, 30, 31]"

text \<open>Month and day of the month of a day of the year, and back.\<close>

fun split_month :: "int list \<Rightarrow> int \<Rightarrow> int \<times> int" where
  "split_month [] k = (1, k + 1)"
| "split_month (l # ls) k = (if k < l then (1, k + 1) else case split_month ls (k - l) of (m, d) \<Rightarrow> (m + 1, d))"

definition day_number :: "int \<Rightarrow> int \<Rightarrow> int \<Rightarrow> int" where
  "day_number y m d = year_start y + sum_list (take (nat (m - 1)) (month_lengths y)) + d - 1"

section \<open>Text form\<close>

text \<open>The calendar fields of an instant in milliseconds since the epoch.\<close>

definition fields :: "int \<Rightarrow> int list" where
  "fields ms = (let day = epoch_day + ms div 86400000; t = ms mod 86400000; y = year_of day;
      (m, d) = split_month (month_lengths y) (day - year_start y) in
    [y, m, d, t div 3600000, t div 60000 mod 60, t div 1000 mod 60, t mod 1000])"

text \<open>A number with at least \<open>w\<close> digits, as the formatter writes it.\<close>

definition pad :: "nat \<Rightarrow> int \<Rightarrow> string" where
  "pad w n = (let s = show_nat (nat \<bar>n\<bar>) in
     (if n < 0 then ''-'' else []) @ replicate (w - length s) (CHR ''0'') @ s)"

definition sqliteTimeLayout :: "(nat \<times> char) list" where
  "sqliteTimeLayout = [(4, CHR ''-''), (2, CHR ''-''), (2, CHR ''T''), (2, CHR '':''), (2, CHR '':''), (2, CHR ''.''), (3, CHR ''Z'')]"

fun render :: "(nat \<times> char) list \<Rightarrow> int list \<Rightarrow> string" where
  "render ((w, c) # ws) (n # fs) = pad w n @ c # render ws fs"
| "render _ _ = []"

definition fmtTime :: "gotime \<Rightarrow> string" where
  "fmtTime t = render sqliteTimeLayout (fields (t div Millisecond))"

definition parse_uint :: "int \<Rightarrow> int \<Rightarrow> string \<Rightarrow> int option" where
  "parse_uint lo hi s = (if list_all is_digit s \<and> lo \<le> int (digits_value s) \<and> int (digits_value s) \<le> hi
     then Some (int (digits_value s)) else None)"

definition parse_fraction :: "string \<Rightarrow> int \<times> string" where
  "parse_fraction s = (if length s \<ge> 2 \<and> s ! 0 = CHR ''.'' \<and> is_digit (s ! 1)
     then (let ds = takeWhile is_digit (tl s); e = take 9 ds in
       (int (digits_value e) * 10 ^ (9 - length e), drop (1 + length ds) s))
     else (0, s))"

text \<open>Seconds east of UTC.\<close>

definition parse_zone :: "string \<Rightarrow> int option" where
  "parse_zone s = (if s = ''Z'' then Some 0
     else if length s \<noteq> 6 then None
     else case (parse_uint 0 23 (take 2 (drop 1 s)), parse_uint 0 59 (take 2 (drop 4 s))) of
         (Some hr, Some mm) \<Rightarrow>
           if (s ! 0 = CHR ''-'' \<or> s ! 0 = CHR ''+'') \<and> s ! 3 = CHR '':''
           then Some ((if s ! 0 = CHR ''-'' then - 1 else 1) * ((hr * 60 + mm) * 60)) else None
       | _ \<Rightarrow> None)"

definition parseRFC3339 :: "string \<Rightarrow> gotime option" where
  "parseRFC3339 s =
     (if length s < 19 then None
      else case (parse_uint 0 9999 (take 4 s), parse_uint 1 12 (take 2 (drop 5 s))) of
          (Some y, Some m) \<Rightarrow>
            (case (parse_uint 1 (month_lengths y ! nat (m - 1)) (take 2 (drop 8 s)),
                   parse_uint 0 23 (take 2 (drop 11 s)), parse_uint 0 59 (take 2 (drop 14 s)),
                   parse_uint 0 59 (take 2 (drop 17 s))) of
               (Some d, Some h, Some mi, Some sec) \<Rightarrow>
                 if s ! 4 = CHR ''-'' \<and> s ! 7 = CHR ''-'' \<and> s ! 10 = CHR ''T'' \<and> s ! 13 = CHR '':'' \<and> s ! 16 = CHR '':'' then
                   (let (nsec, rest) = parse_fraction (drop 19 s) in
                    case parse_zone rest of None \<Rightarrow> None
                    | Some off \<Rightarrow> Some (((day_number y m d - epoch_day) * 86400 + h * 3600 + mi * 60 + sec - off) * Second + nsec))
                 else None
             | _ \<Rightarrow> None)
        | _ \<Rightarrow> None)"

definition parseTime :: "(string \<Rightarrow> gotime option) \<Rightarrow> string \<Rightarrow> gotime option" where
  "parseTime slow s = (case parseRFC3339 s of Some t \<Rightarrow> Some t | None \<Rightarrow> slow s)"

section \<open>Bind and scan helpers\<close>

datatype sql_value = SNull | SText string | SBlob string | SInt int | STime gotime | SBool bool

definition tv_text :: "gotime \<Rightarrow> sql_value" where
  "tv_text t = SText (fmtTime t)"

definition tvp_text :: "gotime option \<Rightarrow> sql_value" where
  "tvp_text t = (case t of None \<Rightarrow> SNull | Some x \<Rightarrow> SText (fmtTime x))"

definition bv :: "bool \<Rightarrow> sql_value" where
  "bv b = SInt (if b then 1 else 0)"

text \<open>\<open>uid\<close> is \<^verbatim>\<open>UUID.String\<close>, \<open>uparse\<close> is \<^verbatim>\<open>uuid.Parse\<close>.\<close>

definition uv_text :: "(uuid \<Rightarrow> string) \<Rightarrow> uuid \<Rightarrow> sql_value" where
  "uv_text uid u = SText (uid u)"

definition uvp_text :: "(uuid \<Rightarrow> string) \<Rightarrow> uuid option \<Rightarrow> sql_value" where
  "uvp_text uid u = (case u of None \<Rightarrow> SNull | Some x \<Rightarrow> SText (uid x))"

fun asString :: "sql_value \<Rightarrow> string option" where
  "asString (SText s) = Some s"
| "asString (SBlob s) = Some s"
| "asString _ = None"

definition uuid_Scan :: "(string \<Rightarrow> uuid option) \<Rightarrow> sql_value \<Rightarrow> uuid option" where
  "uuid_Scan uparse src = (case asString src of None \<Rightarrow> None | Some s \<Rightarrow> uparse s)"

definition nullUUID_Scan :: "(string \<Rightarrow> uuid option) \<Rightarrow> sql_value \<Rightarrow> uuid option option" where
  "nullUUID_Scan uparse src = (if src = SNull then Some None else
     case asString src of None \<Rightarrow> None | Some s \<Rightarrow> map_option Some (uparse s))"

fun time_Scan :: "(string \<Rightarrow> gotime option) \<Rightarrow> sql_value \<Rightarrow> gotime option" where
  "time_Scan slow (STime t) = Some t"
| "time_Scan slow (SText s) = parseTime slow s"
| "time_Scan slow (SBlob s) = parseTime slow s"
| "time_Scan slow _ = None"

definition nullTime_Scan :: "(string \<Rightarrow> gotime option) \<Rightarrow> sql_value \<Rightarrow> gotime option option" where
  "nullTime_Scan slow src = (if src = SNull then Some None else map_option Some (time_Scan slow src))"

fun bool_Scan :: "sql_value \<Rightarrow> bool option" where
  "bool_Scan (SInt v) = Some (v \<noteq> 0)"
| "bool_Scan (SBool b) = Some b"
| "bool_Scan SNull = Some False"
| "bool_Scan _ = None"

text \<open>SQLite's comparison of texts (\<^verbatim>\<open>BINARY\<close> collation).\<close>

fun text_less :: "string \<Rightarrow> string \<Rightarrow> bool" where
  "text_less xs [] = False"
| "text_less [] (y # ys) = True"
| "text_less (x # xs) (y # ys) = ((of_char x :: nat) < of_char y \<or> x = y \<and> text_less xs ys)"

section \<open>Calendar lemmas\<close>

lemma year_up_bounds:
  "year_start y \<le> d \<Longrightarrow> year_start (year_up d y) \<le> d \<and> d < year_start (year_up d y + 1)"
proof (induction d y rule: year_up.induct)
  case (1 d y)
  then show ?case by (cases "year_start (y + 1) \<le> d") (simp_all add: year_up.simps [of d y])
qed

lemma year_start_upper: "0 \<le> y \<Longrightarrow> year_start y \<le> 366 * y"
proof (induction y rule: int_ge_induct)
  case base
  show ?case by (simp add: year_start_def)
next
  case (step i)
  then show ?case by (simp add: year_start_Suc)
qed

lemma year_of_bounds:
  assumes "0 \<le> d"
  shows "year_start (year_of d) \<le> d" and "d < year_start (year_of d + 1)" and "0 \<le> year_of d"
proof -
  have "0 \<le> d div 366" using assms by simp
  then have "year_start (d div 366) \<le> 366 * (d div 366)" by (rule year_start_upper)
  also have "\<dots> \<le> d" by simp
  finally have "year_start (d div 366) \<le> d" .
  then have b: "year_start (year_of d) \<le> d \<and> d < year_start (year_of d + 1)"
    using year_up_bounds assms by (simp add: year_of_def)
  then show "year_start (year_of d) \<le> d" and "d < year_start (year_of d + 1)" by simp_all
  show "0 \<le> year_of d"
  proof (rule ccontr)
    assume "\<not> 0 \<le> year_of d"
    then have "year_start (year_of d + 1) \<le> year_start 0"
      using year_start_less [of "year_of d + 1" 0] by (cases "year_of d + 1 = 0") auto
    then show False using b assms by (simp add: year_start_def)
  qed
qed

lemma year_of_mono:
  assumes "0 \<le> d" and "d \<le> e"
  shows "year_of d \<le> year_of e"
proof (rule ccontr)
  assume "\<not> year_of d \<le> year_of e"
  then have "year_of e + 1 \<le> year_of d" by simp
  then have "year_start (year_of e + 1) \<le> year_start (year_of d)"
    using year_start_less by (cases "year_of e + 1 = year_of d") (auto simp: less_le)
  then show False using year_of_bounds(1) [of d] year_of_bounds(2) [of e] assms by linarith
qed

lemma month_total: "sum_list (month_lengths y) = 365 + of_bool (leap y)"
  by (simp add: month_lengths_def)

lemma split_month_ok:
  assumes "0 \<le> k" and "k < sum_list ls" and "split_month ls k = (m, d)"
  shows "1 \<le> m \<and> m \<le> int (length ls) \<and> 1 \<le> d \<and> d \<le> ls ! nat (m - 1) \<and> sum_list (take (nat (m - 1)) ls) + d - 1 = k"
  using assms
proof (induction ls arbitrary: k m d)
  case (Cons l ls)
  show ?case
  proof (cases "k < l")
    case False
    obtain m' d' where s: "split_month ls (k - l) = (m', d')" by (cases "split_month ls (k - l)")
    then have IH: "1 \<le> m' \<and> m' \<le> int (length ls) \<and> 1 \<le> d' \<and> d' \<le> ls ! nat (m' - 1) \<and>
        sum_list (take (nat (m' - 1)) ls) + d' - 1 = k - l"
      using Cons.IH [OF _ _ s] Cons.prems(1,2) False by simp
    moreover have "m = m' + 1" "d = d'" using Cons.prems(3) False s by simp_all
    moreover have "nat (m' + 1 - 1) = Suc (nat (m' - 1))" using IH by linarith
    ultimately show ?thesis by simp
  qed (use Cons.prems in auto)
qed simp

lemma split_month_mono:
  assumes "j < k" and "split_month ls j = (m, d)" and "split_month ls k = (m', d')" and "\<forall>l\<in>set ls. 0 < l"
    and "0 \<le> j" and "k < sum_list ls"
  shows "m < m' \<or> m = m' \<and> d < d'"
  using assms
proof (induction ls arbitrary: j k m d m' d')
  case (Cons l ls)
  show ?case
  proof (cases "k < l")
    case False
    obtain p q where k: "split_month ls (k - l) = (p, q)" by (cases "split_month ls (k - l)")
    then have p: "1 \<le> p" using split_month_ok [of "k - l" ls p q] Cons.prems False by simp
    show ?thesis
    proof (cases "j < l")
      case True
      then show ?thesis using Cons.prems k p False by auto
    next
      case nj: False
      obtain r s where j: "split_month ls (j - l) = (r, s)" by (cases "split_month ls (j - l)")
      have "r < p \<or> r = p \<and> s < q" using Cons.IH [OF _ j k] Cons.prems False nj by simp
      then show ?thesis using Cons.prems False nj j k by auto
    qed
  qed (use Cons.prems in auto)
qed simp

section \<open>Fixed width digits\<close>

fun fixed :: "nat \<Rightarrow> nat \<Rightarrow> string" where
  "fixed 0 n = []"
| "fixed (Suc w) n = fixed w (n div 10) @ [digit (n mod 10)]"

lemma length_fixed [simp]: "length (fixed w n) = w"
  by (induction w arbitrary: n) auto

lemma digit_zero: "digit 0 = CHR ''0''"
proof -
  have "of_char (digit 0) = (of_char (CHR ''0'') :: nat)" by (simp add: digit_def)
  then show ?thesis by (simp only: of_char_eq_iff)
qed

lemma fixed_zero: "fixed w 0 = replicate w (CHR ''0'')"
  by (induction w) (simp_all add: digit_zero replicate_append_same)

lemma fixed_digits: "c \<in> set (fixed w n) \<Longrightarrow> is_digit c"
  by (induction w arbitrary: n) (auto simp: is_digit_digit)

lemma fixed_value: "n < 10 ^ w \<Longrightarrow> digits_value (fixed w n) = n"
proof (induction w arbitrary: n)
  case 0
  then show ?case by (simp add: digits_value_def)
next
  case (Suc w)
  then have "n div 10 < 10 ^ w" by (simp add: div_less_iff_less_mult mult.commute)
  then show ?case using Suc.IH by (simp add: digits_value_snoc digit_value)
qed

lemma length_show_nat: "0 < w \<Longrightarrow> n < 10 ^ w \<Longrightarrow> length (show_nat n) \<le> w"
proof (induction w arbitrary: n)
  case (Suc w)
  show ?case
  proof (cases "n < 10")
    case False
    then have "0 < w" using Suc.prems(2) by (cases w) auto
    moreover have "n div 10 < 10 ^ w" using Suc.prems(2) by (simp add: div_less_iff_less_mult mult.commute)
    ultimately have "length (show_nat (n div 10)) \<le> w" by (rule Suc.IH)
    then show ?thesis using False by (subst show_nat.simps) simp
  qed (simp add: show_nat.simps)
qed simp

lemma pad_fixed_nat:
  "0 < w \<Longrightarrow> n < 10 ^ w \<Longrightarrow> replicate (w - length (show_nat n)) (CHR ''0'') @ show_nat n = fixed w n"
proof (induction w arbitrary: n)
  case (Suc w)
  show ?case
  proof (cases "n < 10")
    case True
    then show ?thesis by (simp add: show_nat.simps fixed_zero)
  next
    case False
    then have w: "0 < w" using Suc.prems(2) by (cases w) auto
    have n: "n div 10 < 10 ^ w" using Suc.prems(2) by (simp add: div_less_iff_less_mult mult.commute)
    have s: "show_nat n = show_nat (n div 10) @ [digit (n mod 10)]" using False by (subst show_nat.simps) simp
    show ?thesis using Suc.IH [OF w n] unfolding s by simp
  qed
qed simp

lemma pad_fixed: "0 < w \<Longrightarrow> 0 \<le> n \<Longrightarrow> n < 10 ^ w \<Longrightarrow> pad w n = fixed w (nat n)"
  using pad_fixed_nat [of w "nat n"] by (simp add: pad_def Let_def nat_less_iff)

section \<open>Order of the texts\<close>

lemma text_less_append:
  "length xs = length ys \<Longrightarrow> text_less (xs @ us) (ys @ vs) \<longleftrightarrow> text_less xs ys \<or> xs = ys \<and> text_less us vs"
proof (induction xs ys rule: list_induct2)
  case Nil
  then show ?case by simp
next
  case (Cons x xs y ys)
  then show ?case by auto
qed

lemma text_less_irrefl: "\<not> text_less xs xs"
  by (induction xs) auto

lemma text_less_asym: "text_less xs ys \<Longrightarrow> \<not> text_less ys xs"
  by (induction xs ys rule: text_less.induct) auto

lemma fixed_less: "m < n \<Longrightarrow> n < 10 ^ w \<Longrightarrow> text_less (fixed w m) (fixed w n)"
proof (induction w arbitrary: m n)
  case (Suc w)
  have n: "n div 10 < 10 ^ w" using Suc.prems(2) by (simp add: div_less_iff_less_mult mult.commute)
  show ?case
  proof (cases "m div 10 < n div 10")
    case True
    then show ?thesis using Suc.IH [OF True n] by (simp add: text_less_append)
  next
    case False
    then have "m div 10 = n div 10" using Suc.prems(1) by (meson div_le_mono less_imp_le_nat le_less)
    moreover from this have "m mod 10 < n mod 10" using Suc.prems(1) by (metis div_mult_mod_eq nat_add_left_cancel_less)
    ultimately show ?thesis by (simp add: text_less_append digit_def)
  qed
qed simp

text \<open>Lists of numbers of fixed widths compare like their texts.\<close>

fun fields_less :: "int list \<Rightarrow> int list \<Rightarrow> bool" where
  "fields_less (a # as) (b # bs) = (a < b \<or> a = b \<and> fields_less as bs)"
| "fields_less _ _ = False"

fun fits :: "(nat \<times> char) list \<Rightarrow> int list \<Rightarrow> bool" where
  "fits [] [] = True"
| "fits ((w, c) # ws) (n # fs) = (0 < w \<and> 0 \<le> n \<and> n < 10 ^ w \<and> fits ws fs)"
| "fits _ _ = False"

lemma render_less:
  "fits ws as \<Longrightarrow> fits ws bs \<Longrightarrow> fields_less as bs \<Longrightarrow> text_less (render ws as) (render ws bs)"
proof (induction ws "as" arbitrary: bs rule: fits.induct)
  case (2 w c ws n fs)
  then obtain b bs' where bs: "bs = b # bs'" by (cases bs) auto
  have "text_less (fixed w (nat n)) (fixed w (nat b))" if "n < b"
    using that 2 bs by (intro fixed_less) (auto simp: nat_less_iff)
  then show ?case using 2 bs by (auto simp: pad_fixed text_less_append)
qed auto

section \<open>Fields of an instant\<close>

text \<open>The instants of the years 0 to 9999, in milliseconds.\<close>

definition in_range :: "int \<Rightarrow> bool" where
  "in_range ms \<longleftrightarrow> 0 \<le> epoch_day + ms div 86400000 \<and> epoch_day + ms div 86400000 < year_start 10000"

lemma radix_sum:
  fixes t :: int
  assumes "t = a * 1000 + l" and "a = b * 60 + s" and "b = c * 60 + m"
  shows "(c * 3600 + m * 60 + s) * 1000 + l = t"
  using assms by simp

lemma radix_less:
  fixes h m s l :: int
  assumes "(h * 3600 + m * 60 + s) * 1000 + l < (h' * 3600 + m' * 60 + s') * 1000 + l'"
    and "0 \<le> m" "m \<le> 59" "0 \<le> s" "s \<le> 59" "0 \<le> l" "l \<le> 999"
    and "0 \<le> m'" "m' \<le> 59" "0 \<le> s'" "s' \<le> 59" "0 \<le> l'" "l' \<le> 999"
  shows "fields_less [h, m, s, l] [h', m', s', l']"
  using assms by (simp add: not_less) linarith

lemma fits_layout:
  assumes "0 \<le> y" "y \<le> 9999" "1 \<le> m" "m \<le> 12" "1 \<le> d" "d \<le> 31" "0 \<le> h" "h \<le> 23"
    "0 \<le> mi" "mi \<le> 59" "0 \<le> s" "s \<le> 59" "0 \<le> l" "l \<le> 999"
  shows "fits sqliteTimeLayout [y, m, d, h, mi, s, l]"
  using assms by (simp add: sqliteTimeLayout_def)

text \<open>Hour, minute, second and millisecond of a time of day.\<close>

definition clock :: "int \<Rightarrow> int list" where
  "clock t = [t div 3600000, t div 60000 mod 60, t div 1000 mod 60, t mod 1000]"

lemma clock_ok:
  assumes "0 \<le> t" and "t < 86400000"
  obtains h m s l where "clock t = [h, m, s, l]" and "0 \<le> h" "h \<le> 23" "0 \<le> m" "m \<le> 59" "0 \<le> s" "s \<le> 59"
    "0 \<le> l" "l \<le> 999" and "(h * 3600 + m * 60 + s) * 1000 + l = t"
proof -
  define a b c where "a = t div 1000" and "b = a div 60" and "c = b div 60"
  have m: "t div 60000 = b" using zdiv_zmult2_eq [of 60 t 1000] by (simp add: a_def b_def)
  have h: "t div 3600000 = c"
    using zdiv_zmult2_eq [of 60 "t div 1000" 60] zdiv_zmult2_eq [of 3600 t 1000] by (simp add: a_def b_def c_def)
  have "a \<le> 86399999 div 1000" unfolding a_def using assms(2) by (intro zdiv_mono1) simp_all
  then have "b \<le> 86399 div 60" unfolding b_def by (intro zdiv_mono1) simp_all
  then have "c \<le> 1439 div 60" unfolding c_def by (intro zdiv_mono1) simp_all
  then have c: "c \<le> 23" by simp
  have "0 \<le> c" using assms(1) by (simp add: a_def b_def c_def pos_imp_zdiv_nonneg_iff)
  moreover have "(c * 3600 + b mod 60 * 60 + a mod 60) * 1000 + t mod 1000 = t"
    by (rule radix_sum [of t a _ b _ c]) (simp_all add: a_def b_def c_def)
  moreover have "x mod 60 \<le> 59" "0 \<le> x mod 60" "x mod 1000 \<le> 999" "0 \<le> x mod 1000" for x :: int
    using pos_mod_bound [of 60 x] pos_mod_bound [of 1000 x] by simp_all
  ultimately show ?thesis using that [of c "b mod 60" "a mod 60" "t mod 1000"] c by (simp add: clock_def m h a_def)
qed

lemma clock_less:
  assumes "0 \<le> t" and "t < u" and "u < 86400000"
  shows "fields_less (clock t) (clock u)"
proof -
  have "t < 86400000" "0 \<le> u" using assms by simp_all
  then obtain h m s l where t: "clock t = [h, m, s, l]" "0 \<le> m" "m \<le> 59" "0 \<le> s" "s \<le> 59" "0 \<le> l" "l \<le> 999"
      "(h * 3600 + m * 60 + s) * 1000 + l = t"
    using clock_ok [OF assms(1)] by metis
  obtain h' m' s' l' where u: "clock u = [h', m', s', l']" "0 \<le> m'" "m' \<le> 59" "0 \<le> s'" "s' \<le> 59" "0 \<le> l'" "l' \<le> 999"
      "(h' * 3600 + m' * 60 + s') * 1000 + l' = u"
    using clock_ok [OF \<open>0 \<le> u\<close> assms(3)] by metis
  show ?thesis unfolding t(1) u(1) using t(2-) u(2-) assms(2) by (intro radix_less) simp_all
qed

text \<open>Year, month and day of a day number.\<close>

definition civil :: "int \<Rightarrow> int list" where
  "civil day = (let y = year_of day; (m, d) = split_month (month_lengths y) (day - year_start y) in [y, m, d])"

lemma fields_civil_clock: "fields ms = civil (epoch_day + ms div 86400000) @ clock (ms mod 86400000)"
  by (simp add: fields_def civil_def clock_def Let_def case_prod_beta)

lemma month_lengths_pos: "\<forall>l\<in>set (month_lengths y). 0 < l \<and> l \<le> 31"
  by (simp add: month_lengths_def)

lemma civil_ok:
  assumes "0 \<le> day" and "day < year_start 10000"
  obtains y m d where "civil day = [y, m, d]" and "y = year_of day" and "0 \<le> y" "y \<le> 9999" "1 \<le> m" "m \<le> 12"
    "1 \<le> d" "d \<le> 31" "d \<le> month_lengths y ! nat (m - 1)"
    and "day_number y m d = day" and "split_month (month_lengths y) (day - year_start y) = (m, d)"
    and "0 \<le> day - year_start y" and "day - year_start y < sum_list (month_lengths y)"
proof -
  define y where "y = year_of day"
  obtain m d where md: "split_month (month_lengths y) (day - year_start y) = (m, d)"
    by (cases "split_month (month_lengths y) (day - year_start y)")
  have b: "year_start y \<le> day" "day < year_start (y + 1)" "0 \<le> y" using year_of_bounds [OF assms(1)] by (simp_all add: y_def)
  have "y \<le> 9999"
  proof (rule ccontr)
    assume "\<not> y \<le> 9999"
    then have "year_start 10000 \<le> year_start y"
      using year_start_less [of 10000 y] by (cases "y = 10000") auto
    then show False using b(1) assms(2) by linarith
  qed
  have k: "0 \<le> day - year_start y" "day - year_start y < sum_list (month_lengths y)"
    using b by (simp_all add: month_total year_start_Suc)
  note s = split_month_ok [OF k md]
  have len: "length (month_lengths y) = 12" by (simp add: month_lengths_def)
  have "month_lengths y ! nat (m - 1) \<in> set (month_lengths y)" using s len by (intro nth_mem) auto
  then have max: "month_lengths y ! nat (m - 1) \<le> 31" using month_lengths_pos by blast
  show ?thesis
  proof (rule that [of y m d])
    show "civil day = [y, m, d]" using md by (simp add: civil_def y_def)
    show "m \<le> 12" using s len by simp
    show "d \<le> 31" using s max by linarith
    show "day_number y m d = day" using s by (simp add: day_number_def)
  qed (use s k md b(3) \<open>y \<le> 9999\<close> in \<open>simp_all only: y_def\<close>)
qed

lemma civil_less:
  assumes "0 \<le> a" and "a < b" and "b < year_start 10000"
  shows "fields_less (civil a @ ta) (civil b @ tb)"
proof -
  have "a < year_start 10000" "0 \<le> b" using assms by simp_all
  obtain y m d where a: "civil a = [y, m, d]" "y = year_of a" "split_month (month_lengths y) (a - year_start y) = (m, d)"
      "0 \<le> a - year_start y"
    using civil_ok [OF assms(1) \<open>a < year_start 10000\<close>] by metis
  obtain y' m' d' where b: "civil b = [y', m', d']" "y' = year_of b" "split_month (month_lengths y') (b - year_start y') = (m', d')"
      "b - year_start y' < sum_list (month_lengths y')"
    using civil_ok [OF \<open>0 \<le> b\<close> assms(3)] by metis
  have "y \<le> y'" unfolding a(2) b(2) using assms by (intro year_of_mono) simp_all
  moreover have "m < m' \<or> m = m' \<and> d < d'" if "y = y'"
    using split_month_mono [OF _ a(3) b(3) [folded that]] month_lengths_pos [of y] assms(2) a(4) b(4) that by auto
  ultimately show ?thesis by (auto simp: a(1) b(1))
qed

lemma fields_fits:
  assumes "in_range ms"
  shows "fits sqliteTimeLayout (fields ms)"
proof -
  define day t where "day = epoch_day + ms div 86400000" and "t = ms mod 86400000"
  have day: "0 \<le> day" "day < year_start 10000" using assms by (simp_all add: in_range_def day_def)
  have t: "0 \<le> t" "t < 86400000" by (simp_all add: t_def)
  obtain y m d where c: "civil day = [y, m, d]" "0 \<le> y" "y \<le> 9999" "1 \<le> m" "m \<le> 12" "1 \<le> d" "d \<le> 31"
    using civil_ok [OF day] by metis
  obtain h mi s l where k: "clock t = [h, mi, s, l]" "0 \<le> h" "h \<le> 23" "0 \<le> mi" "mi \<le> 59" "0 \<le> s" "s \<le> 59"
    "0 \<le> l" "l \<le> 999" using clock_ok [OF t] by metis
  show ?thesis unfolding fields_civil_clock day_def [symmetric] t_def [symmetric] c(1) k(1)
    using c k by (simp add: fits_layout)
qed

lemma fields_mono:
  assumes "in_range a" and "in_range b" and "a < b"
  shows "fields_less (fields a) (fields b)"
proof -
  define da db ta tb where "da = a div 86400000" and "db = b div 86400000" and "ta = a mod 86400000" and "tb = b mod 86400000"
  have le: "da \<le> db" unfolding da_def db_def using assms(3) by (intro zdiv_mono1) simp_all
  have ab: "a = da * 86400000 + ta" "b = db * 86400000 + tb" and t: "0 \<le> ta" "tb < 86400000"
    by (simp_all add: da_def db_def ta_def tb_def)
  have r: "0 \<le> epoch_day + da" "epoch_day + db < year_start 10000" using assms(1,2) by (simp_all add: in_range_def da_def db_def)
  show ?thesis unfolding fields_civil_clock da_def [symmetric] db_def [symmetric] ta_def [symmetric] tb_def [symmetric]
  proof (cases "da = db")
    case True
    then have "fields_less (clock ta) (clock tb)" using ab t assms(3) by (intro clock_less) simp_all
    then show "fields_less (civil (epoch_day + da) @ clock ta) (civil (epoch_day + db) @ clock tb)"
      using True by (simp add: civil_def Let_def case_prod_beta)
  next
    case False
    then show "fields_less (civil (epoch_day + da) @ clock ta) (civil (epoch_day + db) @ clock tb)"
      using le r by (intro civil_less) simp_all
  qed
qed

text \<open>Chronological order is the order in which SQLite sees the texts.\<close>

lemma fmtTime_order:
  assumes "in_range (tv t)" and "in_range (tv u)"
  shows "text_less (fmtTime t) (fmtTime u) \<longleftrightarrow> tv t < tv u"
proof -
  have less: "text_less (fmtTime a) (fmtTime b)" if "in_range (tv a)" "in_range (tv b)" "tv a < tv b" for a b
    unfolding fmtTime_def tv_def [symmetric] using that by (intro render_less fields_fits fields_mono)
  have same: "fmtTime t = fmtTime u" if "tv t = tv u" using that by (simp add: fmtTime_def tv_def)
  show ?thesis
    using less [OF assms] less [OF assms(2,1)] same text_less_asym [of "fmtTime t" "fmtTime u"]
      text_less_irrefl [of "fmtTime u"] by (cases "tv t" "tv u" rule: linorder_cases) auto
qed

section \<open>Reading back\<close>

lemma parse_uint_fixed:
  assumes "0 \<le> n" and "lo \<le> n" and "n \<le> hi" and "n < 10 ^ w"
  shows "parse_uint lo hi (fixed w (nat n)) = Some n"
proof -
  have "list_all is_digit (fixed w (nat n))" using fixed_digits by (auto simp: list_all_iff)
  moreover have "int (digits_value (fixed w (nat n))) = n"
    using assms(1,4) fixed_value [of "nat n" w] by (simp add: nat_less_iff)
  ultimately show ?thesis using assms by (simp add: parse_uint_def)
qed

lemma parse_fraction_fixed:
  assumes "0 \<le> n" and "n < 1000"
  shows "parse_fraction (CHR ''.'' # fixed 3 (nat n) @ ''Z'') = (n * 1000000, ''Z'')"
proof -
  have digits: "\<forall>c \<in> set (fixed 3 (nat n)). is_digit c" using fixed_digits by blast
  have tw: "takeWhile is_digit (fixed 3 (nat n) @ ''Z'') = fixed 3 (nat n)"
    using digits by (simp add: takeWhile_append2 is_digit_def)
  have "fixed 3 (nat n) ! 0 \<in> set (fixed 3 (nat n))" by (intro nth_mem) simp
  then have "is_digit ((fixed 3 (nat n) @ ''Z'') ! 0)" using digits by (simp add: nth_append)
  moreover have "int (digits_value (fixed 3 (nat n))) = n"
    using assms fixed_value [of "nat n" 3] by (simp add: nat_less_iff)
  ultimately show ?thesis by (simp add: parse_fraction_def Let_def tw)
qed

lemma parse_text:
  assumes "length a = 4" "length b = 2" "length c = 2" "length h = 2" "length mi = 2" "length s = 2"
    and "parse_uint 0 9999 a = Some y" "parse_uint 1 12 b = Some m" "parse_uint 1 (month_lengths y ! nat (m - 1)) c = Some d"
      "parse_uint 0 23 h = Some hr" "parse_uint 0 59 mi = Some mn" "parse_uint 0 59 s = Some sec"
    and "parse_fraction r = (nsec, ''Z'')"
  shows "parseRFC3339 (a @ CHR ''-'' # b @ CHR ''-'' # c @ CHR ''T'' # h @ CHR '':'' # mi @ CHR '':'' # s @ r) =
    Some (((day_number y m d - epoch_day) * 86400 + hr * 3600 + mn * 60 + sec) * Second + nsec)"
  using assms by (simp add: parseRFC3339_def nth_append parse_zone_def)

lemma parseTime_fmtTime:
  assumes "in_range (tv t)"
  shows "parseTime slow (fmtTime t) = Some (ns (tv t))"
proof -
  define ms where "ms = tv t"
  define day u where "day = epoch_day + ms div 86400000" and "u = ms mod 86400000"
  have day: "0 \<le> day" "day < year_start 10000" using assms by (simp_all add: in_range_def day_def ms_def)
  have u: "0 \<le> u" "u < 86400000" by (simp_all add: u_def)
  obtain y m d where c: "civil day = [y, m, d]" "0 \<le> y" "y \<le> 9999" "1 \<le> m" "m \<le> 12" "1 \<le> d" "d \<le> 31"
      "d \<le> month_lengths y ! nat (m - 1)" "day_number y m d = day"
    using civil_ok [OF day] by metis
  obtain h mi s l where k: "clock u = [h, mi, s, l]" "0 \<le> h" "h \<le> 23" "0 \<le> mi" "mi \<le> 59" "0 \<le> s" "s \<le> 59"
      "0 \<le> l" "l \<le> 999" "(h * 3600 + mi * 60 + s) * 1000 + l = u" using clock_ok [OF u] by metis
  have f: "fields ms = [y, m, d, h, mi, s, l]"
    unfolding fields_civil_clock day_def [symmetric] u_def [symmetric] c(1) k(1) by simp
  have shape: "fmtTime t = fixed 4 (nat y) @ CHR ''-'' # fixed 2 (nat m) @ CHR ''-'' # fixed 2 (nat d) @ CHR ''T'' #
      fixed 2 (nat h) @ CHR '':'' # fixed 2 (nat mi) @ CHR '':'' # fixed 2 (nat s) @ CHR ''.'' # fixed 3 (nat l) @ ''Z''"
    using c k f by (simp add: fmtTime_def tv_def [symmetric] ms_def [symmetric] sqliteTimeLayout_def pad_fixed)
  have total: "ms = (day - epoch_day) * 86400000 + u" by (simp add: day_def u_def)
  have "parseRFC3339 (fmtTime t) = Some (((day_number y m d - epoch_day) * 86400 + h * 3600 + mi * 60 + s) * Second + l * 1000000)"
    unfolding shape using c k by (intro parse_text parse_uint_fixed parse_fraction_fixed) simp_all
  also have "((day_number y m d - epoch_day) * 86400 + h * 3600 + mi * 60 + s) * Second + l * 1000000 = ns ms"
    unfolding total ns_def c(9) k(10) [symmetric] duration_defs by (simp add: algebra_simps)
  finally show ?thesis by (simp add: parseTime_def ms_def)
qed

lemma scan_bind:
  assumes "in_range (tv t)"
  shows "time_Scan slow (tv_text t) = Some (ns (tv t))" and "nullTime_Scan slow (tvp_text (Some t)) = Some (Some (ns (tv t)))"
    and "nullTime_Scan slow (tvp_text None) = Some None" and "bool_Scan (bv b) = Some b"
  using parseTime_fmtTime [OF assms] by (simp_all add: tv_text_def tvp_text_def nullTime_Scan_def bv_def)

lemma scan_uuid:
  assumes "\<And>u. uparse (uid u) = Some u"
  shows "uuid_Scan uparse (uv_text uid u) = Some u" and "nullUUID_Scan uparse (uvp_text uid v) = Some v"
  using assms by (auto simp: uuid_Scan_def uv_text_def nullUUID_Scan_def uvp_text_def split: option.split)

text \<open>The sentinel of \<^verbatim>\<open>CountRecentFailuresByEmail\<close> is before every instant the server writes.\<close>

definition sqliteEpoch_text :: string where
  "sqliteEpoch_text = ''0001-01-01T00:00:00.000Z''"

lemma sqliteEpoch_text_time: "sqliteEpoch_text = fmtTime (ns sqliteEpoch)"
  by code_simp

end
