(* ===== verification/Aul_Launcher_Env.thy ===== *)
theory Aul_Launcher_Env
  imports Aul_Config "HOL-Library.List_Lexorder" "HOL-Library.Char_ord"
begin

text \<open>
  The part of \<^verbatim>\<open>server/internal/launcher\<close> that decides what the self-hosted server is started with:
  the public origin (\<^verbatim>\<open>origin.go\<close>), the detection of a Tailscale Funnel (\<^verbatim>\<open>funnel.go\<close>, \<^verbatim>\<open>doctor.go\<close>),
  the session pepper and its atomic file (\<^verbatim>\<open>pepper.go\<close>, \<^verbatim>\<open>fsutil.go\<close>) and the environment of the child
  process (\<^verbatim>\<open>env.go\<close>). The outcome of running the \<^verbatim>\<open>tailscale\<close> command and decoding its JSON is an
  argument (\<open>None\<close>: the call failed); a Go map is the list of its entries in iteration order. The
  result that matters is that the server accepts the environment composed here.
\<close>

section \<open>Environment\<close>

definition mergeEnv :: "string list \<Rightarrow> (string \<times> string) list \<Rightarrow> string list" where
  "mergeEnv base overrides =
     filter (\<lambda>kv. case Cut kv (CHR ''='') of (key, _, ok) \<Rightarrow> \<not> ok \<or> map_of overrides key = None) base @
     map (\<lambda>k. k @ ''='' @ (case map_of overrides k of Some v \<Rightarrow> v | None \<Rightarrow> [])) (sort (map fst overrides))"

fun firstNonEmpty :: "string list \<Rightarrow> string" where
  "firstNonEmpty [] = []"
| "firstNonEmpty (v # vs) = (let t = TrimSpace v in if t \<noteq> [] then t else firstNonEmpty vs)"

text \<open>
  What \<^verbatim>\<open>os.Getenv\<close> returns in a child started with this environment: \<^verbatim>\<open>os/exec\<close> keeps the last entry of
  a variable.
\<close>

definition entry_of :: "string \<Rightarrow> string \<Rightarrow> bool" where
  "entry_of key kv = (case Cut kv (CHR ''='') of (k, _, ok) \<Rightarrow> ok \<and> k = key)"

definition Getenv :: "string list \<Rightarrow> string \<Rightarrow> string" where
  "Getenv env key = (case List.find (entry_of key) (rev env) of
     None \<Rightarrow> [] | Some kv \<Rightarrow> fst (snd (Cut kv (CHR ''=''))))"

section \<open>Origin\<close>

record resolved =
  res_Origin :: string
  res_Env :: string
  res_SecureCookies :: bool
  res_BindPort :: int
  res_Source :: string

record Options =
  DataDir :: string
  Opt_Origin :: string
  ServerBin :: string
  Port :: int
  ReadyTimeout :: duration

record funnelResult =
  fr_Origin :: string
  fr_BindPort :: string

definition withDefaults :: "Options \<Rightarrow> Options" where
  "withDefaults opts = opts\<lparr>Port := (if Port opts = 0 then 8080 else Port opts),
     ReadyTimeout := (if ReadyTimeout opts = 0 then 60 * Second else ReadyTimeout opts)\<rparr>"

definition classifyOrigin :: "string \<Rightarrow> string \<times> bool" where
  "classifyOrigin scheme = (if scheme = ''https'' then (''production'', True) else (''development'', False))"

definition originString :: "golib \<Rightarrow> URL \<Rightarrow> string" where
  "originString lib u = lib_String lib u"

definition resolveOrigin :: "golib \<Rightarrow> Options \<Rightarrow> funnelResult option \<Rightarrow> string + resolved" where
  "resolveOrigin lib opts detect =
     (if Opt_Origin opts \<noteq> [] then
        (case lib_Parse lib (Opt_Origin opts) of
           None \<Rightarrow> Inl (Opt_Origin opts)
         | Some u \<Rightarrow>
             if Host u = [] \<or> Scheme u \<noteq> ''http'' \<and> Scheme u \<noteq> ''https'' then Inl (Opt_Origin opts)
             else let (env, secure) = classifyOrigin (Scheme u) in
               Inr \<lparr>res_Origin = originString lib u, res_Env = env, res_SecureCookies = secure,
                    res_BindPort = Port opts, res_Source = ''flag''\<rparr>)
      else case detect of
          Some fr \<Rightarrow>
            (let (env, secure) = classifyOrigin ''https'';
                 port = (if fr_BindPort fr \<noteq> [] then
                           (case Atoi (fr_BindPort fr) of Some n \<Rightarrow> n | None \<Rightarrow> Port opts) else Port opts) in
             Inr \<lparr>res_Origin = fr_Origin fr, res_Env = env, res_SecureCookies = secure,
                  res_BindPort = port, res_Source = ''funnel''\<rparr>)
        | None \<Rightarrow>
            (let (env, secure) = classifyOrigin ''http'' in
             Inr \<lparr>res_Origin = ''http://localhost:'' @ Itoa (Port opts), res_Env = env, res_SecureCookies = secure,
                  res_BindPort = Port opts, res_Source = ''localhost''\<rparr>))"

definition composeEnv :: "string list \<Rightarrow> resolved \<Rightarrow> string \<Rightarrow> string \<Rightarrow> string list" where
  "composeEnv base res pepper dbPath = mergeEnv base
     [(''PUBLIC_ORIGIN'', res_Origin res),
      (''AUL_ENV'', res_Env res),
      (''SECURE_COOKIES'', FormatBool (res_SecureCookies res)),
      (''DATABASE_URL'', ''sqlite:'' @ dbPath),
      (''SESSION_HASH_PEPPER'', pepper),
      (''RUN_MIGRATIONS'', ''true''),
      (''HTTP_ADDR'', ''127.0.0.1:'' @ Itoa (res_BindPort res))]"

definition modeLabel :: "resolved \<Rightarrow> string" where
  "modeLabel res = (if res_Source res = ''flag'' then res_Env res @ '' (explicit origin)''
     else if res_Source res = ''funnel'' then res_Env res @ '' (Tailscale Funnel)''
     else if res_Source res = ''localhost'' then res_Env res @ '' (local)'' else res_Env res)"

text \<open>
  \<^verbatim>\<open>warnIfOriginChanged\<close>: the pinned origin on disk (\<open>None\<close>: unreadable) before and after; the
  first component says whether the warning is logged. \<open>writes\<close> is \<open>False\<close> when the write fails.
\<close>

definition warnIfOriginChanged :: "bool \<Rightarrow> resolved \<Rightarrow> string option \<Rightarrow> bool \<times> string option" where
  "warnIfOriginChanged writes res pinned =
     (if res_Source res \<noteq> ''funnel'' then (False, pinned)
      else let cur = res_Origin res;
               saved = (if writes then Some (cur @ [CHR 0x0A]) else pinned) in
        case pinned of
          Some prev \<Rightarrow> if TrimSpace prev = cur then (False, pinned) else (TrimSpace prev \<noteq> [], saved)
        | None \<Rightarrow> (False, saved))"

section \<open>Tailscale Funnel\<close>

record tsStatus =
  BackendState :: string
  DNSName :: string

datatype serveConfig = ServeConfig
  (sc_TCP: "(string \<times> bool) list")
  (sc_Web: "(string \<times> (string \<times> string) list) list")
  (sc_AllowFunnel: "(string \<times> bool) list")
  (sc_Foreground: "serveConfig option list")

definition firstProxy :: "(string \<times> string) list \<Rightarrow> string" where
  "firstProxy handlers =
     (case List.find (\<lambda>p. map_of handlers p \<noteq> Some []) (sort (map fst handlers)) of
        None \<Rightarrow> [] | Some p \<Rightarrow> (case map_of handlers p of None \<Rightarrow> [] | Some x \<Rightarrow> x))"

text \<open>The conditions on one entry of \<^verbatim>\<open>AllowFunnel\<close>; \<open>EqualFold\<close> is the library's, given as an argument.\<close>

definition funnel_live :: "(string \<Rightarrow> string \<Rightarrow> bool) \<Rightarrow> serveConfig \<Rightarrow> string \<Rightarrow> string \<times> bool \<Rightarrow> bool" where
  "funnel_live EqualFold sc magic e = (case e of (hp, allowed) \<Rightarrow> allowed \<and>
     (case SplitHostPort hp of None \<Rightarrow> False | Some (host, port) \<Rightarrow>
        EqualFold (TrimSuffix host ''.'') magic \<and> map_of (sc_TCP sc) port = Some True \<and>
        (case map_of (sc_Web sc) hp of None \<Rightarrow> False | Some handlers \<Rightarrow> handlers \<noteq> [])))"

function (sequential) funnelHostPort :: "(string \<Rightarrow> string \<Rightarrow> bool) \<Rightarrow> string \<Rightarrow> serveConfig \<Rightarrow> (string \<times> string) option"
  and foreground :: "(string \<Rightarrow> string \<Rightarrow> bool) \<Rightarrow> string \<Rightarrow> serveConfig option list \<Rightarrow> (string \<times> string) option" where
  "funnelHostPort EqualFold magic sc =
     (case List.find (funnel_live EqualFold sc magic) (sc_AllowFunnel sc) of
        Some (hp, _) \<Rightarrow> Some (hp, (case map_of (sc_Web sc) hp of None \<Rightarrow> [] | Some handlers \<Rightarrow> firstProxy handlers))
      | None \<Rightarrow> foreground EqualFold magic (sc_Foreground sc))"
| "foreground EqualFold magic [] = None"
| "foreground EqualFold magic (None # fgs) = foreground EqualFold magic fgs"
| "foreground EqualFold magic (Some fg # fgs) =
     (case funnelHostPort EqualFold magic fg of Some r \<Rightarrow> Some r | None \<Rightarrow> foreground EqualFold magic fgs)"
  by pat_completeness auto

termination
proof (relation "measure (\<lambda>x. case x of Inl (_, _, sc) \<Rightarrow> size sc | Inr (_, _, fgs) \<Rightarrow> size_list (size_option size) fgs)", simp_all)
  fix sc :: serveConfig
  show "size_list (size_option size) (sc_Foreground sc) < size sc" by (cases sc) simp
qed

definition funnelOrigin :: "string \<Rightarrow> string option" where
  "funnelOrigin hostPort = (case SplitHostPort hostPort of None \<Rightarrow> None
     | Some (host, port) \<Rightarrow> Some (''https://'' @ TrimSuffix host ''.'' @ (if port \<noteq> ''443'' then '':'' @ port else [])))"

text \<open>What the machine reports: whether the command is installed and what its two calls return.\<close>

record tailscale =
  ts_installed :: bool
  ts_status :: "tsStatus option"
  ts_serve :: "serveConfig option"

text \<open>\<open>Port\<close> of a parsed proxy target is the argument \<open>proxyPort\<close>.\<close>

definition FunnelOrigin :: "(string \<Rightarrow> string \<Rightarrow> bool) \<Rightarrow> (string \<Rightarrow> string) \<Rightarrow> tailscale \<Rightarrow> funnelResult option" where
  "FunnelOrigin EqualFold proxyPort ts =
     (if \<not> ts_installed ts then None
      else case ts_status ts of None \<Rightarrow> None
      | Some st \<Rightarrow>
          if BackendState st \<noteq> ''Running'' then None
          else let magic = TrimSuffix (DNSName st) ''.'' in
            if magic = [] then None
            else case ts_serve ts of None \<Rightarrow> None
              | Some sc \<Rightarrow> (case funnelHostPort EqualFold magic sc of None \<Rightarrow> None
                  | Some (hp, proxy) \<Rightarrow> (case funnelOrigin hp of None \<Rightarrow> None
                      | Some origin \<Rightarrow> Some \<lparr>fr_Origin = origin, fr_BindPort = proxyPort proxy\<rparr>)))"

section \<open>Doctor\<close>

datatype doctor_fix = NoFix | InstallFix | UpFix | MagicDNSFix | FunnelFix string

record DoctorCheck =
  Name :: string
  OK :: bool
  Fix :: doctor_fix

record DoctorReport =
  Checks :: "DoctorCheck list"
  Report_Origin :: string

definition Ready :: "DoctorReport \<Rightarrow> bool" where
  "Ready r \<longleftrightarrow> Report_Origin r \<noteq> []"

definition Diagnose :: "(string \<Rightarrow> string \<Rightarrow> bool) \<Rightarrow> (string \<Rightarrow> string) \<Rightarrow> tailscale \<Rightarrow> DoctorReport" where
  "Diagnose EqualFold proxyPort ts =
     (let passed = (\<lambda>n. \<lparr>Name = n, OK = True, Fix = NoFix\<rparr>);
          failed = (\<lambda>n f. \<lparr>Name = n, OK = False, Fix = f\<rparr>);
          report = (\<lambda>cs. \<lparr>Checks = cs, Report_Origin = []\<rparr>);
          installed = ''Tailscale installed''; running = ''Tailscale running'';
          named = ''MagicDNS name''; funnel = ''Public Funnel'' in
      if \<not> ts_installed ts then report [failed installed InstallFix]
      else case ts_status ts of
          None \<Rightarrow> report [passed installed, failed running UpFix]
        | Some st \<Rightarrow>
            if BackendState st \<noteq> ''Running'' then report [passed installed, failed running UpFix]
            else let magic = TrimSuffix (DNSName st) ''.'' in
              if magic = [] then report [passed installed, passed running, failed named MagicDNSFix]
              else case FunnelOrigin EqualFold proxyPort ts of
                  None \<Rightarrow> report [passed installed, passed running, passed named, failed funnel (FunnelFix magic)]
                | Some fr \<Rightarrow> \<lparr>Checks = [passed installed, passed running, passed named, passed funnel],
                    Report_Origin = fr_Origin fr\<rparr>)"

section \<open>Session pepper\<close>

text \<open>
  \<open>atomicWriteFile\<close> on the two files it touches, the target and its temporary: \<open>fails\<close> is the
  number of the step that fails (0 create, 1 chmod, 2 write, 3 sync, 4 close, 5 rename, 6 sync of the
  directory), if any. The result says whether an error is returned.
\<close>

record secret_dir =
  target :: "string option"
  temp :: "string option"

definition atomicWriteFile :: "nat option \<Rightarrow> string \<Rightarrow> secret_dir \<Rightarrow> bool \<times> secret_dir" where
  "atomicWriteFile fails data d =
     (if fails = Some 0 then (False, d)
      else if fails \<in> {Some 1, Some 2, Some 3, Some 4, Some 5} then (False, d\<lparr>temp := None\<rparr>)
      else if fails = Some 6 then (False, \<lparr>target = Some data, temp = None\<rparr>)
      else (True, \<lparr>target = Some data, temp = None\<rparr>))"

text \<open>The same steps one by one, for a crash in between; \<open>n\<close> steps have been executed.\<close>

fun atomic_steps :: "string \<Rightarrow> nat \<Rightarrow> secret_dir \<Rightarrow> secret_dir" where
  "atomic_steps data 0 d = d"
| "atomic_steps data (Suc n) d = (let e = atomic_steps data n d in
     if n = 0 then e\<lparr>temp := Some []\<rparr>
     else if n = 2 then e\<lparr>temp := Some data\<rparr>
     else if n = 5 then \<lparr>target = temp e, temp = None\<rparr>
     else e)"

datatype pepper_err = PepperFileShort nat | RandFailed | WriteFailed | ReadFailed

definition minPepperBytes :: nat where "minPepperBytes = 16"

text \<open>\<open>unreadable\<close>: reading fails for another reason than a missing file; \<open>rnd\<close> is what \<^verbatim>\<open>rand.Read\<close> gives.\<close>

definition provisionPepper :: "bool \<Rightarrow> bytes option \<Rightarrow> nat option \<Rightarrow> secret_dir \<Rightarrow> (pepper_err + string) \<times> secret_dir" where
  "provisionPepper unreadable rnd fails d =
     (if unreadable then (Inl ReadFailed, d)
      else case target d of
          Some raw \<Rightarrow> (let pepper = TrimSpace raw in
            if length pepper < minPepperBytes then (Inl (PepperFileShort (length pepper)), d) else (Inr pepper, d))
        | None \<Rightarrow> (case rnd of None \<Rightarrow> (Inl RandFailed, d)
            | Some buf \<Rightarrow> (let pepper = EncodeToString encodeStd pad_char buf;
                               (ok, d') = atomicWriteFile fails pepper d in
                if ok then (Inr pepper, d') else (Inl WriteFailed, d'))))"

end
