(* ===== verification/Aul_Launcher_Boot.thy ===== *)
theory Aul_Launcher_Boot
  imports Aul_Launcher_Env
begin

text \<open>
  What the launcher guarantees about the child it starts. Its own variables win over the operator's
  (\<open>Getenv_mergeEnv\<close>); the pepper never changes once written (\<open>provisionPepper_again\<close>) and a
  crash never leaves a torn file (\<open>atomic_steps_target\<close>); and the server accepts the
  environment (\<open>launcher_boots\<close>), which ties \<^verbatim>\<open>origin.go\<close> to the rules of \<^verbatim>\<open>config.go\<close>.
\<close>

section \<open>Merging environments\<close>

lemma find_filter_imp:
  assumes "\<And>x. Q x \<Longrightarrow> P x"
  shows "List.find Q (filter P xs) = List.find Q xs"
  using assms by (induction xs) auto

lemma find_append: "List.find P (xs @ ys) = (case List.find P xs of None \<Rightarrow> List.find P ys | Some x \<Rightarrow> Some x)"
  by (induction xs) auto

lemma entry_of_append: "CHR ''='' \<notin> set k \<Longrightarrow> entry_of key (k @ ''='' @ v) \<longleftrightarrow> k = key"
  by (simp add: entry_of_def Cut_append)

lemma Getenv_mergeEnv:
  assumes plain: "\<forall>k \<in> fst ` set ov. CHR ''='' \<notin> set k"
  shows "Getenv (mergeEnv base ov) key = (case map_of ov key of Some v \<Rightarrow> v | None \<Rightarrow> Getenv base key)"
proof -
  define line where "line k = k @ ''='' @ (case map_of ov k of Some v \<Rightarrow> v | None \<Rightarrow> [])" for k
  define P where "P kv = (case Cut kv (CHR ''='') of (k, _, ok) \<Rightarrow> \<not> ok \<or> map_of ov k = None)" for kv
  have merged: "rev (mergeEnv base ov) = rev (map line (sort (map fst ov))) @ rev (filter P base)"
    unfolding mergeEnv_def line_def P_def by (simp only: rev_append)
  have line: "entry_of key (line k) \<longleftrightarrow> k = key" if "k \<in> fst ` set ov" for k
    unfolding line_def using that plain by (intro entry_of_append) blast
  have mine: "kv = line key" if "List.find (entry_of key) (rev (map line (sort (map fst ov)))) = Some kv" for kv
    using find_Some_in [OF that] line by auto
  show ?thesis
  proof (cases "map_of ov key")
    case (Some v)
    then have key: "key \<in> fst ` set ov" by (force dest: map_of_SomeD)
    then have "line key \<in> set (rev (map line (sort (map fst ov))))" by simp
    then have "List.find (entry_of key) (rev (map line (sort (map fst ov)))) \<noteq> None"
      unfolding find_None_all using line [OF key] by blast
    then have "List.find (entry_of key) (rev (mergeEnv base ov)) = Some (line key)"
      using mine unfolding merged find_append by (auto split: option.splits)
    moreover have "CHR ''='' \<notin> set key" using key plain by blast
    ultimately show ?thesis using Some by (simp add: Getenv_def line_def Cut_append)
  next
    case None
    then have no: "List.find (entry_of key) (rev (map line (sort (map fst ov)))) = None"
      using line unfolding find_None_all map_of_eq_None_iff by auto
    have "entry_of key kv \<Longrightarrow> P kv" for kv using None by (auto simp: entry_of_def P_def split: prod.splits)
    then have "List.find (entry_of key) (rev (filter P base)) = List.find (entry_of key) (rev base)"
      by (simp add: rev_filter find_filter_imp)
    then show ?thesis using None no by (simp add: Getenv_def merged find_append)
  qed
qed

lemma Getenv_composeEnv:
  "Getenv (composeEnv base res pepper dbPath) key =
    (if key = ''PUBLIC_ORIGIN'' then res_Origin res
     else if key = ''AUL_ENV'' then res_Env res
     else if key = ''SECURE_COOKIES'' then FormatBool (res_SecureCookies res)
     else if key = ''DATABASE_URL'' then ''sqlite:'' @ dbPath
     else if key = ''SESSION_HASH_PEPPER'' then pepper
     else if key = ''RUN_MIGRATIONS'' then ''true''
     else if key = ''HTTP_ADDR'' then ''127.0.0.1:'' @ Itoa (res_BindPort res)
     else Getenv base key)"
  unfolding composeEnv_def by (subst Getenv_mergeEnv) (auto simp: map_of_Cons_code)

section \<open>The pepper\<close>

lemma length_EncodeToString: "length (EncodeToString al (Some p) bs) = 4 * ((length bs + 2) div 3)"
proof (induction al "Some p" bs rule: EncodeToString.induct)
  case (1 al x y z r)
  have "(length (x # y # z # r) + 2) div 3 = Suc ((length r + 2) div 3)" by simp
  then show ?case using 1 by simp
qed simp_all

lemma EncodeToString_graphic:
  assumes "c \<in> set (EncodeToString encodeStd pad_char bs)"
  shows "graphic c"
proof -
  have "\<forall>c \<in> set encodeStd. graphic c" by (simp add: alphabet_defs graphic_def)
  then show ?thesis using StdEncoding.encoded_chars [OF assms] by (auto simp: pad_char_def graphic_def)
qed

lemma list_all_graphic_TrimSpace: "list_all graphic s \<Longrightarrow> TrimSpace s = s"
  by (rule TrimSpace_graphic) (auto simp: list_all_iff)

lemma TrimSpace_EncodeToString: "TrimSpace (EncodeToString encodeStd pad_char bs) = EncodeToString encodeStd pad_char bs"
  by (rule list_all_graphic_TrimSpace) (simp add: list_all_iff EncodeToString_graphic)

text \<open>Whatever step a crash interrupts, the pepper file is the old one or the whole new one.\<close>

lemma atomic_steps_files:
  "target (atomic_steps data n d) = (if n \<le> 5 then target d else Some data) \<and>
   temp (atomic_steps data n d) =
     (if n = 0 then temp d else if n \<le> 2 then Some [] else if n \<le> 5 then Some data else None)"
  by (induction n) (auto simp: Let_def)

lemma atomicWriteFile_target:
  "atomicWriteFile fails data d = (ok, d') \<Longrightarrow>
    (ok \<longrightarrow> target d' = Some data) \<and> (target d' = target d \<or> target d' = Some data)"
  by (auto simp: atomicWriteFile_def split: if_splits)

lemma provisionPepper_ok:
  assumes "provisionPepper unreadable rnd fails d = (Inr p, d')" and "\<And>buf. rnd = Some buf \<Longrightarrow> length buf = 32"
  shows "minPepperBytes \<le> length p" and "\<exists>raw. target d' = Some raw \<and> TrimSpace raw = p"
proof -
  have new: "length (EncodeToString encodeStd pad_char buf) = 44" if "rnd = Some buf" for buf
    using assms(2) [OF that] by (simp add: pad_char_def length_EncodeToString)
  show "minPepperBytes \<le> length p" and "\<exists>raw. target d' = Some raw \<and> TrimSpace raw = p"
    using assms(1) new
    by (auto simp: provisionPepper_def Let_def minPepperBytes_def TrimSpace_EncodeToString dest!: atomicWriteFile_target
        split: if_splits option.splits prod.splits)
qed

text \<open>The pepper never rotates: a later run returns what the first one returned, and writes nothing.\<close>

lemma provisionPepper_again:
  assumes "provisionPepper unreadable rnd fails d = (Inr p, d')" and "\<And>buf. rnd = Some buf \<Longrightarrow> length buf = 32"
  shows "provisionPepper False rnd' fails' d' = (Inr p, d')"
  using provisionPepper_ok [OF assms] by (auto simp: provisionPepper_def Let_def)

section \<open>The server accepts the environment\<close>

text \<open>Documented behaviour of the library: lower-casing is character by character; URLs of plain hosts parse; a parsed URL prints and parses back.\<close>

definition lower_law :: "golib \<Rightarrow> bool" where
  "lower_law lib \<longleftrightarrow> lib_ToLower lib [] = [] \<and>
     (\<forall>a s. list_all (\<lambda>c. of_char c < (128::nat)) a \<longrightarrow> lib_ToLower lib (a @ s) = map ascii_lower a @ lib_ToLower lib s)"

definition host_char :: "char \<Rightarrow> bool" where
  "host_char c \<longleftrightarrow> c \<in> set (upper_chars @ lower_chars @ digit_chars @ ''-.'')"

definition plain_host :: "string \<Rightarrow> bool" where
  "plain_host h \<longleftrightarrow> (let name = takeWhile (\<lambda>c. c \<noteq> CHR '':'') h; rest = dropWhile (\<lambda>c. c \<noteq> CHR '':'') h in
     name \<noteq> [] \<and> list_all host_char name \<and> (rest = [] \<or> tl rest \<noteq> [] \<and> list_all is_digit (tl rest)))"

definition url_law :: "golib \<Rightarrow> bool" where
  "url_law lib \<longleftrightarrow>
     (\<forall>h. plain_host h \<longrightarrow> lib_Parse lib (''https://'' @ h) = Some \<lparr>Scheme = ''https'', Host = h\<rparr> \<and>
        lib_Parse lib (''http://'' @ h) = Some \<lparr>Scheme = ''http'', Host = h\<rparr>) \<and>
     (\<forall>s u. lib_Parse lib s = Some u \<and> Host u \<noteq> [] \<and> Scheme u \<in> {''http'', ''https''} \<longrightarrow>
        lib_Parse lib (lib_String lib u) = Some u \<and> lib_String lib u \<noteq> [] \<and> list_all graphic (lib_String lib u))"

lemma plain_host_graphic:
  assumes "plain_host h"
  shows "h \<noteq> []" and "list_all graphic h"
proof -
  have hc: "host_char c \<Longrightarrow> graphic c" for c by (auto simp: host_char_def alphabet_defs graphic_def)
  have dg: "is_digit c \<Longrightarrow> graphic c" for c by (auto simp: is_digit_def graphic_def)
  let ?n = "takeWhile (\<lambda>c. c \<noteq> CHR '':'') h" and ?r = "dropWhile (\<lambda>c. c \<noteq> CHR '':'') h"
  have h: "?n @ ?r = h" by (rule takeWhile_dropWhile_id)
  have n: "?n \<noteq> []" "list_all graphic ?n" using assms hc by (auto simp: plain_host_def Let_def list_all_iff)
  have "list_all graphic ?r"
  proof (cases "?r = []")
    case True
    show ?thesis unfolding True by simp
  next
    case False
    then obtain x xs where r: "?r = x # xs" by (cases ?r) auto
    then have "x = CHR '':''" by (simp add: dropWhile_eq_Cons_conv)
    moreover have "list_all graphic xs" using assms r dg by (auto simp: plain_host_def Let_def list_all_iff)
    ultimately show ?thesis unfolding r by (simp add: graphic_def)
  qed
  then have "list_all graphic (?n @ ?r)" using n(2) by (simp only: list_all_append)
  then show "list_all graphic h" by (simp only: h)
  show "h \<noteq> []" using n(1) by auto
qed

lemma localhost_plain:
  assumes "0 \<le> port"
  shows "plain_host (''localhost:'' @ Itoa port)"
proof -
  have "''localhost:'' @ Itoa port = ''localhost'' @ CHR '':'' # Itoa port" by simp
  moreover have "list_all is_digit (Itoa port)" "Itoa port \<noteq> []"
    using assms show_nat_digits by (auto simp: Itoa_def list_all_iff)
  ultimately show ?thesis
    by (simp only: plain_host_def takeWhile_upto dropWhile_upto Let_def) (simp add: host_char_def alphabet_defs)
qed

text \<open>What the launcher knows of an origin it resolved, and how it couples the environment to the scheme.\<close>

lemma resolveOrigin_ok:
  assumes "resolveOrigin lib opts detect = Inr res" and "url_law lib" and "0 \<le> Port opts"
    and "\<And>fr. detect = Some fr \<Longrightarrow> \<exists>h. plain_host h \<and> fr_Origin fr = ''https://'' @ h"
  shows "\<exists>u. lib_Parse lib (res_Origin res) = Some u \<and> Host u \<noteq> [] \<and> Scheme u \<noteq> [] \<and>
    res_Origin res \<noteq> [] \<and> TrimSpace (res_Origin res) = res_Origin res \<and>
    (res_Env res, res_SecureCookies res) = classifyOrigin (Scheme u)"
proof (cases "Opt_Origin opts = []")
  case False
  then obtain u where u: "lib_Parse lib (Opt_Origin opts) = Some u" "Host u \<noteq> []" "Scheme u \<in> {''http'', ''https''}"
    "res_Origin res = lib_String lib u" "(res_Env res, res_SecureCookies res) = classifyOrigin (Scheme u)"
    using assms(1) by (auto simp: resolveOrigin_def originString_def split: option.splits if_splits prod.splits)
  have "lib_Parse lib (lib_String lib u) = Some u \<and> lib_String lib u \<noteq> [] \<and> list_all graphic (lib_String lib u)"
    using assms(2) u(1-3) unfolding url_law_def by blast
  then show ?thesis using u by (auto simp: list_all_graphic_TrimSpace)
next
  case True
  have plain: "\<exists>u. lib_Parse lib (sch @ ''://'' @ h) = Some u \<and> Host u \<noteq> [] \<and> Scheme u = sch \<and>
      TrimSpace (sch @ ''://'' @ h) = sch @ ''://'' @ h" if "plain_host h" "sch = ''https'' \<or> sch = ''http''" for sch h
  proof -
    have "TrimSpace (sch @ ''://'' @ h) = sch @ ''://'' @ h"
      using plain_host_graphic [OF that(1)] that(2) by (intro list_all_graphic_TrimSpace) (auto simp: graphic_def)
    then show ?thesis using assms(2) that plain_host_graphic(1) [OF that(1)] unfolding url_law_def by auto
  qed
  show ?thesis
  proof (cases detect)
    case None
    then show ?thesis using True assms(1) plain [OF localhost_plain [OF assms(3)], of "''http''"]
      by (auto simp: resolveOrigin_def split: prod.splits)
  next
    case (Some fr)
    then obtain h where "plain_host h" "fr_Origin fr = ''https://'' @ h" using assms(4) by blast
    then show ?thesis using True Some assms(1) plain [of h "''https''"]
      by (auto simp: resolveOrigin_def split: prod.splits)
  qed
qed

text \<open>The variables of the server that the launcher leaves to the operator and that can make the server refuse to start.\<close>

definition optional_vars :: "string list" where
  "optional_vars = [''AUL_DB_BACKEND'', ''IP_LOG_RETENTION_DAYS'', ''DEFAULT_RETENTION_DAYS'', ''MAX_RETENTION_DAYS'',
     ''PING_RETENTION_HOURS'', ''VAPID_PUBLIC_KEY'', ''VAPID_PRIVATE_KEY'', ''FCM_SERVICE_ACCOUNT_FILE'', ''ACCESS_TTL'',
     ''REFRESH_TTL'', ''REQUEST_TIMEOUT'', ''SHUTDOWN_TIMEOUT'', ''BODY_LIMIT_BYTES'', ''RATE_AUTH_PER_MIN'',
     ''RATE_INVITES_PER_HOUR'', ''RATE_PINGS_PER_MIN'']"

definition leaves_unset :: "string list \<Rightarrow> bool" where
  "leaves_unset base \<longleftrightarrow> list_all (\<lambda>k. TrimSpace (Getenv base k) = []) optional_vars"

lemma getters_unset:
  assumes "TrimSpace (g key) = []"
  shows "getInt g key def mn mx = ([], def)" and "getDuration lib g key dur = ([], dur)"
  using assms by (simp_all add: getInt_def getDuration_def)

lemma lower_ascii:
  assumes "lower_law lib" and "list_all (\<lambda>c. of_char c < (128::nat)) s"
  shows "lib_ToLower lib s = map ascii_lower s"
  using assms by (metis append_Nil2 lower_law_def)

lemma ascii_lower_slash: "ascii_lower c = CHR ''/'' \<longleftrightarrow> c = CHR ''/''"
proof (cases "(65::nat) \<le> of_char c \<and> of_char c \<le> (90::nat)")
  case True
  then have "of_char (ascii_lower c) = (of_char c + 32 :: nat)" by (simp add: ascii_lower_def)
  then have "ascii_lower c \<noteq> CHR ''/''" using True by auto
  moreover have "c \<noteq> CHR ''/''" using True by auto
  ultimately show ?thesis by simp
next
  case False
  then have "ascii_lower c = c" by (auto simp: ascii_lower_def)
  then show ?thesis by simp
qed

lemma SQLitePathOf_sqlite:
  assumes "\<not> HasPrefix p ''//''"
  shows "SQLitePathOf (''sqlite:'' @ p) = p"
proof -
  have "\<not> (2 \<le> length p \<and> map ascii_lower (take 2 p) = ''//'')"
    using assms by (auto simp: HasPrefix_def ascii_lower_slash numeral_2_eq_2)
  then show ?thesis
    by (auto simp: SQLitePathOf_def EqualFold_ascii_def ascii_lower_slash numeral_2_eq_2)
qed

lemma load_env_launched:
  assumes "lower_law lib" and "g ''AUL_ENV'' = fst (classifyOrigin sch)"
  shows "load_env lib g = ([], if sch = ''https'' then EnvProduction else EnvDevelopment)"
proof -
  have "TrimSpace ''production'' = ''production''" "TrimSpace ''development'' = ''development''"
    by (simp_all add: TrimSpace_graphic graphic_def)
  then show ?thesis using assms
    by (simp add: load_env_def classifyOrigin_def lower_ascii ascii_lower_def)
qed

lemma load_origin_launched:
  assumes "g ''PUBLIC_ORIGIN'' = org" and "org \<noteq> []" and "TrimSpace org = org" and "lib_Parse lib org = Some u"
    and "Host u \<noteq> []" and "Scheme u \<noteq> []" and "dev \<longleftrightarrow> Scheme u \<noteq> ''https''"
  shows "load_origin lib g dev = ([], Some u)"
  using assms by (simp add: load_origin_def)

lemma backend_launched:
  assumes "lower_law lib" and "TrimSpace explicit = []" and "TrimSpace (''sqlite:'' @ p) = ''sqlite:'' @ p"
  shows "detectDBBackend lib explicit (''sqlite:'' @ p) = Inr BackendSQLite"
proof -
  have "lib_ToLower lib (''sqlite:'' @ p) = ''sqlite:'' @ lib_ToLower lib p"
    using assms(1) unfolding lower_law_def
    by (elim conjE allE [of _ "''sqlite:''"] allE [of _ p]) (simp add: ascii_lower_def)
  then show ?thesis using assms lower_ascii [OF assms(1), of "[]"]
    by (simp add: detectDBBackend_def HasPrefix_def)
qed

lemma LoadFrom_launched:
  assumes law: "lower_law lib" and unset: "list_all (\<lambda>k. TrimSpace (g k) = []) optional_vars"
    and u: "g ''PUBLIC_ORIGIN'' = org" "org \<noteq> []" "TrimSpace org = org" "lib_Parse lib org = Some u" "Host u \<noteq> []" "Scheme u \<noteq> []"
    and env: "g ''AUL_ENV'' = fst (classifyOrigin (Scheme u))"
    and cookies: "g ''SECURE_COOKIES'' = FormatBool (snd (classifyOrigin (Scheme u)))"
    and db: "g ''DATABASE_URL'' = ''sqlite:'' @ p" "TrimSpace (''sqlite:'' @ p) = ''sqlite:'' @ p"
    and pepper: "16 \<le> length (g ''SESSION_HASH_PEPPER'')"
  shows "\<exists>c. LoadFrom lib g = Inr c \<and> PublicOrigin c = Some u \<and> Config_DBBackend c = BackendSQLite \<and>
    DatabaseURL c = ''sqlite:'' @ p \<and> SessionPepper c = g ''SESSION_HASH_PEPPER'' \<and> SecureCookies c = (Scheme u = ''https'')"
proof -
  have blank: "TrimSpace (g k) = []" if "k \<in> set optional_vars" for k using unset that by (simp add: list_all_iff)
  have ints: "getInt g k def mn mx = ([], def)" "getDuration lib g k dur = ([], dur)" if "k \<in> set optional_vars" for k def mn mx dur
    using blank [OF that] by (simp_all add: getters_unset)
  have bool: "getBool g ''SECURE_COOKIES'' d = (Scheme u = ''https'')" for d
    by (simp add: getBool_def cookies classifyOrigin_def FormatBool_def TrimSpace_graphic graphic_def ParseBool_def)
  have vapid: "loadVAPID lib g org' = ([], [], [], [])" "loadFCM lib g = ([], [], [], [])" for org'
    using blank by (simp_all add: loadVAPID_def loadFCM_def optional_vars_def)
  have dev: "load_env lib g = ([], if Scheme u = ''https'' then EnvProduction else EnvDevelopment)"
    using law env by (rule load_env_launched)
  have org: "load_origin lib g (Scheme u \<noteq> ''https'') = ([], Some u)" using u by (intro load_origin_launched) simp_all
  have be: "detectDBBackend lib (g ''AUL_DB_BACKEND'') (''sqlite:'' @ p) = Inr BackendSQLite"
    using law blank db(2) by (intro backend_launched) (simp_all add: optional_vars_def)
  have pep: "load_pepper g dv = ([], g ''SESSION_HASH_PEPPER'')" for dv
    using pepper by (auto simp: load_pepper_def Let_def)
  have isdev: "((if Scheme u = ''https'' then EnvProduction else EnvDevelopment) = EnvDevelopment) = (Scheme u \<noteq> ''https'')"
    by simp
  show ?thesis
    unfolding LoadFrom_def Let_def db dev snd_conv fst_conv isdev org be pep bool vapid
    by (simp add: ints optional_vars_def cookieSecureButInsecureOrigin_def db(2))
qed

lemma launcher_boots:
  assumes res: "resolveOrigin lib opts detect = Inr res" and laws: "url_law lib" "lower_law lib"
    and port: "0 \<le> Port opts"
    and funnel: "\<And>fr. detect = Some fr \<Longrightarrow> \<exists>h. plain_host h \<and> fr_Origin fr = ''https://'' @ h"
    and pepper: "minPepperBytes \<le> length pepper" and db: "dbPath = dataDir @ ''/aul.db''" "\<not> HasPrefix dbPath ''//''"
    and base: "leaves_unset base"
  shows "\<exists>c. LoadFrom lib (Getenv (composeEnv base res pepper dbPath)) = Inr c \<and> config_ok c \<and>
    Config_DBBackend c = BackendSQLite \<and> SQLitePath c = dbPath \<and> SessionPepper c = pepper \<and>
    (case PublicOrigin c of None \<Rightarrow> False | Some u \<Rightarrow> lib_Parse lib (res_Origin res) = Some u)"
proof -
  obtain u where u: "lib_Parse lib (res_Origin res) = Some u" "Host u \<noteq> []" "Scheme u \<noteq> []" "res_Origin res \<noteq> []"
    "TrimSpace (res_Origin res) = res_Origin res" "(res_Env res, res_SecureCookies res) = classifyOrigin (Scheme u)"
    using resolveOrigin_ok [OF res laws(1) port funnel] by blast
  let ?g = "Getenv (composeEnv base res pepper dbPath)"
  have trim: "TrimSpace (''sqlite:'' @ dbPath) = ''sqlite:'' @ dbPath"
    unfolding db(1) by (rule TrimSpace_graphic) (simp add: graphic_def)
  have unset: "list_all (\<lambda>k. TrimSpace (?g k) = []) optional_vars"
    using base by (simp add: leaves_unset_def optional_vars_def Getenv_composeEnv)
  have "\<exists>c. LoadFrom lib ?g = Inr c \<and> PublicOrigin c = Some u \<and> Config_DBBackend c = BackendSQLite \<and>
      DatabaseURL c = ''sqlite:'' @ dbPath \<and> SessionPepper c = ?g ''SESSION_HASH_PEPPER'' \<and> SecureCookies c = (Scheme u = ''https'')"
    using u pepper trim
    by (intro LoadFrom_launched [OF laws(2) unset, where org = "res_Origin res"])
      (simp_all add: Getenv_composeEnv minPepperBytes_def flip: u(6))
  then obtain c where c: "LoadFrom lib ?g = Inr c" "PublicOrigin c = Some u" "Config_DBBackend c = BackendSQLite"
    "DatabaseURL c = ''sqlite:'' @ dbPath" "SessionPepper c = pepper"
    by (auto simp: Getenv_composeEnv)
  moreover have "SQLitePath c = dbPath" unfolding SQLitePath_def c(4) using SQLitePathOf_sqlite [OF db(2)] .
  ultimately show ?thesis using LoadFrom_ok [OF c(1)] u(1) by auto
qed

text \<open>
  An \<^verbatim>\<open>AUL_DB_BACKEND\<close> the operator has exported survives: the launcher leaves that variable alone, so the
  server then opens the SQLite URL with the Postgres backend.
\<close>

lemma inherited_backend_survives:
  assumes "Getenv base ''AUL_DB_BACKEND'' = ''postgres''" and "lower_law lib"
  shows "detectDBBackend lib (Getenv (composeEnv base res pepper dbPath) ''AUL_DB_BACKEND'')
    (Getenv (composeEnv base res pepper dbPath) ''DATABASE_URL'') = Inr BackendPostgres"
  using assms by (simp add: Getenv_composeEnv detectDBBackend_def lower_ascii TrimSpace_graphic graphic_def ascii_lower_def)

section \<open>Doctor\<close>

text \<open>The report is ready exactly when every check passed; otherwise its last check, and only that one, failed, and says what to do.\<close>

lemma FunnelOrigin_ne: "FunnelOrigin EqualFold proxyPort ts = Some fr \<Longrightarrow> fr_Origin fr \<noteq> []"
  by (auto simp: FunnelOrigin_def funnelOrigin_def Let_def split: if_splits option.splits prod.splits)

lemma Diagnose_verdict:
  "let r = Diagnose EqualFold proxyPort ts in
    Checks r \<noteq> [] \<and> list_all OK (butlast (Checks r)) \<and> OK (last (Checks r)) = Ready r \<and>
    (Ready r \<or> Fix (last (Checks r)) \<noteq> NoFix) \<and>
    (Ready r = (FunnelOrigin EqualFold proxyPort ts \<noteq> None))"
  using FunnelOrigin_ne [of EqualFold proxyPort ts]
  by (auto simp: Diagnose_def Ready_def Let_def FunnelOrigin_def split: option.splits)

text \<open>The pinned origin: once recorded, the same origin is not reported again.\<close>

lemma warn_again:
  assumes "TrimSpace (res_Origin res @ [CHR 0x0A]) = res_Origin res"
  shows "fst (warnIfOriginChanged w res (snd (warnIfOriginChanged True res pinned))) = False"
  using assms by (auto simp: warnIfOriginChanged_def Let_def split: option.splits)

end
