(* ===== verification/Aul_Launcher_Run.thy ===== *)
theory Aul_Launcher_Run
  imports Aul_Strings
begin

text \<open>
  The running launcher: \<^verbatim>\<open>supervise.go\<close> (restarting the server with a back-off, stopping it on
  cancellation), \<^verbatim>\<open>readyz.go\<close> (waiting until it answers) and \<^verbatim>\<open>lock.go\<close> (one launcher per data directory).
  What the operating system does is the input: an \<open>attempt\<close> of the supervisor is what happened to
  one child process; a schedule of the lock is the list of which launcher process executes its next
  system call and whether that call fails. The lock file is modelled with inodes, because a process writes to and removes by
  name files that another process may have replaced.
\<close>

section \<open>Supervisor\<close>

record supervisor =
  minBackoff :: duration
  maxBackoff :: duration
  stableRun :: duration
  stopGrace :: duration

definition nextBackoff :: "duration \<Rightarrow> duration \<Rightarrow> duration" where
  "nextBackoff cur ceil = (let next = i64 (cur * 2) in if next > ceil then ceil else next)"

text \<open>
  \<^item> \<open>NoStart slept\<close>: the child could not be started; \<open>slept\<close> is the result of \<^verbatim>\<open>sleepCtx\<close>.
  \<^item> \<open>Cancelled\<close>: the context was cancelled while the child was running.
  \<^item> \<open>Exited clean cancelled lasted slept\<close>: the child exited after \<open>lasted\<close>, with or without an error,
    the context being cancelled already or not.
\<close>

datatype attempt = NoStart bool | Cancelled | Exited bool bool duration bool

datatype sup_result = CtxErr | CleanExit

text \<open>The result (\<open>None\<close>: still supervising after these attempts) and the delays slept or begun.\<close>

fun sup_loop :: "supervisor \<Rightarrow> duration \<Rightarrow> attempt list \<Rightarrow> sup_result option \<times> duration list" where
  "sup_loop s backoff [] = (None, [])"
| "sup_loop s backoff (NoStart slept # as) =
     (if \<not> slept then (Some CtxErr, [backoff])
      else let (r, ds) = sup_loop s (nextBackoff backoff (maxBackoff s)) as in (r, backoff # ds))"
| "sup_loop s backoff (Cancelled # as) = (Some CtxErr, [])"
| "sup_loop s backoff (Exited clean cancelled lasted slept # as) =
     (if cancelled then (Some CtxErr, [])
      else if clean then (Some CleanExit, [])
      else let b = (if lasted \<ge> stableRun s then minBackoff s else backoff) in
        if \<not> slept then (Some CtxErr, [b])
        else let (r, ds) = sup_loop s (nextBackoff b (maxBackoff s)) as in (r, b # ds))"

definition sup_run :: "supervisor \<Rightarrow> attempt list \<Rightarrow> sup_result option \<times> duration list" where
  "sup_run s as = sup_loop s (minBackoff s) as"

text \<open>The supervisor as \<^verbatim>\<open>Run\<close> configures it.\<close>

definition default_supervisor :: supervisor where
  "default_supervisor = \<lparr>minBackoff = 500 * Millisecond, maxBackoff = 30 * Second,
     stableRun = 60 * Second, stopGrace = 5 * Second\<rparr>"

datatype signal = Interrupt | Kill

text \<open>
  \<^verbatim>\<open>stop\<close>: the signals sent and how long the child was left to end by itself; \<open>exits\<close> is the
  time the child takes to end after the interrupt (\<open>None\<close>: it ignores it).
\<close>

definition stop :: "supervisor \<Rightarrow> bool \<Rightarrow> duration option \<Rightarrow> signal list \<times> duration" where
  "stop s windows exits =
     (if windows then ([Kill], 0)
      else case exits of
          Some d \<Rightarrow> if d \<le> stopGrace s then ([Interrupt], d) else ([Interrupt, Kill], stopGrace s)
        | None \<Rightarrow> ([Interrupt, Kill], stopGrace s))"

text \<open>\<^verbatim>\<open>waitReady\<close>: each poll is whether the server answered 200 and whether the deadline won the select after it.\<close>

fun waitReady :: "(bool \<times> bool) list \<Rightarrow> bool option" where
  "waitReady [] = None"
| "waitReady ((ok, expired) # ps) = (if ok then Some True else if expired then Some False else waitReady ps)"

definition cap_ok :: "supervisor \<Rightarrow> bool" where
  "cap_ok s \<longleftrightarrow> 0 < minBackoff s \<and> minBackoff s \<le> maxBackoff s \<and> maxBackoff s < 2 ^ 62"

lemma nextBackoff_bounds:
  assumes "cap_ok s" and "minBackoff s \<le> b" and "b \<le> maxBackoff s"
  shows "nextBackoff b (maxBackoff s) = min (maxBackoff s) (2 * b)"
    and "minBackoff s \<le> nextBackoff b (maxBackoff s)" and "nextBackoff b (maxBackoff s) \<le> maxBackoff s"
proof -
  have "in_i64 (b * 2)" using assms by (simp add: cap_ok_def in_i64_def)
  then show "nextBackoff b (maxBackoff s) = min (maxBackoff s) (2 * b)" by (simp add: nextBackoff_def Let_def min_def)
  then show "minBackoff s \<le> nextBackoff b (maxBackoff s)" and "nextBackoff b (maxBackoff s) \<le> maxBackoff s"
    using assms by (simp_all add: cap_ok_def)
qed

lemma sup_loop_delays:
  assumes "cap_ok s" and "minBackoff s \<le> b" and "b \<le> maxBackoff s"
  shows "list_all (\<lambda>d. minBackoff s \<le> d \<and> d \<le> maxBackoff s) (snd (sup_loop s b as))"
  using assms(2,3)
proof (induction "as" arbitrary: b)
  case (Cons a "as")
  have min: "minBackoff s \<le> maxBackoff s" using assms(1) by (simp add: cap_ok_def)
  have IH: "list_all (\<lambda>d. minBackoff s \<le> d \<and> d \<le> maxBackoff s) (snd (sup_loop s (nextBackoff x (maxBackoff s)) as))"
    if "minBackoff s \<le> x" "x \<le> maxBackoff s" for x
    using Cons.IH nextBackoff_bounds(2,3) [OF assms(1) that] by blast
  show ?case using Cons.prems min IH by (cases a) (simp_all add: Let_def case_prod_beta)
qed simp

text \<open>Crash after crash without a stable run, the delay doubles up to the cap.\<close>

definition crash :: "supervisor \<Rightarrow> attempt \<Rightarrow> bool" where
  "crash s a = (case a of NoStart slept \<Rightarrow> slept
     | Exited clean cancelled lasted slept \<Rightarrow> \<not> clean \<and> \<not> cancelled \<and> lasted < stableRun s \<and> slept | Cancelled \<Rightarrow> False)"

lemma sup_loop_crashes:
  assumes "cap_ok s" and "minBackoff s \<le> b" and "b \<le> maxBackoff s" and "list_all (crash s) as"
  shows "sup_loop s b as = (None, map (\<lambda>k. min (maxBackoff s) (b * 2 ^ k)) [0..<length as])"
  using assms(2-)
proof (induction "as" arbitrary: b)
  case (Cons a "as")
  let ?m = "maxBackoff s"
  note n = nextBackoff_bounds [OF assms(1) Cons.prems(1,2)]
  have IH: "sup_loop s (nextBackoff b ?m) as = (None, map (\<lambda>k. min ?m (min ?m (2 * b) * 2 ^ k)) [0..<length as])"
    using Cons.IH [OF n(2,3)] Cons.prems(3) n(1) by simp
  have step: "min ?m (min ?m (2 * b) * 2 ^ k) = min ?m (b * 2 ^ Suc k)" for k
  proof -
    have "?m \<le> ?m * 2 ^ k" using assms(1) by (simp add: cap_ok_def)
    then have "min ?m (min ?m (2 * b) * 2 ^ k) = min ?m (min (?m * 2 ^ k) (2 * b * 2 ^ k))"
      by (simp add: min_mult_distrib_right)
    also have "\<dots> = min ?m (2 * b * 2 ^ k)" using \<open>?m \<le> ?m * 2 ^ k\<close> by linarith
    finally show ?thesis by (simp add: mult_ac)
  qed
  have "[0..<length (a # as)] = 0 # map Suc [0..<length as]" by (simp add: upt_conv_Cons map_Suc_upt del: upt_Suc)
  then have tl: "map (\<lambda>k. min ?m (b * 2 ^ k)) [0..<length (a # as)] =
      min ?m b # map (\<lambda>k. min ?m (b * 2 ^ Suc k)) [0..<length as]" by (simp only: list.map map_map comp_def) simp
  have "sup_loop s b (a # as) = (let (r, ds) = sup_loop s (nextBackoff b ?m) as in (r, b # ds))"
    using Cons.prems(3) by (cases a) (auto simp: crash_def)
  moreover have "min ?m b = b" using Cons.prems(2) by simp
  ultimately show ?case unfolding tl IH step by simp
qed simp

text \<open>
  Termination: the loop ends at the first attempt that ends it (a cancelled context or a clean
  exit), whatever would come after, and not before.
\<close>

fun ends :: "attempt \<Rightarrow> sup_result option" where
  "ends (NoStart slept) = (if slept then None else Some CtxErr)"
| "ends Cancelled = Some CtxErr"
| "ends (Exited clean cancelled lasted slept) =
     (if cancelled then Some CtxErr else if clean then Some CleanExit else if slept then None else Some CtxErr)"

lemma sup_loop_result:
  "fst (sup_loop s b as) = (case List.find (\<lambda>a. ends a \<noteq> None) as of None \<Rightarrow> None | Some a \<Rightarrow> ends a)"
proof (induction "as" arbitrary: b)
  case (Cons a "as")
  then show ?case by (cases a) (simp_all add: Let_def case_prod_beta)
qed simp

lemma stop_reaps:
  "snd (stop s windows exits) \<le> max 0 (stopGrace s) \<and>
   (Kill \<in> set (fst (stop s windows exits)) \<or> (\<exists>d. exits = Some d \<and> snd (stop s windows exits) = d))"
  by (auto simp: stop_def split: option.split)

lemma waitReady_True: "waitReady ps = Some True \<Longrightarrow> \<exists>e. (True, e) \<in> set ps"
  by (induction ps rule: waitReady.induct) (auto split: if_splits)

lemma waitReady_ends: "(\<exists>p \<in> set ps. fst p \<or> snd p) \<longleftrightarrow> waitReady ps \<noteq> None"
  by (induction ps rule: waitReady.induct) auto

section \<open>Lock file\<close>

type_synonym pid = int

datatype pc = Trying nat | Created nat | Unwritten | Exists nat | Stale nat | Held nat | Refused pid | GaveUp | Released

record lock_state =
  lk_path :: "nat option"
  lk_content :: "nat \<Rightarrow> string"
  lk_next :: nat
  lk_pc :: "pid \<Rightarrow> pc"

definition processAlive :: "(pid \<Rightarrow> bool) \<Rightarrow> pid \<Rightarrow> bool" where
  "processAlive alive p \<longleftrightarrow> p > 0 \<and> alive p"

definition readPid :: "lock_state \<Rightarrow> pid option" where
  "readPid s = (case lk_path s of None \<Rightarrow> None | Some n \<Rightarrow> Atoi (TrimSpace (lk_content s n)))"

definition goto :: "pid \<Rightarrow> pc \<Rightarrow> lock_state \<Rightarrow> lock_state" where
  "goto p c s = s\<lparr>lk_pc := (lk_pc s)(p := c)\<rparr>"

text \<open>
  One system call of \<^verbatim>\<open>acquireLock\<close> in process \<open>p\<close>; \<open>fault\<close> makes it fail with an error other than
  those the code expects. A file that cannot be read is taken for stale, whoever holds it; a write
  that fails leaves the file empty and is followed by a removal whose own error is ignored.
\<close>

definition acquire_step :: "(pid \<Rightarrow> bool) \<Rightarrow> bool \<Rightarrow> pid \<Rightarrow> lock_state \<Rightarrow> lock_state" where
  "acquire_step alive fault p s = (case lk_pc s p of
     Trying i \<Rightarrow>
       if i \<ge> 3 \<or> fault then goto p GaveUp s
       else (case lk_path s of
           None \<Rightarrow> goto p (Created (lk_next s))
             (s\<lparr>lk_path := Some (lk_next s), lk_content := (lk_content s)(lk_next s := []), lk_next := Suc (lk_next s)\<rparr>)
         | Some _ \<Rightarrow> goto p (Exists i) s)
   | Created n \<Rightarrow>
       if fault then goto p Unwritten s
       else goto p (Held n) (s\<lparr>lk_content := (lk_content s)(n := Itoa p)\<rparr>)
   | Unwritten \<Rightarrow> goto p GaveUp (if fault then s else s\<lparr>lk_path := None\<rparr>)
   | Exists i \<Rightarrow> (case if fault then None else readPid s of
         Some q \<Rightarrow> if processAlive alive q then goto p (Refused q) s else goto p (Stale i) s
       | None \<Rightarrow> goto p (Stale i) s)
   | Stale i \<Rightarrow> if fault then goto p GaveUp s else goto p (Trying (Suc i)) (s\<lparr>lk_path := None\<rparr>)
   | _ \<Rightarrow> s)"

text \<open>\<^verbatim>\<open>release\<close> ignores the error of the removal.\<close>

definition release :: "bool \<Rightarrow> pid \<Rightarrow> lock_state \<Rightarrow> lock_state" where
  "release fault p s = (case lk_pc s p of
     Held n \<Rightarrow> goto p Released (if fault then s else s\<lparr>lk_path := None\<rparr>) | _ \<Rightarrow> s)"

datatype lock_op = Go pid bool | Release pid bool

fun lock_step :: "(pid \<Rightarrow> bool) \<Rightarrow> lock_op \<Rightarrow> lock_state \<Rightarrow> lock_state" where
  "lock_step alive (Go p fault) s = acquire_step alive fault p s"
| "lock_step alive (Release p fault) s = release fault p s"

text \<open>
  The one failure the protocol cannot bear: a launcher fails to read the lock file of another.
  \<open>readable\<close> says that it does not happen on a run.
\<close>

fun read_fails :: "lock_op \<Rightarrow> lock_state \<Rightarrow> bool" where
  "read_fails (Go p fault) s \<longleftrightarrow> fault \<and> (case lk_pc s p of Exists _ \<Rightarrow> True | _ \<Rightarrow> False)"
| "read_fails (Release p fault) s \<longleftrightarrow> False"

fun readable :: "(pid \<Rightarrow> bool) \<Rightarrow> lock_op list \<Rightarrow> lock_state \<Rightarrow> bool" where
  "readable alive [] s \<longleftrightarrow> True"
| "readable alive (op # ops) s \<longleftrightarrow> \<not> read_fails op s \<and> readable alive ops (lock_step alive op s)"

definition releases :: "pid \<Rightarrow> lock_op \<Rightarrow> bool" where
  "releases h op \<longleftrightarrow> (\<exists>fault. op = Release h fault)"

definition holds :: "lock_state \<Rightarrow> pid \<Rightarrow> bool" where
  "holds s p \<longleftrightarrow> (case lk_pc s p of Held _ \<Rightarrow> True | _ \<Rightarrow> False)"

text \<open>
  A launcher holds the lock, its pid is in the file, and no other launcher is between reading the
  file and acting on what it read.
\<close>

definition settled :: "(pid \<Rightarrow> bool) \<Rightarrow> pid \<Rightarrow> lock_state \<Rightarrow> bool" where
  "settled alive h s \<longleftrightarrow> (\<exists>n. lk_pc s h = Held n \<and> lk_path s = Some n \<and> lk_content s n = Itoa h) \<and>
     processAlive alive h \<and> in_i64 h \<and>
     (\<forall>p. p \<noteq> h \<longrightarrow> (case lk_pc s p of Trying _ \<Rightarrow> True | Exists _ \<Rightarrow> True | Refused _ \<Rightarrow> True
        | GaveUp \<Rightarrow> True | Released \<Rightarrow> True | _ \<Rightarrow> False))"

lemma Itoa_graphic: "list_all graphic (Itoa n)"
  using show_nat_graphic by (auto simp: Itoa_def list_all_iff graphic_def)

lemma readPid_settled:
  assumes "settled alive h s"
  shows "readPid s = Some h"
proof -
  have "TrimSpace (Itoa h) = Itoa h" using Itoa_graphic [of h] by (intro TrimSpace_graphic) (auto simp: list_all_iff)
  then show ?thesis using assms by (auto simp: settled_def readPid_def Atoi_Itoa)
qed

lemma settled_step:
  assumes "settled alive h s" and "\<not> releases h op" and "\<not> read_fails op s"
  shows "settled alive h (lock_step alive op s)"
proof (cases op)
  case (Go p fault)
  have pid: "readPid s = Some h" "processAlive alive h" using readPid_settled [OF assms(1)] assms(1) by (simp_all add: settled_def)
  show ?thesis
  proof (cases "p = h")
    case True
    then have "acquire_step alive fault p s = s" using assms(1) by (auto simp: settled_def acquire_step_def)
    then show ?thesis using Go assms(1) by simp
  next
    case False
    then have "case lk_pc s p of Trying _ \<Rightarrow> True | Exists _ \<Rightarrow> True | Refused _ \<Rightarrow> True
        | GaveUp \<Rightarrow> True | Released \<Rightarrow> True | _ \<Rightarrow> False" using assms(1) by (simp add: settled_def)
    then show ?thesis using Go False assms(1,3) pid
      by (auto simp: settled_def acquire_step_def goto_def split: pc.splits)
  qed
next
  case (Release p fault)
  then show ?thesis using assms by (auto simp: settled_def release_def releases_def split: pc.splits)
qed

text \<open>The steps that leave the lock of \<open>h\<close> in peace.\<close>

definition lock_step_others :: "(pid \<Rightarrow> bool) \<Rightarrow> pid \<Rightarrow> lock_op \<Rightarrow> lock_state \<Rightarrow> lock_state" where
  "lock_step_others alive h op s = (if releases h op \<or> read_fails op s then s else lock_step alive op s)"

interpretation lock: stepper "settled alive h" "lock_step_others alive h" for alive h
  by unfold_locales (simp add: lock_step_others_def settled_step)

lemma settled_exclusive: "settled alive h s \<Longrightarrow> holds s p \<longleftrightarrow> p = h"
  by (auto simp: settled_def holds_def split: pc.splits)

lemma readable_run:
  "readable alive ops s \<Longrightarrow> \<forall>op\<in>set ops. \<not> releases h op \<Longrightarrow>
   fold (lock_step_others alive h) ops s = fold (lock_step alive) ops s"
  by (induction alive ops s rule: readable.induct) (simp_all add: lock_step_others_def)

lemma settled_run:
  assumes "settled alive h s" and "\<forall>op\<in>set ops. \<not> releases h op" and "readable alive ops s"
  shows "settled alive h (fold (lock_step alive) ops s)"
  using lock.run_inv [OF assms(1), of ops] readable_run [OF assms(3,2)] by simp

text \<open>
  The race the comment in \<^verbatim>\<open>lock.go\<close> rules out: the second launcher reads the file between its
  creation and the writing of the pid, takes it for stale, removes it and creates its own.
\<close>

definition race_start :: lock_state where
  "race_start = \<lparr>lk_path = None, lk_content = (\<lambda>_. []), lk_next = 0, lk_pc = (\<lambda>_. Trying 0)\<rparr>"

definition race_schedule :: "lock_op list" where
  "race_schedule = [Go 1 False, Go 2 False, Go 2 False, Go 1 False, Go 2 False, Go 2 False, Go 2 False]"

lemma lock_race:
  "holds (fold (lock_step (\<lambda>_. True)) race_schedule race_start) 1 \<and>
   holds (fold (lock_step (\<lambda>_. True)) race_schedule race_start) 2"
  by (simp add: race_schedule_def race_start_def acquire_step_def goto_def readPid_def holds_def Atoi_def)

text \<open>
  The failure \<open>readable\<close> excludes: a launcher holds the settled lock, a second one cannot read the file, removes
  it and creates its own.
\<close>

definition held_start :: lock_state where
  "held_start = race_start\<lparr>lk_path := Some 0, lk_content := (\<lambda>_. []) (0 := Itoa 1), lk_next := 1,
     lk_pc := (\<lambda>_. Trying 0) (1 := Held 0)\<rparr>"

lemma unreadable_lock_stolen:
  "settled (\<lambda>_. True) 1 held_start \<and>
   (\<forall>p\<in>{1, 2}. holds (fold (lock_step (\<lambda>_. True)) [Go 2 False, Go 2 True, Go 2 False, Go 2 False, Go 2 False] held_start) p)"
  by (simp add: held_start_def race_start_def settled_def processAlive_def in_i64_def acquire_step_def goto_def holds_def)

end
