(* ===== verification/Aul_Worker.thy ===== *)
theory Aul_Worker
  imports Aul_Retention
begin

text \<open>
  The life of the maintenance worker: \<^verbatim>\<open>Worker.Run\<close> of \<^verbatim>\<open>server/internal/retention/retention.go\<close>. A
  pass runs at once and at every tick until the context ends. The outcomes of the \<^verbatim>\<open>select\<close> are a
  list; an empty list is a worker that still waits. The pass is an argument, so the loop is the same for
  both backends. What the rest of the server does between two passes is in \<open>Aul_Server\<close>.
\<close>

datatype wakeup = CtxDone | Tick gotime

fun Run_loop :: "(gotime \<Rightarrow> 's \<Rightarrow> 'x \<times> 's) \<Rightarrow> wakeup list \<Rightarrow> 's \<Rightarrow> bool \<times> 's" where
  "Run_loop pass [] s = (False, s)"
| "Run_loop pass (CtxDone # ws) s = (True, s)"
| "Run_loop pass (Tick now # ws) s = Run_loop pass ws (snd (pass now s))"

definition Run_worker :: "(gotime \<Rightarrow> 's \<Rightarrow> 'x \<times> 's) \<Rightarrow> gotime \<Rightarrow> wakeup list \<Rightarrow> 's \<Rightarrow> bool \<times> 's" where
  "Run_worker pass now ws s = Run_loop pass ws (snd (pass now s))"

section \<open>Lemmas\<close>

text \<open>The instants at which a pass runs: the start and the ticks before the context ends.\<close>

fun ticks :: "wakeup list \<Rightarrow> gotime list" where
  "ticks (Tick now # ws) = now # ticks ws"
| "ticks ws = []"

lemma Run_loop_passes: "Run_loop pass ws s = (CtxDone \<in> set ws, fold (\<lambda>t s. snd (pass t s)) (ticks ws) s)"
  by (induction pass ws s rule: Run_loop.induct) simp_all

lemma Run_worker_passes:
  "Run_worker pass now ws s = (CtxDone \<in> set ws, fold (\<lambda>t s. snd (pass t s)) (now # ticks ws) s)"
  by (simp add: Run_worker_def Run_loop_passes)

definition unfailing :: "db \<Rightarrow> bool" where
  "unfailing d \<longleftrightarrow> faults d = []"

lemma unfailing_exec_rows:
  "(\<And>d. faults (f d) = faults d) \<Longrightarrow> pres unfailing (exec_rows n f)"
  by (simp add: pres_def unfailing_def exec_rows_def)

lemma unfailing_delete_expired_for: "pres unfailing (delete_expired_for now cs)"
proof (induction cs)
  case (Cons c cs)
  obtain i n where c: "c = (i, n)" by (cases c)
  have "pres unfailing (DeleteExpiredPingsForCircle now i n)"
    by (simp add: pres_def unfailing_def DeleteExpiredPingsForCircle_def delete_pings_def)
  then show ?case unfolding c by (simp add: pres_rules Cons.IH)
qed (simp add: pres_rules)

lemma unfailing_RunOnce: "pres unfailing (RunOnce w now)"
proof -
  have "pres unfailing (PruneAllPingsBefore t)" "pres unfailing (PruneStalePings now h)" for t h
    by (simp_all add: pres_def unfailing_def PruneAllPingsBefore_def PruneStalePings_def delete_pings_def)
  moreover have "pres unfailing (deleteExpiredPings now)"
    unfolding deleteExpiredPings_def
    by (intro pres_bindm unfailing_delete_expired_for) (simp add: pres_def unfailing_def AllCircleRetention_def)
  moreover have "pres unfailing (PruneLoginAttempts now n)" "pres unfailing (PruneAuditIPs now n)"
    "pres unfailing (DeleteExpiredSessions now)" "pres unfailing (PruneKeyEnvelopes now)"
    "pres unfailing (PruneResolvedSOS t)" "pres unfailing (PrunePlaceTombstones t)"
    "pres unfailing (PruneShareSessions now n)" for n t
    unfolding PruneLoginAttempts_def PruneAuditIPs_def DeleteExpiredSessions_def PruneKeyEnvelopes_def
      PruneResolvedSOS_def PrunePlaceTombstones_def PruneShareSessions_def Let_def
    by (rule unfailing_exec_rows; simp)+
  ultimately show ?thesis unfolding RunOnce_def by (intro pres_run pres_ret)
qed

lemma RunOnce_latest:
  assumes "faults d = []"
  shows "latest_rows (snd (RunOnce w now d)) c =
    filter (\<lambda>p. Ping_CapturedAt p \<ge> tv (now - wk_maxRetentionDays w * Day)) (latest_rows d c)"
  using ping_steps_latest [OF assms] by (simp add: latest_rows_def RunOnce_pings)

text \<open>However often it runs, the worker takes a latest fix only past the horizon of one of its passes.\<close>

lemma passes_latest:
  assumes "faults d = []"
  shows "latest_rows (fold (\<lambda>t s. snd (RunOnce w t s)) ts d) c =
    filter (\<lambda>p. \<forall>t\<in>set ts. Ping_CapturedAt p \<ge> tv (t - wk_maxRetentionDays w * Day)) (latest_rows d c)"
  using assms
proof (induction ts arbitrary: d)
  case (Cons t ts)
  have "faults (snd (RunOnce w t d)) = []"
    using presD [OF unfailing_RunOnce, of d w t] Cons.prems by (simp add: unfailing_def)
  from Cons.IH [OF this] show ?case by (simp add: RunOnce_latest [OF Cons.prems] conj_commute)
qed simp

end
