(* ===== verification/Aul_Pg.thy ===== *)
theory Aul_Pg
  imports Aul_Auth Aul_Store_Circles Aul_Store_Feeds
begin

text \<open>
  The ground of the Postgres backend (\<^verbatim>\<open>server/internal/store/*.sql.go\<close> and the schema of
  \<^verbatim>\<open>server/db/migrations\<close>): how its statements differ from those of SQLite, and what it means that a
  Postgres statement agrees with the SQLite one.
  \<^item> The tables are those of the record \<open>db\<close>; a \<^verbatim>\<open>timestamptz\<close> is an \<open>int\<close> of microseconds, \<open>pv\<close> is
    the truncation of the driver. \<^verbatim>\<open>now()\<close> is the clock \<open>now\<close> of the transaction, an interval of
    \<open>n\<close> days is \<open>n\<close> times 24 hours (the session runs in UTC, the default of the deployed image).
  \<^item> A text argument that is no UTF-8 or contains a zero byte is refused, whatever the statement:
    \<open>pg_stmt\<close> and the shapes built on it take the text arguments. \<open>ScanErr\<close> stands for this and for
    the other data exceptions (an \<^verbatim>\<open>int4\<close> out of range).
  \<^item> Rows that a statement does not order come in insertion order, as in the SQLite model; no
    caller depends on it.
  \<^item> \<open>sc_db\<close> is the database in which every instant is written in microseconds instead of
    milliseconds. \<open>agrees I f pg sq\<close> says: on every database that satisfies \<open>I\<close>, the Postgres
    statement on the scaled database returns what the SQLite statement returns, rows scaled by
    \<open>f\<close>, and leaves the scaled database behind.
\<close>

section \<open>Statements\<close>

definition Microsecond :: duration where "Microsecond = 1000"

definition pv :: "gotime \<Rightarrow> sqltime" where
  "pv t = t div Microsecond"

text \<open>\<^verbatim>\<open>now() - interval\<close>, the interval given in nanoseconds.\<close>

definition pg_ago :: "gotime \<Rightarrow> duration \<Rightarrow> sqltime" where
  "pg_ago now k = pv now - k div Microsecond"

definition pg_text :: "string \<Rightarrow> bool" where
  "pg_text s \<longleftrightarrow> (0::nat) \<notin> set (map of_char s) \<and> valid_utf8 (map of_char s)"

definition opt_text :: "string option \<Rightarrow> string list" where
  "opt_text x = (case x of None \<Rightarrow> [] | Some s \<Rightarrow> [s])"

definition pg_stmt :: "string list \<Rightarrow> 'a q \<Rightarrow> 'a q" where
  "pg_stmt args f = stmt (\<lambda>d. if \<forall>s\<in>set args. pg_text s then f d else (Inl ScanErr, d))"

definition pg_query_row :: "string list \<Rightarrow> (db \<Rightarrow> 'r option) \<Rightarrow> 'r q" where
  "pg_query_row args f = pg_stmt args (\<lambda>d. (case f d of None \<Rightarrow> Inl NoRows | Some r \<Rightarrow> Inr r, d))"

definition pg_query :: "string list \<Rightarrow> (db \<Rightarrow> 'a) \<Rightarrow> 'a q" where
  "pg_query args f = pg_stmt args (\<lambda>d. (Inr (f d), d))"

definition pg_exec :: "string list \<Rightarrow> (db \<Rightarrow> db) \<Rightarrow> unit q" where
  "pg_exec args f = pg_stmt args (\<lambda>d. (Inr (), f d))"

definition pg_exec_rows :: "string list \<Rightarrow> (db \<Rightarrow> nat) \<Rightarrow> (db \<Rightarrow> db) \<Rightarrow> nat q" where
  "pg_exec_rows args n f = pg_stmt args (\<lambda>d. (Inr (n d), f d))"

lemmas pg_shape_defs = pg_query_row_def pg_query_def pg_exec_def pg_exec_rows_def

text \<open>
  The Postgres arm of \<^verbatim>\<open>Store.WithTx\<close>. The state of the transaction is the tables and whether it
  is aborted: a statement the server refuses aborts it, and an aborted transaction refuses every
  further statement; committing it is an error. Finding no row aborts nothing (the driver reports
  it). \<open>in_tx\<close> is a statement inside a transaction.
\<close>

definition in_tx :: "'a q \<Rightarrow> db \<times> bool \<Rightarrow> (dberr + 'a) \<times> (db \<times> bool)" where
  "in_tx m = (\<lambda>(d, aborted). if aborted then (Inl IOErr, (d, True))
     else case m d of (Inl e, d') \<Rightarrow> (Inl e, (d', e \<noteq> NoRows)) | (Inr x, d') \<Rightarrow> (Inr x, (d', False)))"

definition withPgTx :: "(dberr \<Rightarrow> 'e) \<Rightarrow> (db \<times> bool \<Rightarrow> ('e + 'a) \<times> (db \<times> bool)) \<Rightarrow> db \<Rightarrow> ('e + 'a) \<times> db" where
  "withPgTx wrap fn d = (case stmt (ret ()) d of
      (Inl e, d1) \<Rightarrow> (Inl (wrap e), d1)
    | (Inr _, d1) \<Rightarrow> (case fn (d1, False) of
        (Inl e, (d2, _)) \<Rightarrow> (Inl e, d1\<lparr>faults := faults d2\<rparr>)
      | (Inr x, (d2, aborted)) \<Rightarrow> (case stmt (ret ()) d2 of
          (Inl e, d3) \<Rightarrow> (Inl (wrap e), d1\<lparr>faults := faults d3\<rparr>)
        | (Inr _, d3) \<Rightarrow> if aborted then (Inl (wrap IOErr), d1\<lparr>faults := faults d3\<rparr>) else (Inr x, d3))))"

section \<open>The database in microseconds\<close>

definition sc :: "sqltime \<Rightarrow> sqltime" where
  "sc t = 1000 * t"

definition sc_User :: "User \<Rightarrow> User" where
  "sc_User u = u\<lparr>User_CreatedAt := sc (User_CreatedAt u), User_UpdatedAt := sc (User_UpdatedAt u)\<rparr>"

definition sc_Device :: "Device \<Rightarrow> Device" where
  "sc_Device v = v\<lparr>Device_CreatedAt := sc (Device_CreatedAt v),
     Device_LastSeen := map_option sc (Device_LastSeen v)\<rparr>"

definition sc_Session :: "Session \<Rightarrow> Session" where
  "sc_Session s = s\<lparr>Session_AccessExpiresAt := sc (Session_AccessExpiresAt s),
     Session_RefreshExpiresAt := sc (Session_RefreshExpiresAt s),
     Session_RevokedAt := map_option sc (Session_RevokedAt s),
     Session_CreatedAt := sc (Session_CreatedAt s), Session_RotatedAt := sc (Session_RotatedAt s)\<rparr>"

definition sc_Circle :: "Circle \<Rightarrow> Circle" where
  "sc_Circle c = c\<lparr>Circle_CreatedAt := sc (Circle_CreatedAt c)\<rparr>"

definition sc_Member :: "CircleMember \<Rightarrow> CircleMember" where
  "sc_Member m = m\<lparr>Member_JoinedAt := sc (Member_JoinedAt m)\<rparr>"

definition sc_Invite :: "Invite \<Rightarrow> Invite" where
  "sc_Invite v = v\<lparr>Invite_ExpiresAt := sc (Invite_ExpiresAt v), Invite_CreatedAt := sc (Invite_CreatedAt v)\<rparr>"

definition sc_Place :: "PlacesEnc \<Rightarrow> PlacesEnc" where
  "sc_Place p = p\<lparr>Place_UpdatedAt := sc (Place_UpdatedAt p), Place_CreatedAt := sc (Place_CreatedAt p)\<rparr>"

definition sc_Envelope :: "KeyEnvelope \<Rightarrow> KeyEnvelope" where
  "sc_Envelope e = e\<lparr>Envelope_CreatedAt := sc (Envelope_CreatedAt e),
     Envelope_ConsumedAt := map_option sc (Envelope_ConsumedAt e)\<rparr>"

definition sc_Sos :: "SosEvent \<Rightarrow> SosEvent" where
  "sc_Sos s = s\<lparr>Sos_CreatedAt := sc (Sos_CreatedAt s), Sos_ResolvedAt := map_option sc (Sos_ResolvedAt s)\<rparr>"

definition sc_Push :: "PushSubscription \<Rightarrow> PushSubscription" where
  "sc_Push p = p\<lparr>Push_CreatedAt := sc (Push_CreatedAt p)\<rparr>"

definition sc_Version :: "AppVersion \<Rightarrow> AppVersion" where
  "sc_Version v = v\<lparr>Version_CreatedAt := sc (Version_CreatedAt v)\<rparr>"

definition sc_Audit :: "AuditLog \<Rightarrow> AuditLog" where
  "sc_Audit a = a\<lparr>Audit_Ts := sc (Audit_Ts a)\<rparr>"

definition sc_Attempt :: "LoginAttempt \<Rightarrow> LoginAttempt" where
  "sc_Attempt a = a\<lparr>Attempt_CreatedAt := sc (Attempt_CreatedAt a)\<rparr>"

definition sc_Ping :: "Ping \<Rightarrow> Ping" where
  "sc_Ping p = p\<lparr>Ping_CapturedAt := sc (Ping_CapturedAt p), Ping_ReceivedAt := sc (Ping_ReceivedAt p),
     Ping_ExpiresAt := map_option sc (Ping_ExpiresAt p)\<rparr>"

definition sc_Share :: "ShareSession \<Rightarrow> ShareSession" where
  "sc_Share s = s\<lparr>Share_CreatedAt := sc (Share_CreatedAt s), Share_ExpiresAt := sc (Share_ExpiresAt s),
     Share_RevokedAt := map_option sc (Share_RevokedAt s),
     Share_ViewerBoundAt := map_option sc (Share_ViewerBoundAt s)\<rparr>"

definition sc_Position :: "SharePosition \<Rightarrow> SharePosition" where
  "sc_Position p = p\<lparr>Position_CapturedAt := sc (Position_CapturedAt p),
     Position_UpdatedAt := sc (Position_UpdatedAt p)\<rparr>"

definition sc_Mute :: "NotificationMute \<Rightarrow> NotificationMute" where
  "sc_Mute m = m\<lparr>Mute_CreatedAt := sc (Mute_CreatedAt m)\<rparr>"

definition sc_db :: "db \<Rightarrow> db" where
  "sc_db d = \<lparr>faults = faults d, users = map sc_User (users d), devices = map sc_Device (devices d),
     sessions = map sc_Session (sessions d), circles = map sc_Circle (circles d),
     circle_members = map sc_Member (circle_members d), invites = map sc_Invite (invites d),
     places_enc = map sc_Place (places_enc d), key_envelopes = map sc_Envelope (key_envelopes d),
     sos_events = map sc_Sos (sos_events d), push_subscriptions = map sc_Push (push_subscriptions d),
     app_versions = map sc_Version (app_versions d), audit_log = map sc_Audit (audit_log d),
     login_attempts = map sc_Attempt (login_attempts d), pings = map sc_Ping (pings d),
     share_sessions = map sc_Share (share_sessions d), share_positions = map sc_Position (share_positions d),
     notification_mutes = map sc_Mute (notification_mutes d),
     sequence_audit_log = sequence_audit_log d, sequence_login_attempts = sequence_login_attempts d\<rparr>"

definition agrees :: "(db \<Rightarrow> bool) \<Rightarrow> ('a \<Rightarrow> 'a) \<Rightarrow> (db \<Rightarrow> ('e + 'a) \<times> db) \<Rightarrow> (db \<Rightarrow> ('e + 'a) \<times> db) \<Rightarrow> bool" where
  "agrees I f pg sq \<longleftrightarrow> (\<forall>d. I d \<longrightarrow>
     pg (sc_db d) = (case sq d of (r, d') \<Rightarrow> (map_sum id f r, sc_db d')))"

text \<open>
  The clock readings and instants of the whole comparison are whole milliseconds: finer ones
  are kept by Postgres and cut by SQLite.
\<close>

definition whole :: "gotime \<Rightarrow> bool" where
  "whole t \<longleftrightarrow> t mod Millisecond = 0"

definition anywhere :: "db \<Rightarrow> bool" where "anywhere d = True"

definition ascii :: "string \<Rightarrow> bool" where
  "ascii s \<longleftrightarrow> (\<forall>c\<in>set s. of_char c < (128::nat))"

definition ascii_emails :: "db \<Rightarrow> bool" where
  "ascii_emails d \<longleftrightarrow> (\<forall>u\<in>set (users d). ascii (User_Email u)) \<and>
     (\<forall>a\<in>set (login_attempts d). \<forall>e\<in>set_option (Attempt_Email a). ascii e)"

text \<open>\<^verbatim>\<open>citext\<close> compares the lower-cased texts (\<open>low\<close>); on ASCII letters that is \<^verbatim>\<open>NOCASE\<close>.\<close>

definition citext_ascii :: "(string \<Rightarrow> string) \<Rightarrow> bool" where
  "citext_ascii low \<longleftrightarrow> (\<forall>e. ascii e \<longrightarrow> low e = nocase e)"

section \<open>Lemmas\<close>

named_theorems sc_simps

lemmas sc_row_defs = sc_User_def sc_Device_def sc_Session_def sc_Circle_def sc_Member_def
  sc_Invite_def sc_Place_def sc_Envelope_def sc_Sos_def sc_Push_def sc_Version_def sc_Audit_def
  sc_Attempt_def sc_Ping_def sc_Share_def sc_Position_def sc_Mute_def

lemma sc_order [sc_simps]: "sc a < sc b \<longleftrightarrow> a < b" "sc a \<le> sc b \<longleftrightarrow> a \<le> b" "sc a = sc b \<longleftrightarrow> a = b"
  "- sc a = sc (- a)" "max (sc a) (sc b) = sc (max a b)"
  by (auto simp: sc_def max_def)

lemma wholeE:
  assumes "whole t" obtains k where "t = Millisecond * k"
  using assms by (auto simp: whole_def mod_eq_0_iff_dvd elim: dvdE)

lemma pv_whole: "whole t \<Longrightarrow> pv t = sc (tv t)"
proof -
  assume "whole t"
  then obtain k where "t = Millisecond * k" by (rule wholeE)
  then show ?thesis by (simp add: pv_def tv_def sc_def Microsecond_def Millisecond_def)
qed

lemma pg_ago_whole: "whole t \<Longrightarrow> whole k \<Longrightarrow> pg_ago t k = sc (tv (t - k))"
proof -
  assume "whole t" "whole k"
  then obtain a b where "t = Millisecond * a" "k = Millisecond * b"
    by (elim wholeE)
  moreover have "Millisecond * a - Millisecond * b = Millisecond * (a - b)" by (simp add: algebra_simps)
  ultimately show ?thesis
    by (simp add: pg_ago_def pv_def tv_def sc_def Microsecond_def Millisecond_def)
qed

lemma whole_durations [simp]: "whole (n * Hour)" "whole (n * Day)" "whole Hour" "whole Day"
  by (simp_all add: whole_def duration_defs)

lemma sc_db_tables [sc_simps]:
  "faults (sc_db d) = faults d" "users (sc_db d) = map sc_User (users d)"
  "devices (sc_db d) = map sc_Device (devices d)" "sessions (sc_db d) = map sc_Session (sessions d)"
  "circles (sc_db d) = map sc_Circle (circles d)"
  "circle_members (sc_db d) = map sc_Member (circle_members d)"
  "invites (sc_db d) = map sc_Invite (invites d)" "places_enc (sc_db d) = map sc_Place (places_enc d)"
  "key_envelopes (sc_db d) = map sc_Envelope (key_envelopes d)"
  "sos_events (sc_db d) = map sc_Sos (sos_events d)"
  "push_subscriptions (sc_db d) = map sc_Push (push_subscriptions d)"
  "app_versions (sc_db d) = map sc_Version (app_versions d)"
  "audit_log (sc_db d) = map sc_Audit (audit_log d)"
  "login_attempts (sc_db d) = map sc_Attempt (login_attempts d)" "pings (sc_db d) = map sc_Ping (pings d)"
  "share_sessions (sc_db d) = map sc_Share (share_sessions d)"
  "share_positions (sc_db d) = map sc_Position (share_positions d)"
  "notification_mutes (sc_db d) = map sc_Mute (notification_mutes d)"
  "sequence_audit_log (sc_db d) = sequence_audit_log d"
  "sequence_login_attempts (sc_db d) = sequence_login_attempts d"
  by (simp_all add: sc_db_def)

lemma sc_db_put [sc_simps]:
  "sc_db (d\<lparr>faults := fs\<rparr>) = (sc_db d)\<lparr>faults := fs\<rparr>"
  "sc_db (d\<lparr>users := us\<rparr>) = (sc_db d)\<lparr>users := map sc_User us\<rparr>"
  "sc_db (d\<lparr>devices := vs\<rparr>) = (sc_db d)\<lparr>devices := map sc_Device vs\<rparr>"
  "sc_db (d\<lparr>sessions := ss\<rparr>) = (sc_db d)\<lparr>sessions := map sc_Session ss\<rparr>"
  "sc_db (d\<lparr>circles := cs\<rparr>) = (sc_db d)\<lparr>circles := map sc_Circle cs\<rparr>"
  "sc_db (d\<lparr>circle_members := ms\<rparr>) = (sc_db d)\<lparr>circle_members := map sc_Member ms\<rparr>"
  "sc_db (d\<lparr>invites := is\<rparr>) = (sc_db d)\<lparr>invites := map sc_Invite is\<rparr>"
  "sc_db (d\<lparr>places_enc := ps\<rparr>) = (sc_db d)\<lparr>places_enc := map sc_Place ps\<rparr>"
  "sc_db (d\<lparr>key_envelopes := es\<rparr>) = (sc_db d)\<lparr>key_envelopes := map sc_Envelope es\<rparr>"
  "sc_db (d\<lparr>sos_events := os\<rparr>) = (sc_db d)\<lparr>sos_events := map sc_Sos os\<rparr>"
  "sc_db (d\<lparr>push_subscriptions := qs\<rparr>) = (sc_db d)\<lparr>push_subscriptions := map sc_Push qs\<rparr>"
  "sc_db (d\<lparr>app_versions := as\<rparr>) = (sc_db d)\<lparr>app_versions := map sc_Version as\<rparr>"
  "sc_db (d\<lparr>audit_log := ls\<rparr>) = (sc_db d)\<lparr>audit_log := map sc_Audit ls\<rparr>"
  "sc_db (d\<lparr>login_attempts := las\<rparr>) = (sc_db d)\<lparr>login_attempts := map sc_Attempt las\<rparr>"
  "sc_db (d\<lparr>pings := gs\<rparr>) = (sc_db d)\<lparr>pings := map sc_Ping gs\<rparr>"
  "sc_db (d\<lparr>share_sessions := hs\<rparr>) = (sc_db d)\<lparr>share_sessions := map sc_Share hs\<rparr>"
  "sc_db (d\<lparr>share_positions := xs\<rparr>) = (sc_db d)\<lparr>share_positions := map sc_Position xs\<rparr>"
  "sc_db (d\<lparr>notification_mutes := ns'\<rparr>) = (sc_db d)\<lparr>notification_mutes := map sc_Mute ns'\<rparr>"
  "sc_db (d\<lparr>sequence_audit_log := n\<rparr>) = (sc_db d)\<lparr>sequence_audit_log := n\<rparr>"
  "sc_db (d\<lparr>sequence_login_attempts := n\<rparr>) = (sc_db d)\<lparr>sequence_login_attempts := n\<rparr>"
  by (simp_all add: sc_db_def)

lemma sc_db_ids [sc_simps]:
  "user_ids (sc_db d) = user_ids d" "device_ids (sc_db d) = device_ids d"
  "circle_ids (sc_db d) = circle_ids d" "share_ids (sc_db d) = share_ids d"
  by (simp_all add: id_set_defs sc_simps sc_row_defs image_image)

subsection \<open>Tables under a row map\<close>

lemma find_map [sc_simps]: "List.find P (map f xs) = map_option f (List.find (\<lambda>x. P (f x)) xs)"
  by (induction xs) auto

lemma filter_map_app [sc_simps]: "filter P (map f xs) = map f (filter (\<lambda>x. P (f x)) xs)"
  by (simp add: filter_map o_def)

lemma delete_where_map [sc_simps]: "delete_where P (map f xs) = map f (delete_where (\<lambda>x. P (f x)) xs)"
  by (simp add: delete_where_def sc_simps)

lemma count_where_map [sc_simps]: "count_where P (map f xs) = count_where (\<lambda>x. P (f x)) xs"
  by (simp add: count_where_def sc_simps)

lemma fresh_in_map [sc_simps]: "fresh_in key k (map f xs) = fresh_in (\<lambda>x. key (f x)) k xs"
  by (simp add: fresh_in_def o_def)

lemma fresh_in_iff: "fresh_in key k xs \<longleftrightarrow> (\<forall>x\<in>set xs. key x \<noteq> k)"
  by (auto simp: fresh_in_def)

lemma update_where_map: "update_where P g (map f xs) = map (\<lambda>x. if P (f x) then g (f x) else f x) xs"
  by (simp add: update_where_def o_def)

lemma map_update_where: "map f (update_where P g xs) = map (\<lambda>x. if P x then f (g x) else f x) xs"
  by (simp add: update_where_def o_def if_distrib)

lemma update_where_row:
  assumes "\<And>x. x \<in> set xs \<Longrightarrow> P' (f x) = P x" and "\<And>x. x \<in> set xs \<Longrightarrow> P x \<Longrightarrow> g' (f x) = f (g x)"
  shows "update_where P' g' (map f xs) = map f (update_where P g xs)"
  using assms by (simp add: update_where_map map_update_where)

lemma insort_key_map: "insort_key k (f x) (map f xs) = map f (insort_key (\<lambda>x. k (f x)) x xs)"
  by (induction xs) auto

lemma sort_key_map [sc_simps]: "sort_key k (map f xs) = map f (sort_key (\<lambda>x. k (f x)) xs)"
  by (induction xs) (simp_all add: insort_key_map)

lemma insort_key_sc: "insort_key (\<lambda>x. sc (k x)) x xs = insort_key k x xs"
  by (induction xs) (simp_all add: sc_simps)

lemma sort_key_sc [sc_simps]: "sort_key (\<lambda>x. sc (k x)) xs = sort_key k xs"
  by (induction xs) (simp_all add: insort_key_sc)

lemma sort_key_rows:
  assumes "\<And>x. k' (f x) = sc (k x)"
  shows "sort_key k' (map f xs) = map f (sort_key k xs)"
  by (simp add: sort_key_map assms sort_key_sc)

text \<open>A join of two mapped tables.\<close>

lemma join_map:
  assumes "\<And>x y. P' (f x) (g y) = P x y" and "\<And>x y. r' (f x) (g y) = h (r x y)"
  shows "[r' x y. x \<leftarrow> map f xs, y \<leftarrow> map g ys, P' x y] = map h [r x y. x \<leftarrow> xs, y \<leftarrow> ys, P x y]"
  by (simp add: map_concat o_def assms if_distrib cong: if_cong)

subsection \<open>Agreement of statements\<close>

lemma agreesI: "(\<And>d. I d \<Longrightarrow> pg (sc_db d) = (case sq d of (r, d') \<Rightarrow> (map_sum id f r, sc_db d'))) \<Longrightarrow>
   agrees I f pg sq"
  by (simp add: agrees_def)

lemma agreesD: "agrees I f pg sq \<Longrightarrow> I d \<Longrightarrow> sq d = (r, d') \<Longrightarrow> pg (sc_db d) = (map_sum id f r, sc_db d')"
  by (simp add: agrees_def)

lemma agrees_stmt:
  assumes "\<forall>s\<in>set args. pg_text s" and "tables_only I"
    and "\<And>d. I d \<Longrightarrow> g (sc_db d) = (case h d of (r, d') \<Rightarrow> (map_sum id f r, sc_db d'))"
  shows "agrees I f (pg_stmt args g) (stmt h)"
proof (rule agreesI)
  fix d assume d: "I d"
  have "g ((sc_db d)\<lparr>faults := fs\<rparr>) = (case h (d\<lparr>faults := fs\<rparr>) of (r, d') \<Rightarrow> (map_sum id f r, sc_db d'))" for fs
    using assms(3) [of "d\<lparr>faults := fs\<rparr>"] tables_onlyD [OF assms(2)] d by (simp add: sc_simps)
  then show "pg_stmt args g (sc_db d) = (case stmt h d of (r, d') \<Rightarrow> (map_sum id f r, sc_db d'))"
    using assms(1) assms(3) [OF d] by (simp add: pg_stmt_def stmt_def sc_simps split: list.split)
qed

lemma agrees_query:
  assumes "\<forall>s\<in>set args. pg_text s" and "tables_only I" and "\<And>d. I d \<Longrightarrow> g (sc_db d) = f (h d)"
  shows "agrees I f (pg_query args g) (query h)"
  unfolding pg_query_def query_def by (rule agrees_stmt) (use assms in simp_all)

lemma agrees_query_row:
  assumes "\<forall>s\<in>set args. pg_text s" and "tables_only I" and "\<And>d. I d \<Longrightarrow> g (sc_db d) = map_option f (h d)"
  shows "agrees I f (pg_query_row args g) (query_row h)"
  unfolding pg_query_row_def query_row_def
  by (rule agrees_stmt) (use assms in \<open>simp_all split: option.split\<close>)

lemma agrees_exec:
  assumes "\<forall>s\<in>set args. pg_text s" and "tables_only I" and "\<And>d. I d \<Longrightarrow> g (sc_db d) = sc_db (h d)"
  shows "agrees I id (pg_exec args g) (exec h)"
  unfolding pg_exec_def exec_def by (rule agrees_stmt) (use assms in simp_all)

lemma agrees_exec_rows:
  assumes "\<forall>s\<in>set args. pg_text s" and "tables_only I" and "\<And>d. I d \<Longrightarrow> m (sc_db d) = n d"
    and "\<And>d. I d \<Longrightarrow> g (sc_db d) = sc_db (h d)"
  shows "agrees I id (pg_exec_rows args m g) (exec_rows n h)"
  unfolding pg_exec_rows_def exec_rows_def by (rule agrees_stmt) (use assms in simp_all)

lemma anywhere_simps [simp]: "tables_only anywhere" "anywhere d"
  by (simp_all add: tables_only_def anywhere_def)

lemma tables_only_ascii_emails [simp]: "tables_only ascii_emails"
  by (simp add: tables_only_def ascii_emails_def)

lemma citext_same:
  "citext_ascii low \<Longrightarrow> ascii a \<Longrightarrow> ascii b \<Longrightarrow> low a = low b \<longleftrightarrow> nocase a = nocase b"
  by (simp add: citext_ascii_def)

text \<open>Agreement composes: a program of agreeing statements agrees.\<close>

lemma agrees_bindm:
  assumes "agrees I f m m'" and "pres I m'" and "\<And>x. agrees I g (k (f x)) (k' x)"
  shows "agrees I g (bindm m k) (bindm m' k')"
proof (rule agreesI)
  fix d assume d: "I d"
  obtain r d' where m': "m' d = (r, d')" by (cases "m' d")
  have "I d'" using presD2 [OF assms(2) m' d] .
  then show "bindm m k (sc_db d) = (case bindm m' k' d of (r, d') \<Rightarrow> (map_sum id g r, sc_db d'))"
    using agreesD [OF assms(1) d m'] assms(3) m' by (cases r) (simp_all add: bindm_def agrees_def)
qed

subsection \<open>Transactions\<close>

text \<open>
  \<open>tx_agrees I f fn fn'\<close>: from tables that satisfy \<open>I\<close>, in a transaction that is not aborted, the
  Postgres body \<open>fn\<close> does what the SQLite body \<open>fn'\<close> does, and a transaction whose body succeeds is not
  aborted.
\<close>

definition tx_agrees :: "(db \<Rightarrow> bool) \<Rightarrow> ('a \<Rightarrow> 'a) \<Rightarrow> (db \<times> bool \<Rightarrow> ('e + 'a) \<times> (db \<times> bool))
    \<Rightarrow> (db \<Rightarrow> ('e + 'a) \<times> db) \<Rightarrow> bool" where
  "tx_agrees I f fn fn' \<longleftrightarrow> (\<forall>d. I d \<longrightarrow> (case fn' d of
      (Inl e, d') \<Rightarrow> (\<exists>a. fn (sc_db d, False) = (Inl e, (sc_db d', a)))
    | (Inr x, d') \<Rightarrow> fn (sc_db d, False) = (Inr (f x), (sc_db d', False))))"

lemma tx_agreesI:
  assumes "\<And>d e d'. I d \<Longrightarrow> fn' d = (Inl e, d') \<Longrightarrow> \<exists>a. fn (sc_db d, False) = (Inl e, (sc_db d', a))"
    and "\<And>d x d'. I d \<Longrightarrow> fn' d = (Inr x, d') \<Longrightarrow> fn (sc_db d, False) = (Inr (f x), (sc_db d', False))"
  shows "tx_agrees I f fn fn'"
  using assms by (simp add: tx_agrees_def split: prod.split sum.split)

lemma tx_agreesL:
  "tx_agrees I f fn fn' \<Longrightarrow> I d \<Longrightarrow> fn' d = (Inl e, d') \<Longrightarrow> \<exists>a. fn (sc_db d, False) = (Inl e, (sc_db d', a))"
  unfolding tx_agrees_def by (drule spec [of _ d]) simp

lemma tx_agreesR:
  "tx_agrees I f fn fn' \<Longrightarrow> I d \<Longrightarrow> fn' d = (Inr x, d') \<Longrightarrow> fn (sc_db d, False) = (Inr (f x), (sc_db d', False))"
  unfolding tx_agrees_def by (drule spec [of _ d]) simp

lemma tx_agrees_stmt:
  assumes "agrees I f m m'"
  shows "tx_agrees I f (in_tx m) m'"
proof (rule tx_agreesI)
  show "\<exists>a. in_tx m (sc_db d, False) = (Inl e, (sc_db d', a))" if "I d" "m' d = (Inl e, d')" for d e d'
    using agreesD [OF assms that] by (intro exI [of _ "e \<noteq> NoRows"]) (simp add: in_tx_def)
qed (use agreesD [OF assms] in \<open>simp add: in_tx_def\<close>)

lemma tx_agrees_ret: "f x = y \<Longrightarrow> tx_agrees I f (ret y) (ret x)"
  by (rule tx_agreesI) (simp_all add: ret_def)

lemma tx_agrees_fail: "tx_agrees I f (fail e) (fail e)"
  by (rule tx_agreesI) (use exI [of Not False] in \<open>simp_all add: fail_def\<close>)

lemma tx_agrees_bindm:
  assumes "tx_agrees I f m m'" and "gives I m' J" and "\<And>x. tx_agrees (J x) g (k (f x)) (k' x)"
  shows "tx_agrees I g (bindm m k) (bindm m' k')"
proof (rule tx_agreesI)
  fix d e d' assume d: "I d" "bindm m' k' d = (Inl e, d')"
  then consider "m' d = (Inl e, d')" | x d1 where "m' d = (Inr x, d1)" "k' x d1 = (Inl e, d')"
    by (auto simp: bindm_def split: prod.splits sum.splits)
  then show "\<exists>a. bindm m k (sc_db d, False) = (Inl e, (sc_db d', a))"
  proof cases
    case 1
    then show ?thesis using tx_agreesL [OF assms(1) d(1)] by (fastforce simp: bindm_def)
  next
    case 2
    then have "J x d1" using assms(2) d(1) unfolding gives_def by blast
    then show ?thesis using tx_agreesR [OF assms(1) d(1) 2(1)] tx_agreesL [OF assms(3) _ 2(2)] by (simp add: bindm_def)
  qed
next
  fix d y d' assume d: "I d" "bindm m' k' d = (Inr y, d')"
  then obtain x d1 where "m' d = (Inr x, d1)" "k' x d1 = (Inr y, d')"
    by (auto simp: bindm_def split: prod.splits sum.splits)
  moreover from this have "J x d1" using assms(2) d(1) unfolding gives_def by blast
  ultimately show "bindm m k (sc_db d, False) = (Inr (g y), (sc_db d', False))"
    using tx_agreesR [OF assms(1) d(1)] tx_agreesR [OF assms(3)] by (simp add: bindm_def)
qed

text \<open>
  A call whose error is wrapped and returned, and a call after which the body goes on when
  it found no row, as the insertion of pings does.
\<close>

lemma tx_agrees_wrap:
  assumes "agrees I f m m'" and "gives I m' J" and "\<And>x. tx_agrees (J x) g (k (f x)) (k' x)"
  shows "tx_agrees I g (tryq (in_tx m) (\<lambda>e. fail (w e)) k) (tryq m' (\<lambda>e. fail (w e)) k')"
proof (rule tx_agreesI)
  fix d e d' assume d: "I d" "tryq m' (\<lambda>e. fail (w e)) k' d = (Inl e, d')"
  then consider e' where "m' d = (Inl e', d')" "e = w e'" | x d1 where "m' d = (Inr x, d1)" "k' x d1 = (Inl e, d')"
    by (auto simp: tryq_def fail_def split: prod.splits sum.splits)
  then show "\<exists>a. tryq (in_tx m) (\<lambda>e. fail (w e)) k (sc_db d, False) = (Inl e, (sc_db d', a))"
  proof cases
    case 1
    then show ?thesis using agreesD [OF assms(1) d(1) 1(1)] by (simp add: tryq_def in_tx_def fail_def)
  next
    case 2
    then have "J x d1" using assms(2) d(1) unfolding gives_def by blast
    then show ?thesis using agreesD [OF assms(1) d(1) 2(1)] tx_agreesL [OF assms(3) _ 2(2)]
      by (simp add: tryq_def in_tx_def)
  qed
next
  fix d y d' assume d: "I d" "tryq m' (\<lambda>e. fail (w e)) k' d = (Inr y, d')"
  then obtain x d1 where x: "m' d = (Inr x, d1)" "k' x d1 = (Inr y, d')"
    by (auto simp: tryq_def fail_def split: prod.splits sum.splits)
  moreover from this have "J x d1" using assms(2) d(1) unfolding gives_def by blast
  ultimately show "tryq (in_tx m) (\<lambda>e. fail (w e)) k (sc_db d, False) = (Inr (g y), (sc_db d', False))"
    using agreesD [OF assms(1) d(1) x(1)] tx_agreesR [OF assms(3)] by (simp add: tryq_def in_tx_def)
qed

lemma tx_agrees_skip:
  assumes "agrees I f m m'" and "\<And>d r d'. I d \<Longrightarrow> m' d = (r, d') \<Longrightarrow> J d'"
    and "tx_agrees J g h h'" and "\<And>x. tx_agrees J g (k (f x)) (k' x)"
  shows "tx_agrees I g (tryq (in_tx m) (\<lambda>e. if IsNotFound e then h else fail e) k)
    (tryq m' (\<lambda>e. if IsNotFound e then h' else fail e) k')" (is "tx_agrees I g ?pg ?sq")
proof -
  have run: "(\<exists>x d1. J d1 \<and> ?pg (sc_db d, False) = k (f x) (sc_db d1, False) \<and> ?sq d = k' x d1) \<or>
      (\<exists>d1. J d1 \<and> ?pg (sc_db d, False) = h (sc_db d1, False) \<and> ?sq d = h' d1) \<or>
      (\<exists>e d1 a. ?pg (sc_db d, False) = (Inl e, (sc_db d1, a)) \<and> ?sq d = (Inl e, d1))" if "I d" for d
  proof -
    obtain r d1 where m': "m' d = (r, d1)" by (cases "m' d")
    then have "J d1" using assms(2) [OF that] by blast
    then show ?thesis using m' agreesD [OF assms(1) that m']
      by (cases r) (auto simp: tryq_def in_tx_def IsNotFound_def fail_def)
  qed
  show ?thesis
  proof (rule tx_agreesI)
    show "?sq d = (Inl e, d') \<Longrightarrow> \<exists>a. ?pg (sc_db d, False) = (Inl e, (sc_db d', a))" if "I d" for d e d'
      using run [OF that] tx_agreesL [OF assms(3)] tx_agreesL [OF assms(4)] by fastforce
    show "?sq d = (Inr x, d') \<Longrightarrow> ?pg (sc_db d, False) = (Inr (g x), (sc_db d', False))" if "I d" for d x d'
      using run [OF that] tx_agreesR [OF assms(3)] tx_agreesR [OF assms(4)] by fastforce
  qed
qed

text \<open>
  Such a body has the same transaction on both backends, rollbacks included; one that swallows a
  refusal of the server commits on SQLite and is rolled back with an error on Postgres.
\<close>

lemma withPgTx_agrees:
  assumes "tx_agrees I f fn fn'" and "tables_only I"
  shows "agrees I f (withPgTx wrap fn) (withSQLiteTx wrap fn')"
proof (rule agreesI)
  fix d assume d: "I d"
  have start: "stmt (ret ()) (sc_db d) = (fst (stmt (ret ()) d), sc_db (snd (stmt (ret ()) d)))" for d
    by (simp add: stmt_def ret_def sc_simps split: list.split)
  have keep: "I d1" if "stmt (ret ()) d = (Inr u, d1)" for d1 u
    using that d tables_onlyD [OF assms(2)] by (auto simp: stmt_def ret_def split: list.splits if_splits)
  have roll: "(sc_db d1)\<lparr>faults := faults (sc_db d2)\<rparr> = sc_db (d1\<lparr>faults := faults d2\<rparr>)" for d1 d2
    by (simp add: sc_simps)
  show "withPgTx wrap fn (sc_db d) = (case withSQLiteTx wrap fn' d of (r, d') \<Rightarrow> (map_sum id f r, sc_db d'))"
  proof (cases "stmt (ret ()) d")
    case (Pair r1 d1)
    show ?thesis
    proof (cases r1)
      case (Inl e)
      then show ?thesis by (simp add: withPgTx_def withSQLiteTx_def start Pair)
    next
      case (Inr u)
      obtain r2 d2 where f: "fn' d1 = (r2, d2)" by (cases "fn' d1")
      have I: "I d1" using keep Pair Inr by simp
      show ?thesis
      proof (cases r2)
        case (Inl e)
        then obtain a where "fn (sc_db d1, False) = (Inl e, (sc_db d2, a))" using tx_agreesL [OF assms(1) I] f by blast
        then show ?thesis using Inl Inr by (simp add: withPgTx_def withSQLiteTx_def start Pair f roll)
      next
        case (Inr x)
        then have "fn (sc_db d1, False) = (Inr (f x), (sc_db d2, False))" using tx_agreesR [OF assms(1) I] f by blast
        then show ?thesis using Inr \<open>r1 = Inr u\<close>
          by (cases "stmt (ret ()) d2"; cases "fst (stmt (ret ()) d2)")
            (auto simp: withPgTx_def withSQLiteTx_def start Pair f roll)
      qed
    qed
  qed
qed

lemma withPgTx_swallowed:
  assumes "m d = (Inl e, d')" "e \<noteq> NoRows" "faults d = []" "faults d' = []"
  shows "withPgTx wrap (tryq (in_tx m) (\<lambda>_. ret x) ret) d = (Inl (wrap IOErr), d)"
    and "withSQLiteTx wrap (tryq m (\<lambda>_. ret x) ret) d = (Inr x, d')"
proof -
  have "d\<lparr>faults := []\<rparr> = d" using assms(3) by simp
  with assms show "withPgTx wrap (tryq (in_tx m) (\<lambda>_. ret x) ret) d = (Inl (wrap IOErr), d)"
    "withSQLiteTx wrap (tryq m (\<lambda>_. ret x) ret) d = (Inr x, d')"
    by (simp_all add: withPgTx_def withSQLiteTx_def tryq_def in_tx_def ret_def)
qed

end
