(* ===== verification/Aul_Pg_Identity.thy ===== *)
theory Aul_Pg_Identity
  imports Aul_Pg
begin

text \<open>
  The Postgres statements on users, devices, sessions, login attempts and the audit log
  (\<^verbatim>\<open>users.sql.go\<close>, \<^verbatim>\<open>devices.sql.go\<close>, \<^verbatim>\<open>sessions.sql.go\<close>, \<^verbatim>\<open>misc.sql.go\<close>), and the agreement of each with
  its SQLite counterpart. \<open>i\<close> is the id the column default generates; \<open>low\<close> is the folding of
  \<^verbatim>\<open>citext\<close>, the type of the email columns.
\<close>

section \<open>users.sql.go\<close>

definition pg_CreateUser :: "(string \<Rightarrow> string) \<Rightarrow> gotime \<Rightarrow> uuid \<Rightarrow> string \<Rightarrow> string \<Rightarrow> User q" where
  "pg_CreateUser low now i email passHash = pg_stmt [email, passHash] (\<lambda>d.
     if fresh_in User_ID i (users d) \<and> fresh_in (\<lambda>u. low (User_Email u)) (low email) (users d)
     then let u = \<lparr>User_ID = i, User_Email = email, User_PassHash = passHash,
                   User_CreatedAt = pv now, User_UpdatedAt = pv now\<rparr>
          in (Inr u, d\<lparr>users := users d @ [u]\<rparr>)
     else (Inl Constraint, d))"

definition pg_EmailExists :: "(string \<Rightarrow> string) \<Rightarrow> string \<Rightarrow> bool q" where
  "pg_EmailExists low email = pg_query [email] (\<lambda>d. \<exists>u\<in>set (users d). low (User_Email u) = low email)"

definition pg_GetUserByEmail :: "(string \<Rightarrow> string) \<Rightarrow> string \<Rightarrow> User q" where
  "pg_GetUserByEmail low email =
     pg_query_row [email] (\<lambda>d. List.find (\<lambda>u. low (User_Email u) = low email) (users d))"

definition pg_GetUserByID :: "uuid \<Rightarrow> User q" where
  "pg_GetUserByID i = pg_query_row [] (\<lambda>d. List.find (\<lambda>u. User_ID u = i) (users d))"

definition pg_UpdateUserPassword :: "gotime \<Rightarrow> uuid \<Rightarrow> string \<Rightarrow> unit q" where
  "pg_UpdateUserPassword now i passHash = pg_exec [passHash] (\<lambda>d. d\<lparr>users :=
     update_where (\<lambda>u. User_ID u = i)
       (\<lambda>u. u\<lparr>User_PassHash := passHash, User_UpdatedAt := pv now\<rparr>) (users d)\<rparr>)"

section \<open>devices.sql.go\<close>

definition pg_CreateDevice :: "gotime \<Rightarrow> uuid \<Rightarrow> uuid \<Rightarrow> string \<Rightarrow> string option \<Rightarrow> bytes option
    \<Rightarrow> Device q" where
  "pg_CreateDevice now i userID platform displayName pubkey =
     pg_stmt (platform # opt_text displayName) (\<lambda>d.
       if fresh_in Device_ID i (devices d) \<and> userID \<in> user_ids d \<and>
          platform \<in> {''android'', ''ios'', ''web'', ''web-mobile''}
       then let v = \<lparr>Device_ID = i, Device_UserID = userID, Device_Platform = platform,
                     Device_DisplayName = displayName, Device_Pubkey = pubkey,
                     Device_PushToken = None, Device_CreatedAt = pv now, Device_LastSeen = None\<rparr>
            in (Inr v, d\<lparr>devices := devices d @ [v]\<rparr>)
       else (Inl Constraint, d))"

text \<open>The foreign keys of sessions, envelopes, SOS events, pings and push subscriptions act.\<close>

definition pg_DeleteDevice :: "uuid \<Rightarrow> uuid \<Rightarrow> unit q" where
  "pg_DeleteDevice i userID = pg_exec [] (\<lambda>d.
     let gone = Device_ID ` set (filter (\<lambda>v. Device_ID v = i \<and> Device_UserID v = userID) (devices d)) in
     d\<lparr>devices := delete_where (\<lambda>v. Device_ID v = i \<and> Device_UserID v = userID) (devices d),
       sessions := delete_where (\<lambda>s. Session_DeviceID s \<in> gone) (sessions d),
       key_envelopes := update_where (\<lambda>e. set_option (Envelope_SenderDeviceID e) \<inter> gone \<noteq> {})
          (\<lambda>e. e\<lparr>Envelope_SenderDeviceID := None\<rparr>)
          (delete_where (\<lambda>e. Envelope_RecipientDeviceID e \<in> gone) (key_envelopes d)),
       sos_events := update_where (\<lambda>s. set_option (Sos_DeviceID s) \<inter> gone \<noteq> {})
          (\<lambda>s. s\<lparr>Sos_DeviceID := None\<rparr>) (sos_events d),
       pings := delete_where (\<lambda>p. Ping_DeviceID p \<in> gone) (pings d),
       push_subscriptions := delete_where (\<lambda>p. set_option (Push_DeviceID p) \<inter> gone \<noteq> {})
          (push_subscriptions d)\<rparr>)"

definition pg_GetDevice :: "uuid \<Rightarrow> Device q" where
  "pg_GetDevice i = pg_query_row [] (\<lambda>d. List.find (\<lambda>v. Device_ID v = i) (devices d))"

definition pg_GetDeviceForUser :: "uuid \<Rightarrow> uuid \<Rightarrow> Device q" where
  "pg_GetDeviceForUser i userID =
     pg_query_row [] (\<lambda>d. List.find (\<lambda>v. Device_ID v = i \<and> Device_UserID v = userID) (devices d))"

definition pg_ListCircleDevices :: "uuid \<Rightarrow> Device list q" where
  "pg_ListCircleDevices circleID = pg_query [] (\<lambda>d. sort_key Device_CreatedAt
     [v. v \<leftarrow> devices d, m \<leftarrow> circle_members d,
         Member_UserID m = Device_UserID v \<and> Member_CircleID m = circleID])"

definition pg_ListDevicesForUser :: "uuid \<Rightarrow> Device list q" where
  "pg_ListDevicesForUser userID = pg_query [] (\<lambda>d.
     sort_key Device_CreatedAt (filter (\<lambda>v. Device_UserID v = userID) (devices d)))"

definition pg_SetDevicePubkey :: "uuid \<Rightarrow> bytes option \<Rightarrow> unit q" where
  "pg_SetDevicePubkey i pubkey = pg_exec [] (\<lambda>d. d\<lparr>devices :=
     update_where (\<lambda>v. Device_ID v = i) (\<lambda>v. v\<lparr>Device_Pubkey := pubkey\<rparr>) (devices d)\<rparr>)"

definition pg_SetDevicePushToken :: "uuid \<Rightarrow> string option \<Rightarrow> unit q" where
  "pg_SetDevicePushToken i tok = pg_exec (opt_text tok) (\<lambda>d. d\<lparr>devices :=
     update_where (\<lambda>v. Device_ID v = i) (\<lambda>v. v\<lparr>Device_PushToken := tok\<rparr>) (devices d)\<rparr>)"

definition pg_TouchDevice :: "gotime \<Rightarrow> uuid \<Rightarrow> unit q" where
  "pg_TouchDevice now i = pg_exec [] (\<lambda>d. d\<lparr>devices :=
     update_where (\<lambda>v. Device_ID v = i) (\<lambda>v. v\<lparr>Device_LastSeen := Some (pv now)\<rparr>) (devices d)\<rparr>)"

section \<open>sessions.sql.go\<close>

definition pg_CreateSession :: "gotime \<Rightarrow> uuid \<Rightarrow> uuid \<Rightarrow> uuid \<Rightarrow> string \<Rightarrow> string \<Rightarrow> gotime \<Rightarrow> gotime
    \<Rightarrow> Session q" where
  "pg_CreateSession now i userID deviceID accessHash refreshHash accessExp refreshExp =
     pg_stmt [accessHash, refreshHash] (\<lambda>d.
       if fresh_in Session_ID i (sessions d) \<and>
          fresh_in Session_AccessTokenHash accessHash (sessions d) \<and>
          fresh_in Session_RefreshTokenHash refreshHash (sessions d) \<and>
          userID \<in> user_ids d \<and> deviceID \<in> device_ids d
       then let s = \<lparr>Session_ID = i, Session_UserID = userID, Session_DeviceID = deviceID,
                     Session_AccessTokenHash = accessHash, Session_RefreshTokenHash = refreshHash,
                     Session_PrevRefreshHash = None, Session_AccessExpiresAt = pv accessExp,
                     Session_RefreshExpiresAt = pv refreshExp, Session_RevokedAt = None,
                     Session_CreatedAt = pv now, Session_RotatedAt = pv now\<rparr>
            in (Inr s, d\<lparr>sessions := sessions d @ [s]\<rparr>)
       else (Inl Constraint, d))"

definition pg_DeleteExpiredSessions :: "gotime \<Rightarrow> nat q" where
  "pg_DeleteExpiredSessions now =
     (let P = (\<lambda>s. Session_RefreshExpiresAt s < pg_ago now (1 * Day) \<or>
                   (\<exists>t\<in>set_option (Session_RevokedAt s). t < pg_ago now (1 * Day))) in
      pg_exec_rows [] (\<lambda>d. count_where P (sessions d))
        (\<lambda>d. d\<lparr>sessions := delete_where P (sessions d)\<rparr>))"

definition pg_GetSessionByAccessHash :: "gotime \<Rightarrow> string \<Rightarrow> Session q" where
  "pg_GetSessionByAccessHash now h = pg_query_row [h] (\<lambda>d. List.find (\<lambda>s.
     Session_AccessTokenHash s = h \<and> Session_RevokedAt s = None \<and> Session_AccessExpiresAt s > pv now)
     (sessions d))"

definition pg_GetSessionByPrevRefreshHash :: "string \<Rightarrow> Session q" where
  "pg_GetSessionByPrevRefreshHash h = pg_query_row [h] (\<lambda>d. List.find (\<lambda>s.
     Session_PrevRefreshHash s = Some h \<and> Session_RevokedAt s = None) (sessions d))"

definition pg_GetSessionByRefreshHash :: "gotime \<Rightarrow> string \<Rightarrow> Session q" where
  "pg_GetSessionByRefreshHash now h = pg_query_row [h] (\<lambda>d. List.find (\<lambda>s.
     Session_RefreshTokenHash s = h \<and> Session_RevokedAt s = None \<and> Session_RefreshExpiresAt s > pv now)
     (sessions d))"

definition pg_ListActiveSessionsForUser :: "gotime \<Rightarrow> uuid
    \<Rightarrow> (Session \<times> string \<times> string option) list q" where
  "pg_ListActiveSessionsForUser now userID = pg_query [] (\<lambda>d.
     sort_key (\<lambda>(s, _). - Session_RotatedAt s)
       [(s, Device_Platform v, Device_DisplayName v). s \<leftarrow> sessions d, v \<leftarrow> devices d,
          Device_ID v = Session_DeviceID s \<and> Session_UserID s = userID \<and>
          Session_RevokedAt s = None \<and> Session_RefreshExpiresAt s > pv now])"

definition pg_RevokeSession :: "gotime \<Rightarrow> uuid \<Rightarrow> unit q" where
  "pg_RevokeSession now i = pg_exec [] (\<lambda>d. d\<lparr>sessions :=
     update_where (\<lambda>s. Session_ID s = i \<and> Session_RevokedAt s = None)
       (\<lambda>s. s\<lparr>Session_RevokedAt := Some (pv now)\<rparr>) (sessions d)\<rparr>)"

definition pg_RevokeSessionsForDevice :: "gotime \<Rightarrow> uuid \<Rightarrow> unit q" where
  "pg_RevokeSessionsForDevice now deviceID = pg_exec [] (\<lambda>d. d\<lparr>sessions :=
     update_where (\<lambda>s. Session_DeviceID s = deviceID \<and> Session_RevokedAt s = None)
       (\<lambda>s. s\<lparr>Session_RevokedAt := Some (pv now)\<rparr>) (sessions d)\<rparr>)"

definition pg_RevokeSessionsForUser :: "gotime \<Rightarrow> uuid \<Rightarrow> unit q" where
  "pg_RevokeSessionsForUser now userID = pg_exec [] (\<lambda>d. d\<lparr>sessions :=
     update_where (\<lambda>s. Session_UserID s = userID \<and> Session_RevokedAt s = None)
       (\<lambda>s. s\<lparr>Session_RevokedAt := Some (pv now)\<rparr>) (sessions d)\<rparr>)"

definition pg_RotateSession :: "gotime \<Rightarrow> uuid \<Rightarrow> string \<Rightarrow> string \<Rightarrow> gotime \<Rightarrow> gotime \<Rightarrow> string
    \<Rightarrow> Session q" where
  "pg_RotateSession now i accessHash refreshHash accessExp refreshExp oldHash =
     pg_stmt [accessHash, refreshHash, oldHash] (\<lambda>d.
       let P = (\<lambda>s. Session_ID s = i \<and> Session_RefreshTokenHash s = oldHash \<and> Session_RevokedAt s = None);
           f = (\<lambda>s. s\<lparr>Session_AccessTokenHash := accessHash, Session_RefreshTokenHash := refreshHash,
             Session_PrevRefreshHash := Some oldHash, Session_AccessExpiresAt := pv accessExp,
             Session_RefreshExpiresAt := pv refreshExp, Session_RotatedAt := pv now\<rparr>)
       in case List.find P (sessions d) of
         None \<Rightarrow> (Inl NoRows, d)
       | Some s \<Rightarrow>
           if \<exists>t\<in>set (sessions d). Session_ID t \<noteq> i \<and>
                (Session_AccessTokenHash t = accessHash \<or> Session_RefreshTokenHash t = refreshHash)
           then (Inl Constraint, d)
           else (Inr (f s), d\<lparr>sessions := update_where P f (sessions d)\<rparr>))"

section \<open>misc.sql.go: login attempts\<close>

definition pg_email_is :: "(string \<Rightarrow> string) \<Rightarrow> string \<Rightarrow> LoginAttempt \<Rightarrow> bool" where
  "pg_email_is low email a \<longleftrightarrow> (\<exists>e\<in>set_option (Attempt_Email a). low e = low email)"

text \<open>\<^verbatim>\<open>COALESCE(max(created_at), 'epoch')\<close>: 1970, where SQLite has the year 1.\<close>

definition pg_last_success :: "(string \<Rightarrow> string) \<Rightarrow> string \<Rightarrow> LoginAttempt list \<Rightarrow> sqltime" where
  "pg_last_success low email as =
     (case map Attempt_CreatedAt (filter (\<lambda>a. pg_email_is low email a \<and> Attempt_Success a) as) of
        [] \<Rightarrow> 0 | t # ts \<Rightarrow> fold max ts t)"

definition pg_CountRecentFailuresByEmail :: "(string \<Rightarrow> string) \<Rightarrow> gotime \<Rightarrow> string \<Rightarrow> duration \<Rightarrow> nat q" where
  "pg_CountRecentFailuresByEmail low now email window = pg_query [email] (\<lambda>d. count_where (\<lambda>a.
     pg_email_is low email a \<and> \<not> Attempt_Success a \<and> Attempt_CreatedAt a > pg_ago now window \<and>
     Attempt_CreatedAt a > pg_last_success low email (login_attempts d)) (login_attempts d))"

definition pg_CountRecentFailuresByIP :: "gotime \<Rightarrow> string \<Rightarrow> duration \<Rightarrow> nat q" where
  "pg_CountRecentFailuresByIP now ip window = pg_query [ip] (\<lambda>d. count_where (\<lambda>a.
     Attempt_Ip a = Some ip \<and> \<not> Attempt_Success a \<and> Attempt_CreatedAt a > pg_ago now window)
     (login_attempts d))"

definition pg_RecordLoginAttempt :: "gotime \<Rightarrow> string option \<Rightarrow> string option \<Rightarrow> bool \<Rightarrow> unit q" where
  "pg_RecordLoginAttempt now email ip success = pg_exec (opt_text email @ opt_text ip) (\<lambda>d.
     d\<lparr>login_attempts := login_attempts d @
       [\<lparr>Attempt_ID = Suc (sequence_login_attempts d), Attempt_Email = email, Attempt_Ip = ip,
         Attempt_Success = success, Attempt_CreatedAt = pv now\<rparr>],
       sequence_login_attempts := Suc (sequence_login_attempts d)\<rparr>)"

definition pg_PruneLoginAttempts :: "gotime \<Rightarrow> int \<Rightarrow> nat q" where
  "pg_PruneLoginAttempts now keepDays =
     (let P = (\<lambda>a. Attempt_CreatedAt a < pg_ago now (keepDays * Day)) in
      pg_exec_rows [] (\<lambda>d. count_where P (login_attempts d))
        (\<lambda>d. d\<lparr>login_attempts := delete_where P (login_attempts d)\<rparr>))"

section \<open>misc.sql.go: audit log\<close>

text \<open>\<open>detail\<close> is the JSON object the server passes to the \<^verbatim>\<open>jsonb\<close> column.\<close>

definition pg_WriteAudit :: "gotime \<Rightarrow> string \<Rightarrow> uuid option \<Rightarrow> uuid option \<Rightarrow> uuid option
    \<Rightarrow> string option \<Rightarrow> audit_detail option \<Rightarrow> unit q" where
  "pg_WriteAudit now event userID deviceID circleID ip detail = pg_exec (event # opt_text ip) (\<lambda>d.
     d\<lparr>audit_log := audit_log d @
       [\<lparr>Audit_ID = Suc (sequence_audit_log d), Audit_Ts = pv now, Audit_Event = event,
         Audit_ActorUserID = userID, Audit_ActorDeviceID = deviceID, Audit_CircleID = circleID,
         Audit_Ip = ip, Audit_Detail = detail\<rparr>],
       sequence_audit_log := Suc (sequence_audit_log d)\<rparr>)"

definition pg_ListAuditForUser :: "uuid \<Rightarrow> nat \<Rightarrow> AuditLog list q" where
  "pg_ListAuditForUser userID limit = pg_query [] (\<lambda>d. take limit (sort_key (\<lambda>a. - Audit_Ts a)
     (filter (\<lambda>a. Audit_ActorUserID a = Some userID) (audit_log d))))"

definition pg_PruneAuditIPs :: "gotime \<Rightarrow> int \<Rightarrow> nat q" where
  "pg_PruneAuditIPs now keepDays =
     (let P = (\<lambda>a. Audit_Ip a \<noteq> None \<and> Audit_Ts a < pg_ago now (keepDays * Day)) in
      pg_exec_rows [] (\<lambda>d. count_where P (audit_log d))
        (\<lambda>d. d\<lparr>audit_log := update_where P (\<lambda>a. a\<lparr>Audit_Ip := None\<rparr>) (audit_log d)\<rparr>))"

section \<open>Agreement with SQLite\<close>

named_theorems pg_agree

lemma pg_EmailExists_agrees [pg_agree]:
  "citext_ascii low \<Longrightarrow> ascii email \<Longrightarrow> pg_text email \<Longrightarrow>
   agrees ascii_emails id (pg_EmailExists low email) (EmailExists email)"
  unfolding pg_EmailExists_def EmailExists_def
  by (rule agrees_query) (auto simp: email_is_def sc_simps sc_row_defs ascii_emails_def citext_same)

lemma pg_GetUserByID_agrees [pg_agree]: "agrees anywhere sc_User (pg_GetUserByID i) (GetUserByID i)"
  unfolding pg_GetUserByID_def GetUserByID_def
  by (rule agrees_query_row) (simp_all add: sc_simps sc_User_def)

lemma pg_UpdateUserPassword_agrees [pg_agree]:
  "whole now \<Longrightarrow> pg_text h \<Longrightarrow> agrees anywhere id (pg_UpdateUserPassword now i h) (UpdateUserPassword now i h)"
  unfolding pg_UpdateUserPassword_def UpdateUserPassword_def
  by (rule agrees_exec) (simp_all add: sc_simps update_where_map map_update_where sc_User_def pv_whole)

lemma pg_CreateDevice_agrees [pg_agree]:
  "whole now \<Longrightarrow> pg_text p \<Longrightarrow> \<forall>s\<in>set (opt_text n). pg_text s \<Longrightarrow>
   agrees anywhere sc_Device (pg_CreateDevice now i u p n k) (CreateDevice now i u p n k)"
  unfolding pg_CreateDevice_def CreateDevice_def
  by (rule agrees_stmt) (simp_all add: sc_simps sc_Device_def pv_whole Let_def platforms_def)

lemma pg_ListCircleDevices_agrees [pg_agree]:
  "agrees anywhere (map sc_Device) (pg_ListCircleDevices c) (ListCircleDevices c)"
proof -
  have join: "[v. v \<leftarrow> map sc_Device vs, m \<leftarrow> map sc_Member ms, Member_UserID m = Device_UserID v \<and> Member_CircleID m = c] =
    map sc_Device [v. v \<leftarrow> vs, m \<leftarrow> ms, Member_UserID m = Device_UserID v \<and> Member_CircleID m = c]" for vs ms
    by (rule join_map) (simp_all add: sc_Device_def sc_Member_def)
  have key: "Device_CreatedAt (sc_Device v) = sc (Device_CreatedAt v)" for v by (simp add: sc_Device_def)
  show ?thesis unfolding pg_ListCircleDevices_def ListCircleDevices_def
    by (rule agrees_query; simp only: sc_db_tables join list.set ball_empty anywhere_simps
        sort_key_rows [where f = sc_Device and k = Device_CreatedAt and k' = Device_CreatedAt, OF key])
qed

lemma pg_ListDevicesForUser_agrees [pg_agree]:
  "agrees anywhere (map sc_Device) (pg_ListDevicesForUser u) (ListDevicesForUser u)"
  unfolding pg_ListDevicesForUser_def ListDevicesForUser_def
  by (rule agrees_query) (simp_all add: sc_simps sc_Device_def)

lemma pg_GetDevice_agrees [pg_agree]: "agrees anywhere sc_Device (pg_GetDevice i) (GetDevice i)"
  unfolding pg_GetDevice_def GetDevice_def
  by (rule agrees_query_row) (simp_all add: sc_simps sc_Device_def)

lemma pg_GetDeviceForUser_agrees [pg_agree]:
  "agrees anywhere sc_Device (pg_GetDeviceForUser i u) (GetDeviceForUser i u)"
  unfolding pg_GetDeviceForUser_def GetDeviceForUser_def
  by (rule agrees_query_row) (simp_all add: sc_simps sc_Device_def)

lemma pg_SetDevicePubkey_agrees [pg_agree]: "agrees anywhere id (pg_SetDevicePubkey i k) (SetDevicePubkey i k)"
  unfolding pg_SetDevicePubkey_def SetDevicePubkey_def
  by (rule agrees_exec) (simp_all add: sc_simps update_where_map map_update_where sc_Device_def)

lemma pg_SetDevicePushToken_agrees [pg_agree]:
  "\<forall>s\<in>set (opt_text k). pg_text s \<Longrightarrow> agrees anywhere id (pg_SetDevicePushToken i k) (SetDevicePushToken i k)"
  unfolding pg_SetDevicePushToken_def SetDevicePushToken_def
  by (rule agrees_exec) (simp_all add: sc_simps update_where_map map_update_where sc_Device_def)

lemma pg_TouchDevice_agrees [pg_agree]:
  "whole now \<Longrightarrow> agrees anywhere id (pg_TouchDevice now i) (TouchDevice now i)"
  unfolding pg_TouchDevice_def TouchDevice_def
  by (rule agrees_exec) (simp_all add: sc_simps update_where_map map_update_where sc_Device_def pv_whole)

lemma pg_CreateSession_agrees [pg_agree]:
  "whole now \<Longrightarrow> whole ae \<Longrightarrow> whole re \<Longrightarrow> pg_text a \<Longrightarrow> pg_text r \<Longrightarrow>
   agrees anywhere sc_Session (pg_CreateSession now i u v a r ae re) (CreateSession now i u v a r ae re)"
  unfolding pg_CreateSession_def CreateSession_def
  by (rule agrees_stmt) (simp_all add: sc_simps sc_Session_def pv_whole Let_def)

lemma pg_GetSessionByAccessHash_agrees [pg_agree]:
  "whole now \<Longrightarrow> pg_text h \<Longrightarrow>
   agrees anywhere sc_Session (pg_GetSessionByAccessHash now h) (GetSessionByAccessHash now h)"
  unfolding pg_GetSessionByAccessHash_def GetSessionByAccessHash_def live_access_def [abs_def]
  by (rule agrees_query_row) (simp_all add: sc_simps sc_Session_def pv_whole)

lemma pg_GetSessionByPrevRefreshHash_agrees [pg_agree]:
  "pg_text h \<Longrightarrow>
   agrees anywhere sc_Session (pg_GetSessionByPrevRefreshHash h) (GetSessionByPrevRefreshHash h)"
  unfolding pg_GetSessionByPrevRefreshHash_def GetSessionByPrevRefreshHash_def spent_refresh_def [abs_def]
  by (rule agrees_query_row) (simp_all add: sc_simps sc_Session_def)

lemma pg_GetSessionByRefreshHash_agrees [pg_agree]:
  "whole now \<Longrightarrow> pg_text h \<Longrightarrow>
   agrees anywhere sc_Session (pg_GetSessionByRefreshHash now h) (GetSessionByRefreshHash now h)"
  unfolding pg_GetSessionByRefreshHash_def GetSessionByRefreshHash_def live_refresh_def [abs_def]
  by (rule agrees_query_row) (simp_all add: sc_simps sc_Session_def pv_whole)

lemma pg_revoke_sessions_agree [pg_agree]:
  assumes "whole now"
  shows "agrees anywhere id (pg_RevokeSession now i) (RevokeSession now i)"
    and "agrees anywhere id (pg_RevokeSessionsForDevice now i) (RevokeSessionsForDevice now i)"
    and "agrees anywhere id (pg_RevokeSessionsForUser now i) (RevokeSessionsForUser now i)"
  unfolding pg_RevokeSession_def RevokeSession_def pg_RevokeSessionsForDevice_def
    RevokeSessionsForDevice_def pg_RevokeSessionsForUser_def RevokeSessionsForUser_def
  by (rule agrees_exec;
      simp add: sc_simps update_where_map map_update_where sc_Session_def revoke_at_def pv_whole assms)+

lemma pg_DeleteExpiredSessions_agrees [pg_agree]:
  "whole now \<Longrightarrow> agrees anywhere id (pg_DeleteExpiredSessions now) (DeleteExpiredSessions now)"
proof -
  assume now: "whole now"
  have "(\<exists>t\<in>set_option (map_option sc x). t < sc b) \<longleftrightarrow> (case x of None \<Rightarrow> False | Some t \<Rightarrow> t < b)" for x b
    by (cases x) (simp_all add: sc_simps)
  moreover have "pg_ago now (1 * Day) = sc (tv (now - 24 * Hour))"
    using pg_ago_whole [OF now, of "1 * Day"] by (simp add: Day_def)
  ultimately show ?thesis unfolding pg_DeleteExpiredSessions_def DeleteExpiredSessions_def Let_def
    by (intro agrees_exec_rows) (simp_all add: sc_simps sc_Session_def expired_session_def [abs_def])
qed

lemma pg_ListActiveSessionsForUser_agrees [pg_agree]:
  "whole now \<Longrightarrow> agrees anywhere (map (map_prod sc_Session id))
     (pg_ListActiveSessionsForUser now u) (ListActiveSessionsForUser now u)"
proof -
  assume now: "whole now"
  have join: "[(s, Device_Platform v, Device_DisplayName v). s \<leftarrow> map sc_Session ss, v \<leftarrow> map sc_Device vs,
      Device_ID v = Session_DeviceID s \<and> Session_UserID s = u \<and> Session_RevokedAt s = None \<and>
      Session_RefreshExpiresAt s > pv now] =
    map (map_prod sc_Session id) [(s, Device_Platform v, Device_DisplayName v). s \<leftarrow> ss, v \<leftarrow> vs,
      Device_ID v = Session_DeviceID s \<and> Session_UserID s = u \<and> Session_RevokedAt s = None \<and>
      Session_RefreshExpiresAt s > tv now]" for ss vs
    by (rule join_map) (simp_all add: sc_Device_def sc_Session_def sc_simps pv_whole now)
  have key: "(case map_prod sc_Session id x of (s, _) \<Rightarrow> - Session_RotatedAt s) =
      sc (case x of (s, _) \<Rightarrow> - Session_RotatedAt s)" for x :: "Session \<times> string \<times> string option"
    by (cases x) (simp add: sc_Session_def sc_simps)
  show ?thesis unfolding pg_ListActiveSessionsForUser_def ListActiveSessionsForUser_def
    by (rule agrees_query; simp only: sc_db_tables join list.set ball_empty anywhere_simps
        sort_key_rows [where f = "map_prod sc_Session id" and k = "\<lambda>(s, _). - Session_RotatedAt s"
          and k' = "\<lambda>(s, _). - Session_RotatedAt s", OF key])
qed

lemma pg_RotateSession_agrees [pg_agree]:
  assumes "whole now" "whole ae" "whole re" "pg_text a" "pg_text r" "pg_text h"
  shows "agrees anywhere sc_Session (pg_RotateSession now i a r ae re h) (RotateSession now i a r ae re h)"
  unfolding pg_RotateSession_def RotateSession_def rotate_target_def [abs_def] rotate_row_def [abs_def]
  by (rule agrees_stmt)
    ((use assms in \<open>simp_all add: sc_simps sc_Session_def update_where_map map_update_where pv_whole Let_def
      split: option.split\<close>), blast)

lemma pg_email_is_sc:
  assumes "citext_ascii low" "ascii email" "\<forall>e\<in>set_option (Attempt_Email a). ascii e"
  shows "pg_email_is low email (sc_Attempt a) = attempt_email_is email a"
  using assms by (cases "Attempt_Email a") (simp_all add: pg_email_is_def attempt_email_is_def sc_Attempt_def citext_same)

lemma attempt_sel: "Attempt_Success (sc_Attempt a) = Attempt_Success a"
    "Attempt_CreatedAt (sc_Attempt a) = sc (Attempt_CreatedAt a)"
  by (simp_all add: sc_Attempt_def)

lemma fold_max_sc: "fold max (map sc ts) (sc t) = sc (fold max ts t)"
  by (induction ts arbitrary: t) (simp_all add: sc_simps)

text \<open>
  The two stand-ins for a missing success differ, but neither bounds an attempt made after 1970.
\<close>

lemma pg_last_success_sc:
  assumes "citext_ascii low" "ascii email" "\<forall>a\<in>set as. \<forall>e\<in>set_option (Attempt_Email a). ascii e" "0 < t"
  shows "pg_last_success low email (map sc_Attempt as) < sc t \<longleftrightarrow> last_success email as < t"
proof -
  have "filter (\<lambda>a. pg_email_is low email a \<and> Attempt_Success a) (map sc_Attempt as) =
    map sc_Attempt (filter (\<lambda>a. attempt_email_is email a \<and> Attempt_Success a) as)"
    using assms(3) by (induction as) (simp_all add: pg_email_is_sc assms(1,2), simp_all add: sc_Attempt_def)
  then have "map Attempt_CreatedAt (filter (\<lambda>a. pg_email_is low email a \<and> Attempt_Success a) (map sc_Attempt as)) =
    map sc (map Attempt_CreatedAt (filter (\<lambda>a. attempt_email_is email a \<and> Attempt_Success a) as))"
    by (simp add: sc_Attempt_def)
  then show ?thesis using assms(4)
    by (cases "map Attempt_CreatedAt (filter (\<lambda>a. attempt_email_is email a \<and> Attempt_Success a) as)")
      (simp_all add: pg_last_success_def last_success_def fold_max_sc sc_simps, simp_all add: sc_def sqliteEpoch_def)
qed

lemma pg_CountRecentFailuresByEmail_agrees [pg_agree]:
  assumes "citext_ascii low" "ascii email" "pg_text email" "whole now" "whole window" "window \<le> now"
  shows "agrees ascii_emails id (pg_CountRecentFailuresByEmail low now email window)
    (CountRecentFailuresByEmail now email window)"
  unfolding pg_CountRecentFailuresByEmail_def CountRecentFailuresByEmail_def count_where_def
proof (rule agrees_query)
  fix d assume d: "ascii_emails d"
  have "0 \<le> tv (now - window)" using assms(6) by (simp add: tv_def Millisecond_def)
  then have row: "(pg_email_is low email (sc_Attempt a) \<and> \<not> Attempt_Success (sc_Attempt a) \<and>
      Attempt_CreatedAt (sc_Attempt a) > pg_ago now window \<and>
      Attempt_CreatedAt (sc_Attempt a) > pg_last_success low email (map sc_Attempt (login_attempts d))) =
    (attempt_email_is email a \<and> \<not> Attempt_Success a \<and> Attempt_CreatedAt a > tv (now - window) \<and>
     Attempt_CreatedAt a > last_success email (login_attempts d))" if "a \<in> set (login_attempts d)" for a
    using d that assms pg_last_success_sc [of low email "login_attempts d" "Attempt_CreatedAt a"]
    by (auto simp: ascii_emails_def pg_email_is_sc pg_ago_whole sc_simps attempt_sel)
  show "length (filter (\<lambda>a. pg_email_is low email a \<and> \<not> Attempt_Success a \<and>
      Attempt_CreatedAt a > pg_ago now window \<and>
      Attempt_CreatedAt a > pg_last_success low email (login_attempts (sc_db d))) (login_attempts (sc_db d))) =
    id (length (filter (\<lambda>a. attempt_email_is email a \<and> \<not> Attempt_Success a \<and> Attempt_CreatedAt a > tv (now - window) \<and>
      Attempt_CreatedAt a > last_success email (login_attempts d)) (login_attempts d)))"
    using row by (simp add: sc_db_tables filter_map_app cong: filter_cong)
qed (use assms in simp_all)

lemma pg_CountRecentFailuresByIP_agrees [pg_agree]:
  "whole now \<Longrightarrow> whole window \<Longrightarrow> pg_text ip \<Longrightarrow>
   agrees anywhere id (pg_CountRecentFailuresByIP now ip window) (CountRecentFailuresByIP now ip window)"
  unfolding pg_CountRecentFailuresByIP_def CountRecentFailuresByIP_def
  by (rule agrees_query) (simp_all add: sc_simps sc_Attempt_def pg_ago_whole, simp add: count_where_def)

lemma pg_RecordLoginAttempt_agrees [pg_agree]:
  "whole now \<Longrightarrow> \<forall>s\<in>set (opt_text e @ opt_text ip). pg_text s \<Longrightarrow>
   agrees anywhere id (pg_RecordLoginAttempt now e ip ok) (RecordLoginAttempt now e ip ok)"
  unfolding pg_RecordLoginAttempt_def RecordLoginAttempt_def
  by (rule agrees_exec) (simp_all add: sc_simps sc_Attempt_def pv_whole)

lemma pg_PruneLoginAttempts_agrees [pg_agree]:
  "whole now \<Longrightarrow> agrees anywhere id (pg_PruneLoginAttempts now k) (PruneLoginAttempts now k)"
  unfolding pg_PruneLoginAttempts_def PruneLoginAttempts_def Let_def
  by (rule agrees_exec_rows) (simp_all add: sc_simps sc_Attempt_def pg_ago_whole)

lemma pg_WriteAudit_agrees [pg_agree]:
  "whole now \<Longrightarrow> \<forall>s\<in>set (e # opt_text ip). pg_text s \<Longrightarrow>
   agrees anywhere id (pg_WriteAudit now e u v c ip det) (WriteAudit now e u v c ip det)"
  unfolding pg_WriteAudit_def WriteAudit_def
  by (rule agrees_exec) (simp_all add: sc_simps sc_Audit_def pv_whole)

lemma pg_ListAuditForUser_agrees [pg_agree]:
  "agrees anywhere (map sc_Audit) (pg_ListAuditForUser u n) (ListAuditForUser u n)"
  unfolding pg_ListAuditForUser_def ListAuditForUser_def
  by (rule agrees_query) (simp_all add: sc_simps sc_Audit_def take_map)

lemma pg_PruneAuditIPs_agrees [pg_agree]:
  "whole now \<Longrightarrow> agrees anywhere id (pg_PruneAuditIPs now k) (PruneAuditIPs now k)"
  unfolding pg_PruneAuditIPs_def PruneAuditIPs_def Let_def
  by (rule agrees_exec_rows)
    (simp_all add: sc_simps sc_Audit_def pg_ago_whole update_where_map map_update_where)

lemma pg_CreateUser_agrees [pg_agree]:
  assumes "citext_ascii low" "ascii email" "whole now" "pg_text email" "pg_text h"
  shows "agrees ascii_emails sc_User (pg_CreateUser low now i email h) (CreateUser now i email h)"
  unfolding pg_CreateUser_def CreateUser_def
proof (rule agrees_stmt)
  fix d assume d: "ascii_emails d"
  have "fresh_in (\<lambda>u. low (User_Email u)) (low email) (users (sc_db d)) =
      fresh_in (\<lambda>u. nocase (User_Email u)) (nocase email) (users d)"
    using d assms(1,2) by (simp add: fresh_in_iff sc_simps sc_User_def ascii_emails_def citext_same)
  then show "(if fresh_in User_ID i (users (sc_db d)) \<and> fresh_in (\<lambda>u. low (User_Email u)) (low email) (users (sc_db d))
     then let u = \<lparr>User_ID = i, User_Email = email, User_PassHash = h, User_CreatedAt = pv now, User_UpdatedAt = pv now\<rparr>
          in (Inr u, (sc_db d)\<lparr>users := users (sc_db d) @ [u]\<rparr>)
     else (Inl Constraint, sc_db d)) =
    (case if fresh_in User_ID i (users d) \<and> fresh_in (\<lambda>u. nocase (User_Email u)) (nocase email) (users d)
     then let u = \<lparr>User_ID = i, User_Email = email, User_PassHash = h, User_CreatedAt = tv now, User_UpdatedAt = tv now\<rparr>
          in (Inr u, d\<lparr>users := users d @ [u]\<rparr>)
     else (Inl Constraint, d) of (r, d') \<Rightarrow> (map_sum id sc_User r, sc_db d'))"
    using assms(3) by (simp add: sc_simps sc_User_def pv_whole Let_def)
qed (use assms in simp_all)

lemma pg_GetUserByEmail_agrees [pg_agree]:
  assumes "citext_ascii low" "ascii email" "pg_text email"
  shows "agrees ascii_emails sc_User (pg_GetUserByEmail low email) (GetUserByEmail email)"
  unfolding pg_GetUserByEmail_def GetUserByEmail_def
proof (rule agrees_query_row)
  fix d assume "ascii_emails d"
  then have "\<forall>u\<in>set (users d). (low (User_Email (sc_User u)) = low email) = email_is email u"
    using assms(1,2) by (simp add: ascii_emails_def email_is_def sc_User_def citext_same)
  then have "List.find (\<lambda>u. low (User_Email (sc_User u)) = low email) (users d) = List.find (email_is email) (users d)"
    by (intro find_cong) simp_all
  then show "List.find (\<lambda>u. low (User_Email u) = low email) (users (sc_db d)) =
      map_option sc_User (List.find (email_is email) (users d))"
    by (simp add: sc_simps)
qed (use assms in simp_all)

lemma pg_DeleteDevice_agrees [pg_agree]: "agrees anywhere id (pg_DeleteDevice i u) (DeleteDevice i u)"
  unfolding pg_DeleteDevice_def DeleteDevice_def
proof (rule agrees_exec)
  fix d
  let ?P = "\<lambda>v. Device_ID v = i \<and> Device_UserID v = u"
  have gone: "Device_ID ` set (filter ?P (devices (sc_db d))) = (if \<exists>v\<in>set (devices d). ?P v then {i} else {})"
    by (auto simp: sc_simps sc_Device_def image_image image_iff)
  have none: "delete_where ?P (map sc_Device (devices d)) = map sc_Device (devices d)"
    if "\<not> (\<exists>v\<in>set (devices d). ?P v)"
    using that by (simp add: delete_where_def sc_Device_def)
  have opt: "(i \<in> set_option x) = (x = Some i)" for x :: "uuid option" by (cases x) auto
  show "(let gone = Device_ID ` set (filter ?P (devices (sc_db d))) in
     (sc_db d)\<lparr>devices := delete_where ?P (devices (sc_db d)),
       sessions := delete_where (\<lambda>s. Session_DeviceID s \<in> gone) (sessions (sc_db d)),
       key_envelopes := update_where (\<lambda>e. set_option (Envelope_SenderDeviceID e) \<inter> gone \<noteq> {})
          (\<lambda>e. e\<lparr>Envelope_SenderDeviceID := None\<rparr>)
          (delete_where (\<lambda>e. Envelope_RecipientDeviceID e \<in> gone) (key_envelopes (sc_db d))),
       sos_events := update_where (\<lambda>s. set_option (Sos_DeviceID s) \<inter> gone \<noteq> {})
          (\<lambda>s. s\<lparr>Sos_DeviceID := None\<rparr>) (sos_events (sc_db d)),
       pings := delete_where (\<lambda>p. Ping_DeviceID p \<in> gone) (pings (sc_db d)),
       push_subscriptions := delete_where (\<lambda>p. set_option (Push_DeviceID p) \<inter> gone \<noteq> {})
          (push_subscriptions (sc_db d))\<rparr>) =
    sc_db (if \<exists>v\<in>set (devices d). ?P v
     then d\<lparr>devices := delete_where ?P (devices d),
            sessions := delete_where (\<lambda>s. Session_DeviceID s = i) (sessions d),
            key_envelopes := update_where (\<lambda>e. Envelope_SenderDeviceID e = Some i)
               (\<lambda>e. e\<lparr>Envelope_SenderDeviceID := None\<rparr>)
               (delete_where (\<lambda>e. Envelope_RecipientDeviceID e = i) (key_envelopes d)),
            sos_events := update_where (\<lambda>s. Sos_DeviceID s = Some i)
               (\<lambda>s. s\<lparr>Sos_DeviceID := None\<rparr>) (sos_events d),
            pings := delete_where (\<lambda>p. Ping_DeviceID p = i) (pings d),
            push_subscriptions := delete_where (\<lambda>p. Push_DeviceID p = Some i)
               (push_subscriptions d)\<rparr>
     else d)"
  proof (cases "\<exists>v\<in>set (devices d). ?P v")
    case True
    then show ?thesis unfolding gone Let_def
      by (simp add: opt sc_simps sc_row_defs update_where_map map_update_where cong: if_cong)
  next
    case False
    then show ?thesis unfolding gone Let_def unfolding sc_db_tables none [OF False]
      by (simp only: if_False) (simp add: sc_db_def update_where_def, simp add: delete_where_def)
  qed
qed simp_all

end
