(* ===== verification/Aul_Pg_Circles.thy ===== *)
theory Aul_Pg_Circles
  imports Aul_Pg_Identity
begin

text \<open>
  The Postgres statements on circles, members, invites, key envelopes, SOS events, places and
  mutes (\<^verbatim>\<open>circles.sql.go\<close>, \<^verbatim>\<open>invites.sql.go\<close>, \<^verbatim>\<open>key_envelopes.sql.go\<close>, \<^verbatim>\<open>sos.sql.go\<close>, \<^verbatim>\<open>places.sql.go\<close>,
  \<^verbatim>\<open>mutes.sql.go\<close>) and their agreement with SQLite. The counters \<^verbatim>\<open>key_epoch\<close> and \<^verbatim>\<open>version\<close> are
  \<^verbatim>\<open>int4\<close> columns: an increment past the range is refused before anything is written. An
  \<^verbatim>\<open>ON CONFLICT\<close> clause looks at its own index first, so the generated id of a row that is not
  inserted is never compared with the stored ones.
\<close>

section \<open>circles.sql.go\<close>

definition pg_AddMember :: "gotime \<Rightarrow> uuid \<Rightarrow> uuid \<Rightarrow> string \<Rightarrow> CircleMember q" where
  "pg_AddMember now circleID userID role = pg_stmt [role] (\<lambda>d.
     let P = (\<lambda>m. Member_CircleID m = circleID \<and> Member_UserID m = userID); f = (\<lambda>m. m\<lparr>Member_Role := role\<rparr>) in
     if role \<notin> {''owner'', ''member'', ''guardian''} then (Inl Constraint, d)
     else case List.find P (circle_members d) of
       Some m \<Rightarrow> (Inr (f m), d\<lparr>circle_members := update_where P f (circle_members d)\<rparr>)
     | None \<Rightarrow>
         if circleID \<in> circle_ids d \<and> userID \<in> user_ids d
         then let m = \<lparr>Member_CircleID = circleID, Member_UserID = userID, Member_Role = role,
                       Member_PrecisionMode = ''precise'', Member_JoinedAt = pv now,
                       Member_ProfileEnc = None\<rparr>
              in (Inr m, d\<lparr>circle_members := circle_members d @ [m]\<rparr>)
         else (Inl Constraint, d))"

definition pg_AllCircleRetention :: "(uuid \<times> int) list q" where
  "pg_AllCircleRetention = pg_query [] (\<lambda>d. map (\<lambda>c. (Circle_ID c, Circle_RetentionDays c)) (circles d))"

text \<open>An \<^verbatim>\<open>UPDATE ... WHERE ... RETURNING\<close> of at most one row; \<open>ok\<close> is what its new values must satisfy.\<close>

definition pg_update_circle :: "uuid \<Rightarrow> (Circle \<Rightarrow> dberr option) \<Rightarrow> (Circle \<Rightarrow> Circle) \<Rightarrow> Circle q" where
  "pg_update_circle i bad f = pg_stmt [] (\<lambda>d. case List.find (\<lambda>c. Circle_ID c = i) (circles d) of
      None \<Rightarrow> (Inl NoRows, d)
    | Some c \<Rightarrow> (case bad (f c) of Some e \<Rightarrow> (Inl e, d)
        | None \<Rightarrow> (Inr (f c), d\<lparr>circles := update_where (\<lambda>c. Circle_ID c = i) f (circles d)\<rparr>)))"

definition pg_BumpCircleKeyEpoch :: "uuid \<Rightarrow> Circle q" where
  "pg_BumpCircleKeyEpoch i = pg_update_circle i
     (\<lambda>c. if in_i32 (Circle_KeyEpoch c) then None else Some ScanErr)
     (\<lambda>c. c\<lparr>Circle_KeyEpoch := Circle_KeyEpoch c + 1\<rparr>)"

definition pg_CountOwners :: "uuid \<Rightarrow> nat q" where
  "pg_CountOwners circleID = pg_query [] (\<lambda>d.
     count_where (\<lambda>m. Member_CircleID m = circleID \<and> Member_Role m = ''owner'') (circle_members d))"

definition pg_CreateCircle :: "gotime \<Rightarrow> uuid \<Rightarrow> bytes option \<Rightarrow> int \<Rightarrow> uuid \<Rightarrow> Circle q" where
  "pg_CreateCircle now i nameEnc retentionDays createdBy = pg_stmt [] (\<lambda>d.
     if fresh_in Circle_ID i (circles d) \<and> 1 \<le> retentionDays \<and> retentionDays \<le> 3650 \<and>
        createdBy \<in> user_ids d
     then let c = \<lparr>Circle_ID = i, Circle_NameEnc = nameEnc, Circle_RetentionDays = retentionDays,
                   Circle_KeyEpoch = 1, Circle_CreatedBy = createdBy, Circle_CreatedAt = pv now\<rparr>
          in (Inr c, d\<lparr>circles := circles d @ [c]\<rparr>)
     else (Inl Constraint, d))"

definition pg_DeleteCircle :: "uuid \<Rightarrow> unit q" where
  "pg_DeleteCircle i = pg_exec [] (\<lambda>d. d\<lparr>circles := delete_where (\<lambda>c. Circle_ID c = i) (circles d),
     circle_members := delete_where (\<lambda>m. Member_CircleID m = i) (circle_members d),
     invites := delete_where (\<lambda>v. Invite_CircleID v = i) (invites d),
     places_enc := delete_where (\<lambda>p. Place_CircleID p = i) (places_enc d),
     key_envelopes := delete_where (\<lambda>e. Envelope_CircleID e = i) (key_envelopes d),
     sos_events := delete_where (\<lambda>s. Sos_CircleID s = i) (sos_events d),
     pings := delete_where (\<lambda>p. Ping_CircleID p = i) (pings d),
     notification_mutes := delete_where (\<lambda>m. Mute_CircleID m = i) (notification_mutes d)\<rparr>)"

definition pg_GetCircle :: "uuid \<Rightarrow> Circle q" where
  "pg_GetCircle i = pg_query_row [] (\<lambda>d. List.find (\<lambda>c. Circle_ID c = i) (circles d))"

definition pg_GetMembership :: "uuid \<Rightarrow> uuid \<Rightarrow> CircleMember q" where
  "pg_GetMembership circleID userID = pg_query_row [] (\<lambda>d.
     List.find (\<lambda>m. Member_CircleID m = circleID \<and> Member_UserID m = userID) (circle_members d))"

definition pg_ListCirclesForUser :: "uuid \<Rightarrow> (Circle \<times> string \<times> string) list q" where
  "pg_ListCirclesForUser userID = pg_query [] (\<lambda>d. sort_key (\<lambda>(c, _). Circle_CreatedAt c)
     [(c, Member_Role m, Member_PrecisionMode m). c \<leftarrow> circles d, m \<leftarrow> circle_members d,
        Member_CircleID m = Circle_ID c \<and> Member_UserID m = userID])"

definition pg_ListMembers :: "uuid \<Rightarrow> (CircleMember \<times> string) list q" where
  "pg_ListMembers circleID = pg_query [] (\<lambda>d. sort_key (\<lambda>(m, _). Member_JoinedAt m)
     [(m, User_Email u). m \<leftarrow> circle_members d, u \<leftarrow> users d,
        User_ID u = Member_UserID m \<and> Member_CircleID m = circleID])"

definition pg_RemoveMember :: "uuid \<Rightarrow> uuid \<Rightarrow> unit q" where
  "pg_RemoveMember circleID userID = pg_exec [] (\<lambda>d. d\<lparr>circle_members :=
     delete_where (\<lambda>m. Member_CircleID m = circleID \<and> Member_UserID m = userID) (circle_members d)\<rparr>)"

definition pg_SetMemberProfile :: "uuid \<Rightarrow> uuid \<Rightarrow> bytes option \<Rightarrow> unit q" where
  "pg_SetMemberProfile circleID userID profileEnc = pg_exec [] (\<lambda>d. d\<lparr>circle_members :=
     update_where (\<lambda>m. Member_CircleID m = circleID \<and> Member_UserID m = userID)
       (\<lambda>m. m\<lparr>Member_ProfileEnc := profileEnc\<rparr>) (circle_members d)\<rparr>)"

definition pg_SetMemberRole :: "uuid \<Rightarrow> uuid \<Rightarrow> string \<Rightarrow> CircleMember q" where
  "pg_SetMemberRole circleID userID role = pg_stmt [role] (\<lambda>d.
     let P = (\<lambda>m. Member_CircleID m = circleID \<and> Member_UserID m = userID); f = (\<lambda>m. m\<lparr>Member_Role := role\<rparr>) in
     case List.find P (circle_members d) of
       None \<Rightarrow> (Inl NoRows, d)
     | Some m \<Rightarrow> if role \<in> {''owner'', ''member'', ''guardian''}
         then (Inr (f m), d\<lparr>circle_members := update_where P f (circle_members d)\<rparr>)
         else (Inl Constraint, d))"

definition pg_SetPrecisionMode :: "uuid \<Rightarrow> uuid \<Rightarrow> string \<Rightarrow> CircleMember q" where
  "pg_SetPrecisionMode circleID userID mode = pg_stmt [mode] (\<lambda>d.
     let P = (\<lambda>m. Member_CircleID m = circleID \<and> Member_UserID m = userID);
         f = (\<lambda>m. m\<lparr>Member_PrecisionMode := mode\<rparr>) in
     case List.find P (circle_members d) of
       None \<Rightarrow> (Inl NoRows, d)
     | Some m \<Rightarrow> if mode \<in> {''precise'', ''city'', ''paused''}
         then (Inr (f m), d\<lparr>circle_members := update_where P f (circle_members d)\<rparr>)
         else (Inl Constraint, d))"

definition pg_UpdateCircleName :: "uuid \<Rightarrow> bytes option \<Rightarrow> Circle q" where
  "pg_UpdateCircleName i nameEnc = pg_update_circle i (\<lambda>c. None) (\<lambda>c. c\<lparr>Circle_NameEnc := nameEnc\<rparr>)"

definition pg_UpdateCircleRetention :: "uuid \<Rightarrow> int \<Rightarrow> Circle q" where
  "pg_UpdateCircleRetention i days = pg_update_circle i
     (\<lambda>c. if 1 \<le> Circle_RetentionDays c \<and> Circle_RetentionDays c \<le> 3650 then None else Some Constraint)
     (\<lambda>c. c\<lparr>Circle_RetentionDays := days\<rparr>)"

section \<open>invites.sql.go\<close>

definition pg_ConsumeInvite :: "gotime \<Rightarrow> uuid \<Rightarrow> Invite q" where
  "pg_ConsumeInvite now i = pg_stmt [] (\<lambda>d.
     let P = (\<lambda>v. Invite_ID v = i \<and> Invite_Status v = ''active'' \<and> Invite_ExpiresAt v > pv now \<and>
                  Invite_Uses v < Invite_MaxUses v);
         f = (\<lambda>v. v\<lparr>Invite_Uses := Invite_Uses v + 1\<rparr>) in
     case List.find P (invites d) of
       None \<Rightarrow> (Inl NoRows, d)
     | Some v \<Rightarrow> (Inr (f v), d\<lparr>invites := update_where P f (invites d)\<rparr>))"

definition pg_CountRecentInvitesByUser :: "gotime \<Rightarrow> uuid \<Rightarrow> nat q" where
  "pg_CountRecentInvitesByUser now createdBy = pg_query [] (\<lambda>d. count_where
     (\<lambda>v. Invite_CreatedBy v = createdBy \<and> Invite_CreatedAt v > pg_ago now (1 * Hour)) (invites d))"

definition pg_CreateInvite :: "gotime \<Rightarrow> uuid \<Rightarrow> uuid \<Rightarrow> uuid \<Rightarrow> string \<Rightarrow> int \<Rightarrow> gotime \<Rightarrow> Invite q" where
  "pg_CreateInvite now i circleID createdBy role maxUses expiresAt = pg_stmt [role] (\<lambda>d.
     if fresh_in Invite_ID i (invites d) \<and> circleID \<in> circle_ids d \<and> createdBy \<in> user_ids d \<and>
        role \<in> {''member'', ''guardian''} \<and> 1 \<le> maxUses \<and> maxUses \<le> 1000
     then let v = \<lparr>Invite_ID = i, Invite_CircleID = circleID, Invite_CreatedBy = createdBy,
                   Invite_Role = role, Invite_MaxUses = maxUses, Invite_Uses = 0,
                   Invite_ExpiresAt = pv expiresAt, Invite_Status = ''active'',
                   Invite_CreatedAt = pv now\<rparr>
          in (Inr v, d\<lparr>invites := invites d @ [v]\<rparr>)
     else (Inl Constraint, d))"

definition pg_GetInvite :: "uuid \<Rightarrow> Invite q" where
  "pg_GetInvite i = pg_query_row [] (\<lambda>d. List.find (\<lambda>v. Invite_ID v = i) (invites d))"

definition pg_ListInvitesForCircle :: "gotime \<Rightarrow> uuid \<Rightarrow> Invite list q" where
  "pg_ListInvitesForCircle now circleID = pg_query [] (\<lambda>d. sort_key (\<lambda>v. - Invite_CreatedAt v)
     (filter (\<lambda>v. Invite_CircleID v = circleID \<and> Invite_Status v = ''active'' \<and>
        Invite_ExpiresAt v > pv now) (invites d)))"

definition pg_RevokeInvite :: "uuid \<Rightarrow> uuid \<Rightarrow> unit q" where
  "pg_RevokeInvite i circleID = pg_exec [] (\<lambda>d. d\<lparr>invites :=
     update_where (\<lambda>v. Invite_ID v = i \<and> Invite_CircleID v = circleID)
       (\<lambda>v. v\<lparr>Invite_Status := ''revoked''\<rparr>) (invites d)\<rparr>)"

section \<open>key\_envelopes.sql.go\<close>

definition pg_CreateKeyEnvelope :: "gotime \<Rightarrow> uuid \<Rightarrow> uuid \<Rightarrow> uuid \<Rightarrow> uuid option \<Rightarrow> bytes \<Rightarrow> int
    \<Rightarrow> KeyEnvelope q" where
  "pg_CreateKeyEnvelope now i circleID recipient sender ct epoch = pg_stmt [] (\<lambda>d.
     let P = (\<lambda>e. Envelope_CircleID e = circleID \<and> Envelope_RecipientDeviceID e = recipient \<and>
                  Envelope_KeyEpoch e = epoch);
         f = (\<lambda>e. e\<lparr>Envelope_Ciphertext := ct, Envelope_SenderDeviceID := sender,
                    Envelope_CreatedAt := pv now, Envelope_ConsumedAt := None\<rparr>) in
     case List.find P (key_envelopes d) of
       Some e \<Rightarrow> if set_option sender \<subseteq> device_ids d
         then (Inr (f e), d\<lparr>key_envelopes := update_where P f (key_envelopes d)\<rparr>)
         else (Inl Constraint, d)
     | None \<Rightarrow> if fresh_in Envelope_ID i (key_envelopes d) \<and> circleID \<in> circle_ids d \<and>
           recipient \<in> device_ids d \<and> set_option sender \<subseteq> device_ids d
         then let e = \<lparr>Envelope_ID = i, Envelope_CircleID = circleID,
                   Envelope_RecipientDeviceID = recipient, Envelope_SenderDeviceID = sender,
                   Envelope_Ciphertext = ct, Envelope_KeyEpoch = epoch, Envelope_CreatedAt = pv now,
                   Envelope_ConsumedAt = None\<rparr>
              in (Inr e, d\<lparr>key_envelopes := key_envelopes d @ [e]\<rparr>)
         else (Inl Constraint, d))"

definition pg_MarkEnvelopeConsumed :: "gotime \<Rightarrow> uuid \<Rightarrow> uuid \<Rightarrow> unit q" where
  "pg_MarkEnvelopeConsumed now i recipient = pg_exec [] (\<lambda>d. d\<lparr>key_envelopes :=
     update_where (\<lambda>e. Envelope_ID e = i \<and> Envelope_RecipientDeviceID e = recipient \<and>
        Envelope_ConsumedAt e = None) (\<lambda>e. e\<lparr>Envelope_ConsumedAt := Some (pv now)\<rparr>) (key_envelopes d)\<rparr>)"

definition pg_PendingEnvelopesForDevice :: "uuid \<Rightarrow> KeyEnvelope list q" where
  "pg_PendingEnvelopesForDevice recipient = pg_query [] (\<lambda>d. take 500 (sort_key Envelope_CreatedAt
     (filter (\<lambda>e. Envelope_RecipientDeviceID e = recipient \<and> Envelope_ConsumedAt e = None)
       (key_envelopes d))))"

definition pg_PruneKeyEnvelopes :: "gotime \<Rightarrow> nat q" where
  "pg_PruneKeyEnvelopes now =
     (let P = (\<lambda>e. (\<exists>t\<in>set_option (Envelope_ConsumedAt e). t < pg_ago now (7 * Day)) \<or>
                   Envelope_ConsumedAt e = None \<and> Envelope_CreatedAt e < pg_ago now (30 * Day)) in
      pg_exec_rows [] (\<lambda>d. count_where P (key_envelopes d))
        (\<lambda>d. d\<lparr>key_envelopes := delete_where P (key_envelopes d)\<rparr>))"

section \<open>sos.sql.go\<close>

definition pg_CreateSOS :: "gotime \<Rightarrow> uuid \<Rightarrow> uuid \<Rightarrow> uuid option \<Rightarrow> bytes \<Rightarrow> SosEvent q" where
  "pg_CreateSOS now i circleID deviceID ct = pg_stmt [] (\<lambda>d.
     if fresh_in Sos_ID i (sos_events d) \<and> circleID \<in> circle_ids d \<and>
        set_option deviceID \<subseteq> device_ids d
     then let s = \<lparr>Sos_ID = i, Sos_CircleID = circleID, Sos_DeviceID = deviceID,
                   Sos_Ciphertext = ct, Sos_CreatedAt = pv now, Sos_ResolvedAt = None,
                   Sos_ResolvedBy = None\<rparr>
          in (Inr s, d\<lparr>sos_events := sos_events d @ [s]\<rparr>)
     else (Inl Constraint, d))"

definition pg_GetSOS :: "uuid \<Rightarrow> SosEvent q" where
  "pg_GetSOS i = pg_query_row [] (\<lambda>d. List.find (\<lambda>s. Sos_ID s = i) (sos_events d))"

definition pg_ListActiveSOS :: "uuid \<Rightarrow> SosEvent list q" where
  "pg_ListActiveSOS circleID = pg_query [] (\<lambda>d. sort_key (\<lambda>s. - Sos_CreatedAt s)
     (filter (\<lambda>s. Sos_CircleID s = circleID \<and> Sos_ResolvedAt s = None) (sos_events d)))"

definition pg_PruneResolvedSOS :: "gotime \<Rightarrow> nat q" where
  "pg_PruneResolvedSOS cutoff = (let P = (\<lambda>s. \<exists>t\<in>set_option (Sos_ResolvedAt s). t < pv cutoff) in
     pg_exec_rows [] (\<lambda>d. count_where P (sos_events d))
       (\<lambda>d. d\<lparr>sos_events := delete_where P (sos_events d)\<rparr>))"

definition pg_ResolveSOS :: "gotime \<Rightarrow> uuid \<Rightarrow> uuid \<Rightarrow> uuid option \<Rightarrow> SosEvent q" where
  "pg_ResolveSOS now i circleID resolvedBy = pg_stmt [] (\<lambda>d.
     let P = (\<lambda>s. Sos_ID s = i \<and> Sos_CircleID s = circleID \<and> Sos_ResolvedAt s = None);
         f = (\<lambda>s. s\<lparr>Sos_ResolvedAt := Some (pv now), Sos_ResolvedBy := resolvedBy\<rparr>) in
     case List.find P (sos_events d) of
       None \<Rightarrow> (Inl NoRows, d)
     | Some s \<Rightarrow> if set_option resolvedBy \<subseteq> user_ids d
         then (Inr (f s), d\<lparr>sos_events := update_where P f (sos_events d)\<rparr>)
         else (Inl Constraint, d))"

section \<open>places.sql.go\<close>

definition pg_CreatePlace :: "gotime \<Rightarrow> uuid \<Rightarrow> uuid \<Rightarrow> bytes \<Rightarrow> uuid option \<Rightarrow> PlacesEnc q" where
  "pg_CreatePlace now i circleID ct author = pg_stmt [] (\<lambda>d.
     if fresh_in Place_ID i (places_enc d) \<and> circleID \<in> circle_ids d \<and> set_option author \<subseteq> user_ids d
     then let p = \<lparr>Place_ID = i, Place_CircleID = circleID, Place_Ciphertext = ct, Place_Version = 1,
                   Place_Deleted = False, Place_UpdatedBy = author, Place_UpdatedAt = pv now,
                   Place_CreatedAt = pv now, Place_CreatedBy = author\<rparr>
          in (Inr p, d\<lparr>places_enc := places_enc d @ [p]\<rparr>)
     else (Inl Constraint, d))"

definition pg_ListPlaces :: "uuid \<Rightarrow> PlacesEnc list q" where
  "pg_ListPlaces circleID = pg_query [] (\<lambda>d. sort_key Place_CreatedAt
     (filter (\<lambda>p. Place_CircleID p = circleID \<and> \<not> Place_Deleted p) (places_enc d)))"

definition pg_PrunePlaceTombstones :: "gotime \<Rightarrow> nat q" where
  "pg_PrunePlaceTombstones cutoff = (let P = (\<lambda>p. Place_Deleted p \<and> Place_UpdatedAt p < pv cutoff) in
     pg_exec_rows [] (\<lambda>d. count_where P (places_enc d))
       (\<lambda>d. d\<lparr>places_enc := delete_where P (places_enc d)\<rparr>))"

definition pg_update_place :: "(PlacesEnc \<Rightarrow> bool) \<Rightarrow> uuid option \<Rightarrow> (PlacesEnc \<Rightarrow> PlacesEnc) \<Rightarrow> PlacesEnc q" where
  "pg_update_place P updatedBy f = pg_stmt [] (\<lambda>d. case List.find P (places_enc d) of
      None \<Rightarrow> (Inl NoRows, d)
    | Some p \<Rightarrow> if \<not> in_i32 (Place_Version (f p)) then (Inl ScanErr, d)
        else if set_option updatedBy \<subseteq> user_ids d
        then (Inr (f p), d\<lparr>places_enc := update_where P f (places_enc d)\<rparr>)
        else (Inl Constraint, d))"

definition pg_SoftDeletePlace :: "gotime \<Rightarrow> uuid \<Rightarrow> uuid \<Rightarrow> uuid option \<Rightarrow> PlacesEnc q" where
  "pg_SoftDeletePlace now i circleID updatedBy =
     pg_update_place (\<lambda>p. Place_ID p = i \<and> Place_CircleID p = circleID \<and> \<not> Place_Deleted p) updatedBy
       (\<lambda>p. p\<lparr>Place_Deleted := True, Place_Version := Place_Version p + 1,
              Place_UpdatedBy := updatedBy, Place_UpdatedAt := pv now\<rparr>)"

definition pg_UpdatePlace :: "gotime \<Rightarrow> uuid \<Rightarrow> uuid \<Rightarrow> bytes \<Rightarrow> uuid option \<Rightarrow> int \<Rightarrow> PlacesEnc q" where
  "pg_UpdatePlace now i circleID ct updatedBy version =
     pg_update_place (\<lambda>p. Place_ID p = i \<and> Place_CircleID p = circleID \<and> Place_Version p = version \<and>
         \<not> Place_Deleted p) updatedBy
       (\<lambda>p. p\<lparr>Place_Ciphertext := ct, Place_Version := Place_Version p + 1,
              Place_UpdatedBy := updatedBy, Place_UpdatedAt := pv now\<rparr>)"

section \<open>mutes.sql.go\<close>

text \<open>\<^verbatim>\<open>user_id = ANY($2)\<close>; the statement is sent for an empty array too.\<close>

definition pg_CountMembersIn :: "uuid \<Rightarrow> uuid list \<Rightarrow> nat q" where
  "pg_CountMembersIn circleID userIDs = pg_query [] (\<lambda>d. count_where
     (\<lambda>m. Member_CircleID m = circleID \<and> Member_UserID m \<in> set userIDs) (circle_members d))"

definition pg_DeleteMutes :: "uuid \<Rightarrow> uuid \<Rightarrow> unit q" where
  "pg_DeleteMutes userID circleID = pg_exec [] (\<lambda>d. d\<lparr>notification_mutes :=
     delete_where (\<lambda>m. Mute_UserID m = userID \<and> Mute_CircleID m = circleID) (notification_mutes d)\<rparr>)"

text \<open>\<^verbatim>\<open>UNIQUE NULLS NOT DISTINCT\<close>: two whole-circle mutes are duplicates.\<close>

definition pg_InsertMute :: "gotime \<Rightarrow> uuid \<Rightarrow> uuid \<Rightarrow> uuid option \<Rightarrow> unit q" where
  "pg_InsertMute now userID circleID muted = pg_stmt [] (\<lambda>d.
     if \<exists>m\<in>set (notification_mutes d). Mute_UserID m = userID \<and> Mute_CircleID m = circleID \<and>
          Mute_MutedUserID m = muted then (Inr (), d)
     else if userID \<in> user_ids d \<and> circleID \<in> circle_ids d \<and> set_option muted \<subseteq> user_ids d
     then (Inr (), d\<lparr>notification_mutes := notification_mutes d @
        [\<lparr>Mute_UserID = userID, Mute_CircleID = circleID, Mute_MutedUserID = muted,
          Mute_CreatedAt = pv now\<rparr>]\<rparr>)
     else (Inl Constraint, d))"

definition pg_ListMutes :: "uuid \<Rightarrow> uuid \<Rightarrow> uuid option list q" where
  "pg_ListMutes userID circleID = pg_query [] (\<lambda>d. map Mute_MutedUserID (sort_key Mute_CreatedAt
     (filter (\<lambda>m. Mute_UserID m = userID \<and> Mute_CircleID m = circleID) (notification_mutes d))))"

section \<open>Agreement with SQLite\<close>

text \<open>The counters of every circle and place can be read and incremented in 32 bits.\<close>

definition counters_ok :: "db \<Rightarrow> bool" where
  "counters_ok d \<longleftrightarrow>
     (\<forall>c\<in>set (circles d). in_i32 (Circle_RetentionDays c) \<and> in_i32 (Circle_KeyEpoch c) \<and> in_i32 (Circle_KeyEpoch c + 1)) \<and>
     (\<forall>p\<in>set (places_enc d). in_i32 (Place_Version p) \<and> in_i32 (Place_Version p + 1))"

lemma tables_only_counters [simp]: "tables_only counters_ok"
  by (simp add: tables_only_def counters_ok_def)

lemma tables_only_conj [simp]: "tables_only I \<Longrightarrow> tables_only J \<Longrightarrow> tables_only (\<lambda>d. I d \<and> J d)"
  by (simp add: tables_only_def)

lemmas row_updates = update_where_map map_update_where

lemma pg_AddMember_agrees [pg_agree]:
  "whole now \<Longrightarrow> pg_text r \<Longrightarrow> agrees anywhere sc_Member (pg_AddMember now c u r) (AddMember now c u r)"
  unfolding pg_AddMember_def AddMember_def member_is_def [abs_def] roles_def Let_def
  by (rule agrees_stmt)
    (simp_all add: sc_simps sc_Member_def row_updates pv_whole split: option.split cong: if_cong, blast)

lemma pg_AllCircleRetention_agrees [pg_agree]: "agrees anywhere id pg_AllCircleRetention AllCircleRetention"
  unfolding pg_AllCircleRetention_def AllCircleRetention_def
  by (rule agrees_query) (simp_all add: sc_simps sc_Circle_def)

lemma pg_CountOwners_agrees [pg_agree]: "agrees anywhere id (pg_CountOwners c) (CountOwners c)"
  unfolding pg_CountOwners_def CountOwners_def
  by (rule agrees_query) (simp_all add: sc_simps sc_Member_def)

lemma pg_CreateCircle_agrees [pg_agree]:
  "whole now \<Longrightarrow> agrees anywhere sc_Circle (pg_CreateCircle now i n r u) (CreateCircle now i n r u)"
  unfolding pg_CreateCircle_def CreateCircle_def
  by (rule agrees_stmt) (simp_all add: sc_simps sc_Circle_def pv_whole Let_def)

lemma pg_DeleteCircle_agrees [pg_agree]: "agrees anywhere id (pg_DeleteCircle i) (DeleteCircle i)"
  unfolding pg_DeleteCircle_def DeleteCircle_def circle_is_def [abs_def]
  by (rule agrees_exec) (simp_all add: sc_simps sc_row_defs)

lemma pg_GetMembership_agrees [pg_agree]:
  "agrees anywhere sc_Member (pg_GetMembership c u) (GetMembership c u)"
  unfolding pg_GetMembership_def GetMembership_def member_is_def [abs_def]
  by (rule agrees_query_row) (simp_all add: sc_simps sc_Member_def)

lemma pg_RemoveMember_agrees [pg_agree]: "agrees anywhere id (pg_RemoveMember c u) (RemoveMember c u)"
  unfolding pg_RemoveMember_def RemoveMember_def member_is_def [abs_def]
  by (rule agrees_exec) (simp_all add: sc_simps sc_Member_def)

lemma pg_SetMemberProfile_agrees [pg_agree]:
  "agrees anywhere id (pg_SetMemberProfile c u p) (SetMemberProfile c u p)"
  unfolding pg_SetMemberProfile_def SetMemberProfile_def member_is_def [abs_def]
  by (rule agrees_exec) (simp_all add: sc_simps sc_Member_def row_updates)

lemma pg_SetMemberRole_agrees [pg_agree]:
  "pg_text r \<Longrightarrow> agrees anywhere sc_Member (pg_SetMemberRole c u r) (SetMemberRole c u r)"
  unfolding pg_SetMemberRole_def SetMemberRole_def update_member_def member_is_def [abs_def] roles_def Let_def
  by (rule agrees_stmt) (simp_all add: sc_simps sc_Member_def row_updates split: option.split cong: if_cong)

lemma pg_SetPrecisionMode_agrees [pg_agree]:
  "pg_text r \<Longrightarrow> agrees anywhere sc_Member (pg_SetPrecisionMode c u r) (SetPrecisionMode c u r)"
  unfolding pg_SetPrecisionMode_def SetPrecisionMode_def update_member_def member_is_def [abs_def] precisions_def Let_def
  by (rule agrees_stmt) (simp_all add: sc_simps sc_Member_def row_updates split: option.split cong: if_cong)

lemma pg_GetCircle_agrees [pg_agree]: "agrees counters_ok sc_Circle (pg_GetCircle i) (GetCircle i)"
  unfolding pg_GetCircle_def pg_query_row_def GetCircle_def circle_is_def [abs_def]
  by (rule agrees_stmt)
    (auto simp: sc_simps sc_Circle_def scanCircle_def counters_ok_def split: option.split dest!: find_Some_in)

lemma pg_update_circle_agrees:
  assumes "tables_only I" and "\<And>c. f' (sc_Circle c) = sc_Circle (f c)"
    and "\<And>d c. I d \<Longrightarrow> c \<in> set (circles d) \<Longrightarrow> bad (f' (sc_Circle c)) = None \<and> scanCircle (f c) = Inr (f c)"
  shows "agrees I sc_Circle (pg_update_circle i bad f') (stmt (update_circle i f))"
  unfolding pg_update_circle_def
proof (rule agrees_stmt)
  fix d assume d: "I d"
  have P: "Circle_ID (sc_Circle c) = Circle_ID c" for c by (simp add: sc_Circle_def)
  have upd: "update_where (\<lambda>c. Circle_ID c = i) f' (map sc_Circle (circles d)) =
      map sc_Circle (update_where (circle_is i) f (circles d))"
    by (rule update_where_row) (simp_all add: P circle_is_def assms(2))
  show "(case List.find (\<lambda>c. Circle_ID c = i) (circles (sc_db d)) of None \<Rightarrow> (Inl NoRows, sc_db d)
    | Some c \<Rightarrow> (case bad (f' c) of Some e \<Rightarrow> (Inl e, sc_db d)
        | None \<Rightarrow> (Inr (f' c), (sc_db d)\<lparr>circles := update_where (\<lambda>c. Circle_ID c = i) f' (circles (sc_db d))\<rparr>))) =
    (case update_circle i f d of (r, d') \<Rightarrow> (map_sum id sc_Circle r, sc_db d'))"
    using assms(3) [OF d]
    by (auto simp: update_circle_def sc_simps P upd assms(2) circle_is_def [abs_def] split: option.split dest!: find_Some_in)
qed (simp_all add: assms)

lemma pg_BumpCircleKeyEpoch_agrees [pg_agree]:
  "agrees counters_ok sc_Circle (pg_BumpCircleKeyEpoch i) (BumpCircleKeyEpoch i)"
  unfolding pg_BumpCircleKeyEpoch_def BumpCircleKeyEpoch_def
  by (rule pg_update_circle_agrees)
    (simp_all add: sc_Circle_def bump_epoch_def scanCircle_def, simp_all add: counters_ok_def)

lemma pg_UpdateCircleName_agrees [pg_agree]:
  "agrees counters_ok sc_Circle (pg_UpdateCircleName i n) (UpdateCircleName i n)"
  unfolding pg_UpdateCircleName_def UpdateCircleName_def
  by (rule pg_update_circle_agrees) (simp_all add: sc_Circle_def scanCircle_def, simp_all add: counters_ok_def)

lemma pg_UpdateCircleRetention_agrees [pg_agree]:
  "agrees counters_ok sc_Circle (pg_UpdateCircleRetention i n) (UpdateCircleRetention i n)"
proof (cases "1 \<le> n \<and> n \<le> 3650")
  case True
  have "in_i32 n" using True by (simp add: in_i32_def)
  with True show ?thesis unfolding pg_UpdateCircleRetention_def UpdateCircleRetention_def
    by (simp only: simp_thms if_False)
      (rule pg_update_circle_agrees, simp_all add: sc_Circle_def scanCircle_def, simp_all add: counters_ok_def)
next
  case False
  have "i \<in> circle_ids d \<longleftrightarrow> List.find (circle_is i) (circles d) \<noteq> None" for d
    by (auto simp: circle_ids_def circle_is_def find_None_all)
  with False show ?thesis
    unfolding pg_UpdateCircleRetention_def UpdateCircleRetention_def pg_update_circle_def
    by (intro agrees_stmt)
      (auto simp: update_circle_def sc_simps sc_Circle_def circle_is_def [abs_def] split: option.split)
qed

lemma scan_all_ok: "\<forall>x\<in>set xs. scan x = Inr x \<Longrightarrow> scan_all scan xs = Inr xs"
  by (induction xs) simp_all

lemma pg_ListCirclesForUser_agrees [pg_agree]:
  "agrees counters_ok (map (map_prod sc_Circle id)) (pg_ListCirclesForUser u) (ListCirclesForUser u)"
proof -
  let ?key = "\<lambda>(c, _). Circle_CreatedAt c"
  let ?rows = "\<lambda>d. [(c, Member_Role m, Member_PrecisionMode m). c \<leftarrow> circles d, m \<leftarrow> circle_members d,
      Member_CircleID m = Circle_ID c \<and> Member_UserID m = u]"
  have join: "?rows (sc_db d) = map (map_prod sc_Circle id) (?rows d)" for d
    unfolding sc_db_tables by (rule join_map) (simp_all add: sc_Circle_def sc_Member_def)
  have sort: "sort_key ?key (map (map_prod sc_Circle id) xs) = map (map_prod sc_Circle id) (sort_key ?key xs)"
    for xs :: "(Circle \<times> string \<times> string) list"
    by (rule sort_key_rows) (auto simp: sc_Circle_def)
  have scan: "scan_all (\<lambda>(c, r). case scanCircle c of Inl e \<Rightarrow> Inl e | Inr c' \<Rightarrow> Inr (c', r)) (sort_key ?key (?rows d)) =
      Inr (sort_key ?key (?rows d))" if "counters_ok d" for d
    by (rule scan_all_ok) (use that in \<open>auto simp: counters_ok_def scanCircle_def\<close>)
  show ?thesis unfolding pg_ListCirclesForUser_def pg_query_def ListCirclesForUser_def
    by (rule agrees_stmt) (simp_all only: join sort scan list.set ball_empty tables_only_counters prod.case map_sum.simps)
qed

lemma pg_ListMembers_agrees [pg_agree]:
  "agrees anywhere (map (map_prod sc_Member id)) (pg_ListMembers c) (ListMembers c)"
proof -
  let ?key = "\<lambda>(m, _). Member_JoinedAt m"
  let ?rows = "\<lambda>d. [(m, User_Email u). m \<leftarrow> circle_members d, u \<leftarrow> users d,
        User_ID u = Member_UserID m \<and> Member_CircleID m = c]"
  have join: "?rows (sc_db d) = map (map_prod sc_Member id) (?rows d)" for d
    unfolding sc_db_tables by (rule join_map) (simp_all add: sc_User_def sc_Member_def)
  have sort: "sort_key ?key (map (map_prod sc_Member id) xs) = map (map_prod sc_Member id) (sort_key ?key xs)"
    for xs :: "(CircleMember \<times> string) list"
    by (rule sort_key_rows) (auto simp: sc_Member_def)
  show ?thesis unfolding pg_ListMembers_def ListMembers_def
    by (rule agrees_query) (simp_all only: join sort list.set ball_empty anywhere_simps)
qed

lemma pg_ConsumeInvite_agrees [pg_agree]:
  "whole now \<Longrightarrow> agrees anywhere sc_Invite (pg_ConsumeInvite now i) (ConsumeInvite now i)"
  unfolding pg_ConsumeInvite_def ConsumeInvite_def consumable_def [abs_def] use_invite_def [abs_def] Let_def
  by (rule agrees_stmt) (simp_all add: sc_simps sc_Invite_def row_updates pv_whole split: option.split)

lemma pg_CountRecentInvitesByUser_agrees [pg_agree]:
  "whole now \<Longrightarrow> agrees anywhere id (pg_CountRecentInvitesByUser now u) (CountRecentInvitesByUser now u)"
  unfolding pg_CountRecentInvitesByUser_def CountRecentInvitesByUser_def
  by (rule agrees_query) (simp_all add: sc_simps sc_Invite_def pg_ago_whole)

lemma pg_CreateInvite_agrees [pg_agree]:
  "whole now \<Longrightarrow> whole ex \<Longrightarrow> pg_text r \<Longrightarrow>
   agrees anywhere sc_Invite (pg_CreateInvite now i c u r m ex) (CreateInvite now i c u r m ex)"
  unfolding pg_CreateInvite_def CreateInvite_def
  by (rule agrees_stmt) (simp_all add: sc_simps sc_Invite_def pv_whole Let_def)

lemma pg_GetInvite_agrees [pg_agree]: "agrees anywhere sc_Invite (pg_GetInvite i) (GetInvite i)"
  unfolding pg_GetInvite_def GetInvite_def
  by (rule agrees_query_row) (simp_all add: sc_simps sc_Invite_def)

lemma pg_ListInvitesForCircle_agrees [pg_agree]:
  "whole now \<Longrightarrow> agrees anywhere (map sc_Invite) (pg_ListInvitesForCircle now c) (ListInvitesForCircle now c)"
  unfolding pg_ListInvitesForCircle_def ListInvitesForCircle_def
  by (rule agrees_query) (simp_all add: sc_simps sc_Invite_def pv_whole)

lemma pg_RevokeInvite_agrees [pg_agree]: "agrees anywhere id (pg_RevokeInvite i c) (RevokeInvite i c)"
  unfolding pg_RevokeInvite_def RevokeInvite_def
  by (rule agrees_exec) (simp_all add: sc_simps sc_Invite_def row_updates)

text \<open>
  The upserts agree on a consistent database when the generated id is new.
\<close>

definition fresh_envelope :: "uuid \<Rightarrow> db \<Rightarrow> bool" where
  "fresh_envelope i d \<longleftrightarrow> db_ok d \<and> fresh_in Envelope_ID i (key_envelopes d)"

lemma tables_only_fresh_envelope [simp]: "tables_only (fresh_envelope i)"
  by (simp add: tables_only_def fresh_envelope_def)

lemma pg_CreateKeyEnvelope_agrees [pg_agree]:
  assumes "whole now"
  shows "agrees (fresh_envelope i) sc_Envelope (pg_CreateKeyEnvelope now i c v s ct ep) (CreateKeyEnvelope now i c v s ct ep)"
proof -
  have "Envelope_CircleID e \<in> circle_ids d \<and> Envelope_RecipientDeviceID e \<in> device_ids d"
    if "fresh_envelope i d" "e \<in> set (key_envelopes d)" for d e
    using that by (simp add: fresh_envelope_def)
  then have ids: "c \<in> circle_ids d \<and> v \<in> device_ids d"
    if "fresh_envelope i d" "List.find (\<lambda>e. Envelope_CircleID e = c \<and> Envelope_RecipientDeviceID e = v \<and>
       Envelope_KeyEpoch e = ep) (key_envelopes d) = Some e" for d e
    using that find_Some_in [OF that(2)] by blast
  have fresh: "fresh_envelope i d \<Longrightarrow> fresh_in Envelope_ID i (key_envelopes d)" for d
    by (simp add: fresh_envelope_def)
  show ?thesis
    unfolding pg_CreateKeyEnvelope_def CreateKeyEnvelope_def envelope_key_def prod.inject Let_def
    by (rule agrees_stmt)
      (use assms ids fresh in \<open>simp_all add: sc_simps sc_Envelope_def row_updates pv_whole
         split: option.split cong: if_cong\<close>)
qed

lemma pg_MarkEnvelopeConsumed_agrees [pg_agree]:
  "whole now \<Longrightarrow> agrees anywhere id (pg_MarkEnvelopeConsumed now i v) (MarkEnvelopeConsumed now i v)"
  unfolding pg_MarkEnvelopeConsumed_def MarkEnvelopeConsumed_def
  by (rule agrees_exec) (simp_all add: sc_simps sc_Envelope_def row_updates pv_whole)

lemma pg_PendingEnvelopesForDevice_agrees [pg_agree]:
  "agrees anywhere (map sc_Envelope) (pg_PendingEnvelopesForDevice v) (PendingEnvelopesForDevice v)"
  unfolding pg_PendingEnvelopesForDevice_def PendingEnvelopesForDevice_def
  by (rule agrees_query) (simp_all add: sc_simps sc_Envelope_def take_map)

lemma opt_before: "(\<exists>t\<in>set_option (map_option sc x). t < sc b) \<longleftrightarrow> (case x of None \<Rightarrow> False | Some t \<Rightarrow> t < b)"
  by (cases x) (simp_all add: sc_simps)

lemma pg_PruneKeyEnvelopes_agrees [pg_agree]:
  "whole now \<Longrightarrow> agrees anywhere id (pg_PruneKeyEnvelopes now) (PruneKeyEnvelopes now)"
proof -
  assume now: "whole now"
  have "((\<exists>t\<in>set_option (Envelope_ConsumedAt (sc_Envelope e)). t < pg_ago now (7 * Day)) \<or>
      Envelope_ConsumedAt (sc_Envelope e) = None \<and> Envelope_CreatedAt (sc_Envelope e) < pg_ago now (30 * Day)) =
    stale_envelope now e" for e
    by (cases "Envelope_ConsumedAt e")
      (simp_all add: sc_Envelope_def stale_envelope_def pg_ago_whole now opt_before sc_simps)
  then show ?thesis unfolding pg_PruneKeyEnvelopes_def PruneKeyEnvelopes_def Let_def
    by (intro agrees_exec_rows) (simp_all add: sc_simps)
qed

lemma pg_CreateSOS_agrees [pg_agree]:
  "whole now \<Longrightarrow> agrees anywhere sc_Sos (pg_CreateSOS now i c v ct) (CreateSOS now i c v ct)"
  unfolding pg_CreateSOS_def CreateSOS_def
  by (rule agrees_stmt) (simp_all add: sc_simps sc_Sos_def pv_whole Let_def)

lemma pg_GetSOS_agrees [pg_agree]: "agrees anywhere sc_Sos (pg_GetSOS i) (GetSOS i)"
  unfolding pg_GetSOS_def GetSOS_def
  by (rule agrees_query_row) (simp_all add: sc_simps sc_Sos_def)

lemma pg_ListActiveSOS_agrees [pg_agree]:
  "agrees anywhere (map sc_Sos) (pg_ListActiveSOS c) (ListActiveSOS c)"
  unfolding pg_ListActiveSOS_def ListActiveSOS_def
  by (rule agrees_query) (simp_all add: sc_simps sc_Sos_def)

lemma pg_PruneResolvedSOS_agrees [pg_agree]:
  "whole t \<Longrightarrow> agrees anywhere id (pg_PruneResolvedSOS t) (PruneResolvedSOS t)"
  unfolding pg_PruneResolvedSOS_def PruneResolvedSOS_def resolved_before_def [abs_def] Let_def
  by (rule agrees_exec_rows) (simp_all add: sc_simps sc_Sos_def pv_whole opt_before)

lemma pg_ResolveSOS_agrees [pg_agree]:
  "whole now \<Longrightarrow> agrees anywhere sc_Sos (pg_ResolveSOS now i c u) (ResolveSOS now i c u)"
  unfolding pg_ResolveSOS_def ResolveSOS_def active_sos_def [abs_def] Let_def
  by (rule agrees_stmt) (simp_all add: sc_simps sc_Sos_def row_updates pv_whole split: option.split cong: if_cong)

lemma pg_CreatePlace_agrees [pg_agree]:
  "whole now \<Longrightarrow> agrees anywhere sc_Place (pg_CreatePlace now i c ct u) (CreatePlace now i c ct u)"
  unfolding pg_CreatePlace_def CreatePlace_def
  by (rule agrees_stmt) (simp_all add: sc_simps sc_Place_def pv_whole Let_def)

lemma pg_ListPlaces_agrees [pg_agree]:
  "agrees counters_ok (map sc_Place) (pg_ListPlaces c) (ListPlaces c)"
  unfolding pg_ListPlaces_def pg_query_def ListPlaces_def
  by (rule agrees_stmt)
    (simp_all add: scan_all_ok counters_ok_def scanPlace_def sc_simps, simp_all add: sc_simps sc_Place_def)

lemma pg_PrunePlaceTombstones_agrees [pg_agree]:
  "whole t \<Longrightarrow> agrees anywhere id (pg_PrunePlaceTombstones t) (PrunePlaceTombstones t)"
  unfolding pg_PrunePlaceTombstones_def PrunePlaceTombstones_def tombstone_before_def [abs_def] Let_def
  by (rule agrees_exec_rows) (simp_all add: sc_simps sc_Place_def pv_whole)

lemma pg_update_place_agrees:
  assumes "\<And>p. P' (sc_Place p) = P p" and "\<And>p. f' (sc_Place p) = sc_Place (f p)"
    and "\<And>p. Place_Version (f p) = Place_Version p + 1"
  shows "agrees counters_ok sc_Place (pg_update_place P' u f') (update_place P u f)"
  unfolding pg_update_place_def update_place_def
proof (rule agrees_stmt)
  fix d assume d: "counters_ok d"
  have upd: "update_where P' f' (map sc_Place (places_enc d)) = map sc_Place (update_where P f (places_enc d))"
    by (rule update_where_row) (simp_all add: assms)
  have v: "Place_Version (sc_Place p) = Place_Version p" for p by (simp add: sc_Place_def)
  show "(case List.find P' (places_enc (sc_db d)) of None \<Rightarrow> (Inl NoRows, sc_db d)
    | Some p \<Rightarrow> if \<not> in_i32 (Place_Version (f' p)) then (Inl ScanErr, sc_db d)
        else if set_option u \<subseteq> user_ids (sc_db d)
        then (Inr (f' p), (sc_db d)\<lparr>places_enc := update_where P' f' (places_enc (sc_db d))\<rparr>)
        else (Inl Constraint, sc_db d)) =
    (case (case List.find P (places_enc d) of None \<Rightarrow> (Inl NoRows, d)
    | Some p \<Rightarrow> if set_option u \<subseteq> user_ids d
        then (scanPlace (f p), d\<lparr>places_enc := update_where P f (places_enc d)\<rparr>)
        else (Inl Constraint, d)) of (r, d') \<Rightarrow> (map_sum id sc_Place r, sc_db d'))"
    using d by (auto simp: sc_simps upd assms v scanPlace_def counters_ok_def split: option.split dest!: find_Some_in)
qed simp_all

lemma pg_SoftDeletePlace_agrees [pg_agree]:
  "whole now \<Longrightarrow> agrees counters_ok sc_Place (pg_SoftDeletePlace now i c u) (SoftDeletePlace now i c u)"
  unfolding pg_SoftDeletePlace_def SoftDeletePlace_def
  by (rule pg_update_place_agrees) (simp_all add: sc_Place_def live_place_def pv_whole)

lemma pg_UpdatePlace_agrees [pg_agree]:
  "whole now \<Longrightarrow> agrees counters_ok sc_Place (pg_UpdatePlace now i c ct u v) (UpdatePlace now i c ct u v)"
  unfolding pg_UpdatePlace_def UpdatePlace_def
  by (rule pg_update_place_agrees) (simp_all add: sc_Place_def live_place_def pv_whole conj_ac)

lemma pg_CountMembersIn_agrees [pg_agree]:
  "us \<noteq> [] \<Longrightarrow> agrees anywhere id (pg_CountMembersIn c us) (CountMembersIn c us)"
  unfolding pg_CountMembersIn_def CountMembersIn_def
  by (simp, rule agrees_query) (simp_all add: sc_simps sc_Member_def)

lemma pg_DeleteMutes_agrees [pg_agree]: "agrees anywhere id (pg_DeleteMutes u c) (DeleteMutes u c)"
  unfolding pg_DeleteMutes_def DeleteMutes_def
  by (rule agrees_exec) (simp_all add: sc_simps sc_Mute_def)

lemma mute_dup:
  "(u, c, m) \<in> set (map mute_key (notification_mutes d)) \<longleftrightarrow>
   (\<exists>x\<in>set (notification_mutes (sc_db d)). Mute_UserID x = u \<and> Mute_CircleID x = c \<and> Mute_MutedUserID x = m)"
  by (auto simp: mute_key_def sc_simps sc_Mute_def)

lemma lift_if:
  assumes "a = (case x of (r, d') \<Rightarrow> F r d')" and "b = (case y of (r, d') \<Rightarrow> F r d')"
  shows "(if C then a else b) = (case if C then x else y of (r, d') \<Rightarrow> F r d')"
  using assms by simp

lemma pg_InsertMute_agrees [pg_agree]:
  "whole now \<Longrightarrow> agrees anywhere id (pg_InsertMute now u c m) (InsertMute now u c m)"
  unfolding pg_InsertMute_def InsertMute_def mute_dup
  by (rule agrees_stmt, simp, simp, simp only: sc_db_ids, intro lift_if)
    (simp_all add: sc_simps sc_Mute_def pv_whole)

lemma pg_ListMutes_agrees [pg_agree]: "agrees anywhere id (pg_ListMutes u c) (ListMutes u c)"
  unfolding pg_ListMutes_def ListMutes_def
  by (rule agrees_query) (simp_all add: sc_simps sc_Mute_def)

lemma find_update_where:
  "(\<And>r. P r \<Longrightarrow> P (f r)) \<Longrightarrow> List.find P (update_where P f xs) = map_option f (List.find P xs)"
  by (induction xs) auto

text \<open>
  Where they part: the increment past \<^verbatim>\<open>int32\<close>. Postgres refuses it and nothing changes; SQLite
  stores the value and fails the scan, and every later read of the circle fails too.
\<close>

lemma epoch_overflow_diverges:
  assumes "faults d = []" and "List.find (circle_is i) (circles d) = Some c"
    and "Circle_KeyEpoch c = 2 ^ 31 - 1"
  shows "pg_BumpCircleKeyEpoch i (sc_db d) = (Inl ScanErr, sc_db d)"
    and "fst (pg_GetCircle i (snd (pg_BumpCircleKeyEpoch i (sc_db d)))) = Inr (sc_Circle c)"
    and "fst (BumpCircleKeyEpoch i d) = Inl ScanErr"
    and "fst (GetCircle i (snd (BumpCircleKeyEpoch i d))) = Inl ScanErr"
proof -
  have f: "List.find (\<lambda>c. Circle_ID c = i) (circles (sc_db d)) = Some (sc_Circle c)"
    using assms(2) by (simp add: sc_simps sc_Circle_def circle_is_def [abs_def])
  have quiet: "faults (sc_db d) = []" using assms(1) by (simp add: sc_simps)
  have over: "\<not> in_i32 (Circle_KeyEpoch (sc_Circle c) + 1)" using assms(3) by (simp add: sc_Circle_def in_i32_def)
  show pg: "pg_BumpCircleKeyEpoch i (sc_db d) = (Inl ScanErr, sc_db d)"
    by (simp add: pg_BumpCircleKeyEpoch_def pg_update_circle_def pg_stmt_def stmt_nofault [OF quiet] f over)
  show "fst (pg_GetCircle i (snd (pg_BumpCircleKeyEpoch i (sc_db d)))) = Inr (sc_Circle c)"
    by (simp add: pg pg_GetCircle_def pg_query_row_def pg_stmt_def stmt_nofault [OF quiet] f)
  have "List.find (circle_is i) (update_where (circle_is i) bump_epoch (circles d)) = Some (bump_epoch c)"
    using assms(2) by (subst find_update_where) (simp_all add: circle_is_def bump_epoch_def)
  moreover have "scanCircle (bump_epoch c) = Inl ScanErr"
    using assms(3) by (simp add: scanCircle_def bump_epoch_def in_i32_def)
  ultimately show "fst (BumpCircleKeyEpoch i d) = Inl ScanErr"
    "fst (GetCircle i (snd (BumpCircleKeyEpoch i d))) = Inl ScanErr"
    using assms(1,2) by (simp_all add: BumpCircleKeyEpoch_def GetCircle_def update_circle_def)
qed

end
