(* ===== verification/Aul_Pg_Feeds.thy ===== *)
theory Aul_Pg_Feeds
  imports Aul_Pg_Circles "HOL-Library.Multiset"
begin

text \<open>
  The Postgres statements on pings, live shares, push subscriptions and app versions
  (\<^verbatim>\<open>pings.sql.go\<close>, \<^verbatim>\<open>share.sql.go\<close>, \<^verbatim>\<open>misc.sql.go\<close>) and their agreement with SQLite. The table of
  pings is partitioned by \<^verbatim>\<open>captured_at\<close>: a ping for which there is no partition is refused before
  anything else is looked at. The latest positions are a \<^verbatim>\<open>DISTINCT ON\<close> here and a window function
  in SQLite; \<open>distinct_on_latest\<close> shows that they are the same rows.
\<close>

section \<open>pings.sql.go\<close>

text \<open>A partition holds the instants from \<open>part_from\<close> up to but excluding \<open>part_to\<close>.\<close>

record partition =
  part_name :: string
  part_from :: sqltime
  part_to :: sqltime

definition routed :: "partition list \<Rightarrow> sqltime \<Rightarrow> bool" where
  "routed parts t \<longleftrightarrow> (\<exists>p\<in>set parts. part_from p \<le> t \<and> t < part_to p)"

definition pg_CountPingsForCircle :: "uuid \<Rightarrow> nat q" where
  "pg_CountPingsForCircle circleID = pg_query [] (\<lambda>d. count_where (\<lambda>p. Ping_CircleID p = circleID) (pings d))"

definition pg_InsertPing :: "partition list \<Rightarrow> gotime \<Rightarrow> uuid \<Rightarrow> uuid \<Rightarrow> uuid \<Rightarrow> string \<Rightarrow> bytes \<Rightarrow> bytes
    \<Rightarrow> gotime \<Rightarrow> gotime option \<Rightarrow> Ping q" where
  "pg_InsertPing parts now i circleID deviceID clientID nonce ct capturedAt expiresAt = pg_stmt [clientID] (\<lambda>d.
     if \<not> routed parts (pv capturedAt) then (Inl Constraint, d)
     else if (deviceID, clientID, pv capturedAt) \<in> set (map ping_key (pings d)) then (Inl NoRows, d)
     else if fresh_in (\<lambda>p. (Ping_ID p, Ping_CapturedAt p)) (i, pv capturedAt) (pings d) \<and>
          circleID \<in> circle_ids d \<and> deviceID \<in> device_ids d
     then let p = \<lparr>Ping_ID = i, Ping_CircleID = circleID, Ping_DeviceID = deviceID,
                   Ping_ClientID = clientID, Ping_Nonce = nonce, Ping_Ciphertext = ct,
                   Ping_CapturedAt = pv capturedAt, Ping_ReceivedAt = pv now,
                   Ping_ExpiresAt = map_option pv expiresAt\<rparr>
          in (Inr p, d\<lparr>pings := pings d @ [p]\<rparr>)
     else (Inl Constraint, d))"

text \<open>\<^verbatim>\<open>SELECT DISTINCT ON (key)\<close>: the first row of every run of equal keys.\<close>

fun distinct_on :: "('r \<Rightarrow> 'k) \<Rightarrow> 'r list \<Rightarrow> 'r list" where
  "distinct_on key [] = []"
| "distinct_on key [x] = [x]"
| "distinct_on key (x # y # zs) =
     (if key y = key x then distinct_on key (x # zs) else x # distinct_on key (y # zs))"

text \<open>\<^verbatim>\<open>ORDER BY device_id, captured_at DESC\<close>.\<close>

definition pg_LatestPingsForCircle :: "uuid \<Rightarrow> Ping list q" where
  "pg_LatestPingsForCircle circleID = pg_query [] (\<lambda>d. distinct_on Ping_DeviceID
     (sort_key Ping_DeviceID (sort_key (\<lambda>p. - Ping_CapturedAt p)
       (filter (\<lambda>p. Ping_CircleID p = circleID) (pings d)))))"

section \<open>misc.sql.go: maintenance of pings\<close>

definition pg_delete_pings :: "(Ping \<Rightarrow> bool) \<Rightarrow> nat q" where
  "pg_delete_pings old = (let P = (\<lambda>ps p. old p \<and> (\<exists>newer\<in>set ps. Ping_CircleID newer = Ping_CircleID p \<and>
       Ping_DeviceID newer = Ping_DeviceID p \<and> Ping_CapturedAt newer > Ping_CapturedAt p)) in
     pg_exec_rows [] (\<lambda>d. count_where (P (pings d)) (pings d))
       (\<lambda>d. d\<lparr>pings := delete_where (P (pings d)) (pings d)\<rparr>))"

definition pg_DeleteExpiredPingsForCircle :: "gotime \<Rightarrow> uuid \<Rightarrow> int \<Rightarrow> nat q" where
  "pg_DeleteExpiredPingsForCircle now circleID retentionDays = pg_delete_pings (\<lambda>p.
     Ping_CircleID p = circleID \<and> Ping_CapturedAt p < pg_ago now (retentionDays * Day))"

definition pg_PruneStalePings :: "gotime \<Rightarrow> int \<Rightarrow> nat q" where
  "pg_PruneStalePings now keepHours = pg_delete_pings (\<lambda>p. Ping_CapturedAt p < pg_ago now (keepHours * Hour))"

section \<open>share.sql.go\<close>

definition pg_update_share :: "(ShareSession \<Rightarrow> bool) \<Rightarrow> (ShareSession \<Rightarrow> ShareSession) \<Rightarrow> ShareSession q" where
  "pg_update_share P f = pg_stmt [] (\<lambda>d. case List.find P (share_sessions d) of
      None \<Rightarrow> (Inl NoRows, d)
    | Some s \<Rightarrow> (Inr (f s), d\<lparr>share_sessions := update_where P f (share_sessions d)\<rparr>))"

definition pg_BindShareViewer :: "gotime \<Rightarrow> uuid \<Rightarrow> bytes \<Rightarrow> ShareSession q" where
  "pg_BindShareViewer now i viewerTokenHash = pg_update_share
     (\<lambda>s. Share_ID s = i \<and> Share_ViewerTokenHash s = None)
     (\<lambda>s. s\<lparr>Share_ViewerTokenHash := Some viewerTokenHash, Share_ViewerBoundAt := Some (pv now)\<rparr>)"

definition pg_CreateShareSession :: "gotime \<Rightarrow> uuid \<Rightarrow> uuid \<Rightarrow> gotime \<Rightarrow> ShareSession q" where
  "pg_CreateShareSession now i userID expiresAt = pg_stmt [] (\<lambda>d.
     if fresh_in Share_ID i (share_sessions d) \<and> userID \<in> user_ids d
     then let s = \<lparr>Share_ID = i, Share_UserID = userID, Share_CreatedAt = pv now,
                   Share_ExpiresAt = pv expiresAt, Share_RevokedAt = None,
                   Share_ViewerTokenHash = None, Share_ViewerBoundAt = None\<rparr>
          in (Inr s, d\<lparr>share_sessions := share_sessions d @ [s]\<rparr>)
     else (Inl Constraint, d))"

definition pg_GetSharePosition :: "uuid \<Rightarrow> SharePosition q" where
  "pg_GetSharePosition sessionID =
     pg_query_row [] (\<lambda>d. List.find (\<lambda>p. Position_SessionID p = sessionID) (share_positions d))"

definition pg_GetShareSession :: "uuid \<Rightarrow> ShareSession q" where
  "pg_GetShareSession i = pg_query_row [] (\<lambda>d. List.find (\<lambda>s. Share_ID s = i) (share_sessions d))"

definition pg_GetShareSessionForOwner :: "uuid \<Rightarrow> uuid \<Rightarrow> ShareSession q" where
  "pg_GetShareSessionForOwner i userID =
     pg_query_row [] (\<lambda>d. List.find (\<lambda>s. Share_ID s = i \<and> Share_UserID s = userID) (share_sessions d))"

definition pg_ListShareSessionsForUser :: "gotime \<Rightarrow> uuid \<Rightarrow> ShareSession list q" where
  "pg_ListShareSessionsForUser now userID = pg_query [] (\<lambda>d. sort_key (\<lambda>s. - Share_CreatedAt s)
     (filter (\<lambda>s. Share_UserID s = userID \<and> Share_ExpiresAt s > pv now) (share_sessions d)))"

definition pg_PruneShareSessions :: "gotime \<Rightarrow> int \<Rightarrow> nat q" where
  "pg_PruneShareSessions now graceHours =
     (let dead = (\<lambda>s. Share_ExpiresAt s < pg_ago now (graceHours * Hour) \<or>
                      (\<exists>t\<in>set_option (Share_RevokedAt s). t < pg_ago now (graceHours * Hour))) in
      pg_exec_rows [] (\<lambda>d. count_where dead (share_sessions d))
        (\<lambda>d. d\<lparr>share_sessions := delete_where dead (share_sessions d),
               share_positions := delete_where (\<lambda>p. \<exists>s\<in>set (share_sessions d). dead s \<and>
                 Share_ID s = Position_SessionID p) (share_positions d)\<rparr>))"

text \<open>\<^verbatim>\<open>COALESCE(revoked_at, now())\<close> keeps the first revocation.\<close>

definition pg_RevokeShareSession :: "gotime \<Rightarrow> uuid \<Rightarrow> uuid \<Rightarrow> ShareSession q" where
  "pg_RevokeShareSession now i userID = pg_update_share (\<lambda>s. Share_ID s = i \<and> Share_UserID s = userID)
     (\<lambda>s. s\<lparr>Share_RevokedAt := (case Share_RevokedAt s of Some t \<Rightarrow> Some t | None \<Rightarrow> Some (pv now))\<rparr>)"

definition pg_UpsertSharePosition :: "gotime \<Rightarrow> uuid \<Rightarrow> bytes \<Rightarrow> bytes \<Rightarrow> gotime \<Rightarrow> unit q" where
  "pg_UpsertSharePosition now sessionID nonce ct capturedAt = pg_stmt [] (\<lambda>d.
     let P = (\<lambda>p. Position_SessionID p = sessionID) in
     case List.find P (share_positions d) of
       Some _ \<Rightarrow> (Inr (), d\<lparr>share_positions := update_where P
         (\<lambda>p. p\<lparr>Position_Nonce := nonce, Position_Ciphertext := ct,
                Position_CapturedAt := pv capturedAt, Position_UpdatedAt := pv now\<rparr>) (share_positions d)\<rparr>)
     | None \<Rightarrow> if sessionID \<in> share_ids d
         then (Inr (), d\<lparr>share_positions := share_positions d @
            [\<lparr>Position_SessionID = sessionID, Position_Nonce = nonce, Position_Ciphertext = ct,
              Position_CapturedAt = pv capturedAt, Position_UpdatedAt = pv now\<rparr>]\<rparr>)
         else (Inl Constraint, d))"

section \<open>misc.sql.go: push subscriptions and app versions\<close>

definition pg_DeletePushSubscription :: "string \<Rightarrow> uuid \<Rightarrow> unit q" where
  "pg_DeletePushSubscription endpoint userID = pg_exec [endpoint] (\<lambda>d. d\<lparr>push_subscriptions :=
     delete_where (\<lambda>p. Push_Endpoint p = endpoint \<and> Push_UserID p = userID) (push_subscriptions d)\<rparr>)"

definition pg_DeletePushSubscriptionByID :: "uuid \<Rightarrow> unit q" where
  "pg_DeletePushSubscriptionByID i = pg_exec [] (\<lambda>d. d\<lparr>push_subscriptions :=
     delete_where (\<lambda>p. Push_ID p = i) (push_subscriptions d)\<rparr>)"

definition pg_ListCirclePushSubscriptions :: "uuid \<Rightarrow> uuid \<Rightarrow> PushSubscription list q" where
  "pg_ListCirclePushSubscriptions circleID sender = pg_query [] (\<lambda>d. sort_key Push_CreatedAt
     [p. p \<leftarrow> push_subscriptions d, m \<leftarrow> circle_members d, Member_UserID m = Push_UserID p \<and>
       Member_CircleID m = circleID \<and> Push_UserID p \<noteq> sender \<and>
       \<not> (\<exists>x\<in>set (notification_mutes d). Mute_UserID x = Push_UserID p \<and> Mute_CircleID x = circleID \<and>
            (Mute_MutedUserID x = None \<or> Mute_MutedUserID x = Some sender))])"

definition pg_LatestActiveVersion :: "string \<Rightarrow> AppVersion q" where
  "pg_LatestActiveVersion platform = pg_query_row [platform] (\<lambda>d.
     case sort_key (\<lambda>v. - Version_VersionCode v)
       (filter (\<lambda>v. Version_Platform v = platform \<and> Version_IsActive v) (app_versions d)) of
       [] \<Rightarrow> None | v # _ \<Rightarrow> Some v)"

definition pg_UpsertAppVersion :: "gotime \<Rightarrow> uuid \<Rightarrow> string \<Rightarrow> int \<Rightarrow> string \<Rightarrow> string option
    \<Rightarrow> string option \<Rightarrow> string option \<Rightarrow> int \<Rightarrow> AppVersion q" where
  "pg_UpsertAppVersion now i platform code name apk sha changelog minSupported =
     pg_stmt ([platform, name] @ opt_text apk @ opt_text sha @ opt_text changelog) (\<lambda>d.
       let P = (\<lambda>v. Version_Platform v = platform \<and> Version_VersionCode v = code);
           f = (\<lambda>v. v\<lparr>Version_VersionName := name, Version_ApkUrl := apk, Version_Sha256 := sha,
                      Version_Changelog := changelog, Version_MinSupported := minSupported,
                      Version_IsActive := True\<rparr>) in
       if platform \<notin> {''android'', ''ios''} then (Inl Constraint, d)
       else case List.find P (app_versions d) of
         Some v \<Rightarrow> (Inr (f v), d\<lparr>app_versions := update_where P f (app_versions d)\<rparr>)
       | None \<Rightarrow> if fresh_in Version_ID i (app_versions d)
           then let v = \<lparr>Version_ID = i, Version_Platform = platform, Version_VersionCode = code,
                   Version_VersionName = name, Version_ApkUrl = apk, Version_Sha256 = sha,
                   Version_Changelog = changelog, Version_MinSupported = minSupported,
                   Version_IsActive = True, Version_CreatedAt = pv now\<rparr>
                in (Inr v, d\<lparr>app_versions := app_versions d @ [v]\<rparr>)
           else (Inl Constraint, d))"

definition pg_UpsertPushSubscription :: "gotime \<Rightarrow> uuid \<Rightarrow> uuid \<Rightarrow> uuid option \<Rightarrow> string \<Rightarrow> string option
    \<Rightarrow> string option \<Rightarrow> string \<Rightarrow> PushSubscription q" where
  "pg_UpsertPushSubscription now i userID deviceID endpoint p256dh auth kind =
     pg_stmt ([endpoint, kind] @ opt_text p256dh @ opt_text auth) (\<lambda>d.
       let P = (\<lambda>p. Push_Endpoint p = endpoint);
           f = (\<lambda>p. p\<lparr>Push_P256dh := p256dh, Push_Auth := auth, Push_UserID := userID, Push_Kind := kind\<rparr>) in
       if \<not> push_kind_shape kind p256dh auth then (Inl Constraint, d)
       else case List.find P (push_subscriptions d) of
         Some p \<Rightarrow> if userID \<in> user_ids d
           then (Inr (f p), d\<lparr>push_subscriptions := update_where P f (push_subscriptions d)\<rparr>)
           else (Inl Constraint, d)
       | None \<Rightarrow> if fresh_in Push_ID i (push_subscriptions d) \<and> userID \<in> user_ids d \<and>
             set_option deviceID \<subseteq> device_ids d
           then let p = \<lparr>Push_ID = i, Push_UserID = userID, Push_DeviceID = deviceID,
                     Push_Endpoint = endpoint, Push_P256dh = p256dh, Push_Auth = auth,
                     Push_CreatedAt = pv now, Push_Kind = kind\<rparr>
                in (Inr p, d\<lparr>push_subscriptions := push_subscriptions d @ [p]\<rparr>)
           else (Inl Constraint, d))"

section \<open>DISTINCT ON and ROW\_NUMBER\<close>

text \<open>A stable sort lists the keys in order, each with its rows.\<close>

definition rows_of :: "('r \<Rightarrow> 'k) \<Rightarrow> 'r list \<Rightarrow> 'k \<Rightarrow> 'r list" where
  "rows_of key xs v = filter (\<lambda>x. key x = v) xs"

lemma mset_rows_of:
  "distinct vs \<Longrightarrow> mset (concat (map (rows_of key xs) vs)) = filter_mset (\<lambda>x. key x \<in> set vs) (mset xs)"
proof (induction vs)
  case (Cons v vs)
  have "filter_mset (\<lambda>x. key x \<in> set (v # vs)) (mset xs) =
      filter_mset (\<lambda>x. key x = v) (mset xs) + filter_mset (\<lambda>x. key x \<in> set vs) (mset xs)"
    using Cons.prems by (intro multiset_eqI) auto
  with Cons show ?case by (simp add: rows_of_def)
qed simp

lemma filter_rows_of:
  "distinct vs \<Longrightarrow> v \<in> set vs \<Longrightarrow> filter (\<lambda>x. v = key x) (concat (map (rows_of key xs) vs)) = rows_of key xs v"
proof (induction vs)
  case (Cons w vs)
  have none: "filter (\<lambda>x. v = key x) (concat (map (rows_of key xs) us)) = []" if "v \<notin> set us" for us
    using that by (auto simp: filter_empty_conv rows_of_def)
  have "filter (\<lambda>x. v = key x) (rows_of key xs w) = (if w = v then rows_of key xs v else [])"
    by (auto simp: rows_of_def filter_empty_conv intro!: filter_cong)
  then show ?case using Cons none by (cases "w = v") auto
qed simp

lemma sorted_one_key: "sorted_wrt (\<lambda>x y. key x \<le> (key y :: 'k :: linorder)) (filter (\<lambda>x. key x = v) xs)"
  by (induction xs) auto

lemma sorted_rows_of: "sorted vs \<Longrightarrow> sorted (map key (concat (map (rows_of key xs) vs)))"
  by (induction vs) (auto simp: sorted_append rows_of_def sorted_map sorted_one_key)

lemma sort_key_rows_of:
  fixes key :: "'r \<Rightarrow> 'k :: linorder"
  shows "sort_key key xs = concat (map (rows_of key xs) (sort (remdups (map key xs))))"
proof (rule properties_for_sort_key)
  let ?vs = "sort (remdups (map key xs))"
  have d: "distinct ?vs" and s: "set ?vs = key ` set xs" by simp_all
  show "mset (concat (map (rows_of key xs) ?vs)) = mset xs"
    using mset_rows_of [OF d, of key xs] s by (simp add: filter_mset_eq_conv)
  show "filter (\<lambda>x. key k = key x) (concat (map (rows_of key xs) ?vs)) = filter (\<lambda>x. key k = key x) xs"
    if "k \<in> set (concat (map (rows_of key xs) ?vs))" for k
  proof -
    have "key k \<in> set ?vs" using that by (auto simp: rows_of_def)
    from filter_rows_of [OF d this] show ?thesis by (simp add: rows_of_def eq_commute)
  qed
  show "sorted (map key (concat (map (rows_of key xs) ?vs)))" by (rule sorted_rows_of) simp
qed

lemma distinct_on_run:
  assumes "g \<noteq> []" and "\<forall>x\<in>set g. key x = v" and "\<forall>x\<in>set rest. key x \<noteq> v"
  shows "distinct_on key (g @ rest) = hd g # distinct_on key rest"
  using assms(1,2)
proof (induction "length g" arbitrary: g rule: less_induct)
  case less
  obtain x xs where g: "g = x # xs" using less.prems(1) by (cases g) auto
  show ?case
  proof (cases xs)
    case Nil
    then show ?thesis using g less.prems assms(3) by (cases rest) auto
  next
    case (Cons y ys)
    have "distinct_on key ((x # ys) @ rest) = hd (x # ys) # distinct_on key rest"
      using less.prems g Cons by (intro less.hyps) auto
    then show ?thesis using g Cons less.prems by simp
  qed
qed

lemma distinct_on_groups:
  "distinct vs \<Longrightarrow> \<forall>v\<in>set vs. rows_of key xs v \<noteq> [] \<Longrightarrow>
   distinct_on key (concat (map (rows_of key xs) vs)) = map (\<lambda>v. hd (rows_of key xs v)) vs"
proof (induction vs)
  case (Cons v vs)
  have "distinct_on key (rows_of key xs v @ concat (map (rows_of key xs) vs)) =
      hd (rows_of key xs v) # distinct_on key (concat (map (rows_of key xs) vs))"
    using Cons.prems by (intro distinct_on_run [where v = v]) (auto simp: rows_of_def)
  then show ?case using Cons by simp
qed simp

lemma distinct_on_latest:
  "distinct_on Ping_DeviceID (sort_key Ping_DeviceID (sort_key (\<lambda>p. - Ping_CapturedAt p) ps)) = latest_per_device ps"
proof -
  let ?xs = "sort_key (\<lambda>p. - Ping_CapturedAt p) ps"
  have "sort (remdups (map Ping_DeviceID ?xs)) = sort (remdups (map Ping_DeviceID ps))"
    by (rule sorted_distinct_set_unique) simp_all
  moreover have "rows_of Ping_DeviceID ?xs v = newest_first v ps" for v
    by (simp add: rows_of_def newest_first_def filter_sort)
  moreover have "rows_of Ping_DeviceID ?xs v \<noteq> []" if "v \<in> Ping_DeviceID ` set ps" for v
    using that by (auto simp: rows_of_def filter_empty_conv)
  ultimately show ?thesis
    unfolding sort_key_rows_of [of Ping_DeviceID ?xs] latest_per_device_def
    by (subst distinct_on_groups) simp_all
qed

lemma distinct_on_map: "distinct_on key (map f xs) = map f (distinct_on (\<lambda>x. key (f x)) xs)"
  by (induction "\<lambda>x. key (f x)" xs rule: distinct_on.induct) simp_all

section \<open>Agreement with SQLite\<close>

lemma pg_CountPingsForCircle_agrees [pg_agree]:
  "agrees anywhere id (pg_CountPingsForCircle c) (CountPingsForCircle c)"
  unfolding pg_CountPingsForCircle_def CountPingsForCircle_def
  by (rule agrees_query) (simp_all add: sc_simps sc_Ping_def)

definition fresh_ping :: "uuid \<Rightarrow> db \<Rightarrow> bool" where
  "fresh_ping i d \<longleftrightarrow> fresh_in Ping_ID i (pings d)"

lemma tables_only_fresh_ping [simp]: "tables_only (fresh_ping i)"
  by (simp add: tables_only_def fresh_ping_def)

lemma ping_dup:
  "(v, cl, sc t) \<in> set (map ping_key (pings (sc_db d))) \<longleftrightarrow> (v, cl, t) \<in> set (map ping_key (pings d))"
  by (auto simp: ping_key_def sc_simps sc_Ping_def image_iff)

lemma pg_InsertPing_agrees [pg_agree]:
  assumes "whole now" "whole cap" "\<forall>t\<in>set_option ex. whole t" "pg_text cl" "routed parts (pv cap)"
  shows "agrees (fresh_ping i) sc_Ping (pg_InsertPing parts now i c v cl n ct cap ex) (InsertPing now i c v cl n ct cap ex)"
  unfolding pg_InsertPing_def InsertPing_def
proof (rule agrees_stmt)
  fix d assume "fresh_ping i d"
  then have fresh: "fresh_in (\<lambda>p. (Ping_ID p, Ping_CapturedAt p)) (i, sc (tv cap)) (pings (sc_db d))" "fresh_in Ping_ID i (pings d)"
    by (simp_all add: fresh_ping_def fresh_in_iff sc_simps sc_Ping_def)
  have ex: "map_option pv ex = map_option sc (map_option tv ex)"
    using assms(3) by (cases ex) (simp_all add: pv_whole)
  show "(if \<not> routed parts (pv cap) then (Inl Constraint, sc_db d)
     else if (v, cl, pv cap) \<in> set (map ping_key (pings (sc_db d))) then (Inl NoRows, sc_db d)
     else if fresh_in (\<lambda>p. (Ping_ID p, Ping_CapturedAt p)) (i, pv cap) (pings (sc_db d)) \<and>
          c \<in> circle_ids (sc_db d) \<and> v \<in> device_ids (sc_db d)
     then let p = \<lparr>Ping_ID = i, Ping_CircleID = c, Ping_DeviceID = v, Ping_ClientID = cl, Ping_Nonce = n,
                   Ping_Ciphertext = ct, Ping_CapturedAt = pv cap, Ping_ReceivedAt = pv now,
                   Ping_ExpiresAt = map_option pv ex\<rparr>
          in (Inr p, (sc_db d)\<lparr>pings := pings (sc_db d) @ [p]\<rparr>)
     else (Inl Constraint, sc_db d)) =
    (case if (v, cl, tv cap) \<in> set (map ping_key (pings d)) then (Inl NoRows, d)
     else if fresh_in Ping_ID i (pings d) \<and> c \<in> circle_ids d \<and> v \<in> device_ids d
     then let p = \<lparr>Ping_ID = i, Ping_CircleID = c, Ping_DeviceID = v, Ping_ClientID = cl, Ping_Nonce = n,
                   Ping_Ciphertext = ct, Ping_CapturedAt = tv cap, Ping_ReceivedAt = tv now,
                   Ping_ExpiresAt = map_option tv ex\<rparr>
          in (Inr p, d\<lparr>pings := pings d @ [p]\<rparr>)
     else (Inl Constraint, d) of (r, d') \<Rightarrow> (map_sum id sc_Ping r, sc_db d'))"
    using assms(5) unfolding Let_def ex
    by (simp only: fresh simp_thms if_False sc_db_ids pv_whole [OF assms(2)] pv_whole [OF assms(1)] ping_dup, intro lift_if)
      (simp_all add: sc_simps sc_Ping_def)
qed (use assms in simp_all)

text \<open>
  A ping whose client id Postgres cannot hold, or whose capture time no partition takes, is refused and
  changes nothing; and the refusal is not that of a duplicate.
\<close>

lemma pg_InsertPing_refused:
  assumes "\<not> (pg_text cl \<and> routed parts (pv cap))"
  shows "\<exists>e bs. pg_InsertPing parts now i c v cl n ct cap ex d = (Inl e, d\<lparr>faults := bs\<rparr>) \<and> e \<noteq> NoRows"
  using assms unfolding pg_InsertPing_def pg_stmt_def stmt_def by (cases "faults d") (auto intro: exI [of _ "[]"] exI [of _ "faults d"])

lemma pg_LatestPingsForCircle_agrees [pg_agree]:
  "agrees anywhere (map sc_Ping) (pg_LatestPingsForCircle c) (LatestPingsForCircle c)"
proof -
  have sel: "Ping_DeviceID (sc_Ping p) = Ping_DeviceID p" "Ping_CircleID (sc_Ping p) = Ping_CircleID p"
      "- Ping_CapturedAt (sc_Ping p) = sc (- Ping_CapturedAt p)" for p
    by (simp_all add: sc_Ping_def sc_simps)
  show ?thesis unfolding pg_LatestPingsForCircle_def LatestPingsForCircle_def
    by (rule agrees_query, simp, simp)
      (simp only: sc_db_tables filter_map_app sort_key_map sel sort_key_sc distinct_on_map distinct_on_latest)
qed

lemma pg_delete_pings_agrees:
  assumes "\<And>p. old' (sc_Ping p) = old p"
  shows "agrees anywhere id (pg_delete_pings old') (delete_pings (\<lambda>ps p. old p \<and> superseded ps p))"
proof -
  have "(\<exists>newer\<in>set (map sc_Ping ps). Ping_CircleID newer = Ping_CircleID (sc_Ping p) \<and>
      Ping_DeviceID newer = Ping_DeviceID (sc_Ping p) \<and> Ping_CapturedAt newer > Ping_CapturedAt (sc_Ping p)) =
    superseded ps p" for ps p
    by (simp add: superseded_def sc_Ping_def sc_simps)
  then show ?thesis unfolding pg_delete_pings_def delete_pings_def Let_def
    by (intro agrees_exec_rows) (simp_all only: list.set ball_empty anywhere_simps sc_db_tables
        count_where_map delete_where_map assms sc_db_put)
qed

lemma pg_DeleteExpiredPingsForCircle_agrees [pg_agree]:
  "whole now \<Longrightarrow> agrees anywhere id (pg_DeleteExpiredPingsForCircle now c n) (DeleteExpiredPingsForCircle now c n)"
  unfolding pg_DeleteExpiredPingsForCircle_def DeleteExpiredPingsForCircle_def
  using pg_delete_pings_agrees [of "\<lambda>p. Ping_CircleID p = c \<and> Ping_CapturedAt p < pg_ago now (n * Day)"
      "\<lambda>p. Ping_CircleID p = c \<and> Ping_CapturedAt p < tv (now - n * Day)"]
  by (simp add: sc_Ping_def pg_ago_whole sc_simps)

lemma pg_PruneStalePings_agrees [pg_agree]:
  "whole now \<Longrightarrow> in_i64 (n * Hour) \<Longrightarrow> agrees anywhere id (pg_PruneStalePings now n) (PruneStalePings now n)"
  unfolding pg_PruneStalePings_def PruneStalePings_def
  using pg_delete_pings_agrees [of "\<lambda>p. Ping_CapturedAt p < pg_ago now (n * Hour)"
      "\<lambda>p. Ping_CapturedAt p < tv (now - n * Hour)"]
  by (simp add: sc_Ping_def pg_ago_whole sc_simps)

lemma pg_update_share_agrees:
  assumes "\<And>s. P' (sc_Share s) = P s" and "\<And>s. f' (sc_Share s) = sc_Share (f s)"
  shows "agrees anywhere sc_Share (pg_update_share P' f') (update_share P f)"
proof -
  have upd: "update_where P' f' (map sc_Share xs) = map sc_Share (update_where P f xs)" for xs
    by (rule update_where_row) (simp_all add: assms)
  show ?thesis unfolding pg_update_share_def update_share_def
    by (rule agrees_stmt) (simp_all add: sc_simps upd assms split: option.split)
qed

lemma pg_BindShareViewer_agrees [pg_agree]:
  "whole now \<Longrightarrow> agrees anywhere sc_Share (pg_BindShareViewer now i h) (BindShareViewer now i h)"
  unfolding pg_BindShareViewer_def BindShareViewer_def
  by (rule pg_update_share_agrees) (simp_all add: sc_Share_def unbound_share_def bind_viewer_def pv_whole)

lemma pg_RevokeShareSession_agrees [pg_agree]:
  "whole now \<Longrightarrow> agrees anywhere sc_Share (pg_RevokeShareSession now i u) (RevokeShareSession now i u)"
  unfolding pg_RevokeShareSession_def RevokeShareSession_def
  by (rule pg_update_share_agrees)
    (simp_all add: sc_Share_def owned_share_def revoke_share_def pv_whole split: option.split)

lemma pg_CreateShareSession_agrees [pg_agree]:
  "whole now \<Longrightarrow> whole ex \<Longrightarrow> agrees anywhere sc_Share (pg_CreateShareSession now i u ex) (CreateShareSession now i u ex)"
  unfolding pg_CreateShareSession_def CreateShareSession_def
  by (rule agrees_stmt) (simp_all add: sc_simps sc_Share_def pv_whole Let_def)

lemma pg_GetSharePosition_agrees [pg_agree]:
  "agrees anywhere sc_Position (pg_GetSharePosition i) (GetSharePosition i)"
  unfolding pg_GetSharePosition_def GetSharePosition_def position_is_def [abs_def]
  by (rule agrees_query_row) (simp_all add: sc_simps sc_Position_def)

lemma pg_GetShareSession_agrees [pg_agree]:
  "agrees anywhere sc_Share (pg_GetShareSession i) (GetShareSession i)"
  unfolding pg_GetShareSession_def GetShareSession_def share_is_def [abs_def]
  by (rule agrees_query_row) (simp_all add: sc_simps sc_Share_def)

lemma pg_GetShareSessionForOwner_agrees [pg_agree]:
  "agrees anywhere sc_Share (pg_GetShareSessionForOwner i u) (GetShareSessionForOwner i u)"
  unfolding pg_GetShareSessionForOwner_def GetShareSessionForOwner_def owned_share_def [abs_def]
  by (rule agrees_query_row) (simp_all add: sc_simps sc_Share_def)

lemma pg_ListShareSessionsForUser_agrees [pg_agree]:
  "whole now \<Longrightarrow> agrees anywhere (map sc_Share) (pg_ListShareSessionsForUser now u) (ListShareSessionsForUser now u)"
  unfolding pg_ListShareSessionsForUser_def ListShareSessionsForUser_def
  by (rule agrees_query) (simp_all add: sc_simps sc_Share_def pv_whole)

lemma pg_PruneShareSessions_agrees [pg_agree]:
  assumes "whole now" "in_i64 (n * Hour)"
  shows "agrees anywhere id (pg_PruneShareSessions now n) (PruneShareSessions now n)"
proof -
  let ?cut = "tv (now - n * Hour)"
  have dead: "(Share_ExpiresAt (sc_Share s) < pg_ago now (n * Hour) \<or>
      (\<exists>t\<in>set_option (Share_RevokedAt (sc_Share s)). t < pg_ago now (n * Hour))) = dead_share ?cut s" for s
    using assms(1) by (simp add: dead_share_def sc_Share_def pg_ago_whole opt_before sc_simps)
  have ids: "Share_ID (sc_Share s) = Share_ID s" "Position_SessionID (sc_Position p) = Position_SessionID p" for s p
    by (simp_all add: sc_Share_def sc_Position_def)
  have gone: "(\<exists>s\<in>set xs. dead_share ?cut s \<and> Share_ID s = i) \<longleftrightarrow> i \<in> Share_ID ` set (filter (dead_share ?cut) xs)" for xs i
    by auto
  show ?thesis unfolding pg_PruneShareSessions_def PruneShareSessions_def Let_def i64_id [OF assms(2)]
    by (rule agrees_exec_rows) (simp_all only: list.set ball_empty anywhere_simps sc_db_tables list.set_map bex_simps
        count_where_map delete_where_map dead ids gone sc_db_put)
qed

lemma pg_UpsertSharePosition_agrees [pg_agree]:
  "whole now \<Longrightarrow> whole cap \<Longrightarrow> agrees anywhere id (pg_UpsertSharePosition now i n ct cap) (UpsertSharePosition now i n ct cap)"
  unfolding pg_UpsertSharePosition_def UpsertSharePosition_def position_is_def [abs_def] Let_def
  by (rule agrees_stmt) (simp_all add: sc_simps sc_Position_def row_updates pv_whole split: option.split cong: if_cong)

lemma pg_DeletePushSubscription_agrees [pg_agree]:
  "pg_text e \<Longrightarrow> agrees anywhere id (pg_DeletePushSubscription e u) (DeletePushSubscription e u)"
  unfolding pg_DeletePushSubscription_def DeletePushSubscription_def
  by (rule agrees_exec) (simp_all add: sc_simps sc_Push_def)

lemma pg_DeletePushSubscriptionByID_agrees [pg_agree]:
  "agrees anywhere id (pg_DeletePushSubscriptionByID i) (DeletePushSubscriptionByID i)"
  unfolding pg_DeletePushSubscriptionByID_def DeletePushSubscriptionByID_def
  by (rule agrees_exec) (simp_all add: sc_simps sc_Push_def)

lemma pg_ListCirclePushSubscriptions_agrees [pg_agree]:
  "agrees anywhere (map sc_Push) (pg_ListCirclePushSubscriptions c s) (ListCirclePushSubscriptions c s)"
proof -
  have mute: "(\<exists>x\<in>set (notification_mutes (sc_db d)). Mute_UserID x = u \<and> Mute_CircleID x = c \<and>
      (Mute_MutedUserID x = None \<or> Mute_MutedUserID x = Some s)) = muted_by d u c s" for d u
    by (simp add: muted_by_def sc_simps sc_Mute_def)
  have join: "[p. p \<leftarrow> push_subscriptions (sc_db d), m \<leftarrow> circle_members (sc_db d), Member_UserID m = Push_UserID p \<and>
       Member_CircleID m = c \<and> Push_UserID p \<noteq> s \<and> \<not> muted_by d (Push_UserID p) c s] =
    map sc_Push [p. p \<leftarrow> push_subscriptions d, m \<leftarrow> circle_members d, Member_UserID m = Push_UserID p \<and>
       Member_CircleID m = c \<and> Push_UserID p \<noteq> s \<and> \<not> muted_by d (Push_UserID p) c s]" for d
    unfolding sc_db_tables by (rule join_map) (simp_all add: sc_Push_def sc_Member_def)
  have sort: "sort_key Push_CreatedAt (map sc_Push xs) = map sc_Push (sort_key Push_CreatedAt xs)" for xs
    by (rule sort_key_rows) (simp add: sc_Push_def)
  show ?thesis unfolding pg_ListCirclePushSubscriptions_def ListCirclePushSubscriptions_def
    by (rule agrees_query) (simp_all only: mute join sort list.set ball_empty anywhere_simps)
qed

lemma pg_LatestActiveVersion_agrees [pg_agree]:
  "pg_text p \<Longrightarrow> agrees anywhere sc_Version (pg_LatestActiveVersion p) (LatestActiveVersion p)"
  unfolding pg_LatestActiveVersion_def LatestActiveVersion_def
  by (rule agrees_query_row) (simp_all add: sc_simps sc_Version_def split: list.split)

definition fresh_version :: "uuid \<Rightarrow> db \<Rightarrow> bool" where
  "fresh_version i d \<longleftrightarrow> fresh_in Version_ID i (app_versions d)"

definition fresh_push :: "uuid \<Rightarrow> db \<Rightarrow> bool" where
  "fresh_push i d \<longleftrightarrow> fresh_in Push_ID i (push_subscriptions d)"

lemma tables_only_fresh [simp]: "tables_only (fresh_version i)" "tables_only (fresh_push i)"
  by (simp_all add: tables_only_def fresh_version_def fresh_push_def)

lemma pg_UpsertAppVersion_agrees [pg_agree]:
  assumes "whole now" "\<forall>s\<in>set ([p, nm] @ opt_text a @ opt_text sh @ opt_text ch). pg_text s"
  shows "agrees (fresh_version i) sc_Version (pg_UpsertAppVersion now i p c nm a sh ch m) (UpsertAppVersion now i p c nm a sh ch m)"
  unfolding pg_UpsertAppVersion_def UpsertAppVersion_def version_key_def prod.inject Let_def
  by (rule agrees_stmt) (use assms in \<open>simp_all add: sc_simps sc_Version_def row_updates pv_whole fresh_version_def
      split: option.split cong: if_cong\<close>)

lemma pg_UpsertPushSubscription_agrees [pg_agree]:
  assumes "whole now" "\<forall>s\<in>set ([e, k] @ opt_text p @ opt_text a). pg_text s"
  shows "agrees (fresh_push i) sc_Push (pg_UpsertPushSubscription now i u v e p a k) (UpsertPushSubscription now i u v e p a k)"
  unfolding pg_UpsertPushSubscription_def UpsertPushSubscription_def Let_def
  by (rule agrees_stmt) (use assms in \<open>simp_all add: sc_simps sc_Push_def row_updates pv_whole fresh_push_def
      split: option.split cong: if_cong\<close>)

end
