(* ===== verification/Aul_Pg_Tx.thy ===== *)
theory Aul_Pg_Tx
  imports Aul_Pg_Feeds Aul_Api_Circles Aul_Api_Feeds
begin

text \<open>
  The transactions of the handlers on Postgres: creating a circle, joining by invitation, storing a batch
  of pings, replacing mutes, distributing key envelopes and registering an account. The bodies are those of the sources with
  the statements of the Postgres querier; each is shown to agree with the SQLite transaction,
  rollbacks included.
\<close>

definition pg_create_circle_tx :: "gotime \<Rightarrow> uuid \<Rightarrow> bytes option \<Rightarrow> int \<Rightarrow> uuid \<Rightarrow> Circle q" where
  "pg_create_circle_tx now i nameEnc retention user = withPgTx (\<lambda>e. e)
     (bindm (in_tx (pg_CreateCircle now i nameEnc retention user)) (\<lambda>c.
      bindm (in_tx (pg_AddMember now (Circle_ID c) user ''owner'')) (\<lambda>_. ret c)))"

definition pg_accept_tx :: "gotime \<Rightarrow> uuid \<Rightarrow> uuid \<Rightarrow> string q" where
  "pg_accept_tx now inviteID user = withPgTx (\<lambda>e. e)
     (bindm (in_tx (pg_ConsumeInvite now inviteID)) (\<lambda>consumed.
      bindm (in_tx (pg_AddMember now (Invite_CircleID consumed) user (Invite_Role consumed))) (\<lambda>_.
      ret (Invite_Role consumed))))"

definition pg_insert_one :: "partition list \<Rightarrow> gotime \<Rightarrow> uuid \<Rightarrow> InsertPingParams \<Rightarrow> Ping q" where
  "pg_insert_one parts now i x = pg_InsertPing parts now i (ip_CircleID x) (ip_DeviceID x) (ip_ClientID x) (ip_Nonce x)
     (ip_Ciphertext x) (ip_CapturedAt x) (ip_ExpiresAt x)"

fun pg_insert_pings :: "partition list \<Rightarrow> gotime \<Rightarrow> (nat \<Rightarrow> uuid) \<Rightarrow> nat \<Rightarrow> InsertPingParams list
    \<Rightarrow> db \<times> bool \<Rightarrow> (dberr + Ping list) \<times> (db \<times> bool)" where
  "pg_insert_pings parts now ids n [] = ret []"
| "pg_insert_pings parts now ids n (x # xs) = tryq (in_tx (pg_insert_one parts now (ids n) x))
     (\<lambda>e. if IsNotFound e then pg_insert_pings parts now ids (Suc n) xs else fail e)
     (\<lambda>row. bindm (pg_insert_pings parts now ids (Suc n) xs) (\<lambda>rows. ret (row # rows)))"

definition pg_ping_tx :: "partition list \<Rightarrow> request \<Rightarrow> (nat \<Rightarrow> uuid) \<Rightarrow> InsertPingParams list \<Rightarrow> Ping list q" where
  "pg_ping_tx parts rq ids items = withPgTx (\<lambda>e. e) (bindm (pg_insert_pings parts (rq_now rq) ids 0 items) (\<lambda>inserted.
     bindm (in_tx (pg_TouchDevice (rq_now rq) (rq_device rq))) (\<lambda>_. ret inserted)))"

fun pg_insert_mutes :: "gotime \<Rightarrow> uuid \<Rightarrow> uuid \<Rightarrow> uuid option list \<Rightarrow> db \<times> bool \<Rightarrow> (dberr + unit) \<times> (db \<times> bool)" where
  "pg_insert_mutes now u c [] = ret ()"
| "pg_insert_mutes now u c (x # xs) = bindm (in_tx (pg_InsertMute now u c x)) (\<lambda>_. pg_insert_mutes now u c xs)"

definition pg_mutes_tx :: "gotime \<Rightarrow> uuid \<Rightarrow> uuid \<Rightarrow> bool \<Rightarrow> uuid list \<Rightarrow> unit q" where
  "pg_mutes_tx now u c circleMuted ids = withPgTx (\<lambda>e. e) (bindm (in_tx (pg_DeleteMutes u c)) (\<lambda>_.
     pg_insert_mutes now u c ((if circleMuted then [None] else []) @ map Some ids)))"

fun pg_post_envelopes :: "request \<Rightarrow> (nat \<Rightarrow> uuid) \<Rightarrow> uuid \<Rightarrow> int \<Rightarrow> uuid set \<Rightarrow> nat \<Rightarrow> keyEnvelopeItem list
    \<Rightarrow> db \<times> bool \<Rightarrow> (http_err + nat) \<times> (db \<times> bool)" where
  "pg_post_envelopes rq ids circleID epoch valid i [] = ret i"
| "pg_post_envelopes rq ids circleID epoch valid i (e # es) = (case kei_Recipient e of
      None \<Rightarrow> fail (badItem i ''recipient_device_id must be a valid id'')
    | Some rid \<Rightarrow>
        if rid \<notin> valid then fail (badItem i ''recipient_device_id is not a device of a circle member'')
        else case decodeBlob (kei_Ciphertext e) maxBlobBytes of
          Inl b \<Rightarrow> fail (badItem i (blob_msg ''ciphertext'' b))
        | Inr ct \<Rightarrow> tryq (in_tx (pg_CreateKeyEnvelope (rq_now rq) (ids i) circleID rid (Some (rq_device rq)) ct
              (if kei_KeyEpoch e \<le> 0 then epoch else kei_KeyEpoch e)))
            (\<lambda>_. fail Internal)
            (\<lambda>_. pg_post_envelopes rq ids circleID epoch valid (Suc i) es))"

definition pg_store :: "'a q \<Rightarrow> ('a \<Rightarrow> db \<times> bool \<Rightarrow> (autherr + 'b) \<times> (db \<times> bool))
    \<Rightarrow> db \<times> bool \<Rightarrow> (autherr + 'b) \<times> (db \<times> bool)" where
  "pg_store m k = tryq (in_tx m) (\<lambda>e. fail (StoreErr e)) k"

definition pg_issueSession :: "Service \<Rightarrow> gotime \<Rightarrow> entropy \<Rightarrow> User \<Rightarrow> Device
    \<Rightarrow> db \<times> bool \<Rightarrow> (autherr + AuthResult) \<times> (db \<times> bool)" where
  "pg_issueSession s now ent user device =
     (case ent_access ent of None \<Rightarrow> fail (CryptoErr ErrRand)
      | Some access \<Rightarrow> (case ent_refresh ent of None \<Rightarrow> fail (CryptoErr ErrRand)
      | Some refresh \<Rightarrow>
          let accessExp = now + svc_accessTTL s; refreshExp = now + svc_refreshTTL s in
          pg_store (pg_CreateSession now (ent_session ent) (User_ID user) (Device_ID device)
                   (HashToken s access) (HashToken s refresh) accessExp refreshExp)
            (\<lambda>session. ret \<lparr>Res_User = Some user, Res_Device = Some device, Res_Session = session,
               Res_AccessToken = access, Res_RefreshToken = refresh,
               Res_AccessExpiresAt = accessExp, Res_RefreshExpiresAt = refreshExp\<rparr>)))"

definition pg_register_tx :: "(string \<Rightarrow> string) \<Rightarrow> Service \<Rightarrow> gotime \<Rightarrow> entropy \<Rightarrow> RegisterInput \<Rightarrow> string \<Rightarrow> string
    \<Rightarrow> AuthResult auth" where
  "pg_register_tx low s now ent inp email hash = withPgTx StoreErr
     (pg_store (pg_CreateUser low now (ent_user ent) email hash) (\<lambda>user.
      pg_store (pg_CreateDevice now (ent_device ent) (User_ID user) (Reg_Platform inp)
               (strPtrOrNil (Reg_DisplayName inp)) (Reg_Pubkey inp)) (\<lambda>device.
      pg_issueSession s now ent user device)))"

definition pg_Log :: "bool \<Rightarrow> gotime \<Rightarrow> Event \<Rightarrow> unit q" where
  "pg_Log storeIP now e = pg_WriteAudit now (Ev_Name e) (Ev_UserID e) (Ev_DeviceID e) (Ev_CircleID e)
     (if storeIP \<and> Ev_IP e \<noteq> [] then Some (Ev_IP e) else None) (Ev_Detail e)"

definition pg_Register :: "(string \<Rightarrow> string) \<Rightarrow> Service \<Rightarrow> gotime \<Rightarrow> entropy \<Rightarrow> RegisterInput \<Rightarrow> AuthResult auth" where
  "pg_Register low s now ent inp =
     (case validateEmail s (Reg_Email inp) of Inl e \<Rightarrow> fail e | Inr email \<Rightarrow>
      check (validatePassword (Reg_Password inp)) (
      check (validatePlatform (Reg_Platform inp)) (
      check (validatePubkey (Reg_Pubkey inp)) (
      tryq (pg_EmailExists low email) (\<lambda>e. fail (StoreErr e)) (\<lambda>exists.
        if exists then fail ErrEmailTaken
        else case HashPasswordWithParams (svc_IDKey s) (ent_salt ent) (Reg_Password inp) (svc_argonParams s) of
          Inl e \<Rightarrow> fail (CryptoErr e)
        | Inr hash \<Rightarrow> bindm (pg_register_tx low s now ent inp email hash)
            (\<lambda>res. run (pg_Log (svc_storeIP s) now (Event_of ''register''
                 (map_option User_ID (Res_User res)) (map_option Device_ID (Res_Device res)) None (Reg_IP inp)))
               (ret res)))))))"

section \<open>Agreement\<close>

lemma agrees_weaken: "agrees anywhere f m m' \<Longrightarrow> agrees I f m m'"
  by (simp add: agrees_def)

lemma tx_agrees_static: "(Q \<Longrightarrow> tx_agrees anywhere g k k') \<Longrightarrow> tx_agrees (\<lambda>d. Q) g k k'"
  by (simp add: tx_agrees_def)

lemma tx_agrees_weaken: "tx_agrees anywhere f m m' \<Longrightarrow> tx_agrees I f m m'"
  by (simp add: tx_agrees_def)

lemma tx_agrees_if:
  "tx_agrees I f m m' \<Longrightarrow> tx_agrees I f n n' \<Longrightarrow> tx_agrees I f (if b then m else n) (if b then m' else n')"
  by simp

lemma gives_anywhere: "gives I m (\<lambda>x. anywhere)"
  by (rule givesI) simp

lemmas tx_agrees_then = tx_agrees_bindm [OF _ gives_anywhere]
lemmas tx_agrees_call = tx_agrees_wrap [OF _ gives_anywhere]

lemmas tx_agrees_first = tx_agrees_then [OF tx_agrees_stmt]

lemma pg_create_circle_tx_agrees:
  assumes "whole now"
  shows "agrees anywhere sc_Circle (pg_create_circle_tx now i n r u) (create_circle_tx now i n r u)"
proof -
  have sel: "Circle_ID (sc_Circle c) = Circle_ID c" for c by (simp add: sc_Circle_def)
  have owner: "pg_text ''owner''" by code_simp
  have join: "tx_agrees anywhere sc_Circle
      (bindm (in_tx (pg_AddMember now (Circle_ID (sc_Circle c)) u ''owner'')) (\<lambda>_. ret (sc_Circle c)))
      (bindm (AddMember now (Circle_ID c) u ''owner'') (\<lambda>_. ret c))" for c
    unfolding sel by (rule tx_agrees_first [OF pg_AddMember_agrees [OF assms owner]], rule tx_agrees_ret, rule refl)
  show ?thesis unfolding pg_create_circle_tx_def create_circle_tx_def
    by (rule withPgTx_agrees, rule tx_agrees_first [OF pg_CreateCircle_agrees [OF assms]], rule join) simp
qed

lemma invite_role_text: "gives db_ok (ConsumeInvite now i) (\<lambda>v d. pg_text (Invite_Role v))"
proof (rule givesI)
  fix d v d' assume d: "db_ok d" "ConsumeInvite now i d = (Inr v, d')"
  then obtain x where x: "x \<in> set (invites d)" "v = use_invite x"
    by (auto simp: ConsumeInvite_def stmt_def dest!: find_Some_in split: option.splits list.splits if_splits)
  moreover have "pg_text ''member''" "pg_text ''guardian''" by code_simp+
  ultimately show "pg_text (Invite_Role v)" using db_ok_roles(3) [OF d(1) x(1)] by (auto simp: use_invite_def)
qed

lemma pg_accept_tx_agrees:
  assumes "whole now"
  shows "agrees db_ok id (pg_accept_tx now i u) (accept_tx now i u)"
proof -
  have sel: "Invite_CircleID (sc_Invite v) = Invite_CircleID v" "Invite_Role (sc_Invite v) = Invite_Role v" for v
    by (simp_all add: sc_Invite_def)
  have join: "tx_agrees anywhere id
      (bindm (in_tx (pg_AddMember now (Invite_CircleID v) u (Invite_Role v))) (\<lambda>_. ret (Invite_Role v)))
      (bindm (AddMember now (Invite_CircleID v) u (Invite_Role v)) (\<lambda>_. ret (Invite_Role v)))"
    if "pg_text (Invite_Role v)" for v
    by (rule tx_agrees_first [OF pg_AddMember_agrees [OF assms that]]) (simp add: tx_agrees_ret)
  show ?thesis unfolding pg_accept_tx_def accept_tx_def
    by (rule withPgTx_agrees [OF tx_agrees_bindm [OF tx_agrees_stmt [OF agrees_weaken [OF pg_ConsumeInvite_agrees [OF assms]]]
      invite_role_text tx_agrees_static]]) (simp_all only: sel join tables_only_db_ok)
qed

lemma pg_insert_mutes_agrees:
  assumes "whole now"
  shows "tx_agrees anywhere id (pg_insert_mutes now u c xs) (insert_mutes now u c xs)"
proof (induction xs)
  case (Cons x xs)
  show ?case unfolding pg_insert_mutes.simps insert_mutes.simps
    by (rule tx_agrees_first [OF pg_InsertMute_agrees [OF assms] Cons.IH])
qed (simp add: tx_agrees_ret)

lemma pg_mutes_tx_agrees:
  assumes "whole now"
  shows "agrees anywhere id (pg_mutes_tx now u c b ids) (mutes_tx now u c b ids)"
  unfolding pg_mutes_tx_def mutes_tx_def
  by (rule withPgTx_agrees [OF tx_agrees_first [OF pg_DeleteMutes_agrees pg_insert_mutes_agrees [OF assms]]]) simp

text \<open>The ids a batch draws (those below \<open>N\<close>, of which \<open>n\<close> are spent) are new and distinct.\<close>

definition unused_from :: "(nat \<Rightarrow> uuid) \<Rightarrow> nat \<Rightarrow> nat \<Rightarrow> db \<Rightarrow> bool" where
  "unused_from ids N n d \<longleftrightarrow> (\<forall>k\<in>{n..<N}. fresh_ping (ids k) d)"

lemma spent_id: "inj_on ids {..<N} \<Longrightarrow> n < N \<Longrightarrow> \<forall>k\<in>{Suc n..<N}. ids k \<noteq> ids n"
  by (auto dest: inj_onD)

definition whole_times :: "InsertPingParams \<Rightarrow> bool" where
  "whole_times x \<longleftrightarrow> whole (ip_CapturedAt x) \<and> (\<forall>t\<in>set_option (ip_ExpiresAt x). whole t)"

text \<open>What Postgres can store: the client id is a text it can hold and a partition takes the capture time.\<close>

definition storable :: "partition list \<Rightarrow> InsertPingParams \<Rightarrow> bool" where
  "storable parts x \<longleftrightarrow> pg_text (ip_ClientID x) \<and> routed parts (pv (ip_CapturedAt x))"

lemma insert_one_unused:
  assumes "inj_on ids {..<N}" "n < N" "unused_from ids N n d" "insert_one now (ids n) x d = (r, d')"
  shows "unused_from ids N (Suc n) d'"
proof -
  have "pings d' = pings d \<or> (\<exists>p. pings d' = pings d @ [p] \<and> Ping_ID p = ids n)"
    using assms(4) by (auto simp: insert_one_def InsertPing_def stmt_def Let_def split: list.splits if_splits)
  then show ?thesis using assms(3) spent_id [OF assms(1,2)] unfolding unused_from_def fresh_ping_def fresh_in_iff
    by (elim disjE exE conjE) (simp_all, metis)
qed

lemma pg_insert_pings_agrees:
  assumes "inj_on ids {..<N}" "whole now" "\<forall>x\<in>set xs. whole_times x \<and> storable parts x" "n + length xs \<le> N"
  shows "tx_agrees (unused_from ids N n) (map sc_Ping) (pg_insert_pings parts now ids n xs) (insert_pings now ids n xs)"
  using assms(3,4)
proof (induction xs arbitrary: n)
  case (Cons x xs)
  have n: "n < N" using Cons.prems by simp
  have "agrees (fresh_ping (ids n)) sc_Ping (pg_insert_one parts now (ids n) x) (insert_one now (ids n) x)"
    unfolding pg_insert_one_def insert_one_def
    using Cons.prems assms(2) by (intro pg_InsertPing_agrees) (simp_all add: storable_def whole_times_def)
  then have one: "agrees (unused_from ids N n) sc_Ping (pg_insert_one parts now (ids n) x) (insert_one now (ids n) x)"
    using n by (simp add: agrees_def unused_from_def)
  have IH: "tx_agrees (unused_from ids N (Suc n)) (map sc_Ping) (pg_insert_pings parts now ids (Suc n) xs)
      (insert_pings now ids (Suc n) xs)"
    using Cons.IH Cons.prems by simp
  show ?case unfolding pg_insert_pings.simps insert_pings.simps
    by (rule tx_agrees_skip [OF one _ IH], erule (1) insert_one_unused [OF assms(1) n])
      (rule tx_agrees_then [OF IH], simp add: tx_agrees_ret)
qed (simp add: tx_agrees_ret)

lemma pg_ping_tx_agrees:
  assumes "inj_on ids {..<N}" "whole (rq_now rq)" "\<forall>x\<in>set items. whole_times x \<and> storable parts x" "length items \<le> N"
  shows "agrees (unused_from ids N 0) (map sc_Ping) (pg_ping_tx parts rq ids items) (ping_tx rq ids items)"
proof -
  have rows: "tx_agrees (unused_from ids N 0) (map sc_Ping) (pg_insert_pings parts (rq_now rq) ids 0 items)
      (insert_pings (rq_now rq) ids 0 items)"
    using pg_insert_pings_agrees [OF assms(1-3), of 0] assms(4) by simp
  show ?thesis unfolding pg_ping_tx_def ping_tx_def
    by (rule withPgTx_agrees, rule tx_agrees_then [OF rows], rule tx_agrees_first [OF pg_TouchDevice_agrees [OF assms(2)]])
      (simp_all add: tx_agrees_ret tables_only_def unused_from_def fresh_ping_def)
qed

text \<open>One ping that Postgres cannot store fails the batch, and the transaction leaves nothing behind.\<close>

lemma pg_insert_pings_refused:
  assumes "\<exists>x\<in>set xs. \<not> storable parts x"
  shows "\<exists>e d' a. pg_insert_pings parts now ids n xs (d, False) = (Inl e, (d', a))"
  using assms
proof (induction xs arbitrary: n d)
  case (Cons x xs)
  obtain r d1 where m: "pg_insert_one parts now (ids n) x d = (r, d1)" by (cases "pg_insert_one parts now (ids n) x d")
  show ?case
  proof (cases "storable parts x")
    case False
    then obtain e bs where "pg_insert_one parts now (ids n) x d = (Inl e, d\<lparr>faults := bs\<rparr>)" "e \<noteq> NoRows"
      using pg_InsertPing_refused unfolding pg_insert_one_def storable_def by metis
    then show ?thesis by (cases e) (simp_all add: tryq_def in_tx_def IsNotFound_def fail_def, blast+)
  next
    case True
    then have IH: "\<exists>e d' a. pg_insert_pings parts now ids (Suc n) xs (d1, False) = (Inl e, (d', a))"
      using Cons by auto
    show ?thesis
    proof (cases r)
      case (Inl e)
      then show ?thesis using m IH by (cases e) (auto simp: tryq_def in_tx_def IsNotFound_def fail_def)
    next
      case (Inr p)
      then show ?thesis using m IH by (auto simp: tryq_def in_tx_def bindm_def)
    qed
  qed
qed simp

lemma withPgTx_rollback:
  assumes "withPgTx wrap fn d = (Inl e, d')"
  shows "\<exists>bs. d' = d\<lparr>faults := bs\<rparr>"
proof -
  have keep: "\<exists>bs. d1 = d\<lparr>faults := bs\<rparr>" if "stmt (ret ()) d = (r, d1)" for r :: "dberr + unit" and d1
    using that by (auto simp: stmt_def ret_def intro: exI [of _ "faults d"] split: list.splits if_splits)
  obtain r1 d1 where b: "stmt (ret ()) d = (r1 :: dberr + unit, d1)" by (cases "stmt (ret ()) d :: (dberr + unit) \<times> db")
  then obtain bs where "d1 = d\<lparr>faults := bs\<rparr>" using keep by blast
  then show ?thesis using assms b by (auto simp: withPgTx_def split: prod.splits sum.splits if_splits)
qed

lemma pg_ping_tx_refused:
  assumes "\<exists>x\<in>set items. \<not> storable parts x"
  shows "\<exists>e bs. pg_ping_tx parts rq ids items d = (Inl e, d\<lparr>faults := bs\<rparr>)"
proof -
  have "\<exists>e d'. pg_ping_tx parts rq ids items d = (Inl e, d')"
  proof (cases "stmt (ret ()) d :: (dberr + unit) \<times> db")
    case (Pair r1 d1)
    then show ?thesis using pg_insert_pings_refused [OF assms, of "rq_now rq" ids 0 d1]
      by (cases r1) (auto simp: pg_ping_tx_def withPgTx_def bindm_def)
  qed
  then show ?thesis using withPgTx_rollback unfolding pg_ping_tx_def by metis
qed

text \<open>The same for the envelopes, on consistent tables.\<close>

definition unsent_from :: "(nat \<Rightarrow> uuid) \<Rightarrow> nat \<Rightarrow> nat \<Rightarrow> db \<Rightarrow> bool" where
  "unsent_from ids N n d \<longleftrightarrow> db_ok d \<and> (\<forall>k\<in>{n..<N}. fresh_in Envelope_ID (ids k) (key_envelopes d))"

lemma CreateKeyEnvelope_unsent:
  assumes "inj_on ids {..<N}" "n < N"
  shows "gives (unsent_from ids N n) (CreateKeyEnvelope now (ids n) c v x ct ep) (\<lambda>_. unsent_from ids N (Suc n))"
proof (rule givesI)
  fix d e d' assume d: "unsent_from ids N n d" and new: "CreateKeyEnvelope now (ids n) c v x ct ep d = (Inr e, d')"
  have ok: "db_ok d'" using presD2 [OF CreateKeyEnvelope_ok new] d by (simp add: unsent_from_def)
  have "Envelope_ID ` set (key_envelopes d') \<subseteq> insert (ids n) (Envelope_ID ` set (key_envelopes d))"
    using new by (auto simp: CreateKeyEnvelope_def stmt_def Let_def update_where_def
        split: list.splits if_splits option.splits)
  moreover have "\<forall>k\<in>{Suc n..<N}. ids k \<notin> Envelope_ID ` set (key_envelopes d)"
    using d unfolding unsent_from_def fresh_in_iff by (metis atLeastLessThan_iff Suc_leD imageE)
  ultimately have "Envelope_ID x \<noteq> ids k" if "k \<in> {Suc n..<N}" "x \<in> set (key_envelopes d')" for k x
    using that spent_id [OF assms] by (metis imageI insertE subsetD)
  then show "unsent_from ids N (Suc n) d'" using ok by (simp add: unsent_from_def fresh_in_iff)
qed

lemma pg_post_envelopes_agrees:
  assumes "inj_on ids {..<N}" "whole (rq_now rq)" "n + length es \<le> N"
  shows "tx_agrees (unsent_from ids N n) id (pg_post_envelopes rq ids c epoch valid n es)
    (post_envelopes rq ids c epoch valid n es)"
  using assms(3)
proof (induction es arbitrary: n)
  case (Cons e es)
  have n: "n < N" using Cons.prems by simp
  have one: "agrees (unsent_from ids N n) sc_Envelope (pg_CreateKeyEnvelope (rq_now rq) (ids n) c v x ct ep)
      (CreateKeyEnvelope (rq_now rq) (ids n) c v x ct ep)" for v x ct ep
    using pg_CreateKeyEnvelope_agrees [OF assms(2), of "ids n"] n by (simp add: agrees_def unsent_from_def fresh_envelope_def)
  have IH: "tx_agrees (unsent_from ids N (Suc n)) id (pg_post_envelopes rq ids c epoch valid (Suc n) es)
      (post_envelopes rq ids c epoch valid (Suc n) es)"
    by (rule Cons.IH) (use Cons.prems in simp)
  have send: "tx_agrees (unsent_from ids N n) id
      (tryq (in_tx (pg_CreateKeyEnvelope (rq_now rq) (ids n) c v x ct ep)) (\<lambda>_. fail Internal)
        (\<lambda>_. pg_post_envelopes rq ids c epoch valid (Suc n) es))
      (tryq (CreateKeyEnvelope (rq_now rq) (ids n) c v x ct ep) (\<lambda>_. fail Internal)
        (\<lambda>_. post_envelopes rq ids c epoch valid (Suc n) es))" for v x ct ep
    by (rule tx_agrees_wrap [OF one CreateKeyEnvelope_unsent [OF assms(1) n]]) (rule IH)
  show ?case unfolding pg_post_envelopes.simps post_envelopes.simps
    by (cases "kei_Recipient e"; cases "decodeBlob (kei_Ciphertext e) maxBlobBytes"; simp only: option.case sum.case)
      (intro tx_agrees_if tx_agrees_fail send)+
qed (simp add: tx_agrees_ret)

lemma pg_envelope_tx_agrees:
  assumes "inj_on ids {..<N}" "whole (rq_now rq)" "length es \<le> N"
  shows "agrees (unsent_from ids N 0) id (withPgTx w (pg_post_envelopes rq ids c epoch valid 0 es))
    (withSQLiteTx w (post_envelopes rq ids c epoch valid 0 es))"
  by (rule withPgTx_agrees [OF pg_post_envelopes_agrees [OF assms(1,2)]])
    (use assms(3) in \<open>simp_all add: tables_only_def unsent_from_def\<close>)

text \<open>Hashes of tokens are hexadecimal.\<close>

lemma ascii_pg_text: "(\<forall>c\<in>set s. 0 < (of_char c :: nat) \<and> of_char c < (128::nat)) \<Longrightarrow> pg_text s"
  unfolding pg_text_def by (induction s) auto

lemma HashToken_pg_text: "pg_text (HashToken s tok)"
proof -
  have hex: "0 < (of_char (hex_digit n) :: nat) \<and> of_char (hex_digit n) < (128::nat)" if "n < 16" for n
    using that by (simp add: hex_digit_def of_char_of)
  have "unat b div 16 < 16" "unat b mod 16 < 16" for b :: "8 word"
    using unat_byte [of b] by simp_all
  then show ?thesis unfolding HashToken_def hex_EncodeToString_def by (intro ascii_pg_text) (auto simp: hex)
qed

definition sc_Result :: "AuthResult \<Rightarrow> AuthResult" where
  "sc_Result x = x\<lparr>Res_User := map_option sc_User (Res_User x), Res_Device := map_option sc_Device (Res_Device x),
     Res_Session := sc_Session (Res_Session x)\<rparr>"

lemma pg_issueSession_agrees:
  assumes "whole now" "whole (svc_accessTTL s)" "whole (svc_refreshTTL s)"
  shows "tx_agrees anywhere sc_Result (pg_issueSession s now ent (sc_User u) (sc_Device v)) (issueSession s now ent u v)"
proof -
  have sel: "User_ID (sc_User u) = User_ID u" "Device_ID (sc_Device v) = Device_ID v"
    by (simp_all add: sc_User_def sc_Device_def)
  have "whole (now + svc_accessTTL s)" "whole (now + svc_refreshTTL s)"
    using assms by (simp_all add: whole_def mod_add_eq [symmetric])
  note create = pg_CreateSession_agrees [OF assms(1) this HashToken_pg_text HashToken_pg_text]
  show ?thesis unfolding pg_issueSession_def issueSession_def pg_store_def store_def sel Let_def
    by (auto intro!: tx_agrees_fail tx_agrees_ret tx_agrees_call [OF create] simp: sc_Result_def split: option.split)
qed

text \<open>The transaction inside \<^verbatim>\<open>Register\<close>.\<close>

lemma pg_register_tx_agrees:
  assumes "citext_ascii low" "ascii email" "whole now" "whole (svc_accessTTL s)" "whole (svc_refreshTTL s)"
    and texts: "\<forall>t\<in>set ([email, hash, Reg_Platform inp] @ opt_text (strPtrOrNil (Reg_DisplayName inp))). pg_text t"
  shows "agrees ascii_emails sc_Result (pg_register_tx low s now ent inp email hash)
    (withSQLiteTx StoreErr (store (CreateUser now (ent_user ent) email hash) (\<lambda>user.
       store (CreateDevice now (ent_device ent) (User_ID user) (Reg_Platform inp)
         (strPtrOrNil (Reg_DisplayName inp)) (Reg_Pubkey inp)) (issueSession s now ent user))))"
proof -
  have sel: "User_ID (sc_User u) = User_ID u" for u by (simp add: sc_User_def)
  have user: "agrees ascii_emails sc_User (pg_CreateUser low now i email hash) (CreateUser now i email hash)" for i
    using pg_CreateUser_agrees assms(1-3) texts by simp
  have device: "agrees anywhere sc_Device
      (pg_CreateDevice now i u (Reg_Platform inp) (strPtrOrNil (Reg_DisplayName inp)) k)
      (CreateDevice now i u (Reg_Platform inp) (strPtrOrNil (Reg_DisplayName inp)) k)" for i u k
    using texts assms(3) by (intro pg_CreateDevice_agrees) simp_all
  have rest: "tx_agrees anywhere sc_Result
      (pg_store (pg_CreateDevice now (ent_device ent) (User_ID (sc_User u)) (Reg_Platform inp)
          (strPtrOrNil (Reg_DisplayName inp)) (Reg_Pubkey inp)) (pg_issueSession s now ent (sc_User u)))
      (store (CreateDevice now (ent_device ent) (User_ID u) (Reg_Platform inp)
          (strPtrOrNil (Reg_DisplayName inp)) (Reg_Pubkey inp)) (issueSession s now ent u))" for u
    unfolding pg_store_def store_def sel by (rule tx_agrees_call [OF device], rule pg_issueSession_agrees [OF assms(3-5)])
  show ?thesis unfolding pg_register_tx_def
    by (intro withPgTx_agrees tables_only_ascii_emails, subst pg_store_def, subst store_def)
      (rule tx_agrees_call [OF user], rule rest)
qed

lemma encodeHash_pg_text: "pg_text (encodeHash p salt key)"
proof -
  have "0 < (of_char c :: nat) \<and> of_char c < (128::nat)" if "c \<in> set encodeStd" for c
    using that unfolding alphabet_defs by auto
  then have "0 < (of_char c :: nat) \<and> of_char c < (128::nat)" if "c \<in> set (EncodeToString encodeStd None bs)" for c bs
    using RawStdEncoding.encoded_chars [OF that] by blast
  moreover have "0 < (of_char c :: nat) \<and> of_char c < (128::nat)" if "c \<in> set (show_nat n)" for c n
    using show_nat_digits [OF that] by (auto simp: is_digit_def)
  ultimately show ?thesis unfolding encodeHash_def by (intro ascii_pg_text) auto
qed

lemma agrees_wrap:
  assumes "agrees I f m m'" and "pres I m'" and "\<And>x. agrees I g (k (f x)) (k' x)"
  shows "agrees I g (tryq m (\<lambda>e. fail (w e)) k) (tryq m' (\<lambda>e. fail (w e)) k')"
proof (rule agreesI)
  fix d assume d: "I d"
  obtain r d' where m': "m' d = (r, d')" by (cases "m' d")
  have "I d'" using presD2 [OF assms(2) m' d] .
  then show "tryq m (\<lambda>e. fail (w e)) k (sc_db d) =
      (case tryq m' (\<lambda>e. fail (w e)) k' d of (r, d') \<Rightarrow> (map_sum id g r, sc_db d'))"
    using agreesD [OF assms(1) d m'] assms(3) m' by (cases r) (simp_all add: tryq_def agrees_def fail_def)
qed

lemma agrees_finally:
  assumes "agrees I f m m'" and "\<And>x. agrees anywhere g (k (f x)) (k' x)"
  shows "agrees I g (bindm m k) (bindm m' k')"
proof (rule agreesI)
  fix d assume d: "I d"
  obtain r d' where m': "m' d = (r, d')" by (cases "m' d")
  then show "bindm m k (sc_db d) = (case bindm m' k' d of (r, d') \<Rightarrow> (map_sum id g r, sc_db d'))"
    using agreesD [OF assms(1) d m'] assms(2) by (cases r) (simp_all add: bindm_def agrees_def)
qed

lemma agrees_fail: "agrees I f (fail e) (fail e)"
  by (simp add: agrees_def fail_def)

lemma pg_Log_agrees:
  "whole now \<Longrightarrow> pg_text (Ev_Name e) \<Longrightarrow> pg_text (Ev_IP e) \<Longrightarrow> agrees anywhere id (pg_Log b now e) (Log b now e)"
  unfolding pg_Log_def Log_def by (rule pg_WriteAudit_agrees) (simp_all add: opt_text_def)

lemma pg_Register_agrees:
  assumes "citext_ascii low" "ascii (normalizeEmail s (Reg_Email inp))" "whole now"
    and "whole (svc_accessTTL s)" "whole (svc_refreshTTL s)"
    and texts: "\<forall>t\<in>set [normalizeEmail s (Reg_Email inp), Reg_DisplayName inp, Reg_IP inp]. pg_text t"
  shows "agrees ascii_emails sc_Result (pg_Register low s now ent inp) (Register s now ent inp)"
proof (cases "validateEmail s (Reg_Email inp)")
  case (Inr email)
  then have email: "email = normalizeEmail s (Reg_Email inp)" by (auto simp: validateEmail_def Let_def split: if_splits)
  show ?thesis
  proof (cases "validatePlatform (Reg_Platform inp)")
    case None
    moreover have "pg_text ''android''" "pg_text ''ios''" "pg_text ''web''" "pg_text ''web-mobile''" by code_simp+
    ultimately have "pg_text (Reg_Platform inp)" by (auto simp: validatePlatform_def split: if_splits)
    then have create: "agrees ascii_emails sc_Result (pg_register_tx low s now ent inp email h)
        (withSQLiteTx StoreErr (store (CreateUser now (ent_user ent) email h) (\<lambda>user.
           store (CreateDevice now (ent_device ent) (User_ID user) (Reg_Platform inp)
             (strPtrOrNil (Reg_DisplayName inp)) (Reg_Pubkey inp)) (issueSession s now ent user))))"
      if "pg_text h" for h
      using that texts assms(2) email by (intro pg_register_tx_agrees [OF assms(1) _ assms(3-5)])
        (simp_all add: strPtrOrNil_def opt_text_def)
    have log: "agrees anywhere sc_Result
        (run (pg_Log b now (Event_of ''register'' (map_option User_ID (Res_User (sc_Result res)))
            (map_option Device_ID (Res_Device (sc_Result res))) None (Reg_IP inp))) (ret (sc_Result res)))
        (run (Log b now (Event_of ''register'' (map_option User_ID (Res_User res))
            (map_option Device_ID (Res_Device res)) None (Reg_IP inp))) (ret res))" for b res
    proof -
      have ids: "map_option User_ID (Res_User (sc_Result res)) = map_option User_ID (Res_User res)"
        "map_option Device_ID (Res_Device (sc_Result res)) = map_option Device_ID (Res_Device res)"
        by (simp_all add: sc_Result_def option.map_comp comp_def sc_User_def sc_Device_def)
      have "pg_text ''register''" by code_simp
      then have "agrees anywhere id (pg_Log b now (Event_of ''register'' x y None (Reg_IP inp)))
          (Log b now (Event_of ''register'' x y None (Reg_IP inp)))" for x y
        using texts assms(3) by (intro pg_Log_agrees) (simp_all add: Event_of_def)
      then show ?thesis unfolding ids by (simp add: agrees_def run_def ret_def split: prod.splits)
    qed
    have exists: "agrees ascii_emails id (pg_EmailExists low email) (EmailExists email)" "pres ascii_emails (EmailExists email)"
      using pg_EmailExists_agrees [OF assms(1)] assms(2) texts email
      by (simp_all add: EmailExists_def pres_query)
    have tail: "agrees ascii_emails sc_Result
        (if taken then fail ErrEmailTaken
         else case HashPasswordWithParams (svc_IDKey s) (ent_salt ent) (Reg_Password inp) (svc_argonParams s) of
             Inl e \<Rightarrow> fail (CryptoErr e)
           | Inr hash \<Rightarrow> bindm (pg_register_tx low s now ent inp email hash) (\<lambda>res. run (pg_Log (svc_storeIP s) now
               (Event_of ''register'' (map_option User_ID (Res_User res)) (map_option Device_ID (Res_Device res)) None
                 (Reg_IP inp))) (ret res)))
        (if taken then fail ErrEmailTaken
         else case HashPasswordWithParams (svc_IDKey s) (ent_salt ent) (Reg_Password inp) (svc_argonParams s) of
             Inl e \<Rightarrow> fail (CryptoErr e)
           | Inr hash \<Rightarrow> bindm (withSQLiteTx StoreErr (store (CreateUser now (ent_user ent) email hash) (\<lambda>user.
               store (CreateDevice now (ent_device ent) (User_ID user) (Reg_Platform inp)
                 (strPtrOrNil (Reg_DisplayName inp)) (Reg_Pubkey inp)) (issueSession s now ent user))))
               (\<lambda>res. run (Log (svc_storeIP s) now
               (Event_of ''register'' (map_option User_ID (Res_User res)) (map_option Device_ID (Res_Device res)) None
                 (Reg_IP inp))) (ret res)))" for taken
    proof (cases "HashPasswordWithParams (svc_IDKey s) (ent_salt ent) (Reg_Password inp) (svc_argonParams s)")
      case (Inr h)
      then have "pg_text h" by (auto simp: HashPasswordWithParams_def encodeHash_pg_text split: if_splits option.splits)
      then show ?thesis unfolding Inr sum.case
        by (cases taken; simp only: if_True if_False agrees_fail) (rule agrees_finally [OF create], assumption, rule log)
    qed (simp add: agrees_fail)
    show ?thesis unfolding pg_Register_def Register_def Inr None check_def sum.case option.case store_def [of "EmailExists email"]
      by (cases "validatePassword (Reg_Password inp)"; cases "validatePubkey (Reg_Pubkey inp)"; simp only: option.case agrees_fail)
        (rule agrees_wrap [OF exists], unfold id_apply, rule tail)
  next
    case (Some e)
    then show ?thesis by (simp add: pg_Register_def Register_def check_def agrees_fail split: sum.split option.split)
  qed
qed (simp add: pg_Register_def Register_def agrees_fail)

end
