(* ===== verification/Aul_Pg_Retention.thy ===== *)
theory Aul_Pg_Retention
  imports Aul_Pg_Feeds Aul_Retention Aul_Time
begin

text \<open>
  The monthly partitions of the pings on Postgres: the two SQL functions of
  \<^verbatim>\<open>migrations/00003_pings.sql\<close> that create them, \<^verbatim>\<open>EnsurePingPartitions\<close>, \<^verbatim>\<open>dropOldPartitions\<close> of
  \<^verbatim>\<open>retention.go\<close> and the Postgres arm of a maintenance pass. The state is the database and the list
  of partitions. A month is its index \<open>12 * year + month - 1\<close>.
\<close>

section \<open>Months\<close>

definition day_us :: int where "day_us = 86400000000"

definition month_start :: "int \<Rightarrow> sqltime" where
  "month_start k = (day_number (k div 12) (k mod 12 + 1) 1 - epoch_day) * day_us"

text \<open>\<^verbatim>\<open>date_trunc('month', t)\<close> in UTC.\<close>

definition month_index :: "sqltime \<Rightarrow> int" where
  "month_index t = (case civil (epoch_day + t div day_us) of y # m # _ \<Rightarrow> 12 * y + m - 1 | _ \<Rightarrow> 0)"

text \<open>Go's \<^verbatim>\<open>AddDate(0, n, 0)\<close>: a day past the end of the month runs into the next one.\<close>

definition AddMonths :: "gotime \<Rightarrow> int \<Rightarrow> gotime" where
  "AddMonths t n = (case civil (epoch_day + t div Day) of
      [y, m, d] \<Rightarrow> (let k = 12 * y + m - 1 + n in
        (day_number (k div 12) (k mod 12 + 1) d - epoch_day) * Day + t mod Day)
    | _ \<Rightarrow> t)"

section \<open>Partitions\<close>

type_synonym pgs = "db \<times> partition list"

definition partition_name :: "int \<Rightarrow> string" where
  "partition_name k = ''pings_p'' @ pad 4 (k div 12) @ ''_'' @ pad 2 (k mod 12 + 1)"

text \<open>
  \<^verbatim>\<open>CREATE TABLE ... PARTITION OF pings\<close> fails when the range overlaps an existing partition.
\<close>

definition aul_ensure_ping_partition :: "int \<Rightarrow> partition list \<Rightarrow> partition list option" where
  "aul_ensure_ping_partition k parts =
     (if \<exists>p\<in>set parts. part_name p = partition_name k then Some parts
      else if \<exists>p\<in>set parts. part_from p < month_start (k + 1) \<and> month_start k < part_to p then None
      else Some (parts @ [\<lparr>part_name = partition_name k, part_from = month_start k,
                           part_to = month_start (k + 1)\<rparr>]))"

function ensure_months :: "int \<Rightarrow> int \<Rightarrow> partition list \<Rightarrow> partition list option" where
  "ensure_months m last_m parts = (if m \<le> last_m
     then (case aul_ensure_ping_partition m parts of None \<Rightarrow> None | Some ps \<Rightarrow> ensure_months (m + 1) last_m ps)
     else Some parts)"
  by pat_completeness auto

termination
  by (relation "measure (\<lambda>(m, last_m, _). nat (last_m - m + 1))") auto

declare ensure_months.simps [simp del]

definition aul_ensure_ping_partitions :: "sqltime \<Rightarrow> sqltime \<Rightarrow> partition list \<Rightarrow> partition list option" where
  "aul_ensure_ping_partitions from_ts to_ts = ensure_months (month_index from_ts) (month_index to_ts)"

definition on_tables :: "'a q \<Rightarrow> pgs \<Rightarrow> (dberr + 'a) \<times> pgs" where
  "on_tables m = (\<lambda>(d, parts). case m d of (r, d') \<Rightarrow> (r, (d', parts)))"

definition pg_EnsurePingPartitions :: "gotime \<Rightarrow> gotime \<Rightarrow> pgs \<Rightarrow> (dberr + unit) \<times> pgs" where
  "pg_EnsurePingPartitions fromTs toTs = (\<lambda>(d, parts). case stmt (ret ()) d of
      (Inl e, d1) \<Rightarrow> (Inl e, (d1, parts))
    | (Inr _, d1) \<Rightarrow> (case aul_ensure_ping_partitions (pv fromTs) (pv toTs) parts of
        None \<Rightarrow> (Inl Constraint, (d1, parts))
      | Some ps \<Rightarrow> (Inr (), (d1, ps))))"

section \<open>retention.go\<close>

fun atoi_from :: "int \<Rightarrow> string \<Rightarrow> int" where
  "atoi_from n [] = n"
| "atoi_from n (c # cs) = (if \<not> is_digit c then - 1 else atoi_from (n * 10 + (int (of_char c) - 48)) cs)"

definition atoi :: "string \<Rightarrow> int" where
  "atoi = atoi_from 0"

text \<open>\<^verbatim>\<open>^pings_p(\d{4})_(\d{2})$\<close> and its two groups.\<close>

definition partitionNameRe :: "string \<Rightarrow> (string \<times> string) option" where
  "partitionNameRe s = (let y = take 4 (drop 7 s); m = drop 12 s in
     if length s = 14 \<and> take 7 s = ''pings_p'' \<and> list_all is_digit y \<and> s ! 11 = CHR ''_'' \<and> list_all is_digit m
     then Some (y, m) else None)"

text \<open>The name of a month that ends at or before the horizon.\<close>

definition expired_partition :: "gotime \<Rightarrow> string \<Rightarrow> bool" where
  "expired_partition horizon name = (case partitionNameRe name of None \<Rightarrow> False
    | Some (ys, ms) \<Rightarrow> (let year = atoi ys; month = atoi ms in
        1 \<le> month \<and> month \<le> 12 \<and> month_start (12 * year + month - 1 + 1) * Microsecond \<le> horizon))"

definition part_holds :: "partition \<Rightarrow> sqltime \<Rightarrow> bool" where
  "part_holds q t \<longleftrightarrow> part_from q \<le> t \<and> t < part_to q"

definition drop_table :: "string \<Rightarrow> pgs \<Rightarrow> (dberr + unit) \<times> pgs" where
  "drop_table name = (\<lambda>(d, parts). case stmt (ret ()) d of
      (Inl e, d1) \<Rightarrow> (Inl e, (d1, parts))
    | (Inr _, d1) \<Rightarrow> (Inr (), (d1\<lparr>pings := delete_where
          (\<lambda>p. \<exists>q\<in>set parts. part_name q = name \<and> part_holds q (Ping_CapturedAt p)) (pings d1)\<rparr>,
        delete_where (\<lambda>q. part_name q = name) parts)))"

fun drop_each :: "gotime \<Rightarrow> string list \<Rightarrow> pgs \<Rightarrow> (dberr + nat) \<times> pgs" where
  "drop_each horizon [] = ret 0"
| "drop_each horizon (name # names) = (if expired_partition horizon name
     then tryq (drop_table name) (\<lambda>_. drop_each horizon names)
       (\<lambda>_. bindm (drop_each horizon names) (\<lambda>dropped. ret (Suc dropped)))
     else drop_each horizon names)"

definition dropOldPartitions :: "gotime \<Rightarrow> pgs \<Rightarrow> (dberr + nat) \<times> pgs" where
  "dropOldPartitions horizon = (\<lambda>(d, parts). case stmt (ret ()) d of
      (Inl e, d1) \<Rightarrow> (Inl e, (d1, parts))
    | (Inr _, d1) \<Rightarrow> drop_each horizon (map part_name parts) (d1, parts))"

fun pg_delete_expired_for :: "gotime \<Rightarrow> (uuid \<times> int) list \<Rightarrow> nat q" where
  "pg_delete_expired_for now [] = ret 0"
| "pg_delete_expired_for now ((c, days) # cs) = tryq (pg_DeleteExpiredPingsForCircle now c days)
     (\<lambda>_. pg_delete_expired_for now cs)
     (\<lambda>n. bindm (pg_delete_expired_for now cs) (\<lambda>total. ret (n + total)))"

definition pg_deleteExpiredPings :: "gotime \<Rightarrow> nat q" where
  "pg_deleteExpiredPings now = bindm pg_AllCircleRetention (pg_delete_expired_for now)"

text \<open>The steps 3 to 10 of a pass, which the two backends share.\<close>

definition pg_later_steps :: "Worker \<Rightarrow> gotime \<Rightarrow> unit q" where
  "pg_later_steps w now =
     run (pg_PruneStalePings now (wk_pingRetentionHours w)) (
     run (pg_deleteExpiredPings now) (
     run (pg_PruneLoginAttempts now 1) (
     run (pg_PruneAuditIPs now (wk_ipLogDays w)) (
     run (pg_DeleteExpiredSessions now) (
     run (pg_PruneKeyEnvelopes now) (
     run (pg_PruneResolvedSOS (now - wk_maxRetentionDays w * Day)) (
     run (pg_PrunePlaceTombstones (now - wk_maxRetentionDays w * Day)) (
     run (pg_PruneShareSessions now shareGraceHours)
     (ret ())))))))))"

definition pg_RunOnce :: "Worker \<Rightarrow> gotime \<Rightarrow> pgs \<Rightarrow> (dberr + unit) \<times> pgs" where
  "pg_RunOnce w now =
     run (pg_EnsurePingPartitions (AddMonths now (- 1)) (AddMonths now 2)) (
     run (dropOldPartitions (now - wk_maxRetentionDays w * Day)) (
     on_tables (pg_later_steps w now)))"

definition later_steps :: "Worker \<Rightarrow> gotime \<Rightarrow> unit q" where
  "later_steps w now =
     run (PruneStalePings now (wk_pingRetentionHours w)) (
     run (deleteExpiredPings now) (
     run (PruneLoginAttempts now 1) (
     run (PruneAuditIPs now (wk_ipLogDays w)) (
     run (DeleteExpiredSessions now) (
     run (PruneKeyEnvelopes now) (
     run (PruneResolvedSOS (now - wk_maxRetentionDays w * Day)) (
     run (PrunePlaceTombstones (now - wk_maxRetentionDays w * Day)) (
     run (PruneShareSessions now shareGraceHours)
     (ret ())))))))))"

lemma RunOnce_later: "RunOnce w now = run (PruneAllPingsBefore (now - wk_maxRetentionDays w * Day)) (later_steps w now)"
  by (simp add: RunOnce_def later_steps_def)

section \<open>The shared steps agree\<close>

lemma agrees_run:
  assumes "agrees anywhere id m m'" and "agrees anywhere g k k'"
  shows "agrees anywhere g (run m k) (run m' k')"
  using assms by (simp add: agrees_def run_def split: prod.splits)

lemma agrees_ret: "agrees anywhere id (ret x) (ret x)"
  by (simp add: agrees_def ret_def)

lemma agrees_tryq:
  assumes "agrees anywhere id m m'" and "\<And>e. agrees anywhere g (h e) (h' e)" and "\<And>x. agrees anywhere g (k x) (k' x)"
  shows "agrees anywhere g (tryq m h k) (tryq m' h' k')"
proof (rule agreesI)
  fix d
  obtain r d' where m': "m' d = (r, d')" by (cases "m' d")
  show "tryq m h k (sc_db d) = (case tryq m' h' k' d of (r, d') \<Rightarrow> (map_sum id g r, sc_db d'))"
    using agreesD [OF assms(1) _ m'] assms(2,3) m' by (cases r) (simp_all add: tryq_def agrees_def)
qed

lemma agrees_seq:
  assumes "agrees anywhere id m m'" and "\<And>x. agrees anywhere id (k x) (k' x)"
  shows "agrees anywhere id (bindm m k) (bindm m' k')"
  using assms by (intro agrees_bindm [where f = id]) (simp_all add: pres_def)

lemma pg_delete_expired_for_agrees:
  "whole now \<Longrightarrow> agrees anywhere id (pg_delete_expired_for now cs) (delete_expired_for now cs)"
proof (induction cs)
  case (Cons c cs)
  obtain i n where c: "c = (i, n)" by (cases c)
  show ?case unfolding c pg_delete_expired_for.simps delete_expired_for.simps
    by (intro agrees_tryq agrees_seq agrees_ret Cons.IH Cons.prems pg_DeleteExpiredPingsForCircle_agrees)
qed (simp add: agrees_ret)

lemma pg_deleteExpiredPings_agrees:
  "whole now \<Longrightarrow> agrees anywhere id (pg_deleteExpiredPings now) (deleteExpiredPings now)"
  unfolding pg_deleteExpiredPings_def deleteExpiredPings_def
  by (intro agrees_seq pg_AllCircleRetention_agrees pg_delete_expired_for_agrees)

lemma whole_minus: "whole a \<Longrightarrow> whole b \<Longrightarrow> whole (a - b)"
  unfolding whole_def by (simp add: mod_diff_cong [where b' = 0])

lemma later_steps_agree:
  assumes "whole now" and "in_i64 (wk_pingRetentionHours w * Hour)"
  shows "agrees anywhere id (pg_later_steps w now) (later_steps w now)"
proof -
  have "in_i64 (shareGraceHours * Hour)" by (simp add: in_i64_def shareGraceHours_def duration_defs)
  moreover have "whole (now - wk_maxRetentionDays w * Day)" using assms(1) by (simp add: whole_minus)
  ultimately show ?thesis unfolding pg_later_steps_def later_steps_def
    using assms by (intro agrees_run agrees_ret pg_deleteExpiredPings_agrees pg_PruneStalePings_agrees
      pg_PruneLoginAttempts_agrees pg_PruneAuditIPs_agrees pg_DeleteExpiredSessions_agrees
      pg_PruneKeyEnvelopes_agrees pg_PruneResolvedSOS_agrees pg_PrunePlaceTombstones_agrees
      pg_PruneShareSessions_agrees)
qed

section \<open>Months partition the time line\<close>

definition pg_range :: "sqltime \<Rightarrow> bool" where
  "pg_range t \<longleftrightarrow> 0 \<le> epoch_day + t div day_us \<and> epoch_day + t div day_us < year_start 10000"

definition month_len :: "int \<Rightarrow> int" where
  "month_len k = month_lengths (k div 12) ! nat (k mod 12)"

lemma month_len_bounds: "28 \<le> month_len k" "month_len k \<le> 31"
proof -
  have "nat (k mod 12) < length (month_lengths (k div 12))" by (simp add: month_lengths_def nat_less_iff)
  then have "month_len k \<in> set (month_lengths (k div 12))" unfolding month_len_def by (rule nth_mem)
  then show "28 \<le> month_len k" "month_len k \<le> 31" by (auto simp: month_lengths_def split: if_splits)
qed

lemma month_split:
  fixes q r :: int assumes "0 \<le> r" "r < 12"
  shows "(12 * q + r) div 12 = q" and "(12 * q + r) mod 12 = r"
  using assms by simp_all

lemma month_carry:
  fixes k :: int
  shows "k mod 12 = 11 \<Longrightarrow> (k + 1) div 12 = k div 12 + 1 \<and> (k + 1) mod 12 = 0"
    and "k mod 12 \<noteq> 11 \<Longrightarrow> (k + 1) div 12 = k div 12 \<and> (k + 1) mod 12 = k mod 12 + 1"
proof -
  define q r where "q = k div 12" and "r = k mod 12"
  have k: "k = 12 * q + r" and r: "0 \<le> r" "r < 12" by (simp_all add: q_def r_def)
  show "(k + 1) div 12 = k div 12 + 1 \<and> (k + 1) mod 12 = 0" if "k mod 12 = 11"
  proof -
    have "r = 11" using that by (simp add: r_def)
    then have c: "k + 1 = 12 * (q + 1) + 0" using k by (simp add: algebra_simps)
    show ?thesis unfolding c q_def [symmetric] by (simp only: month_split zero_less_numeral order_refl simp_thms)
  qed
  show "(k + 1) div 12 = k div 12 \<and> (k + 1) mod 12 = k mod 12 + 1" if "k mod 12 \<noteq> 11"
  proof -
    have "r \<noteq> 11" using that by (simp add: r_def)
    then have "0 \<le> r + 1" "r + 1 < 12" and c: "k + 1 = 12 * q + (r + 1)" using k r by simp_all
    then show ?thesis unfolding c q_def [symmetric] r_def [symmetric] by (simp only: month_split simp_thms)
  qed
qed

lemma month_next: "day_number ((k + 1) div 12) ((k + 1) mod 12 + 1) 1 = day_number (k div 12) (k mod 12 + 1) 1 + month_len k"
proof (cases "k mod 12 = 11")
  case True
  have d: "(k + 1) div 12 = k div 12 + 1" and m: "(k + 1) mod 12 = 0" using month_carry(1) [OF True] by simp_all
  have y: "year_start (y + 1) = year_start y + sum_list (take 11 (month_lengths y)) + month_lengths y ! 11" for y
    by (simp add: year_start_Suc month_lengths_def numeral_eq_Suc)
  show ?thesis unfolding d m True by (simp add: day_number_def month_len_def True y)
next
  case False
  then have d: "(k + 1) div 12 = k div 12" and m: "(k + 1) mod 12 = k mod 12 + 1" using month_carry(2) by simp_all
  have n: "nat (1 + k mod 12) = Suc (nat (k mod 12))" by simp
  have "nat (k mod 12) < length (month_lengths (k div 12))" by (simp add: month_lengths_def nat_less_iff)
  then show ?thesis unfolding d m
    by (simp add: day_number_def month_len_def) (simp add: n take_Suc_conv_app_nth)
qed

lemma month_start_next: "month_start (k + 1) = month_start k + month_len k * day_us"
  unfolding month_start_def month_next by (simp add: algebra_simps)

lemma month_start_step: "month_start k < month_start (k + 1)" "month_start (k + 1) \<le> month_start k + 31 * day_us"
  using month_len_bounds [of k] by (simp_all add: month_start_next day_us_def)

lemma month_start_mono: "k \<le> l \<Longrightarrow> month_start k \<le> month_start l"
proof (induction l rule: int_ge_induct)
  case (step i)
  then show ?case using month_start_step(1) [of i] by linarith
qed simp

lemma month_start_less: "month_start k \<le> t \<Longrightarrow> t < month_start l \<Longrightarrow> k < l"
  using month_start_mono [of l k] by linarith

lemma month_index_bounds:
  assumes "pg_range t"
  shows "month_start (month_index t) \<le> t" and "t < month_start (month_index t + 1)"
    and "0 \<le> month_index t" and "month_index t < 120000"
proof -
  let ?day = "epoch_day + t div day_us"
  obtain y m d where c: "civil ?day = [y, m, d]" "0 \<le> y" "y \<le> 9999" "1 \<le> m" "m \<le> 12" "1 \<le> d"
      "d \<le> month_lengths y ! nat (m - 1)" "day_number y m d = ?day"
    using civil_ok [of ?day] assms unfolding pg_range_def by metis
  have k: "month_index t = 12 * y + m - 1" using c(1) by (simp add: month_index_def)
  have dm: "(12 * y + m - 1) div 12 = y" "(12 * y + m - 1) mod 12 = m - 1"
    using month_split [of "m - 1" y] c(4,5) by (simp_all add: add_diff_eq)
  then have len: "month_len (month_index t) = month_lengths y ! nat (m - 1)" by (simp add: month_len_def k)
  have start: "month_start (month_index t) = (day_number y m 1 - epoch_day) * day_us"
    unfolding month_start_def k dm by simp
  have "day_number y m d = day_number y m 1 + d - 1" by (simp add: day_number_def)
  then have day: "t div day_us = day_number y m 1 - epoch_day + (d - 1)" using c(8) by simp
  have t: "t = t div day_us * day_us + t mod day_us" "0 \<le> t mod day_us" "t mod day_us < day_us"
    by (simp_all add: day_us_def)
  have "(t div day_us + 1) * day_us = t div day_us * day_us + day_us" by (simp add: distrib_right)
  then have lo: "t div day_us * day_us \<le> t" and hi: "t < (t div day_us + 1) * day_us"
    using t by linarith+
  have "(day_number y m 1 - epoch_day) * day_us \<le> t div day_us * day_us"
    using c(6) day by (intro mult_right_mono) (simp_all add: day_us_def)
  then show "month_start (month_index t) \<le> t" using start lo by linarith
  have "(t div day_us + 1) * day_us \<le> (day_number y m 1 - epoch_day + month_len (month_index t)) * day_us"
    using c(7) day len by (intro mult_right_mono) (simp_all add: day_us_def)
  then show "t < month_start (month_index t + 1)"
    unfolding month_start_next start using hi by (simp add: algebra_simps)
  show "0 \<le> month_index t" "month_index t < 120000" using c k by simp_all
qed

section \<open>Names\<close>

lemma atoi_from_digits: "list_all is_digit cs \<Longrightarrow> atoi_from (int n) cs = int (foldl (\<lambda>n c. 10 * n + (of_char c - 48)) n cs)"
proof (induction cs arbitrary: n)
  case (Cons c cs)
  have "int n * 10 + (int (of_char c) - 48) = int (10 * n + (of_char c - 48))"
    using Cons.prems by (simp add: is_digit_def)
  moreover have "is_digit c" "list_all is_digit cs" using Cons.prems by simp_all
  ultimately show ?case by (simp only: atoi_from.simps foldl.simps Cons.IH if_False simp_thms)
qed simp

lemma atoi_digits: "list_all is_digit cs \<Longrightarrow> atoi cs = int (digits_value cs)"
  using atoi_from_digits [of cs 0] by (simp add: atoi_def digits_value_def)

lemma partition_name_parse:
  assumes "0 \<le> k" "k < 120000"
  shows "partitionNameRe (partition_name k) = Some (fixed 4 (nat (k div 12)), fixed 2 (nat (k mod 12 + 1)))"
    and "atoi (fixed 4 (nat (k div 12))) = k div 12" and "atoi (fixed 2 (nat (k mod 12 + 1))) = k mod 12 + 1"
proof -
  have y: "0 \<le> k div 12" "k div 12 < 10 ^ 4" using assms by (simp_all add: pos_imp_zdiv_nonneg_iff)
  have "0 \<le> k mod 12" "k mod 12 < 12" by simp_all
  then have m: "0 \<le> k mod 12 + 1" "k mod 12 + 1 < 10 ^ 2" unfolding power2_eq_square by linarith+
  have name: "partition_name k = ''pings_p'' @ fixed 4 (nat (k div 12)) @ ''_'' @ fixed 2 (nat (k mod 12 + 1))"
    using y m by (simp add: partition_name_def pad_fixed)
  have digits: "list_all is_digit (fixed w n)" for w n by (auto simp: list_all_iff dest: fixed_digits)
  have split: "partitionNameRe (''pings_p'' @ u @ ''_'' @ v) = Some (u, v)"
    if "length u = 4" "length v = 2" "list_all is_digit u" "list_all is_digit v" for u v
    using that by (simp add: partitionNameRe_def nth_append)
  show "partitionNameRe (partition_name k) = Some (fixed 4 (nat (k div 12)), fixed 2 (nat (k mod 12 + 1)))"
    unfolding name by (rule split) (simp_all add: digits)
  show "atoi (fixed 4 (nat (k div 12))) = k div 12" "atoi (fixed 2 (nat (k mod 12 + 1))) = k mod 12 + 1"
    using y m by (simp_all add: atoi_digits digits fixed_value nat_less_iff)
qed

lemma partition_name_inj:
  assumes "0 \<le> k" "k < 120000" "0 \<le> l" "l < 120000" "partition_name k = partition_name l"
  shows "k = l"
proof -
  have "fixed 4 (nat (k div 12)) = fixed 4 (nat (l div 12))" "fixed 2 (nat (k mod 12 + 1)) = fixed 2 (nat (l mod 12 + 1))"
    using partition_name_parse(1) [of k] partition_name_parse(1) [of l] assms by simp_all
  then have "k div 12 = l div 12" "k mod 12 + 1 = l mod 12 + 1"
    using partition_name_parse(2,3) [OF assms(1,2)] partition_name_parse(2,3) [OF assms(3,4)] by metis+
  then have "k div 12 * 12 + k mod 12 = l div 12 * 12 + l mod 12" by (simp only: add_right_cancel)
  then show ?thesis by (simp only: div_mult_mod_eq)
qed

lemma expired_partition_name:
  "0 \<le> k \<Longrightarrow> k < 120000 \<Longrightarrow> expired_partition h (partition_name k) \<longleftrightarrow> month_start (k + 1) * Microsecond \<le> h"
proof -
  assume k: "0 \<le> k" "k < 120000"
  have "1 \<le> k mod 12 + 1" "k mod 12 + 1 \<le> 12" by simp_all
  moreover have "12 * (k div 12) + (k mod 12 + 1) - 1 + 1 = k + 1" by simp
  ultimately show ?thesis unfolding expired_partition_def partition_name_parse(1) [OF k]
    by (simp only: option.case prod.case Let_def partition_name_parse(2,3) [OF k] simp_thms)
qed

section \<open>Creating partitions\<close>

text \<open>Every partition is one the server made: named after the month it part_holds.\<close>

definition monthly :: "partition \<Rightarrow> int \<Rightarrow> bool" where
  "monthly p k \<longleftrightarrow> 0 \<le> k \<and> k < 120000 \<and> part_name p = partition_name k \<and>
     part_from p = month_start k \<and> part_to p = month_start (k + 1)"

definition parts_ok :: "partition list \<Rightarrow> bool" where
  "parts_ok parts \<longleftrightarrow> (\<forall>p\<in>set parts. \<exists>k. monthly p k)"

lemma ensure_partition_ok:
  assumes "parts_ok parts" "0 \<le> k" "k < 120000"
  obtains ps where "aul_ensure_ping_partition k parts = Some ps" "parts_ok ps" "set parts \<subseteq> set ps"
    "\<exists>p\<in>set ps. monthly p k"
proof (cases "\<exists>p\<in>set parts. part_name p = partition_name k")
  case True
  then obtain p l where p: "p \<in> set parts" "part_name p = partition_name k" "monthly p l"
    using assms(1) by (auto simp: parts_ok_def)
  then have "0 \<le> l \<and> l < 120000 \<and> part_name p = partition_name l" by (simp add: monthly_def)
  then have "l = k" using p(2) assms by (intro partition_name_inj) simp_all
  then have "\<exists>p\<in>set parts. monthly p k" using p by blast
  moreover have "aul_ensure_ping_partition k parts = Some parts" using True by (simp add: aul_ensure_ping_partition_def)
  ultimately show ?thesis using assms(1) by (intro that [of parts]) simp_all
next
  case False
  have apart: "\<not> (part_from p < month_start (k + 1) \<and> month_start k < part_to p)" if p: "p \<in> set parts" for p
  proof -
    obtain l where l: "monthly p l" using assms(1) p by (auto simp: parts_ok_def)
    then have "l \<noteq> k" using False p by (auto simp: monthly_def)
    then have "l + 1 \<le> k \<or> k + 1 \<le> l" by linarith
    then show ?thesis using l month_start_mono [of "l + 1" k] month_start_mono [of "k + 1" l]
      by (auto simp: monthly_def)
  qed
  let ?new = "\<lparr>part_name = partition_name k, part_from = month_start k, part_to = month_start (k + 1)\<rparr>"
  have new: "monthly ?new k" using assms by (simp add: monthly_def)
  have "aul_ensure_ping_partition k parts = Some (parts @ [?new])"
    unfolding aul_ensure_ping_partition_def using False apart by (simp only: if_False) simp
  then show ?thesis
  proof (rule that)
    show "parts_ok (parts @ [?new])" using assms(1) new by (auto simp: parts_ok_def)
    show "\<exists>p\<in>set (parts @ [?new]). monthly p k" using new by simp
    show "set parts \<subseteq> set (parts @ [?new])" by auto
  qed
qed

lemma ensure_months_ok:
  assumes "parts_ok parts" "0 \<le> m" "last_m < 120000"
  shows "\<exists>ps. ensure_months m last_m parts = Some ps \<and> parts_ok ps \<and> set parts \<subseteq> set ps \<and>
    (\<forall>k. m \<le> k \<and> k \<le> last_m \<longrightarrow> (\<exists>p\<in>set ps. monthly p k))"
  using assms
proof (induction m last_m parts rule: ensure_months.induct)
  case (1 m last_m parts)
  show ?case
  proof (cases "m \<le> last_m")
    case True
    obtain ps where ps: "aul_ensure_ping_partition m parts = Some ps" "parts_ok ps" "set parts \<subseteq> set ps"
      "\<exists>p\<in>set ps. monthly p m"
      using ensure_partition_ok [OF 1(2,3)] 1(4) True by (metis le_less_trans)
    then obtain qs where qs: "ensure_months (m + 1) last_m ps = Some qs" "parts_ok qs" "set ps \<subseteq> set qs"
      "\<forall>k. m + 1 \<le> k \<and> k \<le> last_m \<longrightarrow> (\<exists>p\<in>set qs. monthly p k)"
      using 1(1) [OF True ps(1,2)] 1(3,4) by auto
    have "\<exists>p\<in>set qs. monthly p k" if "m \<le> k" "k \<le> last_m" for k
      using that qs(3,4) ps(4) by (cases "k = m") auto
    then show ?thesis using qs ps True by (auto simp: ensure_months.simps [of m])
  next
    case False
    then show ?thesis using 1(2) by (auto simp: ensure_months.simps [of m])
  qed
qed

text \<open>
  Creating the partitions of a window succeeds, and afterwards every instant of the window has one.
\<close>

lemma ensure_partitions_cover:
  assumes "parts_ok parts" "pg_range a" "pg_range b"
  obtains ps where "aul_ensure_ping_partitions a b parts = Some ps" "parts_ok ps" "set parts \<subseteq> set ps"
    "\<And>t. a \<le> t \<Longrightarrow> t \<le> b \<Longrightarrow> pg_range t \<Longrightarrow> \<exists>p\<in>set ps. monthly p (month_index t)"
proof -
  note A = month_index_bounds [OF assms(2)] and B = month_index_bounds [OF assms(3)]
  obtain ps where ps: "ensure_months (month_index a) (month_index b) parts = Some ps" "parts_ok ps" "set parts \<subseteq> set ps"
    "\<forall>k. month_index a \<le> k \<and> k \<le> month_index b \<longrightarrow> (\<exists>p\<in>set ps. monthly p k)"
    using ensure_months_ok [OF assms(1) A(3) B(4)] by blast
  have "\<exists>p\<in>set ps. monthly p (month_index t)" if t: "a \<le> t" "t \<le> b" "pg_range t" for t
  proof -
    note T = month_index_bounds [OF t(3)]
    have "month_index a < month_index t + 1" using A(1) T(2) t(1) month_start_less [of "month_index a" t "month_index t + 1"] by linarith
    moreover have "month_index t < month_index b + 1" using T(1) B(2) t(2) month_start_less [of "month_index t" t "month_index b + 1"] by linarith
    ultimately show ?thesis using ps(4) by auto
  qed
  then show ?thesis using ps(1-3) by (intro that [of ps]) (simp_all add: aul_ensure_ping_partitions_def)
qed

section \<open>Dropping partitions\<close>

text \<open>Without driver failures the partitions of all expired names go, with the rows they hold.\<close>

definition without :: "string set \<Rightarrow> pgs \<Rightarrow> pgs" where
  "without S = (\<lambda>(d, parts).
     (d\<lparr>pings := delete_where (\<lambda>p. \<exists>q\<in>set parts. part_name q \<in> S \<and> part_holds q (Ping_CapturedAt p)) (pings d)\<rparr>,
      delete_where (\<lambda>q. part_name q \<in> S) parts))"

lemma without_faults [simp]: "faults (fst (without S s)) = faults (fst s)"
  by (simp add: without_def split: prod.split)

lemma delete_where_twice: "delete_where P (delete_where Q xs) = delete_where (\<lambda>x. Q x \<or> P x) xs"
  by (simp add: delete_where_def conj_commute)

lemma without_union: "without S (without {n} s) = without (insert n S) s"
proof -
  have "((\<exists>q\<in>set parts. part_name q = n \<and> H q) \<or> (\<exists>q. q \<in> set parts \<and> part_name q \<noteq> n \<and> part_name q \<in> S \<and> H q)) =
      (\<exists>q\<in>set parts. (part_name q = n \<or> part_name q \<in> S) \<and> H q)" for parts :: "partition list" and H
    by blast
  then show ?thesis by (simp add: without_def delete_where_twice split: prod.split)
qed

lemma drop_each_effect:
  "faults (fst s) = [] \<Longrightarrow> \<exists>n. drop_each h names s = (Inr n, without {n \<in> set names. expired_partition h n} s)"
proof (induction names arbitrary: s)
  case Nil
  have "without {} s = s" by (simp add: without_def delete_where_def split: prod.split)
  then show ?case by (simp add: ret_def)
next
  case (Cons name names)
  have drop: "drop_table name s = (Inr (), without {name} s)"
    using Cons.prems by (cases s) (simp add: drop_table_def ret_def without_def)
  obtain n where n: "drop_each h names (without {name} s) = (Inr n, without {n \<in> set names. expired_partition h n} (without {name} s))"
    using Cons.IH [of "without {name} s"] Cons.prems by auto
  obtain k where k: "drop_each h names s = (Inr k, without {n \<in> set names. expired_partition h n} s)"
    using Cons.IH [OF Cons.prems] by blast
  show ?case
  proof (cases "expired_partition h name")
    case True
    then have "{n \<in> set (name # names). expired_partition h n} = insert name {n \<in> set names. expired_partition h n}" by auto
    then show ?thesis using True drop n by (simp add: tryq_def bindm_def ret_def without_union)
  next
    case False
    then have "{n \<in> set (name # names). expired_partition h n} = {n \<in> set names. expired_partition h n}" by auto
    then show ?thesis using False k by simp
  qed
qed

text \<open>
  On the server's monthly partitions the drop is a delete of everything captured before the
  month in which the horizon lies.
\<close>

lemma expired_iff_before:
  assumes "pg_range (pv h)" "monthly q k"
  shows "expired_partition h (part_name q) \<longleftrightarrow> k < month_index (pv h)"
proof -
  note H = month_index_bounds [OF assms(1)]
  have "month_start (k + 1) * Microsecond \<le> h \<longleftrightarrow> month_start (k + 1) \<le> pv h"
  proof -
    define q r where "q = h div 1000" and "r = h mod 1000"
    have "h = 1000 * q + r" "0 \<le> r" "r < 1000" by (simp_all add: q_def r_def)
    then show ?thesis unfolding pv_def Microsecond_def q_def [symmetric] by linarith
  qed
  moreover have "month_start (k + 1) \<le> pv h \<longleftrightarrow> k + 1 \<le> month_index (pv h)"
    using month_start_mono [of "k + 1" "month_index (pv h)"] month_start_less [of "k + 1" "pv h" "month_index (pv h) + 1"] H(1,2)
    by linarith
  ultimately show ?thesis using assms(2) by (auto simp: monthly_def expired_partition_name)
qed

lemma dropped_iff_before:
  assumes "parts_ok parts" "pg_range (pv h)" "routed parts t"
  shows "(\<exists>q\<in>set parts. part_name q \<in> {n \<in> set (map part_name parts). expired_partition h n} \<and> part_holds q t) \<longleftrightarrow>
    t < month_start (month_index (pv h))"
proof -
  have iff: "expired_partition h (part_name q) \<longleftrightarrow> t < month_start (month_index (pv h))" if q: "q \<in> set parts" "part_holds q t" for q
  proof -
    obtain k where k: "monthly q k" using assms(1) q(1) by (auto simp: parts_ok_def)
    then have "month_start k \<le> t" "t < month_start (k + 1)" using q(2) by (auto simp: monthly_def part_holds_def)
    then have "t < month_start (month_index (pv h)) \<longleftrightarrow> k < month_index (pv h)"
      using month_start_mono [of "k + 1" "month_index (pv h)"] month_start_mono [of "month_index (pv h)" k] by linarith
    then show ?thesis using expired_iff_before [OF assms(2) k] by simp
  qed
  moreover obtain q where "q \<in> set parts" "part_holds q t" using assms(3) by (auto simp: routed_def part_holds_def)
  ultimately show ?thesis by auto
qed

lemma dropOldPartitions_effect:
  assumes "parts_ok parts" "pg_range (pv h)" "faults d = []" "\<forall>p\<in>set (pings d). routed parts (Ping_CapturedAt p)"
  obtains n ps where "dropOldPartitions h (d, parts) =
      (Inr n, (d\<lparr>pings := delete_where (\<lambda>p. Ping_CapturedAt p < month_start (month_index (pv h))) (pings d)\<rparr>, ps))"
    "parts_ok ps" "\<And>q k. q \<in> set ps \<longleftrightarrow> q \<in> set parts \<and> \<not> expired_partition h (part_name q)"
proof -
  let ?S = "{n \<in> set (map part_name parts). expired_partition h n}"
  obtain n where n: "drop_each h (map part_name parts) (d, parts) = (Inr n, without ?S (d, parts))"
    using drop_each_effect [of "(d, parts)" h "map part_name parts"] assms(3) by auto
  have "delete_where (\<lambda>p. \<exists>q\<in>set parts. part_name q \<in> ?S \<and> part_holds q (Ping_CapturedAt p)) (pings d) =
      delete_where (\<lambda>p. Ping_CapturedAt p < month_start (month_index (pv h))) (pings d)"
    unfolding delete_where_def by (rule filter_cong) (use dropped_iff_before [OF assms(1,2)] assms(4) in blast)+
  then have "dropOldPartitions h (d, parts) =
      (Inr n, (d\<lparr>pings := delete_where (\<lambda>p. Ping_CapturedAt p < month_start (month_index (pv h))) (pings d)\<rparr>,
        delete_where (\<lambda>q. part_name q \<in> ?S) parts))"
    using n assms(3) by (simp only: dropOldPartitions_def prod.case stmt_nofault ret_def sum.case without_def)
  then show ?thesis
  proof (rule that)
    show "parts_ok (delete_where (\<lambda>q. part_name q \<in> ?S) parts)" using assms(1) by (auto simp: parts_ok_def)
    show "q \<in> set (delete_where (\<lambda>q. part_name q \<in> ?S) parts) \<longleftrightarrow> q \<in> set parts \<and> \<not> expired_partition h (part_name q)" for q
      by auto
  qed
qed

section \<open>A whole pass\<close>

lemma later_steps_latest: "latest_rows (snd (later_steps w now d)) c = latest_rows d c"
proof -
  let ?rest = "run (PruneLoginAttempts now 1) (
     run (PruneAuditIPs now (wk_ipLogDays w)) (
     run (DeleteExpiredSessions now) (
     run (PruneKeyEnvelopes now) (
     run (PruneResolvedSOS (now - wk_maxRetentionDays w * Day)) (
     run (PrunePlaceTombstones (now - wk_maxRetentionDays w * Day)) (
     run (PruneShareSessions now shareGraceHours) (ret ())))))))"
  let ?d = "snd (deleteExpiredPings now (snd (PruneStalePings now (wk_pingRetentionHours w) d)))"
  have "pres (pings_are (pings ?d)) ?rest" by (intro pres_rules later_steps_pings)
  then have "pings_are (pings ?d) (snd (?rest ?d))" by (rule presD) (simp add: pings_are_def)
  then have "pings (snd (later_steps w now d)) = pings ?d" by (simp add: pings_are_def later_steps_def run_def)
  then have "latest_rows (snd (later_steps w now d)) c = latest_rows ?d c" by (simp add: latest_rows_def)
  then show ?thesis by (simp add: latest_deleteExpiredPings latest_PruneStale)
qed

lemma latest_rows_sc: "latest_rows (sc_db d) c = map sc_Ping (latest_rows d c)"
proof -
  have sel: "Ping_DeviceID (sc_Ping p) = Ping_DeviceID p" "Ping_CircleID (sc_Ping p) = Ping_CircleID p"
      "- Ping_CapturedAt (sc_Ping p) = sc (- Ping_CapturedAt p)" for p
    by (simp_all add: sc_Ping_def sc_simps)
  show ?thesis unfolding latest_rows_def distinct_on_latest [symmetric]
    by (simp only: sc_db_tables filter_map_app sort_key_map sel sort_key_sc distinct_on_map)
qed

lemma pg_range_between: "pg_range a \<Longrightarrow> pg_range b \<Longrightarrow> a \<le> t \<Longrightarrow> t \<le> b \<Longrightarrow> pg_range t"
proof -
  assume r: "pg_range a" "pg_range b" and t: "a \<le> t" "t \<le> b"
  have "a div day_us \<le> t div day_us" "t div day_us \<le> b div day_us"
    using t by (simp_all add: zdiv_mono1 day_us_def)
  then show ?thesis using r unfolding pg_range_def by linarith
qed

lemma pv_mono: "a \<le> b \<Longrightarrow> pv a \<le> pv b"
  by (simp add: pv_def Microsecond_def zdiv_mono1)

lemma monthly_part_holds: "pg_range t \<Longrightarrow> monthly p (month_index t) \<Longrightarrow> part_holds p t"
  using month_index_bounds(1,2) [of t] by (simp add: monthly_def part_holds_def)

text \<open>
  The Postgres pass without driver failures: the backstop deletes what was captured before the
  month of the horizon, the shared steps change no latest fix, and the instants of the window
  the pass prepares that are not past the horizon have a partition.
\<close>

lemma pg_pass:
  assumes d: "faults d = []" "\<forall>p\<in>set (pings d). routed parts (sc (Ping_CapturedAt p))" and parts: "parts_ok parts"
    and now: "whole now" and hours: "in_i64 (wk_pingRetentionHours w * Hour)"
    and h: "h = now - wk_maxRetentionDays w * Day"
    and range: "pg_range (pv (AddMonths now (- 1)))" "pg_range (pv (AddMonths now 2))" "pg_range (pv h)"
  obtains r e ps where "pg_RunOnce w now (sc_db d, parts) = (r, (e, ps))"
    and "latest_rows e c = filter (\<lambda>p. month_start (month_index (pv h)) \<le> Ping_CapturedAt p) (latest_rows (sc_db d) c)"
    and "parts_ok ps"
    and "\<And>t. AddMonths now (- 1) \<le> t \<Longrightarrow> t \<le> AddMonths now 2 \<Longrightarrow> h \<le> t \<Longrightarrow> routed ps (pv t)"
proof -
  let ?H = "month_start (month_index (pv h))"
  have quiet: "faults (sc_db d) = []" using d(1) by (simp add: sc_simps)
  obtain ps1 where ps1: "aul_ensure_ping_partitions (pv (AddMonths now (- 1))) (pv (AddMonths now 2)) parts = Some ps1"
    "parts_ok ps1" "set parts \<subseteq> set ps1"
    "\<And>t. pv (AddMonths now (- 1)) \<le> t \<Longrightarrow> t \<le> pv (AddMonths now 2) \<Longrightarrow> pg_range t \<Longrightarrow> \<exists>p\<in>set ps1. monthly p (month_index t)"
    using ensure_partitions_cover [OF parts range(1,2)] by metis
  have ensure: "snd (pg_EnsurePingPartitions (AddMonths now (- 1)) (AddMonths now 2) (sc_db d, parts)) = (sc_db d, ps1)"
    using quiet ps1(1) by (simp add: pg_EnsurePingPartitions_def ret_def)
  have "routed parts t \<Longrightarrow> routed ps1 t" for t using ps1(3) unfolding routed_def by blast
  then have "routed ps1 (Ping_CapturedAt p)" if "p \<in> set (pings (sc_db d))" for p
    using that d(2) by (auto simp: sc_simps sc_Ping_def)
  then obtain n ps where drop: "dropOldPartitions h (sc_db d, ps1) =
      (Inr n, ((sc_db d)\<lparr>pings := delete_where (\<lambda>p. Ping_CapturedAt p < ?H) (pings (sc_db d))\<rparr>, ps))"
    and ps: "parts_ok ps" "\<And>q. q \<in> set ps \<longleftrightarrow> q \<in> set ps1 \<and> \<not> expired_partition h (part_name q)"
    using dropOldPartitions_effect [OF ps1(2) range(3) quiet] by metis
  define d1 where "d1 = d\<lparr>pings := delete_where (\<lambda>p. sc (Ping_CapturedAt p) < ?H) (pings d)\<rparr>"
  have d1: "(sc_db d)\<lparr>pings := delete_where (\<lambda>p. Ping_CapturedAt p < ?H) (pings (sc_db d))\<rparr> = sc_db d1"
    by (simp add: d1_def sc_simps) (simp add: sc_Ping_def)
  obtain r d2 where l: "later_steps w now d1 = (r, d2)" by (cases "later_steps w now d1")
  have "pg_later_steps w now (sc_db d1) = (map_sum id id r, sc_db d2)"
    using agreesD [OF later_steps_agree [OF now hours] anywhere_simps(2) l] .
  then have run: "pg_RunOnce w now (sc_db d, parts) = (map_sum id id r, (sc_db d2, ps))"
    using ensure drop by (simp add: pg_RunOnce_def run_def on_tables_def d1 flip: h)
  have "latest_rows d2 c = latest_rows d1 c" using later_steps_latest [of w now d1 c] l by simp
  then have "latest_rows (sc_db d2) c = latest_rows (sc_db d1) c" by (simp add: latest_rows_sc)
  also have "\<dots> = filter (\<lambda>p. ?H \<le> Ping_CapturedAt p) (latest_rows (sc_db d) c)"
    unfolding d1 [symmetric] by (rule latest_horizon)
  finally have latest: "latest_rows (sc_db d2) c = filter (\<lambda>p. ?H \<le> Ping_CapturedAt p) (latest_rows (sc_db d) c)" .
  have "routed ps (pv t)" if t: "AddMonths now (- 1) \<le> t" "t \<le> AddMonths now 2" "h \<le> t" for t
  proof -
    have rt: "pg_range (pv t)" using pg_range_between [OF range(1,2)] t pv_mono by blast
    then obtain p where p: "p \<in> set ps1" "monthly p (month_index (pv t))" using ps1(4) t pv_mono by blast
    have "month_index (pv h) < month_index (pv t) + 1"
      using month_index_bounds(1) [OF range(3)] month_index_bounds(2) [OF rt] pv_mono [OF t(3)]
        month_start_less [of "month_index (pv h)" "pv t" "month_index (pv t) + 1"] by linarith
    then have "p \<in> set ps" using ps(2) p expired_iff_before [OF range(3) p(2)] by simp
    then show ?thesis using monthly_part_holds [OF rt p(2)] by (auto simp: routed_def part_holds_def)
  qed
  then show ?thesis using that [OF run latest ps(1)] by blast
qed

section \<open>Pings without a partition\<close>

lemma ensure_partition_only:
  "aul_ensure_ping_partition k parts = Some ps \<Longrightarrow> p \<in> set ps \<Longrightarrow> p \<in> set parts \<or> part_from p = month_start k"
  by (auto simp: aul_ensure_ping_partition_def split: if_splits)

lemma ensure_months_only:
  "ensure_months m last_m parts = Some ps \<Longrightarrow> p \<in> set ps \<Longrightarrow> p \<in> set parts \<or> month_start m \<le> part_from p"
proof (induction m last_m parts arbitrary: ps rule: ensure_months.induct)
  case (1 m last_m parts)
  show ?case
  proof (cases "m \<le> last_m")
    case True
    then obtain qs where qs: "aul_ensure_ping_partition m parts = Some qs" "ensure_months (m + 1) last_m qs = Some ps"
      using 1(2) by (simp add: ensure_months.simps [of m]) (auto split: option.splits)
    then have "p \<in> set qs \<or> month_start (m + 1) \<le> part_from p" using 1(1) [OF True] 1(3) by blast
    then show ?thesis using ensure_partition_only [OF qs(1), of p] month_start_step(1) [of m] by auto
  next
    case False
    then show ?thesis using 1(2,3) by (simp add: ensure_months.simps [of m])
  qed
qed

text \<open>
  A fresh database has the partitions of the window the migration seeds. A ping from before it
  is refused, whatever retention the server is configured with.
\<close>

lemma unseeded_ping_refused:
  assumes "aul_ensure_ping_partitions a b [] = Some parts" "pv cap < month_start (month_index a)"
    and "pg_text cl" "faults d = []"
  shows "pg_InsertPing parts now i c v cl n ct cap ex d = (Inl Constraint, d)"
proof -
  have "\<not> routed parts (pv cap)"
    using ensure_months_only [OF assms(1) [unfolded aul_ensure_ping_partitions_def]] assms(2) by (fastforce simp: routed_def)
  then show ?thesis using assms(3,4) by (simp add: pg_InsertPing_def pg_stmt_def)
qed

text \<open>A zero byte in a client id passes the checks of the handler and is refused by the server.\<close>

lemma nul_client_id_refused:
  "faults d = [] \<Longrightarrow> CHR 0x00 \<in> set cl \<Longrightarrow> pg_InsertPing parts now i c v cl n ct cap ex d = (Inl ScanErr, d)"
  by (force simp: pg_InsertPing_def pg_stmt_def pg_text_def)

end
