(* ===== verification/Aul_Samples_Ops.thy ===== *)
theory Aul_Samples_Ops
  imports Aul_Samples Aul_Commands Aul_Static Aul_Safety Aul_Time Aul_Launcher_Boot Aul_Launcher_Run
    Aul_Worker Aul_Pg_Tx Aul_Pg_Retention
begin

text \<open>
  Concrete instances for the theorems about the operation of the server: library functions that obey
  the documented laws on plain hosts, the environment of a launched server, a platform, a push
  network on which one registration is dead, the partition of January 1970.
\<close>

definition demo_parse :: "string \<Rightarrow> URL option" where
  "demo_parse s =
     (if HasPrefix s ''https://'' \<and> plain_host (drop 8 s) then Some \<lparr>Scheme = ''https'', Host = drop 8 s\<rparr>
      else if HasPrefix s ''http://'' \<and> plain_host (drop 7 s) then Some \<lparr>Scheme = ''http'', Host = drop 7 s\<rparr>
      else None)"

definition demo_lib :: golib where
  "demo_lib = \<lparr>lib_ToLower = map ascii_lower, lib_Parse = demo_parse,
     lib_String = (\<lambda>u. Scheme u @ ''://'' @ Host u), lib_ParseDuration = (\<lambda>_. None), lib_ReadFile = (\<lambda>_. None),
     lib_Unmarshal = (\<lambda>_. None)\<rparr>"

lemma demo_lower: "lower_law demo_lib"
  by (simp add: lower_law_def demo_lib_def)

lemma demo_parse_plain:
  "plain_host h \<Longrightarrow> demo_parse (''https://'' @ h) = Some \<lparr>Scheme = ''https'', Host = h\<rparr>"
  "plain_host h \<Longrightarrow> demo_parse (''http://'' @ h) = Some \<lparr>Scheme = ''http'', Host = h\<rparr>"
  by (simp_all add: demo_parse_def HasPrefix_def)

lemma demo_parse_shape:
  "demo_parse s = Some u \<Longrightarrow> plain_host (Host u) \<and> (Scheme u = ''http'' \<or> Scheme u = ''https'')"
  by (auto simp: demo_parse_def split: if_splits)

lemma demo_url: "url_law demo_lib"
proof -
  have "demo_parse (Scheme u @ ''://'' @ Host u) = Some u \<and> Scheme u @ ''://'' @ Host u \<noteq> [] \<and>
      list_all graphic (Scheme u @ ''://'' @ Host u)" if "demo_parse s = Some u" for s u
  proof -
    have h: "plain_host (Host u)" and s: "Scheme u = ''http'' \<or> Scheme u = ''https''" using demo_parse_shape [OF that] by auto
    have u: "u = \<lparr>Scheme = Scheme u, Host = Host u\<rparr>" by simp
    from s show ?thesis
      using demo_parse_plain [OF h] plain_host_graphic [OF h] u by (auto simp: graphic_def)
  qed
  moreover have "lib_Parse demo_lib = demo_parse" "lib_String demo_lib = (\<lambda>u. Scheme u @ ''://'' @ Host u)"
    by (simp_all add: demo_lib_def)
  ultimately show ?thesis unfolding url_law_def using demo_parse_plain by auto
qed

definition demo_opts :: Options where
  "demo_opts = \<lparr>DataDir = ''/d'', Opt_Origin = ''https://aul.example.com'', ServerBin = [], Port = 8080, ReadyTimeout = 60 * Second\<rparr>"

definition demo_resolved :: resolved where
  "demo_resolved = \<lparr>res_Origin = ''https://aul.example.com'', res_Env = ''production'', res_SecureCookies = True,
     res_BindPort = 8080, res_Source = ''flag''\<rparr>"

lemma demo_resolves: "resolveOrigin demo_lib demo_opts None = Inr demo_resolved"
  by code_simp

lemma demo_leaves_unset: "leaves_unset [''HOME=/root'']"
  by code_simp

definition demo_pepper :: string where "demo_pepper = ''0123456789abcdef0123456789abcdef''"

definition demo_environment :: "string list" where
  "demo_environment = composeEnv [''HOME=/root''] demo_resolved demo_pepper ''/d/aul.db''"

definition demo_net :: push_net where
  "demo_net = \<lparr>net_valid_url = (\<lambda>_. True), net_token = Some ''Bearer t'',
     net_do = (\<lambda>_. Some (404, [])), net_unmarshal = (\<lambda>_. None), net_webpush = (\<lambda>_. WpStatus 410)\<rparr>"

definition demo_platform :: platform where
  "demo_platform = \<lparr>plat_hmac = (\<lambda>pepper. string_bytes), plat_IDKey = demo_idkey, plat_ParseAddress = Some,
     plat_rand = Some [1, 2], plat_credentials = (\<lambda>_. None), plat_net = demo_net\<rparr>"

definition demo_start :: "(boot_err + (int \<times> int, exact) limiters booted) \<times> store_call list" where
  "demo_start = start demo_lib demo_platform (\<lambda>_. True) Pair (Getenv demo_environment)"

lemma demo_loads: "\<exists>c. LoadFrom demo_lib (Getenv demo_environment) = Inr c"
proof -
  have "minPepperBytes \<le> length demo_pepper" by (simp add: demo_pepper_def minPepperBytes_def)
  moreover have "0 \<le> Port demo_opts" by (simp add: demo_opts_def)
  ultimately show ?thesis unfolding demo_environment_def
    using launcher_boots [OF demo_resolves demo_url demo_lower _ _ _ _ _ demo_leaves_unset, of demo_pepper "''/d/aul.db''" "''/d''"]
    by (auto simp: HasPrefix_def)
qed

lemma demo_started: "\<exists>s calls. demo_start = (Inr s, calls)"
proof -
  obtain c where c: "LoadFrom demo_lib (Getenv demo_environment) = Inr c" using demo_loads by blast
  have "TrimSpace (Getenv demo_environment ''FCM_SERVICE_ACCOUNT_FILE'') = []"
    using demo_leaves_unset unfolding leaves_unset_def optional_vars_def demo_environment_def by (simp add: Getenv_composeEnv)
  from start_succeeds [OF c LoadFrom_no_fcm [OF c this], of demo_platform "[1, 2]" "\<lambda>_. True" Pair]
  obtain s where "fst demo_start = Inr s" by (auto simp: demo_start_def demo_platform_def)
  then show ?thesis by (metis prod.collapse)
qed

definition demo_parts :: "partition list" where
  "demo_parts = [\<lparr>part_name = partition_name 23640, part_from = month_start 23640, part_to = month_start 23641\<rparr>]"

definition demo_item :: InsertPingParams where
  "demo_item = \<lparr>ip_CircleID = 31, ip_DeviceID = 11, ip_ClientID = ''n'', ip_Nonce = [1], ip_Ciphertext = [2],
     ip_CapturedAt = 4 * Second, ip_ExpiresAt = None\<rparr>"

definition demo_registration :: RegisterInput where
  "demo_registration = \<lparr>Reg_Email = ''carol@x'', Reg_Password = ''password2'', Reg_Platform = ''web'', Reg_DisplayName = ''phone'',
     Reg_Pubkey = None, Reg_IP = ''1.2.3.4''\<rparr>"

lemma demo_backend:
  "citext_ascii nocase" "ascii_emails demo_db" "counters_ok demo_db" "fresh_envelope 91 demo_db" "fresh_ping 91 demo_db"
  by (simp add: citext_ascii_def, code_simp, code_simp, simp add: fresh_envelope_def demo_db_ok, code_simp, code_simp)

end
