(* ===== verification/Spec2Isabelle.thy ===== *)
theory Spec2Isabelle
  imports Aul_Samples_Ops
begin

text \<open>
  The server of Aul, a private location sharing service (\<^verbatim>\<open>src/server\<close>): accounts and sessions,
  circles whose members exchange end-to-end encrypted location fixes, places, alerts and key
  envelopes, temporary share links, push notifications, a realtime hub, a maintenance worker, and
  the launcher that runs the server on a machine of one's own. The server sees ciphertext only;
  what it has to get right is who may read and write which row, how long a row lives, and that
  its state stays consistent when statements fail or requests interleave.

  \<^bold>\<open>Parts and theories.\<close>

  \<^item> \<open>Aul_Prelude\<close>: machine integers, durations, the state-passing combinators \<open>bindm\<close>, \<open>tryq\<close>
    (a call with an error branch) and \<open>run\<close> (a call whose error is ignored), the collections
    \<open>pres_rules\<close> and \<open>err_rules\<close>, the locale \<open>stepper\<close> of invariants of step functions.
  \<^item> \<open>Aul_Strings\<close>: what the sources use of the packages \<^verbatim>\<open>strings\<close>, \<^verbatim>\<open>strconv\<close> and \<^verbatim>\<open>net\<close>.
  \<^item> \<open>Aul_Rows\<close>, \<open>Aul_Schema\<close>: \<^verbatim>\<open>store/models.go\<close>, \<^verbatim>\<open>store/store.go\<close> and the SQLite schema.
    The database is a record of tables (lists of rows) with a schedule \<open>faults\<close> that says which of the next
    statements the driver fails. \<open>db_ok\<close> states keys, references and checks. \<open>Aul_Time\<close>: the text
    encoding of instants and the bind and scan helpers of \<^verbatim>\<open>store/sqlite.go\<close>.
  \<^item> \<open>Aul_Store_Identity\<close>, \<open>Aul_Store_Circles\<close>, \<open>Aul_Store_Feeds\<close>: one definition per statement of
    \<^verbatim>\<open>store/sqlite_queries.go\<close>, each with the lemma that it keeps \<open>db_ok\<close>.
  \<^item> \<open>Aul_Base64\<close>, \<open>Aul_Crypto\<close>, \<open>Aul_Safety\<close>: the base64 codecs the handlers use and \<^verbatim>\<open>crypto/*.go\<close>
    (password strings, safety codes, tokens, boxes, AEAD).
  \<^item> \<open>Aul_Auth\<close> (\<^verbatim>\<open>auth/*.go\<close>, \<^verbatim>\<open>audit/audit.go\<close>), with \<open>Aul_Auth_Lockout\<close>, \<open>Aul_Auth_Sessions\<close>
    and \<open>Aul_Auth_Refresh\<close> for its lemmas: brute force, sessions, refresh rotation and the race
    of refresh requests.
  \<^item> \<open>Aul_Hub\<close>: \<^verbatim>\<open>realtime/hub.go\<close> as a step function, one step per branch of the loop or exported method.
  \<^item> \<open>Aul_Http\<close>, \<open>Aul_Api_Circles\<close>, \<open>Aul_Api_Feeds\<close>, \<open>Aul_Api_Account\<close>: the handlers of \<^verbatim>\<open>httpapi\<close> over the world of
    database and hub, every guard, error answer, audit entry and published event included.
    \<open>Aul_Push\<close>: the two push channels behind the fan-out (\<^verbatim>\<open>httpapi/push.go\<close>, \<^verbatim>\<open>fcm/fcm.go\<close>).
    \<open>Aul_Static\<close>: \<^verbatim>\<open>httpapi/static.go\<close>.
  \<^item> \<open>Aul_Retention\<close>, \<open>Aul_Worker\<close>: a pass of \<^verbatim>\<open>retention/retention.go\<close> on SQLite and the loop that repeats it.
  \<^item> \<open>Aul_Pg\<close> and \<open>Aul_Pg_Identity\<close>, \<open>Aul_Pg_Circles\<close>, \<open>Aul_Pg_Feeds\<close>: the second backend, one definition
    per generated statement of \<^verbatim>\<open>store/*.sql.go\<close> with the schema of \<^verbatim>\<open>db/migrations\<close>, and the Postgres arm
    of \<^verbatim>\<open>Store.WithTx\<close>. Each statement has a lemma that it agrees with the SQLite one; \<open>Aul_Pg_Tx\<close>
    lifts this to the transactions of the handlers and to registration, and \<open>withPgTx_swallowed\<close> shows what happens to a
    transaction that swallows an error.
    A batch of fixes that Postgres refuses where SQLite stores it (no partition for the month, a NUL byte in a client
    id) is a case of these lemmas, and leaves the database as it was.
    \<open>Aul_Pg_Retention\<close>: the monthly partitions of the pings, their creation by the functions of
    \<^verbatim>\<open>00003_pings.sql\<close>, which of them a pass drops, and the whole Postgres pass.
  \<^item> \<open>Aul_Server\<close>: the routes with their guards, \<open>timeout\<close> (\<^verbatim>\<open>http.TimeoutHandler\<close> around \<^verbatim>\<open>/v1\<close>: the client
    may be answered 503 while the handler runs on to its end) and runs of the whole server. Results about runs and
    handlers are in \<open>Aul_Isolation\<close> (what an outsider can change), \<open>Aul_Owners\<close> (one owner per circle),
    \<open>Aul_Atomic\<close> (errors leave no trace), \<open>Aul_Handlers\<close>, \<open>Aul_Sharing\<close> and \<open>Aul_Membership\<close> (single
    handlers, share links and mutes, invitations and envelopes).
  \<^item> \<open>Aul_Config\<close> (\<^verbatim>\<open>config/config.go\<close>), \<open>Aul_Edge\<close> (\<^verbatim>\<open>middleware/*.go\<close>, \<^verbatim>\<open>httpx/context.go\<close>,
    and what the proxy of \<^verbatim>\<open>deploy/caddy/Caddyfile\<close> does to the address headers), \<open>Aul_Ratelimit\<close>
    (\<^verbatim>\<open>ratelimit/ratelimit.go\<close> and its middleware), \<open>Aul_Commands\<close> (\<^verbatim>\<open>cmd/aul\<close>: \<^verbatim>\<open>publish-version\<close> and the
    start of the server, which wires all of the above from one configuration).
  \<^item> \<open>Aul_Launcher_Env\<close>, \<open>Aul_Launcher_Boot\<close>, \<open>Aul_Launcher_Run\<close>: \<^verbatim>\<open>launcher/*.go\<close>. Environment, origin, pepper
    and doctor; that the server accepts the composed environment; supervision and the lock file,
    the latter as interleaved system calls on inodes, each of which may fail.
  \<^item> \<open>Aul_Samples\<close>, \<open>Aul_Samples_Ops\<close>: concrete deployments on which the theorems are exercised.

  \<^bold>\<open>Conventions.\<close> A Go function that returns a value and an error is a function from the state to a sum
  and a state, \<open>Inl\<close> being the error. Every raise and early return is a branch. Random ids and tokens, the
  clock and the outcome of decoding JSON, UUIDs and timestamps are arguments. Third-party code and the
  parts of the standard library that stay abstract are fields of records: \<open>Service\<close> (HMAC, Argon2,
  address parsing), \<open>golib\<close> (URLs, durations, Unicode lower case, files), \<open>bucket_ops\<close> (the token
  bucket of \<^verbatim>\<open>x/time/rate\<close>), \<open>push_net\<close> (the push services). A request
  reads the clock once, and no other request runs between its statements, except in the
  refresh race, where the lookup and the compare-and-swap of any number of requests
  interleave. Times are nanoseconds, stored at the millisecond precision of the SQLite encoding;
  a day is 24 hours and all zones are UTC, so \<^verbatim>\<open>AddDate\<close> by days subtracts that many times 24 hours. Conversions to \<^verbatim>\<open>int32\<close> of
  settings the configuration has bounded are the identity, and the lockout window, passed to the statement as a
  \<^verbatim>\<open>float64\<close> of seconds, is the exact duration. On Postgres an instant has microseconds; the agreement lemmas compare
  the two on instants of whole milliseconds, on ASCII addresses (where \<^verbatim>\<open>citext\<close> and \<^verbatim>\<open>NOCASE\<close> fold alike, the
  former a parameter) and on texts Postgres can hold. Durations multiply in 64 bits where the code does so on client input.
  There is no fuel: a loop runs over a finite list (of attempts, polls or steps where the code waits
  for the outside) or has a termination proof (\<open>strip\<close>, \<open>year_up\<close>, \<open>funnelHostPort\<close>,
  \<open>ensure_months\<close>).

  \<^bold>\<open>Interfaces.\<close> The locales state what one part relies on in another: \<open>stepper\<close> for step functions with
  an invariant (refresh race, hub, server, lock), \<open>identity_invariant\<close>, \<open>circle_invariant\<close> and
  \<open>account_invariant\<close> for what the handlers need of the store, \<open>frame\<close> for what a refused request leaves
  alone, \<open>base64_encoding\<close> for the codecs, \<open>simulation\<close> and \<open>keyed\<close> for the limiters.
  Each is interpreted on the definitions of the model.

  \<^bold>\<open>Theorems.\<close> Below, by subject: sessions and credentials, retention, the Postgres
  backend, the hub, the handlers, and operation (start-up, limits, time encoding, push, launcher, static files). Each has a
  natural-language statement and, where it has hypotheses, a witness on a concrete instance.

  \<^bold>\<open>Not modelled.\<close> Opening and migrating a database, the connection pool and isolation between concurrent transactions, JSON and cookie syntax, access logging and the
  body limit, the socket write loop, starting processes, printing, and the tray of the launcher.
\<close>

section \<open>Sessions and credentials\<close>

text \<open>
  C1. Any number of refresh requests present the same refresh token, interleaved in any order
  between their lookup and their rotation. At most one of them is answered with new tokens,
  and as soon as one of them was refused for reuse the session is revoked.
\<close>

theorem refresh_race_safe:
  assumes "db_ok d" and "faults d = []" and "fresh_calls s h reqs" and "only_session h i d"
    and "fold (race_step s h reqs) schedule (d, replicate n Start) = (d', pcs)"
  shows "(\<forall>k j a b. k < length pcs \<and> j < length pcs \<and> pcs ! k = Done (Inr a) \<and> pcs ! j = Done (Inr b) \<longrightarrow> k = j) \<and>
    (Done (Inl ErrRefreshReused) \<in> set pcs \<longrightarrow> session_revoked i d')"
  using refresh_race.run_inv [OF race_inv_start [OF assms(1-4)], of schedule n] assms(5)
  by (simp add: race_inv_def)

definition race_reqs :: "refresh_call list" where
  "race_reqs = [(Second, demo_entropy, []), (Second, demo_entropy\<lparr>ent_access := Some ''a3'', ent_refresh := Some ''r3''\<rparr>, [])]"

theorem refresh_race_safe_witness:
  "let h = HashToken demo_service ''r1'';
       (d', pcs) = fold (race_step demo_service h race_reqs) [0, 1, 0, 1] (demo_db, replicate 2 Start) in
   (\<forall>k j a b. k < length pcs \<and> j < length pcs \<and> pcs ! k = Done (Inr a) \<and> pcs ! j = Done (Inr b) \<longrightarrow> k = j) \<and>
   (Done (Inl ErrRefreshReused) \<in> set pcs \<longrightarrow> session_revoked 21 d')"
proof -
  have "fresh_calls demo_service (HashToken demo_service ''r1'') race_reqs"
    unfolding fresh_calls_def race_reqs_def by (simp add: demo_entropy_def) code_simp
  moreover have "only_session (HashToken demo_service ''r1'') 21 demo_db" by code_simp
  ultimately show ?thesis
    using refresh_race_safe [OF demo_db_ok demo_db_faults, of demo_service "HashToken demo_service ''r1''" race_reqs 21 "[0, 1, 0, 1]" 2]
    by (simp add: Let_def split: prod.split)
qed



text \<open>
  C3. A login that succeeds was made for an existing account of that (normalised) address with
  a password its stored hash accepts. It adds exactly one session, on a device that
  belongs to that account, and the returned access token resolves to that account, device
  and session for its lifetime.
\<close>

theorem login_sound:
  assumes "db_ok d" and "faults d = []" and "Login s now ent inp d = (Inr res, d')"
  shows "\<exists>u v rh. Res_User res = Some u \<and> u \<in> set (users d) \<and>
     email_is (normalizeEmail s (In_Email inp)) u \<and>
     VerifyPassword (svc_IDKey s) (User_PassHash u) (In_Password inp) = Inr (True, rh) \<and>
     Res_Device res = Some v \<and> v \<in> set (devices d') \<and> Device_UserID v = User_ID u \<and>
     sessions d' = sessions d @ [Res_Session res] \<and>
     (Res_AccessToken res \<noteq> [] \<and> tv now < tv (now + svc_accessTTL s) \<longrightarrow>
       Resolve s now (Res_AccessToken res) d' = (Inr (User_ID u, Device_ID v, Session_ID (Res_Session res)), d'))"
  using Login_success [OF assms] .

theorem login_sound_witness:
  "\<exists>res d'. Login demo_service Second demo_entropy (demo_login ''password1'') demo_db = (Inr res, d') \<and>
     Res_User res = Some alice \<and> sessions d' = sessions demo_db @ [Res_Session res]"
proof -
  have "case Login demo_service Second demo_entropy (demo_login ''password1'') demo_db of
      (Inr res, d') \<Rightarrow> map_option User_ID (Res_User res) = Some 1 | _ \<Rightarrow> False"
    by code_simp
  then obtain res d' where l: "Login demo_service Second demo_entropy (demo_login ''password1'') demo_db = (Inr res, d')"
    and u: "map_option User_ID (Res_User res) = Some 1"
    by (auto split: prod.splits sum.splits)
  from login_sound [OF demo_db_ok demo_db_faults l] u show ?thesis
    using l by (auto simp: demo_db_def alice_def bob_def)
qed

text \<open>
  C4. Brute-force lockout. When as many refused attempts on an account as the threshold were made
  inside the window and after its last success, the next login on it is answered with the
  lock-out error and changes nothing, whatever password it presents.
\<close>

theorem lockout_holds:
  assumes "faults d = []" and "logins s cs d = (rs, d')"
    and "\<forall>r\<in>set rs. r = Inl ErrInvalidCredentials"
    and "\<forall>(t, _, inp)\<in>set cs. normalizeEmail s (In_Email inp) = normalizeEmail s (In_Email attempt) \<and>
      tv t > tv (now - Window (svc_lockout s)) \<and>
      tv t > last_success (normalizeEmail s (In_Email attempt)) (login_attempts d)"
    and "EmailThreshold (svc_lockout s) \<le> length cs"
    and "validatePlatform (In_Platform attempt) = None" and "validatePubkey (In_Pubkey attempt) = None"
  shows "\<exists>retry. Login s now ent attempt d' =
     (Inl (LockedError retry ''too many failed attempts for this account''), d')"
  using assms by (rule locked_after_failures)

definition guesses :: "login_call list" where
  "guesses = map (\<lambda>n. (int n * Second, demo_entropy, demo_login ''guess'')) [1, 2, 3, 4, 5]"

theorem lockout_holds_witness:
  "\<exists>retry. fst (Login demo_service (6 * Second) demo_entropy (demo_login ''password1'')
     (snd (logins demo_service guesses demo_db))) =
     Inl (LockedError retry ''too many failed attempts for this account'')"
proof -
  let ?e = "normalizeEmail demo_service (In_Email (demo_login ''password1''))"
  have r: "\<forall>r\<in>set (fst (logins demo_service guesses demo_db)). r = Inl ErrInvalidCredentials"
    by code_simp
  have t: "\<forall>(t, _, inp)\<in>set guesses. normalizeEmail demo_service (In_Email inp) = ?e \<and>
      tv t > tv (6 * Second - Window (svc_lockout demo_service)) \<and> tv t > last_success ?e (login_attempts demo_db)"
    by code_simp
  have v: "EmailThreshold (svc_lockout demo_service) \<le> length guesses"
    "validatePlatform (In_Platform (demo_login ''password1'')) = None"
    "validatePubkey (In_Pubkey (demo_login ''password1'')) = None"
    by code_simp+
  from lockout_holds [OF demo_db_faults prod.collapse [symmetric] r t v, of demo_entropy] show ?thesis by (auto simp: fst_def)
qed

text \<open>
  C5. Every state the server reaches from the empty one, over any sequence of requests, connections,
  hub steps, maintenance passes and driver failures, satisfies the schema (keys, references
  and checks of every table) and the hub's invariant.
\<close>

theorem reachable_consistent:
  "db_ok (w_db (fold (step dep) acts initial)) \<and> hub_inv (w_hub (fold (step dep) acts initial))"
proof -
  have "world_ok initial" by (simp add: world_inv_def initial_def db_ok_empty hub_inv_NewHub)
  from server.run_inv [OF this] show ?thesis by (simp add: world_inv_def)
qed

text \<open>
  C6. Registration is atomic: when it fails, at any statement and for any reason, every table is as
  it was before.
\<close>

theorem register_atomic:
  assumes "Register s now ent inp d = (Inl e, d')"
  shows "\<exists>bs. d' = d\<lparr>faults := bs\<rparr>"
  using assms by (rule Register_failed)

definition demo_registration :: RegisterInput where
  "demo_registration = \<lparr>Reg_Email = ''carol@x'', Reg_Password = ''password2'', Reg_Platform = ''web'',
     Reg_DisplayName = [], Reg_Pubkey = None, Reg_IP = []\<rparr>"

theorem register_atomic_witness:
  "\<exists>e d' bs. Register demo_service Second demo_entropy demo_registration
     (demo_db\<lparr>faults := [False, False, False, False, True]\<rparr>) = (Inl e, d') \<and> d' = demo_db\<lparr>faults := bs\<rparr>"
proof -
  let ?d = "demo_db\<lparr>faults := [False, False, False, False, True]\<rparr>"
  have "case fst (Register demo_service Second demo_entropy demo_registration ?d) of Inl _ \<Rightarrow> True | Inr _ \<Rightarrow> False"
    by code_simp
  then obtain e d' where r: "Register demo_service Second demo_entropy demo_registration ?d = (Inl e, d')"
    by (cases "Register demo_service Second demo_entropy demo_registration ?d") (auto split: sum.splits)
  from register_atomic [OF r] show ?thesis using r by auto
qed

section \<open>Retention\<close>

text \<open>
  C7. Over its whole life, however often it wakes, the maintenance worker never removes a device's newest
  fix of a circle unless that fix is older than the absolute horizon of one of its passes: the
  latest fix per device of every circle is the same as before, less those captured
  before such a horizon. The worker returns once its context has ended, and not before.
\<close>

theorem retention_keeps_latest:
  assumes "faults d = []" and "Run_worker (RunOnce w) now ws d = (returned, d')"
  shows "latest_rows d' c = filter (\<lambda>p. \<forall>t\<in>set (now # ticks ws).
      Ping_CapturedAt p \<ge> tv (t - wk_maxRetentionDays w * Day)) (latest_rows d c) \<and>
    (returned \<longleftrightarrow> CtxDone \<in> set ws)"
  using assms(2) passes_latest [OF assms(1), of w "now # ticks ws" c] unfolding Run_worker_passes by blast

theorem retention_keeps_latest_witness:
  "let (returned, d') = Run_worker (RunOnce demo_worker) (10 * Day) [Tick (11 * Day), CtxDone] demo_db in
   returned \<and> latest_rows d' 31 = filter (\<lambda>p. \<forall>t\<in>{10 * Day, 11 * Day}.
     Ping_CapturedAt p \<ge> tv (t - wk_maxRetentionDays demo_worker * Day)) (latest_rows demo_db 31)"
  using retention_keeps_latest [OF demo_db_faults, of demo_worker "10 * Day" "[Tick (11 * Day), CtxDone]"]
  by (auto simp: Let_def split: prod.split)

text \<open>
  C8. What a pass leaves behind: only fixes that were there before, none older than the horizon, and
  of those past the history window or past their circle's own retention only ones that no
  newer fix of the same device supersedes.
\<close>

theorem retention_removes_stale:
  assumes "faults d = []" and "p \<in> set (pings (snd (RunOnce w now d)))"
  shows "p \<in> set (pings d) \<and> Ping_CapturedAt p \<ge> tv (now - wk_maxRetentionDays w * Day) \<and>
    (Ping_CapturedAt p < tv (now - i64 (wk_pingRetentionHours w * Hour)) \<or>
      (\<exists>c\<in>set (circles d). Circle_ID c = Ping_CircleID p \<and>
         Ping_CapturedAt p < tv (now - Circle_RetentionDays c * Day)) \<longrightarrow>
      \<not> superseded (pings (snd (RunOnce w now d))) p)"
  using ping_steps_survivors [OF assms(1) assms(2) [unfolded RunOnce_pings]] by (simp add: RunOnce_pings)

theorem retention_removes_stale_witness:
  "demo_ping 42 11 ''y'' 2000 \<in> set (pings (snd (RunOnce demo_worker (10 * Day) demo_db))) \<and>
   \<not> superseded (pings (snd (RunOnce demo_worker (10 * Day) demo_db))) (demo_ping 42 11 ''y'' 2000)"
proof -
  have m: "demo_ping 42 11 ''y'' 2000 \<in> set (pings (snd (RunOnce demo_worker (10 * Day) demo_db)))"
    by code_simp
  have "Ping_CapturedAt (demo_ping 42 11 ''y'' 2000) < tv (10 * Day - i64 (wk_pingRetentionHours demo_worker * Hour))"
    by code_simp
  with retention_removes_stale [OF demo_db_faults m] m show ?thesis by blast
qed

section \<open>The Postgres backend\<close>

text \<open>
  C9. Every statement about users, devices, sessions, login attempts and the audit
  log does on Postgres what it does on SQLite: the same answer or error and the same tables, with
  instants in microseconds. The instants are whole milliseconds, the text arguments are UTF-8
  without zero bytes, and the e-mail addresses are ASCII, where the two case foldings coincide.
\<close>

theorem pg_accounts_agree:
  assumes "citext_ascii low" and "ascii email" and "\<forall>s\<in>set ([email, p, h, h', h''] @ opt_text t @ opt_text t'). pg_text s"
    and "whole now" and "whole ae" and "whole re" and "whole window" and "window \<le> now"
  shows "agrees ascii_emails sc_User (pg_CreateUser low now i email h) (CreateUser now i email h) \<and>
    agrees ascii_emails id (pg_EmailExists low email) (EmailExists email) \<and>
    agrees ascii_emails sc_User (pg_GetUserByEmail low email) (GetUserByEmail email) \<and>
    agrees anywhere sc_User (pg_GetUserByID i) (GetUserByID i) \<and>
    agrees anywhere id (pg_UpdateUserPassword now i h) (UpdateUserPassword now i h) \<and>
    agrees anywhere sc_Device (pg_CreateDevice now i u p t k) (CreateDevice now i u p t k) \<and>
    agrees anywhere id (pg_DeleteDevice i u) (DeleteDevice i u) \<and>
    agrees anywhere sc_Device (pg_GetDevice i) (GetDevice i) \<and>
    agrees anywhere sc_Device (pg_GetDeviceForUser i u) (GetDeviceForUser i u) \<and>
    agrees anywhere (map sc_Device) (pg_ListCircleDevices c) (ListCircleDevices c) \<and>
    agrees anywhere (map sc_Device) (pg_ListDevicesForUser u) (ListDevicesForUser u) \<and>
    agrees anywhere id (pg_SetDevicePubkey i k) (SetDevicePubkey i k) \<and>
    agrees anywhere id (pg_SetDevicePushToken i t) (SetDevicePushToken i t) \<and>
    agrees anywhere id (pg_TouchDevice now i) (TouchDevice now i) \<and>
    agrees anywhere sc_Session (pg_CreateSession now i u v h h' ae re) (CreateSession now i u v h h' ae re) \<and>
    agrees anywhere id (pg_DeleteExpiredSessions now) (DeleteExpiredSessions now) \<and>
    agrees anywhere sc_Session (pg_GetSessionByAccessHash now h) (GetSessionByAccessHash now h) \<and>
    agrees anywhere sc_Session (pg_GetSessionByPrevRefreshHash h) (GetSessionByPrevRefreshHash h) \<and>
    agrees anywhere sc_Session (pg_GetSessionByRefreshHash now h) (GetSessionByRefreshHash now h) \<and>
    agrees anywhere (map (map_prod sc_Session id)) (pg_ListActiveSessionsForUser now u) (ListActiveSessionsForUser now u) \<and>
    agrees anywhere id (pg_RevokeSession now i) (RevokeSession now i) \<and>
    agrees anywhere id (pg_RevokeSessionsForDevice now i) (RevokeSessionsForDevice now i) \<and>
    agrees anywhere id (pg_RevokeSessionsForUser now i) (RevokeSessionsForUser now i) \<and>
    agrees anywhere sc_Session (pg_RotateSession now i h h' ae re h'') (RotateSession now i h h' ae re h'') \<and>
    agrees ascii_emails id (pg_CountRecentFailuresByEmail low now email window) (CountRecentFailuresByEmail now email window) \<and>
    agrees anywhere id (pg_CountRecentFailuresByIP now h window) (CountRecentFailuresByIP now h window) \<and>
    agrees anywhere id (pg_RecordLoginAttempt now t t' ok) (RecordLoginAttempt now t t' ok) \<and>
    agrees anywhere id (pg_PruneLoginAttempts now days) (PruneLoginAttempts now days) \<and>
    agrees anywhere id (pg_WriteAudit now p x y z t det) (WriteAudit now p x y z t det) \<and>
    agrees anywhere (map sc_Audit) (pg_ListAuditForUser u n) (ListAuditForUser u n) \<and>
    agrees anywhere id (pg_PruneAuditIPs now days) (PruneAuditIPs now days)"
  using assms by (intro conjI pg_agree) simp_all

theorem pg_accounts_agree_witness:
  "pg_GetUserByEmail nocase ''Alice@X'' (sc_db demo_db) = (Inr (sc_User alice), sc_db demo_db) \<and>
   pg_RotateSession (5 * Second) 21 ''h2'' ''h3'' Day Day (HashToken demo_service ''r1'') (sc_db demo_db) =
     (case RotateSession (5 * Second) 21 ''h2'' ''h3'' Day Day (HashToken demo_service ''r1'') demo_db of
       (r, d') \<Rightarrow> (map_sum id sc_Session r, sc_db d'))"
proof -
  have ok: "ascii ''Alice@X''" "whole (5 * Second)" "whole Day" "Second \<le> 5 * Second" "whole Second"
    "\<forall>s\<in>set ([''Alice@X'', ''web'', ''h2'', ''h3'', HashToken demo_service ''r1''] @ opt_text None @ opt_text None). pg_text s"
    by code_simp+
  have "GetUserByEmail ''Alice@X'' demo_db = (Inr alice, demo_db)" by code_simp
  then show ?thesis
    using pg_accounts_agree [OF demo_backend(1) ok(1,6,2,3,3,5,4)] demo_backend(2) unfolding agrees_def by simp
qed

text \<open>
  C10. The same for circles, members, invites, key envelopes, SOS events, places and
  mutes, on databases whose 32-bit counters have room for one more increment (beyond it Postgres refuses and
  SQLite stores a value it cannot read back) and, for an envelope, on consistent databases and
  a new id.
\<close>

theorem pg_circles_agree:
  assumes "pg_text r" and "whole now" and "whole ex" and "us \<noteq> []"
  shows "agrees anywhere sc_Member (pg_AddMember now c u r) (AddMember now c u r) \<and>
    agrees anywhere id pg_AllCircleRetention AllCircleRetention \<and>
    agrees counters_ok sc_Circle (pg_BumpCircleKeyEpoch c) (BumpCircleKeyEpoch c) \<and>
    agrees anywhere id (pg_CountOwners c) (CountOwners c) \<and>
    agrees anywhere sc_Circle (pg_CreateCircle now i nm days u) (CreateCircle now i nm days u) \<and>
    agrees anywhere id (pg_DeleteCircle c) (DeleteCircle c) \<and>
    agrees counters_ok sc_Circle (pg_GetCircle c) (GetCircle c) \<and>
    agrees anywhere sc_Member (pg_GetMembership c u) (GetMembership c u) \<and>
    agrees counters_ok (map (map_prod sc_Circle id)) (pg_ListCirclesForUser u) (ListCirclesForUser u) \<and>
    agrees anywhere (map (map_prod sc_Member id)) (pg_ListMembers c) (ListMembers c) \<and>
    agrees anywhere id (pg_RemoveMember c u) (RemoveMember c u) \<and>
    agrees anywhere id (pg_SetMemberProfile c u nm) (SetMemberProfile c u nm) \<and>
    agrees anywhere sc_Member (pg_SetMemberRole c u r) (SetMemberRole c u r) \<and>
    agrees anywhere sc_Member (pg_SetPrecisionMode c u r) (SetPrecisionMode c u r) \<and>
    agrees counters_ok sc_Circle (pg_UpdateCircleName c nm) (UpdateCircleName c nm) \<and>
    agrees counters_ok sc_Circle (pg_UpdateCircleRetention c days) (UpdateCircleRetention c days) \<and>
    agrees anywhere sc_Invite (pg_ConsumeInvite now i) (ConsumeInvite now i) \<and>
    agrees anywhere id (pg_CountRecentInvitesByUser now u) (CountRecentInvitesByUser now u) \<and>
    agrees anywhere sc_Invite (pg_CreateInvite now i c u r m ex) (CreateInvite now i c u r m ex) \<and>
    agrees anywhere sc_Invite (pg_GetInvite i) (GetInvite i) \<and>
    agrees anywhere (map sc_Invite) (pg_ListInvitesForCircle now c) (ListInvitesForCircle now c) \<and>
    agrees anywhere id (pg_RevokeInvite i c) (RevokeInvite i c) \<and>
    agrees (fresh_envelope i) sc_Envelope (pg_CreateKeyEnvelope now i c v x ct ep) (CreateKeyEnvelope now i c v x ct ep) \<and>
    agrees anywhere id (pg_MarkEnvelopeConsumed now i v) (MarkEnvelopeConsumed now i v) \<and>
    agrees anywhere (map sc_Envelope) (pg_PendingEnvelopesForDevice v) (PendingEnvelopesForDevice v) \<and>
    agrees anywhere id (pg_PruneKeyEnvelopes now) (PruneKeyEnvelopes now) \<and>
    agrees anywhere sc_Sos (pg_CreateSOS now i c x ct) (CreateSOS now i c x ct) \<and>
    agrees anywhere sc_Sos (pg_GetSOS i) (GetSOS i) \<and>
    agrees anywhere (map sc_Sos) (pg_ListActiveSOS c) (ListActiveSOS c) \<and>
    agrees anywhere id (pg_PruneResolvedSOS ex) (PruneResolvedSOS ex) \<and>
    agrees anywhere sc_Sos (pg_ResolveSOS now i c x) (ResolveSOS now i c x) \<and>
    agrees anywhere sc_Place (pg_CreatePlace now i c ct x) (CreatePlace now i c ct x) \<and>
    agrees counters_ok (map sc_Place) (pg_ListPlaces c) (ListPlaces c) \<and>
    agrees anywhere id (pg_PrunePlaceTombstones ex) (PrunePlaceTombstones ex) \<and>
    agrees counters_ok sc_Place (pg_SoftDeletePlace now i c x) (SoftDeletePlace now i c x) \<and>
    agrees counters_ok sc_Place (pg_UpdatePlace now i c ct x ver) (UpdatePlace now i c ct x ver) \<and>
    agrees anywhere id (pg_CountMembersIn c us) (CountMembersIn c us) \<and>
    agrees anywhere id (pg_DeleteMutes u c) (DeleteMutes u c) \<and>
    agrees anywhere id (pg_InsertMute now u c x) (InsertMute now u c x) \<and>
    agrees anywhere id (pg_ListMutes u c) (ListMutes u c)"
  using assms by (intro conjI pg_agree) simp_all

theorem pg_circles_agree_witness:
  "pg_ConsumeInvite (5 * Second) 61 (sc_db demo_db) =
     (case ConsumeInvite (5 * Second) 61 demo_db of (r, d') \<Rightarrow> (map_sum id sc_Invite r, sc_db d')) \<and>
   pg_UpdatePlace (5 * Second) 51 31 [8] (Some 1) 1 (sc_db demo_db) =
     (case UpdatePlace (5 * Second) 51 31 [8] (Some 1) 1 demo_db of (r, d') \<Rightarrow> (map_sum id sc_Place r, sc_db d')) \<and>
   pg_CreateKeyEnvelope (5 * Second) 91 31 12 None [9] 1 (sc_db demo_db) =
     (case CreateKeyEnvelope (5 * Second) 91 31 12 None [9] 1 demo_db of (r, d') \<Rightarrow> (map_sum id sc_Envelope r, sc_db d'))"
proof -
  have ok: "pg_text ''member''" "whole (5 * Second)" "whole Day" "[1, 2] \<noteq> ([] :: uuid list)" by code_simp+
  show ?thesis
    using pg_circles_agree [OF ok, where i = 61] pg_circles_agree [OF ok, where i = 51] pg_circles_agree [OF ok, where i = 91] demo_backend(3,4)
    unfolding agrees_def by simp
qed

text \<open>
  C11. The same for pings, share links, push subscriptions, app versions and the shared steps of a maintenance
  pass, except for the pings Postgres cannot store: a ping whose capture time no partition takes, or whose client id has
  a zero byte or is no UTF-8, is refused by Postgres without effect (and not as a duplicate), while SQLite takes it. All
  other pings are inserted alike. Generated ids are new, and the hours of a cutoff fit the 64 bits in
  which the SQLite querier multiplies them.
\<close>

theorem pg_feeds_agree:
  assumes "whole now" and "whole cap" and "\<forall>t\<in>set_option ex. whole t" and "whole until"
    and "\<forall>s\<in>set ([e, k, p] @ opt_text a @ opt_text b @ opt_text ch). pg_text s"
    and "in_i64 (hours * Hour)" and "in_i64 (wk_pingRetentionHours w * Hour)"
  shows "(if pg_text cl \<and> routed parts (pv cap)
     then agrees (fresh_ping i) sc_Ping (pg_InsertPing parts now i c v cl n ct cap ex) (InsertPing now i c v cl n ct cap ex)
     else \<forall>d. \<exists>err bs. pg_InsertPing parts now i c v cl n ct cap ex d = (Inl err, d\<lparr>faults := bs\<rparr>) \<and> err \<noteq> NoRows) \<and>
    agrees anywhere (map sc_Ping) (pg_LatestPingsForCircle c) (LatestPingsForCircle c) \<and>
    agrees anywhere id (pg_CountPingsForCircle c) (CountPingsForCircle c) \<and>
    agrees anywhere id (pg_DeleteExpiredPingsForCircle now c days) (DeleteExpiredPingsForCircle now c days) \<and>
    agrees anywhere id (pg_PruneStalePings now hours) (PruneStalePings now hours) \<and>
    agrees anywhere sc_Share (pg_BindShareViewer now i h) (BindShareViewer now i h) \<and>
    agrees anywhere sc_Share (pg_RevokeShareSession now i u) (RevokeShareSession now i u) \<and>
    agrees anywhere sc_Share (pg_CreateShareSession now i u until) (CreateShareSession now i u until) \<and>
    agrees anywhere sc_Position (pg_GetSharePosition i) (GetSharePosition i) \<and>
    agrees anywhere sc_Share (pg_GetShareSession i) (GetShareSession i) \<and>
    agrees anywhere sc_Share (pg_GetShareSessionForOwner i u) (GetShareSessionForOwner i u) \<and>
    agrees anywhere (map sc_Share) (pg_ListShareSessionsForUser now u) (ListShareSessionsForUser now u) \<and>
    agrees anywhere id (pg_PruneShareSessions now hours) (PruneShareSessions now hours) \<and>
    agrees anywhere id (pg_UpsertSharePosition now i n ct cap) (UpsertSharePosition now i n ct cap) \<and>
    agrees anywhere id (pg_DeletePushSubscription e u) (DeletePushSubscription e u) \<and>
    agrees anywhere id (pg_DeletePushSubscriptionByID i) (DeletePushSubscriptionByID i) \<and>
    agrees anywhere (map sc_Push) (pg_ListCirclePushSubscriptions c x) (ListCirclePushSubscriptions c x) \<and>
    agrees (fresh_push i) sc_Push (pg_UpsertPushSubscription now i u y e a b k) (UpsertPushSubscription now i u y e a b k) \<and>
    agrees anywhere sc_Version (pg_LatestActiveVersion p) (LatestActiveVersion p) \<and>
    agrees (fresh_version i) sc_Version (pg_UpsertAppVersion now i p code k a b ch mand) (UpsertAppVersion now i p code k a b ch mand) \<and>
    agrees anywhere id (pg_later_steps w now) (later_steps w now)"
proof -
  have ping: "if pg_text cl \<and> routed parts (pv cap)
     then agrees (fresh_ping i) sc_Ping (pg_InsertPing parts now i c v cl n ct cap ex) (InsertPing now i c v cl n ct cap ex)
     else \<forall>d. \<exists>err bs. pg_InsertPing parts now i c v cl n ct cap ex d = (Inl err, d\<lparr>faults := bs\<rparr>) \<and> err \<noteq> NoRows"
    using pg_InsertPing_agrees [OF assms(1-3)] pg_InsertPing_refused by metis
  show ?thesis using assms by (intro conjI ping pg_agree later_steps_agree) (simp_all add: ball_Un)
qed

theorem pg_feeds_agree_witness:
  "pg_InsertPing demo_parts (5 * Second) 91 31 11 ''n'' [1] [2] (4 * Second) None (sc_db demo_db) =
     (case InsertPing (5 * Second) 91 31 11 ''n'' [1] [2] (4 * Second) None demo_db of
       (r, d') \<Rightarrow> (map_sum id sc_Ping r, sc_db d')) \<and>
   pg_later_steps demo_worker (5 * Second) (sc_db demo_db) =
     (case later_steps demo_worker (5 * Second) demo_db of (r, d') \<Rightarrow> (map_sum id id r, sc_db d'))"
proof -
  have ok: "whole (5 * Second)" "whole (4 * Second)" "\<forall>t\<in>set_option (None :: gotime option). whole t" "whole Day"
    "\<forall>s\<in>set ([''e'', ''fcm'', ''android''] @ opt_text None @ opt_text None @ opt_text None). pg_text s"
    "in_i64 (6 * Hour)" "in_i64 (wk_pingRetentionHours demo_worker * Hour)"
    by code_simp+
  have ping: "pg_text ''n'' \<and> routed demo_parts (pv (4 * Second))" by code_simp
  show ?thesis
    using pg_feeds_agree [OF ok, where i = 91 and cl = "''n''" and parts = demo_parts] ping demo_backend(5)
    unfolding agrees_def by simp
qed

text \<open>
  C12. The transactions of the handlers on Postgres refine those on SQLite, rollbacks and
  driver failures included: creating a circle, joining by invitation, replacing mutes, distributing key
  envelopes, the whole of registering an account (with texts Postgres can hold and an ASCII address), and storing a batch of pings all of which
  Postgres can store (a duplicate is skipped without aborting the transaction). A batch with a ping it cannot store, for want of a partition or
  because of its client id, is refused as a whole and leaves no ping behind.
\<close>

theorem pg_transactions_agree:
  assumes "whole (rq_now rq)" and "inj_on ids {..<N}" and "length items \<le> N" and "length es \<le> N"
    and "\<forall>x\<in>set items. whole_times x"
    and "citext_ascii low" and "ascii (normalizeEmail s (Reg_Email inp))" and "whole (svc_accessTTL s)" and "whole (svc_refreshTTL s)"
    and "\<forall>t\<in>set [normalizeEmail s (Reg_Email inp), Reg_DisplayName inp, Reg_IP inp]. pg_text t"
  shows "agrees anywhere sc_Circle (pg_create_circle_tx (rq_now rq) i nm days u) (create_circle_tx (rq_now rq) i nm days u) \<and>
    agrees db_ok id (pg_accept_tx (rq_now rq) i u) (accept_tx (rq_now rq) i u) \<and>
    (if \<forall>x\<in>set items. storable parts x
     then agrees (unused_from ids N 0) (map sc_Ping) (pg_ping_tx parts rq ids items) (ping_tx rq ids items)
     else \<forall>d. \<exists>e bs. pg_ping_tx parts rq ids items d = (Inl e, d\<lparr>faults := bs\<rparr>)) \<and>
    agrees anywhere id (pg_mutes_tx (rq_now rq) u c b us) (mutes_tx (rq_now rq) u c b us) \<and>
    agrees (unsent_from ids N 0) id (withPgTx (\<lambda>_. Internal) (pg_post_envelopes rq ids c epoch valid 0 es))
      (withSQLiteTx (\<lambda>_. Internal) (post_envelopes rq ids c epoch valid 0 es)) \<and>
    agrees ascii_emails sc_Result (pg_Register low s (rq_now rq) ent inp) (Register s (rq_now rq) ent inp)"
proof -
  have batch: "if \<forall>x\<in>set items. storable parts x
     then agrees (unused_from ids N 0) (map sc_Ping) (pg_ping_tx parts rq ids items) (ping_tx rq ids items)
     else \<forall>d. \<exists>e bs. pg_ping_tx parts rq ids items d = (Inl e, d\<lparr>faults := bs\<rparr>)"
    using pg_ping_tx_agrees [OF assms(2,1) _ assms(3), of parts] pg_ping_tx_refused assms(5) by (simp split: if_split)
  show ?thesis
    by (intro conjI batch pg_create_circle_tx_agrees pg_accept_tx_agrees pg_mutes_tx_agrees
        pg_envelope_tx_agrees pg_Register_agrees assms)
qed

theorem pg_transactions_agree_witness:
  "pg_accept_tx (5 * Second) 61 1 (sc_db demo_db) =
     (case accept_tx (5 * Second) 61 1 demo_db of (r, d') \<Rightarrow> (map_sum id id r, sc_db d')) \<and>
   pg_ping_tx demo_parts (demo_request 1 11) (\<lambda>k. 91 + of_nat k) [demo_item] (sc_db demo_db) =
     (case ping_tx (demo_request 1 11) (\<lambda>k. 91 + of_nat k) [demo_item] demo_db of (r, d') \<Rightarrow> (map_sum id (map sc_Ping) r, sc_db d')) \<and>
   pg_Register nocase demo_service (5 * Second) demo_entropy demo_registration (sc_db demo_db) =
     (case Register demo_service (5 * Second) demo_entropy demo_registration demo_db of
       (r, d') \<Rightarrow> (map_sum id sc_Result r, sc_db d'))"
proof -
  have ids: "inj_on (\<lambda>k. 91 + of_nat k :: uuid) {..<1}" by (simp add: inj_on_def)
  have ok: "whole (rq_now (demo_request 1 11))" "\<forall>x\<in>set [demo_item]. whole_times x"
    "\<forall>x\<in>set [demo_item]. storable demo_parts x" by code_simp+
  have few: "length [demo_item] \<le> 1" "length ([] :: keyEnvelopeItem list) \<le> 1" by simp_all
  have reg: "ascii (normalizeEmail demo_service (Reg_Email demo_registration))"
    "whole (svc_accessTTL demo_service)" "whole (svc_refreshTTL demo_service)"
    "\<forall>t\<in>set [normalizeEmail demo_service (Reg_Email demo_registration), Reg_DisplayName demo_registration, Reg_IP demo_registration]. pg_text t"
    by code_simp+
  have "unused_from (\<lambda>k. 91 + of_nat k) 1 0 demo_db" using demo_backend(5) by (simp add: unused_from_def)
  then show ?thesis
    using pg_transactions_agree [OF ok(1) ids few ok(2) demo_backend(1) reg, where i = 61 and u = 1 and parts = demo_parts]
      ok(3) demo_backend(2) demo_db_ok
    unfolding agrees_def by (simp add: demo_request_def)
qed

text \<open>
  C13. The bounds of retention on Postgres. Without driver failures, a pass over
  monthly partitions that hold all pings keeps of the latest fixes of every circle exactly those captured since the start
  of the month in which the configured horizon lies, less than 31 days before the horizon and never after it, so no latest
  fix within the horizon is lost and none outlives it by a month; and afterwards every instant of the months it prepares that lies within the
  horizon has a partition, so a ping captured then can be stored.
\<close>

theorem pg_retention_window:
  assumes "faults d = []" and "\<forall>p\<in>set (pings d). routed parts (sc (Ping_CapturedAt p))" and "parts_ok parts"
    and "whole now" and "in_i64 (wk_pingRetentionHours w * Hour)" and "h = now - wk_maxRetentionDays w * Day"
    and "pg_range (pv (AddMonths now (- 1)))" and "pg_range (pv (AddMonths now 2))" and "pg_range (pv h)"
    and "pg_RunOnce w now (sc_db d, parts) = (r, (e, ps))" and "m = month_start (month_index (pv h))"
  shows "latest_rows e c = filter (\<lambda>p. m \<le> Ping_CapturedAt p) (latest_rows (sc_db d) c) \<and>
    m \<le> pv h \<and> pv h < m + 31 * day_us \<and>
    (\<forall>t. AddMonths now (- 1) \<le> t \<and> t \<le> AddMonths now 2 \<and> h \<le> t \<longrightarrow> routed ps (pv t))"
proof -
  obtain r' e' ps' where "pg_RunOnce w now (sc_db d, parts) = (r', (e', ps'))"
    and latest: "latest_rows e' c = filter (\<lambda>p. m \<le> Ping_CapturedAt p) (latest_rows (sc_db d) c)"
    and window: "\<And>t. AddMonths now (- 1) \<le> t \<Longrightarrow> t \<le> AddMonths now 2 \<Longrightarrow> h \<le> t \<Longrightarrow> routed ps' (pv t)"
    using pg_pass [OF assms(1-9)] assms(11) by metis
  moreover from this(1) have "e' = e" "ps' = ps" using assms(10) by simp_all
  moreover have "m \<le> pv h" "pv h < m + 31 * day_us"
    using month_index_bounds(1,2) [OF assms(9)] month_start_step(2) [of "month_index (pv h)"] assms(11) by simp_all
  ultimately show ?thesis by blast
qed

theorem pg_retention_window_witness:
  "let (r, (e, ps)) = pg_RunOnce demo_worker (10 * Day) (sc_db demo_db, demo_parts);
       h = 10 * Day - wk_maxRetentionDays demo_worker * Day in
   latest_rows e 31 = filter (\<lambda>p. month_start (month_index (pv h)) \<le> Ping_CapturedAt p) (latest_rows (sc_db demo_db) 31) \<and>
   routed ps (pv (20 * Day))"
proof -
  have ok: "\<forall>p\<in>set (pings demo_db). routed demo_parts (sc (Ping_CapturedAt p))" "whole (10 * Day)"
    "in_i64 (wk_pingRetentionHours demo_worker * Hour)" "pg_range (pv (AddMonths (10 * Day) (- 1)))"
    "pg_range (pv (AddMonths (10 * Day) 2))" "pg_range (pv (10 * Day - wk_maxRetentionDays demo_worker * Day))"
    by code_simp+
  have "parts_ok demo_parts" by (simp add: parts_ok_def monthly_def demo_parts_def) (rule exI [of _ 23640], simp)
  moreover have "AddMonths (10 * Day) (- 1) \<le> 20 * Day \<and> 20 * Day \<le> AddMonths (10 * Day) 2 \<and>
    10 * Day - wk_maxRetentionDays demo_worker * Day \<le> 20 * Day" by code_simp
  ultimately show ?thesis
    using pg_retention_window [OF demo_db_faults ok(1) _ ok(2,3) refl ok(4-6) _ refl]
    by (auto simp: Let_def split: prod.split)
qed

section \<open>Realtime hub\<close>

text \<open>
  C14. Whatever the connections and the loop do, the hub never sends on or closes a closed channel,
  its queues stay within their capacities, admission keeps the connection counts
  within the limits, and the per-circle index holds exactly the connected clients subscribed
  to the circle.
\<close>

theorem hub_safe:
  fixes ops :: "hub_op list"
  defines "h \<equiv> fold hub_step ops NewHub"
  shows "\<not> hub_panicked h \<and> length (hub_broadcast h) \<le> 256 \<and> length (hub_evict h) \<le> 64 \<and>
    hub_totalConns h \<le> 10000 \<and> hub_perUser h u \<le> 10 \<and>
    (k \<in> members (hub_circles h) i \<longleftrightarrow>
      (\<exists>c. k \<in> set (hub_clients h) \<and> hub_store h k = Some c \<and> \<not> Client_closed c \<and> Subscribed i c))"
proof -
  have inv: "hub_inv h" unfolding h_def by (rule hub.run_inv [OF hub_inv_NewHub])
  have lim: "hub_maxTotal h = 10000 \<and> hub_maxPerUser h = 10"
    unfolding h_def using hub_limits.run_inv [of NewHub "limits NewHub" ops] by (simp add: NewHub_def limits_def)
  have ix: "index_ok h" using inv by (simp add: hub_inv_def)
  have "k \<in> members (hub_circles h) i \<longleftrightarrow>
      (\<exists>c. k \<in> set (hub_clients h) \<and> hub_store h k = Some c \<and> \<not> Client_closed c \<and> Subscribed i c)"
    using index_okD(5) [OF ix, of k i] index_okD(3) [OF ix, of k] by (auto simp: circles_of_def Subscribed_def)
  then show ?thesis using inv lim
    by (auto simp: hub_inv_def queues_ok_def conns_ok_def broadcast_cap_def evict_cap_def)
qed

text \<open>
  C15. Dispatching an event changes exactly the clients subscribed to its circle: each gets the
  event appended to its buffer, or, when the buffer is full, is closed. Nobody else is touched.
\<close>

theorem dispatch_delivers:
  assumes "hub_inv h"
  shows "hub_store (dispatch ev h) k =
    (case hub_store h k of None \<Rightarrow> None
     | Some c \<Rightarrow> Some (if k \<in> set (hub_clients h) \<and> Subscribed (Event_CircleID ev) c
         then (if length (Client_send c) < Client_cap c then c\<lparr>Client_send := Client_send c @ [EventFrame ev]\<rparr>
               else c\<lparr>Client_closed := True\<rparr>)
         else c))"
proof -
  have ix: "index_ok h" using assms by (simp add: hub_inv_def)
  show ?thesis
    using dispatch_effect(3) [OF ix, of ev k] index_okD(5) [OF ix, of k "Event_CircleID ev"]
    by (auto simp: circles_of_def Subscribed_def deliver_def split: option.split)
qed

definition demo_hub :: Hub where
  "demo_hub = fold hub_step [OpRegister 0 1 [31] 8, OpRegister 1 2 [31, 32] 1] NewHub"

definition demo_event :: HubEvent where
  "demo_event = \<lparr>Event_Type = ''ping'', Event_CircleID = 31, Event_Payload = None\<rparr>"

lemma demo_hub_inv: "hub_inv demo_hub"
  unfolding demo_hub_def by (rule hub.run_inv [OF hub_inv_NewHub])

theorem dispatch_delivers_witness:
  "map_option Client_send (hub_store (dispatch demo_event demo_hub) 1) = Some [EventFrame demo_event]"
  unfolding dispatch_delivers [OF demo_hub_inv]
  by (simp add: demo_hub_def addClient_def NewClient_def NewHub_def demo_event_def Subscribed_def set_add_def
      circles_of_def subscribe_def)

text \<open>
  C16. Once the hub has processed the eviction of a user from a circle, no run of the hub puts an
  event of the circle into a buffer of that user's connections until one of them connects
  anew with the circle: only frames that were buffered before are still there.
\<close>

theorem evicted_hears_nothing:
  assumes "hub_inv h" and "hub_running h"
    and "hub_evict h = \<lparr>evict_circleID = i, evict_userID = u, evict_allUsers = False\<rparr> # rest"
    and "\<forall>op\<in>set ops. \<not> resubscribes u i op"
    and "hub_store (fold hub_step (OpEvict # ops) h) k = Some c" and "Client_UserID c = u"
  shows "heard i c \<subseteq> (case hub_store h k of None \<Rightarrow> {} | Some c0 \<Rightarrow> heard i c0)"
proof -
  let ?F = "\<lambda>k. case hub_store h k of None \<Rightarrow> {} | Some c0 \<Rightarrow> heard i c0"
  from quiet_run [OF quiet_after_evict [OF assms(1-3)] assms(4)]
  show ?thesis using assms(5,6) by (auto simp: quiet_def)
qed

theorem evicted_hears_nothing_witness:
  "\<exists>c. hub_store (fold hub_step [OpEvict, OpPublish demo_event, OpDispatch]
       (EvictUser 31 2 demo_hub)) 1 = Some c \<and> heard 31 c = {}"
proof -
  let ?h = "EvictUser 31 2 demo_hub"
  have h: "hub_inv ?h" using hub_step_inv [OF demo_hub_inv, of "OpEvictUser 31 2"] by simp
  have e: "hub_running ?h"
    "hub_evict ?h = [\<lparr>evict_circleID = 31, evict_userID = 2, evict_allUsers = False\<rparr>]"
    by (simp_all add: EvictUser_def demo_hub_def addClient_def NewClient_def NewHub_def evict_cap_def)
  have st: "hub_store ?h 1 = Some (NewClient 2 [31, 32] 1)"
    by (simp add: EvictUser_def demo_hub_def addClient_def NewHub_def)
  have ops: "\<forall>op\<in>set [OpPublish demo_event, OpDispatch]. \<not> resubscribes 2 31 op" by (simp add: resubscribes_def)
  have "case hub_store (fold hub_step [OpEvict, OpPublish demo_event, OpDispatch] ?h) 1 of
      None \<Rightarrow> False | Some c \<Rightarrow> Client_UserID c = 2"
    by code_simp
  then obtain c where c: "hub_store (fold hub_step [OpEvict, OpPublish demo_event, OpDispatch] ?h) 1 = Some c"
    "Client_UserID c = 2" by (auto split: option.splits)
  from evicted_hears_nothing [OF h e(1,2) ops c] c st show ?thesis by (auto simp: heard_def NewClient_def)
qed

section \<open>Tokens, passwords and blobs\<close>

text \<open>
  C17. An access token resolves exactly when it is the token of a session that is neither revoked nor
  expired, and it resolves to that session's account and device.
\<close>

theorem resolve_iff_live:
  assumes "db_ok d" and "faults d = []" and "tok \<noteq> []"
  shows "fst (Resolve s now tok d) = Inr (u, v, i) \<longleftrightarrow>
    (\<exists>x\<in>set (sessions d). Session_AccessTokenHash x = HashToken s tok \<and> Session_RevokedAt x = None \<and>
       tv now < Session_AccessExpiresAt x \<and> Session_UserID x = u \<and> Session_DeviceID x = v \<and> Session_ID x = i)"
    (is "?resolves \<longleftrightarrow> ?live")
proof
  assume ?resolves
  then have "Resolve s now tok d = (Inr (u, v, i), snd (Resolve s now tok d))" by (metis prod.collapse)
  from Resolve_sound [OF this] show ?live by (auto simp: live_access_def)
next
  assume ?live
  then show ?resolves using Resolve_live [OF assms] by (auto simp: live_access_def)
qed

theorem resolve_iff_live_witness:
  "fst (Resolve demo_service Second ''a1'' demo_db) = Inr (1, 11, 21)"
proof -
  have "demo_session \<in> set (sessions demo_db)" by (simp add: demo_db_def)
  moreover have "Session_AccessTokenHash demo_session = HashToken demo_service ''a1'' \<and> Session_RevokedAt demo_session = None \<and>
     tv Second < Session_AccessExpiresAt demo_session \<and> Session_UserID demo_session = 1 \<and>
     Session_DeviceID demo_session = 11 \<and> Session_ID demo_session = 21" by code_simp
  ultimately show ?thesis
    using resolve_iff_live [OF demo_db_ok demo_db_faults, of "''a1''" demo_service Second 1 11 21] by auto
qed

text \<open>
  C18. Revoking a device (only its owner can) ends every session on it: no token resolves to that device
  any more, at any time, while the sessions of other devices stay as they are.
\<close>

theorem revoked_device_is_out:
  assumes "faults d = []" and "RevokeDevice s now u v ip d = (Inr (), d')"
  shows "(\<exists>w\<in>set (devices d). Device_ID w = v \<and> Device_UserID w = u) \<and>
    fst (Resolve s t tok d') \<noteq> Inr (u', v, i) \<and>
    filter (\<lambda>x. Session_DeviceID x \<noteq> v) (sessions d') = filter (\<lambda>x. Session_DeviceID x \<noteq> v) (sessions d)"
proof (intro conjI)
  show "fst (Resolve s t tok d') \<noteq> Inr (u', v, i)"
    using RevokeDevice_dead [OF assms, of t tok u' i "snd (Resolve s t tok d')"] by (metis prod.collapse)
  show "filter (\<lambda>x. Session_DeviceID x \<noteq> v) (sessions d') = filter (\<lambda>x. Session_DeviceID x \<noteq> v) (sessions d)"
    unfolding RevokeDevice_effect(1) [OF assms] by (rule filter_update_where) (simp add: revoke_at_def)
qed (rule RevokeDevice_effect(2) [OF assms])

theorem revoked_device_is_out_witness:
  "fst (Resolve demo_service Second ''a1'' (snd (RevokeDevice demo_service Second 1 11 [] demo_db))) \<noteq> Inr (1, 11, 21)"
proof -
  have "fst (RevokeDevice demo_service Second 1 11 [] demo_db) = Inr ()" by code_simp
  then have "RevokeDevice demo_service Second 1 11 [] demo_db = (Inr (), snd (RevokeDevice demo_service Second 1 11 [] demo_db))"
    by (metis prod.collapse)
  from revoked_device_is_out [OF demo_db_faults this] show ?thesis by blast
qed

text \<open>
  C19. A password verifies against the hash string made from it: the PHC encoding is read back with the
  same parameters, salt and key, and the rehash flag says whether the parameters are weaker
  than the defaults. The key derivation is assumed only to return keys of the requested length.
\<close>

theorem password_roundtrip:
  assumes "length (derive idkey pw salt p) = unat (KeyLength p)"
    and "0 < unat (KeyLength p)" and "unat (KeyLength p) \<le> 1024"
    and "0 < unat (SaltLength p)" and "unat (SaltLength p) \<le> 1024" and "length salt = unat (SaltLength p)"
    and "HashPasswordWithParams idkey (Some salt) pw p = Inr h"
  shows "VerifyPassword idkey h pw = Inr (True, weakerThan p DefaultArgon2Params)"
  using assms by (rule VerifyPassword_fresh)

theorem password_roundtrip_witness:
  "VerifyPassword demo_idkey demo_hash ''password1'' = Inr (True, weakerThan demo_params DefaultArgon2Params)"
proof (rule password_roundtrip [of demo_idkey "''password1''" "[1, 2]" demo_params])
  show "HashPasswordWithParams demo_idkey (Some [1, 2]) ''password1'' demo_params = Inr demo_hash"
    by (simp add: HashPasswordWithParams_def demo_hash_def)
qed (simp_all add: demo_params_def derive_def demo_idkey_def)

text \<open>
  Blobs survive the transport encoding: what the server encodes for a client decodes to the same
  bytes, unless it is empty or longer than the field allows, and then the answer says so.
\<close>

lemma blob_roundtrip:
  "decodeBlob (encodeBlob bs) n =
    (if bs = [] then Inl Required else if length bs > n then Inl (TooLong n) else Inr bs)"
  by (simp add: decodeBlob_def encodeBlob_def StdEncoding.decode_encode StdEncoding.encode_empty_iff)

text \<open>
  The lockout back-off doubles from 30 seconds with every failure past the threshold and is capped
  at 15 minutes; no number of failures makes it overflow.
\<close>

lemma backoff_doubles_to_cap:
  "backoff DefaultLockout n = min (15 * Minute) (30 * Second * 2 ^ nat (max n 1 - 1))"
  by (rule backoff_default)

section \<open>Circles\<close>

text \<open>
  C25. Isolation. An account that is not a member of a circle, short of accepting one of the circle's
  invitations, an unauthenticated request, a connection, a hub step or a driver failure changes no row of the
  circle: not its settings, members, invitations, places, key envelopes, alerts, fixes or mutes.
  There is one exception: a request to consume a key envelope may set the consumption mark of
  an envelope of the circle that is addressed to the very device the request comes from, which a former
  member can still do. Maintenance, which deletes old rows of every circle, is not such an action.
\<close>

theorem outsider_isolated:
  assumes "world_ok w" and "c \<in> circle_ids (w_db w)"
    and "\<forall>u m. actor dep a w = Some u \<and> m \<in> set (circle_members (w_db w)) \<and> Member_CircleID m = c \<longrightarrow> Member_UserID m \<noteq> u"
    and "\<not> invited c a (w_db w)" and "\<not> maintenance a"
  shows "circle_part (consuming dep a w) c (w_db (step dep a w)) = circle_part (consuming dep a w) c (w_db w)"
  by (rule outsider_step) (use assms in \<open>auto simp: world_inv_def\<close>)

definition demo_dep :: deployment where
  "demo_dep = \<lparr>dep_server = demo_server, dep_push = \<lparr>push_web = False, push_fcm = True\<rparr>, dep_outcome = (\<lambda>_. PushSent),
     dep_worker = demo_worker\<rparr>"

definition demo_credentials :: credentials where
  "demo_credentials = \<lparr>cred_header = ''Bearer a1'', cred_cookie = None, cred_ip = ''1.2.3.4'', cred_now = 5 * Second\<rparr>"

theorem outsider_isolated_witness:
  "actor demo_dep (AUser demo_credentials (UCircle (Some 32) CDelete)) demo_world = Some 1 \<and>
   circle_part {} 32 (w_db (step demo_dep (AUser demo_credentials (UCircle (Some 32) CDelete)) demo_world)) =
   circle_part {} 32 (w_db demo_world)"
proof -
  let ?a = "AUser demo_credentials (UCircle (Some 32) CDelete)"
  have a: "actor demo_dep ?a demo_world = Some 1" by code_simp
  have c: "32 \<in> circle_ids (w_db demo_world)" by code_simp
  have "\<forall>m\<in>set (circle_members (w_db demo_world)). Member_CircleID m = 32 \<longrightarrow> Member_UserID m \<noteq> 1" by code_simp
  then have "\<forall>u m. actor demo_dep ?a demo_world = Some u \<and> m \<in> set (circle_members (w_db demo_world)) \<and> Member_CircleID m = 32
      \<longrightarrow> Member_UserID m \<noteq> u" unfolding a by auto
  from outsider_isolated [OF demo_world_ok c this] a show ?thesis by (simp add: invited_def maintenance_def consuming_def)
qed

text \<open>
  C26. On every run of the server, every circle has exactly one owner, the account that created it.
\<close>

theorem one_owner:
  assumes "x \<in> set (circles (w_db (fold (step dep) acts initial)))"
  shows "\<exists>m. filter (\<lambda>m. Member_CircleID m = Circle_ID x \<and> Member_Role m = ''owner'')
      (circle_members (w_db (fold (step dep) acts initial))) = [m] \<and> Member_UserID m = Circle_CreatedBy x"
proof -
  have "world_ok initial \<and> world_inv (crowned 0 (\<lambda>_. True)) initial"
    by (simp add: world_inv_def initial_def db_ok_empty crowned_empty hub_inv_NewHub)
  from crowned_server.run_inv [OF this] have "crowned 0 (\<lambda>_. True) (w_db (fold (step dep) acts initial))"
    by (simp add: world_inv_def)
  then show ?thesis using assms by (rule sole_owner)
qed

definition demo_acts :: "action list" where
  "demo_acts = [ARegister 0 [] demo_entropy (Inr \<lparr>rr_Email = ''alice@x'', rr_Password = ''password1'', rr_Platform = ''web'',
       rr_DisplayName = [], rr_Pubkey = []\<rparr>),
     AUser (demo_credentials\<lparr>cred_header := ''Bearer a2''\<rparr>) (UCreateCircle 33 (Inr \<lparr>cc_NameEnc = [], cc_RetentionDays = None\<rparr>))]"

theorem one_owner_witness:
  "\<exists>x m. x \<in> set (circles (w_db (fold (step demo_dep) demo_acts initial))) \<and>
     filter (\<lambda>m. Member_CircleID m = Circle_ID x \<and> Member_Role m = ''owner'')
       (circle_members (w_db (fold (step demo_dep) demo_acts initial))) = [m]"
proof -
  have "map Circle_ID (circles (w_db (fold (step demo_dep) demo_acts initial))) = [33]" by code_simp
  then obtain x where x: "x \<in> set (circles (w_db (fold (step demo_dep) demo_acts initial)))"
    by (cases "circles (w_db (fold (step demo_dep) demo_acts initial))") auto
  from one_owner [OF x] show ?thesis using x by blast
qed

text \<open>
  C27. All or nothing, for every authenticated request but those that change a circle's settings, rotate
  its key, or change or remove a place. Answered with an error by the handler, whatever the error and whichever
  statement the driver failed, it has left every table and the hub as they were. Answered 503 because its
  deadline passed, it has either left everything as it was or had the whole effect of a request that succeeds.
\<close>

theorem refused_without_effect:
  assumes "\<not> exempt uc" and "timeout expired (with_auth srv cr (user_handler dep uc)) w = (ans, w')"
    and "\<forall>x. ans \<noteq> Answered (Inr x)"
  shows "((\<exists>bs. w_db w' = (w_db w)\<lparr>faults := bs\<rparr>) \<and> w_hub w' = w_hub w) \<or>
    (ans = TimedOut \<and> (\<exists>x. with_auth srv cr (user_handler dep uc) w = (Inr x, w')))"
proof (cases "with_auth srv cr (user_handler dep uc) w")
  case (Pair r w1)
  then have "w1 = w'" and r: "ans = (if expired then TimedOut else Answered r)"
    using assms(2) by (simp_all add: timeout_def)
  show ?thesis
  proof (cases r)
    case (Inl e)
    then show ?thesis using refusal_changes_nothing [OF assms(1), of srv cr dep w e w'] Pair \<open>w1 = w'\<close>
      by (simp add: same_world_def same_tables_def)
  next
    case (Inr x)
    then have "expired" using assms(3) r by metis
    then show ?thesis using r Pair Inr \<open>w1 = w'\<close> by metis
  qed
qed

theorem refused_without_effect_witness:
  "\<exists>e w' bs. timeout False (with_auth demo_server demo_credentials (user_handler demo_dep (UAcceptInvite (Some 61))))
     (demo_world\<lparr>w_db := demo_db\<lparr>faults := [False, False, False, False, False, True]\<rparr>\<rparr>) = (Answered (Inl e), w') \<and>
   w_db w' = demo_db\<lparr>faults := bs\<rparr> \<and> w_hub w' = NewHub"
proof -
  let ?w = "demo_world\<lparr>w_db := demo_db\<lparr>faults := [False, False, False, False, False, True]\<rparr>\<rparr>"
  let ?h = "with_auth demo_server demo_credentials (user_handler demo_dep (UAcceptInvite (Some 61)))"
  have "case fst (?h ?w) of Inl _ \<Rightarrow> True | Inr _ \<Rightarrow> False" by code_simp
  then obtain e w' where "?h ?w = (Inl e, w')" by (cases "?h ?w") (auto split: sum.splits)
  then have t: "timeout False ?h ?w = (Answered (Inl e), w')" by (simp add: timeout_def)
  have "\<not> exempt (UAcceptInvite (Some 61))" by simp
  from refused_without_effect [OF this t] show ?thesis using t by (auto simp: demo_world_def)
qed

text \<open>
  C28. Whatever the operation, an account that is not a member of the circle in the path is told
  that the circle does not exist, and nothing changes.
\<close>

theorem nonmember_sees_nothing:
  assumes "faults (w_db w) = []" and "\<forall>m\<in>set (circle_members (w_db w)). \<not> member_is c (rq_user rq) m"
  shows "user_handler dep (UCircle (Some c) op) rq w = (Inl (NotFound ''circle not found''), w)"
  using circle_route_outsider [OF assms] by simp

theorem nonmember_sees_nothing_witness:
  "user_handler demo_dep (UCircle (Some 32) CLatestPings) (demo_request 1 11) demo_world =
    (Inl (NotFound ''circle not found''), demo_world)"
proof (rule nonmember_sees_nothing)
  show "faults (w_db demo_world) = []" by (simp add: demo_world_def)
  show "\<forall>m\<in>set (circle_members (w_db demo_world)). \<not> member_is 32 (rq_user (demo_request 1 11)) m" by code_simp
qed

section \<open>Feeds, links and notifications\<close>

text \<open>
  C29. A ping batch that is accepted stores, for the caller's device, exactly the fixes whose key was not
  stored yet, each in a circle the caller is a member of, and reports the counts; nothing
  stored before is lost or overwritten.
\<close>

theorem batch_stores_new:
  assumes "faults (w_db w) = []" and "handlePingBatch srv rq ids (Inr ps) w = (Inr (st, res), w')"
  shows "\<exists>items rows. prepared srv rq (circle_members (w_db w)) 0 ps = Inr items \<and> st = 200 \<and>
    res = \<lparr>accepted = length ps, stored = length rows, duplicate = length ps - length rows\<rparr> \<and>
    pings (w_db w') = pings (w_db w) @ rows \<and>
    set (map ping_key (pings (w_db w'))) = set (map ping_key (pings (w_db w))) \<union> item_key ` set items \<and>
    (\<forall>r\<in>set rows. is_member (circle_members (w_db w)) (rq_user rq) (Ping_CircleID r) \<and>
       Ping_DeviceID r = rq_device rq \<and> ping_key r \<notin> set (map ping_key (pings (w_db w))))"
  using handlePingBatch_success [OF assms] by blast

definition demo_batch :: "pingItem list" where
  "demo_batch = [\<lparr>item_CircleID = Some 31, item_ClientID = ''n1'', item_Nonce = encodeBlob [1], item_Ciphertext = encodeBlob [2],
      item_CapturedAt = Some (3 * Second), item_TTLSeconds = 0\<rparr>,
    \<lparr>item_CircleID = Some 31, item_ClientID = ''n1'', item_Nonce = encodeBlob [1], item_Ciphertext = encodeBlob [2],
      item_CapturedAt = Some (3 * Second), item_TTLSeconds = 60\<rparr>]"

definition demo_ids :: "nat \<Rightarrow> uuid" where
  "demo_ids n = 1000 + of_nat n"

lemma demo_batch_accepted:
  "\<exists>res w'. handlePingBatch demo_server (demo_request 1 11) demo_ids (Inr demo_batch) demo_world = (Inr (200, res), w') \<and> stored res = 1"
proof -
  let ?r = "handlePingBatch demo_server (demo_request 1 11) demo_ids (Inr demo_batch) demo_world"
  have "case fst ?r of Inr (st, res) \<Rightarrow> st = 200 \<and> stored res = 1 | _ \<Rightarrow> False" by code_simp
  then show ?thesis by (cases ?r) (auto split: sum.splits)
qed

theorem batch_stores_new_witness:
  "\<exists>res w' rows. handlePingBatch demo_server (demo_request 1 11) demo_ids (Inr demo_batch) demo_world = (Inr (200, res), w') \<and>
     pings (w_db w') = pings demo_db @ rows \<and> length rows = 1"
proof -
  from demo_batch_accepted obtain res w' where h: "handlePingBatch demo_server (demo_request 1 11) demo_ids (Inr demo_batch) demo_world
     = (Inr (200, res), w')" "stored res = 1" by blast
  have "faults (w_db demo_world) = []" by (simp add: demo_world_def)
  from batch_stores_new [OF this h(1)] h show ?thesis by (auto simp: demo_world_def)
qed

text \<open>
  Replaying an accepted batch (a client that lost the answer sends it again) is accepted and stores
  nothing; no event is published.
\<close>

lemma batch_replay_harmless:
  assumes "faults (w_db w) = []" and "handlePingBatch srv rq ids (Inr ps) w = (Inr (st, res), w')"
  shows "\<exists>w2. handlePingBatch srv rq ids' (Inr ps) w' =
      (Inr (200, \<lparr>accepted = length ps, stored = 0, duplicate = length ps\<rparr>), w2) \<and>
    pings (w_db w2) = pings (w_db w') \<and> w_hub w2 = w_hub w'"
  by (rule handlePingBatch_replay [OF assms])

lemma batch_replay_harmless_witness:
  "\<exists>res w' w2. handlePingBatch demo_server (demo_request 1 11) demo_ids (Inr demo_batch) demo_world = (Inr (200, res), w') \<and>
     handlePingBatch demo_server (demo_request 1 11) (\<lambda>n. 2000) (Inr demo_batch) w' =
       (Inr (200, \<lparr>accepted = 2, stored = 0, duplicate = 2\<rparr>), w2)"
proof -
  from demo_batch_accepted obtain res w' where h: "handlePingBatch demo_server (demo_request 1 11) demo_ids (Inr demo_batch) demo_world
     = (Inr (200, res), w')" by blast
  have "faults (w_db demo_world) = []" by (simp add: demo_world_def)
  from batch_replay_harmless [OF this h, of "\<lambda>n. 2000"] h show ?thesis by (auto simp: demo_batch_def)
qed

text \<open>
  C30. Places change under optimistic concurrency: an accepted change raises the version by one, and a
  second writer who started from the same version is refused with a conflict, without any
  effect.
\<close>

theorem place_conflict:
  assumes "faults (w_db w) = []"
    and "handleUpdatePlace rq (Some i) (Inr req) m w = (Inr (st, dto), w1)"
    and "Member_CircleID m' = Member_CircleID m" and "place_req_Version req' = place_req_Version req"
    and "\<exists>b. decodeBlob (place_req_Ciphertext req') maxBlobBytes = Inr b"
  shows "st = 200 \<and> place_Version dto = place_req_Version req + 1 \<and>
    handleUpdatePlace rq' (Some i) (Inr req') m' w1 =
      (Inl (Conflict ''place not found or version mismatch; re-sync and retry''), w1)"
  using assms by (rule place_second_writer_refused)

definition demo_edit :: placeReq where
  "demo_edit = \<lparr>place_req_Ciphertext = encodeBlob [9], place_req_Version = 1\<rparr>"

theorem place_conflict_witness:
  "\<exists>dto w1. handleUpdatePlace (demo_request 1 11) (Some 51) (Inr demo_edit) (demo_member 1 ''owner'') demo_world = (Inr (200, dto), w1) \<and>
     place_Version dto = 2 \<and>
     handleUpdatePlace (demo_request 2 12) (Some 51) (Inr demo_edit) (demo_member 2 ''member'') w1 =
       (Inl (Conflict ''place not found or version mismatch; re-sync and retry''), w1)"
proof -
  let ?r = "handleUpdatePlace (demo_request 1 11) (Some 51) (Inr demo_edit) (demo_member 1 ''owner'') demo_world"
  have "case fst ?r of Inr (st, dto) \<Rightarrow> st = 200 | _ \<Rightarrow> False" by code_simp
  then obtain dto w1 where h: "?r = (Inr (200, dto), w1)" by (cases ?r) (auto split: sum.splits)
  have f: "faults (w_db demo_world) = []" by (simp add: demo_world_def)
  have "decodeBlob (place_req_Ciphertext demo_edit) maxBlobBytes = Inr [9]" by code_simp
  then have "\<exists>b. decodeBlob (place_req_Ciphertext demo_edit) maxBlobBytes = Inr b" by blast
  from place_conflict [OF f h _ refl this, of "demo_member 2 ''member''" "demo_request 2 12"] h show ?thesis
    by (auto simp: demo_member_def demo_edit_def)
qed

text \<open>
  C31. A share link is bound to the first device that opens it. After an answer was given, every request
  without that device's cookie is refused (403 while the link lives, 410 afterwards) and
  changes nothing, whatever token the server would draw for it.
\<close>

theorem share_one_device:
  assumes "db_ok (w_db w)" and "faults (w_db w) = []"
    and "handleGetShare srv now tok cookie (Some i) w = (Inr (st, v), w1)"
  shows "\<exists>c. (view_SetCookie v = Some c \<or> view_SetCookie v = None \<and> cookie = Some c) \<and>
    (\<forall>cookie' now' tok'. (\<forall>c'. cookie' = Some c' \<longrightarrow> HashTokenBytes (srv_auth srv) c' \<noteq> HashTokenBytes (srv_auth srv) c) \<longrightarrow>
      (\<exists>e. handleGetShare srv now' tok' cookie' (Some i) w1 = (Inl e, w1) \<and> status_of e \<in> {403, 410}))"
proof -
  from share_first_viewer [OF assms] obtain s c where s: "List.find (share_is i) (share_sessions (w_db w1)) = Some s"
    "Share_ViewerTokenHash s = Some (HashTokenBytes (srv_auth srv) c)" "faults (w_db w1) = []"
    and c: "view_SetCookie v = Some c \<or> view_SetCookie v = None \<and> cookie = Some c" by blast
  show ?thesis using share_refused_elsewhere [OF s(3,1,2)] c by (auto simp: other_device_def)
qed

theorem share_one_device_witness:
  "\<exists>v w1 e. handleGetShare demo_server Second (Some ''view1'') None (Some 71) demo_world = (Inr (200, v), w1) \<and>
     handleGetShare demo_server (2 * Second) (Some ''view2'') None (Some 71) w1 = (Inl e, w1) \<and> status_of e \<in> {403, 410}"
proof -
  let ?r = "handleGetShare demo_server Second (Some ''view1'') None (Some 71) demo_world"
  have "case fst ?r of Inr (st, _) \<Rightarrow> st = 200 | _ \<Rightarrow> False" by code_simp
  then obtain v w1 where h: "?r = (Inr (200, v), w1)" by (cases ?r) (auto split: sum.splits)
  have "db_ok (w_db demo_world)" "faults (w_db demo_world) = []" by (simp_all add: demo_world_def demo_db_ok)
  from share_one_device [OF this h] h show ?thesis by auto
qed

text \<open>
  A revoked share link is dead at once: every later view is answered 410 and every later position
  of its owner is refused (404 for anyone else), and nothing changes.
\<close>

lemma revoked_link_dead:
  assumes "db_ok (w_db w)" and "faults (w_db w) = []" and "handleRevokeShare rq (Some i) w = (Inr x, w1)"
  shows "handleGetShare srv now tok cookie (Some i) w1 = (Inl (Gone shareGoneMsg), w1) \<and>
    (\<exists>e. handleSharePing rq' (Some i) body w1 = (Inl e, w1) \<and> status_of e \<in> {404, 410})"
  using share_revoked_is_gone [OF assms] by blast

text \<open>
  Mute settings read back as they were saved, duplicates removed, in the same order.
\<close>

lemma mutes_roundtrip:
  assumes "faults (w_db w) = []" and "handleSetMutes rq (Inr req) m w = (Inr (st, dto), w1)"
  shows "handleGetMutes m w1 = (Inr (200, dto), w1) \<and> CircleMuted dto = CircleMuted req \<and>
    set (MutedUserIDs dto) = set (MutedUserIDs req) \<and> distinct (MutedUserIDs dto)"
proof -
  from handleSetMutes_run [OF assms] obtain ids where "dto = \<lparr>CircleMuted = CircleMuted req, MutedUserIDs = ids\<rparr>"
    "distinct ids" "set ids = set (MutedUserIDs req)" by blast
  with mutes_roundtrip_run [OF assms] show ?thesis by simp
qed

definition demo_mutes :: mutesDTO where
  "demo_mutes = \<lparr>CircleMuted = False, MutedUserIDs = [1, 1]\<rparr>"

lemma demo_mutes_saved:
  "\<exists>dto w1. handleSetMutes (demo_request 2 12) (Inr demo_mutes) (demo_member 2 ''member'') demo_world = (Inr (200, dto), w1)"
proof -
  let ?r = "handleSetMutes (demo_request 2 12) (Inr demo_mutes) (demo_member 2 ''member'') demo_world"
  have "case fst ?r of Inr (st, _) \<Rightarrow> st = 200 | _ \<Rightarrow> False" by code_simp
  then show ?thesis by (cases ?r) (auto split: sum.splits)
qed

text \<open>
  C32. Somebody who muted the circle, or the sender, is not among the recipients of that sender's
  notifications in the circle.
\<close>

theorem muted_not_notified:
  assumes "faults (w_db w) = []" and "handleSetMutes rq (Inr req) m w = (Inr (st, dto), w1)"
    and "CircleMuted req \<or> sender \<in> set (MutedUserIDs req)"
    and "ListCirclePushSubscriptions (Member_CircleID m) sender (w_db w1) = (Inr subs, d)" and "p \<in> set subs"
  shows "Push_UserID p \<noteq> Member_UserID m"
  using assms by (rule muted_gets_no_push)

theorem muted_not_notified_witness:
  "\<exists>dto w1 subs. handleSetMutes (demo_request 2 12) (Inr demo_mutes) (demo_member 2 ''member'') demo_world = (Inr (200, dto), w1) \<and>
     fst (ListCirclePushSubscriptions 31 1 (w_db w1)) = Inr subs \<and> (\<forall>p\<in>set subs. Push_UserID p \<noteq> 2)"
proof -
  from demo_mutes_saved obtain dto w1 where h: "handleSetMutes (demo_request 2 12) (Inr demo_mutes) (demo_member 2 ''member'') demo_world
     = (Inr (200, dto), w1)" by blast
  have f: "faults (w_db demo_world) = []" by (simp add: demo_world_def)
  from handleSetMutes_run [OF f h] have "faults (w_db w1) = []" by (auto simp: demo_world_def)
  then obtain subs d where s: "ListCirclePushSubscriptions 31 1 (w_db w1) = (Inr subs, d)"
    by (auto simp: ListCirclePushSubscriptions_def)
  have "CircleMuted demo_mutes \<or> 1 \<in> set (MutedUserIDs demo_mutes)" by (simp add: demo_mutes_def)
  from muted_not_notified [OF f h this] s h show ?thesis by (auto simp: demo_member_def)
qed

section \<open>Membership\<close>

text \<open>
  C33. Key envelopes are distributed by the owner only, and only to devices of the circle's members: after
  an accepted request every named recipient has an unread envelope of the circle, and every row
  that was not there before is addressed to a device of a member and names the
  caller's device as its sender.
\<close>

theorem envelopes_reach_members_only:
  assumes "faults (w_db w) = []"
    and "handlePostKeyEnvelopes srv rq ids (Inr (Some c, es)) w = (Inr (st, n), w')"
  shows "st = 201 \<and> n = length es \<and>
    (\<exists>m\<in>set (circle_members (w_db w)). member_is c (rq_user rq) m \<and> Member_Role m = ''owner'') \<and>
    (\<forall>x\<in>set es. \<exists>r. kei_Recipient x = Some r \<and> r \<in> waiting c (w_db w')) \<and>
    (\<forall>e\<in>set (key_envelopes (w_db w')). e \<in> set (key_envelopes (w_db w)) \<or>
      Envelope_CircleID e = c \<and> Envelope_SenderDeviceID e = Some (rq_device rq) \<and>
      (\<exists>v\<in>set (devices (w_db w)). Device_ID v = Envelope_RecipientDeviceID e \<and>
        is_member (circle_members (w_db w)) (Device_UserID v) c))"
  using assms by (rule handlePostKeyEnvelopes_success)

definition demo_envelopes :: "keyEnvelopeItem list" where
  "demo_envelopes = [\<lparr>kei_Recipient = Some 12, kei_Ciphertext = encodeBlob [5], kei_KeyEpoch = 0\<rparr>]"

theorem envelopes_reach_members_only_witness:
  "\<exists>w'. handlePostKeyEnvelopes demo_server (demo_request 1 11) demo_ids (Inr (Some 31, demo_envelopes)) demo_world = (Inr (201, 1), w') \<and>
     12 \<in> waiting 31 (w_db w')"
proof -
  let ?r = "handlePostKeyEnvelopes demo_server (demo_request 1 11) demo_ids (Inr (Some 31, demo_envelopes)) demo_world"
  have "fst ?r = Inr (201, 1)" by code_simp
  then obtain w' where h: "?r = (Inr (201, 1), w')" by (cases ?r) auto
  have "faults (w_db demo_world) = []" by (simp add: demo_world_def)
  from envelopes_reach_members_only [OF this h] h show ?thesis by (auto simp: demo_envelopes_def)
qed

text \<open>
  C34. On every run of the server no invitation is used more often than it allows.
\<close>

theorem invite_budget_kept:
  "\<forall>v\<in>set (invites (w_db (fold (step dep) acts initial))). 0 \<le> Invite_Uses v \<and> Invite_Uses v \<le> Invite_MaxUses v"
proof -
  have "world_inv budget initial" by (simp add: world_inv_def initial_def budget_def empty_db_def hub_inv_NewHub)
  from budget_run.run_inv [OF this] show ?thesis by (simp add: world_inv_def budget_def)
qed

definition demo_invite_acts :: "action list" where
  "demo_invite_acts = demo_acts @
    [AUser (demo_credentials\<lparr>cred_header := ''Bearer a2''\<rparr>) (UCircle (Some 33) (CCreateInvite 62
       (Inr \<lparr>ci_Role = [], ci_MaxUses = 0, ci_TTLSeconds = 0\<rparr>)))]"

theorem invite_budget_kept_witness:
  "\<exists>v\<in>set (invites (w_db (fold (step demo_dep) demo_invite_acts initial))). Invite_Uses v \<le> Invite_MaxUses v"
proof -
  have "map Invite_ID (invites (w_db (fold (step demo_dep) demo_invite_acts initial))) = [62]" by code_simp
  then obtain v where "v \<in> set (invites (w_db (fold (step demo_dep) demo_invite_acts initial)))"
    by (cases "invites (w_db (fold (step demo_dep) demo_invite_acts initial))") auto
  with invite_budget_kept [of demo_dep demo_invite_acts] show ?thesis by blast
qed

text \<open>
  Whoever joins by an invitation was not a member before, is one afterwards, with the role the invitation
  grants, and the invitation was active, unexpired and not used up; it is one use closer to
  its limit.
\<close>

lemma accept_joins:
  assumes "db_ok (w_db w)" and "faults (w_db w) = []"
    and "handleAcceptInvite srv rq (Some i) w = (Inr (st, Joined c role), w')"
  shows "\<exists>v\<in>set (invites (w_db w)). Invite_ID v = i \<and> Invite_CircleID v = c \<and> Invite_Role v = role \<and>
    Invite_Status v = ''active'' \<and> Invite_ExpiresAt v > tv (rq_now rq) \<and> Invite_Uses v < Invite_MaxUses v \<and>
    v\<lparr>Invite_Uses := Invite_Uses v + 1\<rparr> \<in> set (invites (w_db w')) \<and>
    \<not> is_member (circle_members (w_db w)) (rq_user rq) c \<and> is_member (circle_members (w_db w')) (rq_user rq) c"
  using assms by (rule handleAcceptInvite_joined)

lemma accept_joins_witness:
  "\<exists>w'. handleAcceptInvite demo_server (demo_request 1 11) (Some 61) demo_world = (Inr (200, Joined 32 ''member''), w') \<and>
     is_member (circle_members (w_db w')) 1 32"
proof -
  let ?r = "handleAcceptInvite demo_server (demo_request 1 11) (Some 61) demo_world"
  have "fst ?r = Inr (200, Joined 32 ''member'')" by code_simp
  then obtain w' where h: "?r = (Inr (200, Joined 32 ''member''), w')" by (cases ?r) auto
  have "db_ok (w_db demo_world)" "faults (w_db demo_world) = []" by (simp_all add: demo_world_def demo_db_ok)
  from accept_joins [OF this h] h show ?thesis by (auto simp: demo_request_def rq_user_def)
qed

text \<open>
  C35. Removing a member takes effect at once: the next request of that account on the circle, whatever it
  asks for, is answered as if the circle did not exist, and the hub has the order to drop its
  subscriptions (unless 64 such orders are already waiting).
\<close>

theorem removed_member_is_out:
  assumes "faults (w_db w) = []" and "handleRemoveMember srv rq (Some t) m w = (Inr x, w')" and "rq_user rq' = t"
  shows "Member_Role m = ''owner'' \<and>
    user_handler dep (UCircle (Some (Member_CircleID m)) op) rq' w' = (Inl (NotFound ''circle not found''), w') \<and>
    (length (hub_evict (w_hub w)) < 64 \<longrightarrow> hub_evict (w_hub w') = hub_evict (w_hub w) @
      [\<lparr>evict_circleID = Member_CircleID m, evict_userID = t, evict_allUsers = False\<rparr>])"
proof -
  note out = handleRemoveMember_out [OF assms(1,2)]
  have "circle_route rq' (Some (Member_CircleID m)) h w' = (Inl (NotFound ''circle not found''), w')" for h :: "CircleMember \<Rightarrow> unit handler"
    by (rule circle_route_outsider [OF out(2)]) (use out(1) assms(3) in simp)
  then show ?thesis using out by (auto simp: EvictUser_def Publish_def evict_cap_def)
qed

theorem removed_member_is_out_witness:
  "\<exists>x w'. handleRemoveMember demo_server (demo_request 1 11) (Some 2) (demo_member 1 ''owner'') demo_world = (Inr x, w') \<and>
     user_handler demo_dep (UCircle (Some 31) CLatestPings) (demo_request 2 12) w' = (Inl (NotFound ''circle not found''), w')"
proof -
  let ?r = "handleRemoveMember demo_server (demo_request 1 11) (Some 2) (demo_member 1 ''owner'') demo_world"
  have "case fst ?r of Inr _ \<Rightarrow> True | _ \<Rightarrow> False" by code_simp
  then obtain x w' where h: "?r = (Inr x, w')" by (cases ?r) (auto split: sum.splits)
  have f: "faults (w_db demo_world) = []" by (simp add: demo_world_def)
  have u: "rq_user (demo_request 2 12) = 2" by (simp add: demo_request_def rq_user_def)
  from removed_member_is_out [OF f h u] h show ?thesis by (auto simp: demo_member_def)
qed

text \<open>
  C36. Deleting a circle (only its owner can) removes every row that belongs to it from every table,
  leaves every other circle as it is, and tells the hub to drop its subscriptions.
\<close>

theorem deleted_circle_leaves_nothing:
  assumes "faults (w_db w) = []" and "handleDeleteCircle m w = (Inr x, w')"
  shows "Member_Role m = ''owner'' \<and> circle_part {} (Member_CircleID m) (w_db w') = ([], [], [], [], [], [], [], []) \<and>
    (\<forall>c. c \<noteq> Member_CircleID m \<longrightarrow> circle_part {} c (w_db w') = circle_part {} c (w_db w)) \<and>
    w_hub w' = EvictCircle (Member_CircleID m) (w_hub w)"
  using handleDeleteCircle_empty [OF assms] by blast

theorem deleted_circle_leaves_nothing_witness:
  "\<exists>x w'. handleDeleteCircle (demo_member 1 ''owner'') demo_world = (Inr x, w') \<and>
     circle_part {} 31 (w_db w') = ([], [], [], [], [], [], [], [])"
proof -
  let ?r = "handleDeleteCircle (demo_member 1 ''owner'') demo_world"
  have "case fst ?r of Inr _ \<Rightarrow> True | _ \<Rightarrow> False" by code_simp
  then obtain x w' where h: "?r = (Inr x, w')" by (cases ?r) (auto split: sum.splits)
  have "faults (w_db demo_world) = []" by (simp add: demo_world_def)
  from deleted_circle_leaves_nothing [OF this h] h show ?thesis by (auto simp: demo_member_def)
qed

section \<open>Reads and bounds\<close>

text \<open>
  The latest positions of a circle, specified without ordering rows: the answer has one entry for each
  device with a stored fix in the circle, in the order of the device ids, and each entry is
  a stored fix of that device in that circle that no other one is newer than.
\<close>

lemma latest_positions:
  assumes "faults (w_db w) = []"
  shows "\<exists>rows. handleLatestPings m w = (Inr (200, map pingToDTO rows), w) \<and>
    map Ping_DeviceID rows = sorted_list_of_set (Ping_DeviceID ` {p \<in> set (pings (w_db w)). Ping_CircleID p = Member_CircleID m}) \<and>
    (\<forall>p\<in>set rows. p \<in> set (pings (w_db w)) \<and> Ping_CircleID p = Member_CircleID m \<and>
      (\<forall>q\<in>set (pings (w_db w)). Ping_CircleID q = Member_CircleID m \<and> Ping_DeviceID q = Ping_DeviceID p \<longrightarrow>
        Ping_CapturedAt q \<le> Ping_CapturedAt p))"
proof (intro exI [of _ "latest_rows (w_db w) (Member_CircleID m)"] conjI ballI impI)
  show "handleLatestPings m w = (Inr (200, map pingToDTO (latest_rows (w_db w) (Member_CircleID m))), w)"
    using assms by (simp add: handleLatestPings_def LatestPingsForCircle_eq handler_run_defs)
qed (auto simp: latest_rows_devices dest: latest_rows_newest)

lemma latest_positions_witness:
  "\<exists>rows. handleLatestPings (demo_member 1 ''owner'') demo_world = (Inr (200, map pingToDTO rows), demo_world) \<and>
     (\<forall>p\<in>set rows. p \<in> set (pings demo_db))"
proof -
  have "faults (w_db demo_world) = []" by (simp add: demo_world_def)
  from latest_positions [OF this, of "demo_member 1 ''owner''"] show ?thesis by (auto simp: demo_world_def)
qed

text \<open>
  Whatever lifetime a client asks for, a share link lives between one minute and one hour from its creation.
\<close>

lemma share_lifetime_bounded:
  assumes "faults (w_db w) = []" and "handleCreateShare rq i body w = (Inr (st, (j, ex)), w')"
  shows "st = 201 \<and> j = i \<and> tv (rq_now rq + 60 * Second) \<le> ex \<and> ex \<le> tv (rq_now rq + 60 * Minute)"
proof -
  from assms obtain n where "st = 201" "j = i" "ex = tv (rq_now rq + clampShareTTL n)"
    by (auto simp: handleCreateShare_def handler_run_defs CreateShareSession_def Let_def split: option.splits sum.splits if_splits)
  then show ?thesis using clampShareTTL_bounds [of n] by (auto simp: minShareTTL_def maxShareTTL_def intro: tv_mono)
qed

text \<open>
  Changing the settings of a circle is not atomic: a request with a valid name and a retention outside
  the allowed range is answered with 400, and the new name is stored all the same.
\<close>

lemma patch_applies_half:
  assumes "faults (w_db w) = []" and "Member_Role m = ''owner''"
    and "List.find (circle_is (Member_CircleID m)) (circles (w_db w)) = Some x"
    and "in_i32 (Circle_RetentionDays x)" and "in_i32 (Circle_KeyEpoch x)"
    and "decodeBlob s maxBlobBytes = Inr b" and "\<not> validRetention srv days"
  shows "handlePatchCircle srv (Inr \<lparr>pc_NameEnc = Some s, pc_RetentionDays = Some days\<rparr>) m w =
    (Inl (BadRequest ''retention_days out of allowed range''),
     w\<lparr>w_db := (w_db w)\<lparr>circles := update_where (circle_is (Member_CircleID m)) (\<lambda>c. c\<lparr>Circle_NameEnc := Some b\<rparr>) (circles (w_db w))\<rparr>\<rparr>)"
  using assms by (simp add: handlePatchCircle_def requireOwner_def decoded_def blob_def handler_run_defs UpdateCircleName_def
      update_circle_def scanCircle_def)

lemma patch_applies_half_witness:
  "\<exists>w'. handlePatchCircle demo_server (Inr \<lparr>pc_NameEnc = Some (encodeBlob [9]), pc_RetentionDays = Some 0\<rparr>)
      (demo_member 1 ''owner'') demo_world = (Inl (BadRequest ''retention_days out of allowed range''), w') \<and>
    map Circle_NameEnc (circles (w_db w')) = [Some [9], None]"
proof -
  have f: "faults (w_db demo_world) = []" by (simp add: demo_world_def)
  have x: "List.find (circle_is (Member_CircleID (demo_member 1 ''owner''))) (circles (w_db demo_world)) = Some demo_circle"
    by (simp add: demo_world_def demo_db_def demo_member_def demo_circle_def circle_is_def)
  have r: "in_i32 (Circle_RetentionDays demo_circle)" "in_i32 (Circle_KeyEpoch demo_circle)"
    "decodeBlob (encodeBlob [9]) maxBlobBytes = Inr [9]" "\<not> validRetention demo_server 0" by code_simp+
  have o: "Member_Role (demo_member 1 ''owner'') = ''owner''" by (simp add: demo_member_def)
  show ?thesis unfolding patch_applies_half [OF f o x r]
    by (simp add: demo_world_def demo_db_def demo_circle_def demo_member_def circle_is_def)
qed

text \<open>
  The lifetime of an invitation wraps around: seconds are multiplied to nanoseconds in 64 bits before they
  are compared with the 30 days, so a request for 18446744074 seconds (584 years) is not
  refused, but makes an invitation that expires after 0.29 seconds.
\<close>

lemma invite_lifetime_wraps:
  assumes "faults (w_db w) = []" and "Member_Role m \<noteq> ''guardian''"
    and "Member_CircleID m \<in> circle_ids (w_db w)" and "Member_UserID m \<in> user_ids (w_db w)"
    and "fresh_in Invite_ID i (invites (w_db w))"
  shows "\<exists>v w'. handleCreateInvite srv rq i (Inr \<lparr>ci_Role = [], ci_MaxUses = 0, ci_TTLSeconds = 18446744074\<rparr>) m w = (Inr (201, v), w') \<and>
    Invite_ExpiresAt v = tv (rq_now rq + 290448384)"
proof -
  have "i64 (18446744074 * Second) = 290448384" by (simp add: i64_def duration_defs)
  then show ?thesis using assms
    by (simp add: handleCreateInvite_def decoded_def handler_run_defs CreateInvite_def Let_def duration_defs audit_def split: prod.split)
qed

lemma invite_lifetime_wraps_witness:
  "\<exists>v w'. handleCreateInvite demo_server (demo_request 1 11) 63 (Inr \<lparr>ci_Role = [], ci_MaxUses = 0, ci_TTLSeconds = 18446744074\<rparr>)
      (demo_member 1 ''owner'') demo_world = (Inr (201, v), w') \<and> Invite_ExpiresAt v = tv (5 * Second + 290448384)"
proof -
  have f: "faults (w_db demo_world) = []" by (simp add: demo_world_def)
  have m: "Member_Role (demo_member 1 ''owner'') \<noteq> ''guardian''" by (simp add: demo_member_def)
  have d: "Member_CircleID (demo_member 1 ''owner'') \<in> circle_ids (w_db demo_world)"
    "Member_UserID (demo_member 1 ''owner'') \<in> user_ids (w_db demo_world)" "fresh_in Invite_ID 63 (invites (w_db demo_world))"
    by code_simp+
  from invite_lifetime_wraps [OF f m d, of demo_server "demo_request 1 11"] show ?thesis by (simp add: demo_request_def)
qed

text \<open>
  A login with an empty password tells whether the account exists: for an unknown address it is refused
  like any wrong password (401), for a known one it ends in an internal error (500) that is not
  counted as an attempt.
\<close>

lemma empty_password_oracle:
  assumes "faults d = []" and "In_Password inp = []"
    and "validatePlatform (In_Platform inp) = None" and "validatePubkey (In_Pubkey inp) = None"
    and "checkLockout s now (normalizeEmail s (In_Email inp)) (In_IP inp) d = (Inr lock, d)" and "\<not> Locked lock"
  shows "if \<exists>u\<in>set (users d). email_is (normalizeEmail s (In_Email inp)) u
    then Login s now ent inp d = (Inl (CryptoErr ErrEmptyPassword), d) \<and> writeAuthError (CryptoErr ErrEmptyPassword) = Internal
    else fst (Login s now ent inp d) = Inl ErrInvalidCredentials \<and>
      writeAuthError ErrInvalidCredentials = Unauthorized ''invalid email or password''"
proof (cases "List.find (email_is (normalizeEmail s (In_Email inp))) (users d)")
  case None
  then have "\<not> (\<exists>u\<in>set (users d). email_is (normalizeEmail s (In_Email inp)) u)" by (simp add: find_None_all)
  with None assms show ?thesis
    by (simp add: Login_def auth_run_defs GetUserByEmail_def IsNotFound_def Let_def)
next
  case (Some u)
  then show ?thesis using assms find_Some_in [OF Some]
    by (auto simp: Login_def auth_run_defs GetUserByEmail_def VerifyPassword_def Let_def)
qed

lemma empty_password_oracle_witness:
  "Login demo_service Second demo_entropy (demo_login []) demo_db = (Inl (CryptoErr ErrEmptyPassword), demo_db)"
proof -
  have l: "checkLockout demo_service Second (normalizeEmail demo_service (In_Email (demo_login []))) (In_IP (demo_login [])) demo_db
      = (Inr not_locked, demo_db)"
    by (simp add: checkLockout_def auth_run_defs CountRecentFailuresByEmail_def CountRecentFailuresByIP_def demo_db_def empty_db_def
        demo_service_def DefaultLockout_def Let_def)
  have v: "In_Password (demo_login []) = []" "validatePlatform (In_Platform (demo_login [])) = None"
    "validatePubkey (In_Pubkey (demo_login [])) = None" "\<not> Locked not_locked"
    "\<exists>u\<in>set (users demo_db). email_is (normalizeEmail demo_service (In_Email (demo_login []))) u"
    by code_simp+
  from empty_password_oracle [OF demo_db_faults v(1-3) l v(4), of demo_entropy] v(5) show ?thesis by auto
qed

section \<open>Operation\<close>

text \<open>
  C20. A server that starts was wired from one well-formed configuration: every limit is in its range,
  outside development the origin is https and cookies over plain http are never marked secure, the
  pepper has at least 16 bytes, each push channel is on exactly when it is configured with usable
  keys, the address log setting of the session service and of the audit log agree, the retention
  pass deletes by the same maximum the API enforces, and the store was opened and is not closed.
\<close>

theorem start_well_formed:
  assumes "start lib plat works fdiv getenv = (Inr s, calls)"
  shows "LoadFrom lib getenv = Inr (boot_cfg s) \<and> config_ok (boot_cfg s) \<and>
    push_fcm (boot_push s) = FCMEnabled (boot_cfg s) \<and> push_web (boot_push s) = PushEnabled (boot_cfg s) \<and>
    svc_storeIP (srv_auth (boot_server s)) = srv_storeIP (boot_server s) \<and>
    svc_hmac (srv_auth (boot_server s)) = plat_hmac plat (SessionPepper (boot_cfg s)) \<and>
    0 < wk_pingRetentionHours (boot_worker s) \<and>
    srv_DefaultRetentionDays (boot_server s) \<le> srv_MaxRetentionDays (boot_server s) \<and>
    srv_MaxRetentionDays (boot_server s) = wk_maxRetentionDays (boot_worker s) \<and>
    (\<exists>c\<in>set calls. opens_store c \<and> works c) \<and> CClose \<notin> set calls"
  using start_wired [OF assms] by blast

theorem start_well_formed_witness:
  "\<exists>s calls. demo_start = (Inr s, calls) \<and> config_ok (boot_cfg s) \<and> push_fcm (boot_push s) = FCMEnabled (boot_cfg s) \<and>
     srv_MaxRetentionDays (boot_server s) = wk_maxRetentionDays (boot_worker s) \<and> CClose \<notin> set calls"
proof -
  obtain s calls where s: "demo_start = (Inr s, calls)" using demo_started by blast
  from start_well_formed [OF s [unfolded demo_start_def]] s show ?thesis by blast
qed

text \<open>
  C21. Every limiter of a started server, with its janitor dropping idle buckets at any time, answers any
  sequence of requests under any keys exactly like a limiter that keeps one bucket per key for ever.
  The hypothesis on the bucket is that of its documentation: idle for twice the time its burst takes
  to refill, it answers like a new one.
\<close>

theorem limiters_refine:
  assumes "start lib plat works fdiv getenv = (Inr s, calls)" and "documented ops fdiv"
    and "k \<in> set (all_limiters (boot_limiters s))" and "sorted (map fst is)"
  shows "outputs (limiter_step ops) is k = outputs (spec_step ops) is (\<lambda>_. NewLimiter ops (rate k) (burst k))"
proof -
  have "limits_ok (boot_cfg s)" and l: "boot_limiters s = server_limiters fdiv (boot_cfg s)"
    using start_wired [OF assms(1)] by (simp_all add: config_ok_def)
  note shape = server_limiter_shape [OF this(1) assms(2) assms(3) [unfolded l]]
  show ?thesis using limiter_outputs [OF shape [THEN conjunct2] assms(4)] shape by simp
qed

definition demo_requests :: "(gotime \<times> limiter_op) list" where
  "demo_requests = [(0, OAllow ''ip:1.2.3.4''), (Second, OAllow ''ip:5.6.7.8''), (Hour, OCleanup), (Hour, OAllow ''ip:1.2.3.4'')]"

theorem limiters_refine_witness:
  "\<exists>s calls. demo_start = (Inr s, calls) \<and>
     outputs (limiter_step exact_bucket) demo_requests (authLimiter (boot_limiters s)) =
     outputs (spec_step exact_bucket) demo_requests
       (\<lambda>_. NewLimiter exact_bucket (rate (authLimiter (boot_limiters s))) (burst (authLimiter (boot_limiters s))))"
proof -
  obtain s calls where s: "demo_start = (Inr s, calls)" using demo_started by blast
  have "authLimiter (boot_limiters s) \<in> set (all_limiters (boot_limiters s))" by (simp add: all_limiters_def)
  moreover have "sorted (map fst demo_requests)" by (simp add: demo_requests_def duration_defs)
  ultimately show ?thesis using limiters_refine [OF s [unfolded demo_start_def] exact_documented] s by blast
qed

text \<open>
  C24. An address whose budget is used up is refused whatever headers the client sends, provided proxy headers are
  trusted only behind a proxy that replaces X-Real-IP, as the deployed one does, or that removes it
  and appends the peer to X-Forwarded-For: the limiter is asked under the address of the peer, and when it
  says no, the answer is 429 and the handler does not run. (Where headers are trusted without such a
  proxy, the client chooses the address it is counted under.)
\<close>

theorem exhausted_address_refused:
  assumes "plain_addr peer" and "\<not> fst (allow (''ip:'' @ peer) l)" and "arrives trust peer sent r"
  shows "RealIP trust (rateLimitByIP allow secs h) r (rs, l, w) =
    (WriteError 429 ''rate_limited'' ''rate limit exceeded, slow down'' (Set ''Retry-After'' (Itoa secs) rs),
     snd (allow (''ip:'' @ peer) l), w)"
proof -
  have "ByIP (WithRealIP (ClientIP r trust) r) = ''ip:'' @ peer"
    using ClientIP_arrives [OF assms(1,3)] by (simp add: ByIP_def RealIPFrom_def WithRealIP_def)
  with assms(2) show ?thesis unfolding RealIP_def rateLimitByIP_def
    by (simp add: RateLimit_refused)
qed

definition forged :: http_req where
  "forged = \<lparr>req_method = ''POST'', req_headers = [(''X-Real-Ip'', ''7.7.7.7''), (''X-Forwarded-For'', ''6.6.6.6, 9.9.9.9'')],
     RemoteAddr = ''1.2.3.4:5'', ctx_auth = None, ctx_reqid = [], ctx_realip = []\<rparr>"

theorem exhausted_address_refused_witness:
  "map (\<lambda>proxy. resp_status (fst (RealIP True (rateLimitByIP (\<lambda>key l. (key \<noteq> ''ip:1.2.3.4'', l)) 60 (\<lambda>r s. s))
       (proxy ''1.2.3.4'' ''10.0.0.1:443'' forged) (no_response, (), ())))) [reverse_proxy, appending_proxy] =
   [Some 429, Some 429]"
proof -
  have peer: "plain_addr ''1.2.3.4''" by (simp add: plain_addr_def graphic_def)
  have "arrives True ''1.2.3.4'' forged (reverse_proxy ''1.2.3.4'' ''10.0.0.1:443'' forged)"
    "arrives True ''1.2.3.4'' forged (appending_proxy ''1.2.3.4'' ''10.0.0.1:443'' forged)"
    by (simp_all add: arrives_def reverse_proxy_def appending_proxy_def Let_def)
  then show ?thesis
    using exhausted_address_refused [OF peer, of "\<lambda>key l. (key \<noteq> ''ip:1.2.3.4'', l)" "()" True forged _ 60 "\<lambda>r s. s" no_response "()"]
    by (simp add: WriteError_def WriteHeader_def Set_def no_response_def)
qed

text \<open>
  C22. The text encoding of instants in SQLite keeps their order: for instants of the years 0 to
  9999 the comparison of the texts, which is what the WHERE clauses compute, is the comparison of
  the instants in milliseconds, and reading a stored text gives the instant back to the millisecond.
\<close>

theorem time_text_faithful:
  assumes "in_range (tv t)" and "in_range (tv u)"
  shows "(text_less (fmtTime t) (fmtTime u) \<longleftrightarrow> tv t < tv u) \<and> parseTime slow (fmtTime t) = Some (ns (tv t))"
  using fmtTime_order [OF assms] parseTime_fmtTime [OF assms(1)] by blast

theorem time_text_faithful_witness:
  "text_less (fmtTime 0) (fmtTime (1704067200 * Second)) \<and> parseTime (\<lambda>_. None) (fmtTime 0) = Some 0"
proof -
  have r: "in_range (tv 0)" "in_range (tv (1704067200 * Second))" by code_simp+
  have "tv 0 < tv (1704067200 * Second)" and "ns (tv 0) = 0" by code_simp+
  then show ?thesis using time_text_faithful [OF r, of "\<lambda>_. None"] by metis
qed

text \<open>
  C37. The environment the launcher composes is one the server accepts. The operator's environment
  may hold anything but the sixteen optional settings of the server listed in optional_vars, which
  would be inherited (AUL_DB_BACKEND among them), a detected origin is an https one with a plain host, the pepper
  has its minimal length, and the data directory is neither the root nor begins with two slashes.
  Then the server starts on the SQLite file of the data directory with the provisioned pepper and the resolved origin.
\<close>

theorem launched_server_boots:
  assumes "resolveOrigin lib opts detect = Inr res" and "url_law lib" and "lower_law lib" and "0 \<le> Port opts"
    and "\<forall>fr. detect = Some fr \<longrightarrow> (\<exists>h. plain_host h \<and> fr_Origin fr = ''https://'' @ h)"
    and "minPepperBytes \<le> length pepper" and "\<not> HasPrefix dataDir ''/''  \<or> \<not> HasPrefix (tl dataDir) ''/'' \<and> dataDir \<noteq> ''/''"
    and "leaves_unset base"
  shows "\<exists>c. LoadFrom lib (Getenv (composeEnv base res pepper (dataDir @ ''/aul.db''))) = Inr c \<and> config_ok c \<and>
    Config_DBBackend c = BackendSQLite \<and> SQLitePath c = dataDir @ ''/aul.db'' \<and> SessionPepper c = pepper \<and>
    (\<exists>u. PublicOrigin c = Some u \<and> lib_Parse lib (res_Origin res) = Some u)"
proof -
  have "\<not> HasPrefix (dataDir @ ''/aul.db'') ''//''" using assms(7)
    by (cases dataDir rule: remdups_adj.cases) (auto simp: HasPrefix_def)
  from launcher_boots [OF assms(1-4) _ assms(6) refl this assms(8)] assms(5) show ?thesis
    by (auto split: option.splits)
qed

theorem launched_server_boots_witness:
  "\<exists>c. LoadFrom demo_lib (Getenv demo_environment) = Inr c \<and> config_ok c \<and> Config_DBBackend c = BackendSQLite \<and>
     SQLitePath c = ''/d/aul.db'' \<and> SessionPepper c = demo_pepper"
proof -
  have "0 \<le> Port demo_opts" "minPepperBytes \<le> length demo_pepper"
    by (simp_all add: demo_opts_def demo_pepper_def minPepperBytes_def)
  then show ?thesis
    using launched_server_boots [OF demo_resolves demo_url demo_lower _ _ _ _ demo_leaves_unset, of demo_pepper "''/d''"]
    unfolding demo_environment_def by (auto simp: HasPrefix_def)
qed

text \<open>
  C38. The supervisor ends with the first attempt at which the context is cancelled or the server exits
  cleanly, with that attempt's verdict, and supervises on as long as there was none. Every delay is
  between the minimum and the maximum, and while the server keeps crashing without a stable run the
  delays double up to the maximum.
\<close>

theorem supervisor_ends:
  assumes "cap_ok s"
  shows "fst (sup_run s as) = (case List.find (\<lambda>a. ends a \<noteq> None) as of None \<Rightarrow> None | Some a \<Rightarrow> ends a) \<and>
    list_all (\<lambda>d. minBackoff s \<le> d \<and> d \<le> maxBackoff s) (snd (sup_run s as)) \<and>
    (list_all (crash s) as \<longrightarrow>
      snd (sup_run s as) = map (\<lambda>k. min (maxBackoff s) (minBackoff s * 2 ^ k)) [0..<length as])"
proof -
  have "minBackoff s \<le> maxBackoff s" using assms by (simp add: cap_ok_def)
  then show ?thesis unfolding sup_run_def
    using sup_loop_result sup_loop_delays [OF assms order_refl] sup_loop_crashes [OF assms order_refl] by simp
qed

theorem supervisor_ends_witness:
  "fst (sup_run default_supervisor [NoStart True, Exited False False Second True, Exited True False Hour True, Cancelled])
     = Some CleanExit"
  using supervisor_ends [of default_supervisor "[NoStart True, Exited False False Second True, Exited True False Hour True, Cancelled]"]
  by (simp add: cap_ok_def default_supervisor_def duration_defs)

text \<open>
  C39. Once a launcher holds the lock of the data directory, its pid is in the file and no other launcher is
  past reading it, no schedule of the other launchers makes any of them hold the lock until it
  is released, whatever creations, writes and removals fail, provided no launcher fails to read the lock file
  (which the code takes for a stale lock).
\<close>

theorem lock_exclusive:
  assumes "settled alive h s" and "\<forall>op\<in>set ops. \<not> releases h op" and "readable alive ops s"
  shows "holds (fold (lock_step alive) ops s) p \<longleftrightarrow> p = h"
  using settled_exclusive [OF settled_run [OF assms]] .

theorem lock_exclusive_witness:
  "\<forall>p. holds (fold (lock_step (\<lambda>_. True)) [Go 2 False, Go 2 False, Go 2 False, Go 3 True] held_start) p \<longleftrightarrow> p = 1"
proof -
  have s: "settled (\<lambda>_. True) 1 held_start"
    by (simp add: held_start_def race_start_def settled_def processAlive_def in_i64_def)
  have "readable (\<lambda>_. True) [Go 2 False, Go 2 False, Go 2 False, Go 3 True] held_start"
    using readPid_settled [OF s]
    by (simp add: held_start_def race_start_def acquire_step_def goto_def readPid_def processAlive_def)
  from lock_exclusive [OF s _ this] show ?thesis by (simp add: releases_def)
qed

text \<open>
  The safety code of two keys does not depend on who computes it, and unless SHA-256 collides on the
  two messages hashed, two pairs of keys have the same code exactly when they are the same pair.
\<close>

lemma safety_code_binds:
  assumes "length a = 32" "length b = 32" "length c = 32" "length d = 32"
    and "sha256 (safety_message a b) = sha256 (safety_message c d) \<longrightarrow> safety_message a b = safety_message c d"
  shows "ComputeSafetyCode sha256 a b = ComputeSafetyCode sha256 b a \<and>
    (ComputeSafetyCode sha256 a b = ComputeSafetyCode sha256 c d \<longleftrightarrow> {a, b} = {c, d})"
proof -
  have "ComputeSafetyCode sha256 x y = ComputeSafetyCode sha256 u v \<longleftrightarrow> sha256 (safety_message x y) = sha256 (safety_message u v)"
    if "length x = 32" "length y = 32" "length u = 32" "length v = 32" for x y u v
    using that by (auto simp: ComputeSafetyCode_def PublicKeyLength_def Let_def)
  with assms safety_message_swap [of a b] safety_message_inj [OF assms(1-4)] show ?thesis by metis
qed

lemma safety_code_binds_witness:
  "ComputeSafetyCode id (replicate 32 1) (replicate 32 2) = ComputeSafetyCode id (replicate 32 2) (replicate 32 1) \<and>
   ComputeSafetyCode id (replicate 32 1) (replicate 32 2) \<noteq> ComputeSafetyCode id (replicate 32 1) (replicate 32 3)"
proof -
  have "{replicate 32 1, replicate 32 2 :: bytes} \<noteq> {replicate 32 1, replicate 32 3}"
    by (simp add: doubleton_eq_iff replicate_eq_replicate)
  moreover have "id (safety_message a b) = id (safety_message c d) \<longrightarrow> safety_message a b = safety_message c d" for a b c d
    by simp
  ultimately show ?thesis
    using safety_code_binds [OF length_replicate length_replicate length_replicate length_replicate] by blast
qed

text \<open>
  C23. A push subscription disappears in a notification fan-out only when its own channel reported it dead
  in this delivery: Web Push with 404 or 410, FCM with 404, the status NOT_FOUND or a detail UNREGISTERED.
\<close>

theorem only_dead_pruned:
  assumes "db_ok (w_db w)" and "faults (w_db w) = []"
    and "handleNotify_channels net cfg client (Inr payload) m w = (Inr res, w')"
    and "p \<in> set (push_subscriptions (w_db w))" and "p \<notin> set (push_subscriptions (w_db w'))"
  shows "reported_dead net cfg client payload p"
proof -
  have "distinct (map Push_ID (push_subscriptions (w_db w)))" using db_okD(10) [OF assms(1)] by (simp add: push_ok_def)
  with assms(2-5) show ?thesis by (rule pruned_was_dead)
qed

definition demo_client :: fcm_client where
  "demo_client = \<lparr>projectID = ''p'', baseURL = DefaultBaseURL\<rparr>"

lemma demo_notify:
  "handleNotify_channels demo_net cfg (Some demo_client) (Inr (encodeBlob [1])) (demo_member 1 ''owner'') demo_world =
     (Inr (200, 0, 1), demo_world\<lparr>w_db := demo_db\<lparr>push_subscriptions := []\<rparr>\<rparr>)"
proof -
  let ?out = "channel_outcome demo_net cfg (Some demo_client) (encodeBlob [1])"
  have b: "decodeBlob (encodeBlob [1]) maxNotifyBytes = Inr [1]" "\<not> length (encodeBlob [1]) > maxPushPlaintextBytes"
    by code_simp+
  have l: "ListCirclePushSubscriptions 31 1 demo_db = (Inr [demo_push], demo_db)"
    by (simp add: ListCirclePushSubscriptions_def demo_db_def demo_push_def demo_member_def muted_by_def empty_db_def)
  have d: "deliverable (push_config_of cfg (Some demo_client)) [demo_push] = [demo_push]"
    by (simp add: deliverable_def push_config_of_def demo_push_def)
  have "?out demo_push = PushGone"
    by (simp add: channel_outcome_def demo_push_def sendFCM_def Send_def Let_def demo_net_def isUnregistered_def)
  then have f: "fanOutPush ?out [demo_push] demo_db = (Inr (0, 1), demo_db\<lparr>push_subscriptions := []\<rparr>)"
    using fanOutPush_run [OF demo_db_faults, of ?out "[demo_push]"] by (simp add: gone_ids_def demo_db_def)
  have c: "push_fcm (push_config_of cfg (Some demo_client))" by (simp add: push_config_of_def)
  show ?thesis unfolding handleNotify_channels_def
    by (simp add: handleNotify_def decoded_def blob_def b c call_def tryq_def on_db_def l d f respond_def ret_def
        demo_world_def demo_member_def del: fanOutPush.simps)
qed

theorem only_dead_pruned_witness:
  "\<forall>cfg. reported_dead demo_net cfg (Some demo_client) (encodeBlob [1]) demo_push"
proof
  fix cfg
  have "db_ok (w_db demo_world)" "faults (w_db demo_world) = []" by (simp_all add: demo_world_def demo_db_ok)
  moreover have "demo_push \<in> set (push_subscriptions (w_db demo_world))" by (simp add: demo_world_def demo_db_def)
  ultimately show "reported_dead demo_net cfg (Some demo_client) (encodeBlob [1]) demo_push"
    using only_dead_pruned [OF _ _ demo_notify] by simp
qed

text \<open>
  A published release satisfies what the command promises (a known platform, a version code in the
  range of the column, a digest of 64 hex characters whenever there is a download), and when no
  release of that platform has a higher code it is the one clients are offered from then on.
\<close>

lemma published_offered:
  assumes "db_ok d" and "faults d = []"
    and "runPublishVersion lib opens getenv now i args d = (Inr v, d')"
    and "\<forall>x\<in>set (app_versions d). Version_Platform x = Version_Platform v \<longrightarrow> Version_VersionCode x \<le> Version_VersionCode v"
  shows "\<exists>p. parsePublishFlags lib args = Inr p \<and> publishable p \<and> version_key v = (up_Platform p, up_VersionCode p) \<and>
      Version_Sha256 v = up_Sha256 p \<and> Version_ApkUrl v = up_ApkUrl p \<and> Version_MinSupported v = up_MinSupported p \<and>
      handleVersionLatest (Version_Platform v) \<lparr>w_db = d', w_hub = h\<rparr> = (Inr (200, v), \<lparr>w_db = d', w_hub = h\<rparr>)"
  using assms by (rule published_is_offered)

definition demo_release :: "string list" where
  "demo_release = [''--platform=android'', ''-version-code'', ''42'', ''--version-name=1.4.2'']"

lemma published_offered_witness:
  "\<exists>v d'. runPublishVersion demo_lib (\<lambda>_ _. True) (\<lambda>k. if k = ''DATABASE_URL'' then ''sqlite:/d/aul.db'' else []) Second 200
      demo_release demo_db = (Inr v, d') \<and> Version_VersionCode v = 42 \<and>
    fst (handleVersionLatest ''android'' \<lparr>w_db = d', w_hub = NewHub\<rparr>) = Inr (200, v)"
proof -
  let ?env = "\<lambda>k. if k = ''DATABASE_URL'' then ''sqlite:/d/aul.db'' else []"
  let ?run = "runPublishVersion demo_lib (\<lambda>_ _. True) ?env Second 200 demo_release demo_db"
  have "case fst ?run of Inl _ \<Rightarrow> False | Inr v \<Rightarrow> Version_VersionCode v = 42 \<and> Version_Platform v = ''android''"
    by code_simp
  then obtain v d' where r: "?run = (Inr v, d')" and v: "Version_VersionCode v = 42" "Version_Platform v = ''android''"
    by (cases ?run) (auto split: sum.splits)
  have "\<forall>x\<in>set (app_versions demo_db). Version_Platform x = Version_Platform v \<longrightarrow> Version_VersionCode x \<le> Version_VersionCode v"
    by (simp add: demo_db_def empty_db_def)
  from published_offered [OF demo_db_ok demo_db_faults r this, of NewHub] r v show ?thesis by auto
qed

text \<open>
  C40. Whatever method and path a request has, the static handler serves only regular files of the web tree
  under a path without empty, . or .. elements, or files directly in the APK directory; pages are
  never marked immutable.
\<close>

theorem static_below: "stays_below h (ServeHTTP mime h method path)"
  by (rule ServeHTTP_below)

end
